(* ===== verification/Prelude.thy ===== *)
theory Prelude
  imports Complex_Main "HOL-Library.Product_Lexorder"
begin

text \<open>
  Shared vocabulary of the development: the API's error values (\<^verbatim>\<open>apps/api/src/utils.ts\<close>),
  the result type of every fallible service function, the transaction wrapper of
  \<^verbatim>\<open>apps/api/src/db.ts\<close>, the rounding helpers that each service repeats, and the generic
  lemmas on lists, sums and rounding that the component theories use.

  Numbers. Monetary amounts and quantities are \<open>NUMERIC\<close> columns that the TypeScript code
  reads into IEEE doubles. The development computes with exact rationals (\<open>rat\<close>): every
  theorem is about the code's arithmetic without the representation error of a double.
  Dates of \<open>DATE\<close> columns are day numbers (\<open>int\<close>, days since 1970-01-01); instants are
  milliseconds since the epoch (\<open>int\<close>), as JavaScript's \<open>Date\<close> keeps them. Database ids
  are natural numbers.
\<close>

named_theorems rat_eval "rules that evaluate floors of closed rational terms"
named_theorems result_simps "unfolding rules for the result type"

type_synonym amount = rat
type_synonym date = int
type_synonym instant = int
type_synonym row_id = nat

subsection \<open>Errors (utils.ts)\<close>

datatype api_error =
    BadRequest string
  | Unauthorized string
  | Forbidden string
  | NotFound string
  | Conflict string
  | Internal string

text \<open>
  The first five are the constructors of \<open>utils.ts\<close>; \<open>Internal\<close> stands for an error that
  no service raises on purpose (a \<open>TypeError\<close>), which the error handler answers with 500.
\<close>

primrec error_status :: "api_error \<Rightarrow> nat" where
  "error_status (BadRequest _) = 400"
| "error_status (Unauthorized _) = 401"
| "error_status (Forbidden _) = 403"
| "error_status (NotFound _) = 404"
| "error_status (Conflict _) = 409"
| "error_status (Internal _) = 500"

primrec error_code :: "api_error \<Rightarrow> string" where
  "error_code (BadRequest _) = ''BAD_REQUEST''"
| "error_code (Unauthorized _) = ''UNAUTHORIZED''"
| "error_code (Forbidden _) = ''FORBIDDEN''"
| "error_code (NotFound _) = ''NOT_FOUND''"
| "error_code (Conflict _) = ''CONFLICT''"
| "error_code (Internal _) = ''INTERNAL_ERROR''"

type_synonym 'a result = "api_error + 'a"

definition rbind :: "'a result \<Rightarrow> ('a \<Rightarrow> 'b result) \<Rightarrow> 'b result" where
  "rbind m f = (case m of Inl e \<Rightarrow> Inl e | Inr x \<Rightarrow> f x)"

lemma rbind_simps [simp]:
  "rbind (Inl e) f = Inl e"
  "rbind (Inr x) f = f x"
  by (simp_all add: rbind_def)

lemma rbind_Inr_iff [result_simps]:
  "rbind m f = Inr y \<longleftrightarrow> (\<exists>x. m = Inr x \<and> f x = Inr y)"
  by (cases m) simp_all

lemma rbind_Inl_iff [result_simps]:
  "rbind m f = Inl e \<longleftrightarrow> m = Inl e \<or> (\<exists>x. m = Inr x \<and> f x = Inl e)"
  by (cases m) auto

lemma rbind_InrE [elim!]:
  assumes "rbind m f = Inr y"
  obtains x where "m = Inr x" and "f x = Inr y"
  using assms by (cases m) auto

lemma if_Inl_Inr_iff [result_simps]:
  "(if b then Inl e else m) = Inr y \<longleftrightarrow> \<not> b \<and> m = Inr y"
  by simp

definition require :: "bool \<Rightarrow> api_error \<Rightarrow> unit result" where
  "require b e = (if b then Inr () else Inl e)"

lemma require_iff [simp]:
  "require b e = Inr u \<longleftrightarrow> b"
  "require b e = Inl e' \<longleftrightarrow> \<not> b \<and> e' = e"
  by (auto simp: require_def)

fun traverse :: "('a \<Rightarrow> 'b result) \<Rightarrow> 'a list \<Rightarrow> 'b list result" where
  "traverse f [] = Inr []"
| "traverse f (x # xs) = rbind (f x) (\<lambda>y. rbind (traverse f xs) (\<lambda>ys. Inr (y # ys)))"

lemma traverse_Inr_all: "(\<And>x. x \<in> set xs \<Longrightarrow> f x = Inr (g x)) \<Longrightarrow> traverse f xs = Inr (map g xs)"
  by (induction xs) auto

lemma traverse_Inr_iff: "traverse f xs = Inr ys \<longleftrightarrow> list_all2 (\<lambda>x y. f x = Inr y) xs ys"
  by (induction xs arbitrary: ys) (auto simp: rbind_Inr_iff list_all2_Cons1)

subsection \<open>Transactions (db.ts)\<close>

text \<open>
  \<open>withTransaction\<close> runs an action between \<open>BEGIN\<close> and \<open>COMMIT\<close>; a thrown error rolls
  the connection back and is rethrown. The action is a function of the database state.
\<close>

definition with_transaction :: "('s \<Rightarrow> ('a \<times> 's) result) \<Rightarrow> 's \<Rightarrow> 'a result \<times> 's" where
  "with_transaction action s =
     (case action s of
        Inl e \<Rightarrow> (Inl e, s)
      | Inr (x, s') \<Rightarrow> (Inr x, s'))"

lemma with_transaction_error:
  "action s = Inl e \<Longrightarrow> with_transaction action s = (Inl e, s)"
  by (simp add: with_transaction_def)

lemma with_transaction_ok:
  "action s = Inr (x, s') \<Longrightarrow> with_transaction action s = (Inr x, s')"
  by (simp add: with_transaction_def)

subsection \<open>The request context (db.ts)\<close>

record ctx =
  cx_tenant :: "row_id option"
  cx_company :: "row_id option"
  cx_branch :: "row_id option"
  cx_user :: "row_id option"

text \<open>SQL equality: a comparison with \<open>NULL\<close> is not true.\<close>

definition sql_eq :: "'a option \<Rightarrow> 'a option \<Rightarrow> bool" where
  "sql_eq a b \<longleftrightarrow> a \<noteq> None \<and> a = b"

lemma sql_eq_Some [simp]: "sql_eq (Some x) b \<longleftrightarrow> b = Some x" "sql_eq a (Some x) \<longleftrightarrow> a = Some x"
  "\<not> sql_eq None b" "\<not> sql_eq a None"
  by (auto simp: sql_eq_def)

subsection \<open>Rounding\<close>

text \<open>\<open>Math.round\<close> rounds halves towards plus infinity.\<close>

definition js_round :: "rat \<Rightarrow> int" where
  "js_round x = \<lfloor>x + 1 / 2\<rfloor>"

definition round_to :: "rat \<Rightarrow> rat \<Rightarrow> rat" where
  "round_to k x = of_int (js_round (x * k)) / k"

abbreviation round2 :: "rat \<Rightarrow> rat" where
  "round2 \<equiv> round_to 100"

abbreviation round4 :: "rat \<Rightarrow> rat" where
  "round4 \<equiv> round_to 10000"

lemma floor_rat_eval [rat_eval]:
  "\<lfloor>numeral a / numeral b :: rat\<rfloor> = numeral a div numeral b"
  "\<lfloor>- (numeral a / numeral b) :: rat\<rfloor> = (- numeral a) div numeral b"
  "\<lfloor>- numeral a / numeral b :: rat\<rfloor> = (- numeral a) div numeral b"
  "\<lfloor>1 / numeral b :: rat\<rfloor> = 1 div numeral b"
  "\<lfloor>- (1 / numeral b) :: rat\<rfloor> = (- 1) div numeral b"
  using floor_divide_of_int_eq [where 'a = rat, of "numeral a" "numeral b"]
    floor_divide_of_int_eq [where 'a = rat, of "- numeral a" "numeral b"]
    floor_divide_of_int_eq [where 'a = rat, of 1 "numeral b"]
    floor_divide_of_int_eq [where 'a = rat, of "- 1" "numeral b"]
  by simp_all

lemmas round_eval = round_to_def js_round_def rat_eval

lemma js_round_mono: "x \<le> y \<Longrightarrow> js_round x \<le> js_round y"
  unfolding js_round_def by (intro floor_mono) simp

lemma js_round_of_int [simp]: "js_round (of_int n) = n"
proof -
  have "\<lfloor>of_int n + (1 / 2 :: rat)\<rfloor> = n"
    by (rule floor_unique) simp_all
  then show ?thesis by (simp add: js_round_def)
qed

lemma js_round_0 [simp]: "js_round 0 = 0"
  using js_round_of_int [of 0] by simp

lemma js_round_nonneg: "0 \<le> x \<Longrightarrow> 0 \<le> js_round x"
  using js_round_mono [of 0 x] by simp

lemma js_round_bounds: "x - 1 / 2 < of_int (js_round x)" "of_int (js_round x) \<le> x + 1 / 2"
  unfolding js_round_def by linarith+

text \<open>
  Every service rounds with one of the two instances, and uses only the laws below, which
  hold at any positive scale: the rounded value is a grid point, rounding is monotone and
  keeps grid points, and it moves a value by at most half a unit.
\<close>

locale rounding =
  fixes rnd :: "rat \<Rightarrow> rat" and ulp :: rat
  assumes ulp_pos: "0 < ulp"
    and rnd_mono: "x \<le> y \<Longrightarrow> rnd x \<le> rnd y"
    and rnd_zero: "rnd 0 = 0"
    and rnd_idem: "rnd (rnd x) = rnd x"
    and rnd_near: "\<bar>rnd x - x\<bar> \<le> ulp / 2"
    and rnd_add_fixed: "rnd x = x \<Longrightarrow> rnd y = y \<Longrightarrow> rnd (x + y) = x + y"
    and rnd_minus_fixed: "rnd x = x \<Longrightarrow> rnd (- x) = - x"
begin

text \<open>The fixed points of a rounding are closed under the sums that the services form.\<close>

lemma rnd_diff_fixed: "rnd x = x \<Longrightarrow> rnd y = y \<Longrightarrow> rnd (x - y) = x - y"
  using rnd_add_fixed [of x "- y"] rnd_minus_fixed [of y] by simp

lemma rnd_sum_fixed: "(\<And>x. x \<in> set xs \<Longrightarrow> rnd (f x) = f x) \<Longrightarrow> rnd (\<Sum>x\<leftarrow>xs. f x) = (\<Sum>x\<leftarrow>xs. f x)"
  by (induction xs) (auto simp: rnd_zero intro!: rnd_add_fixed)

lemma rnd_min_fixed: "rnd x = x \<Longrightarrow> rnd y = y \<Longrightarrow> rnd (min x y) = min x y"
  by (simp add: min_def)

lemma rnd_max_fixed: "rnd x = x \<Longrightarrow> rnd y = y \<Longrightarrow> rnd (max x y) = max x y"
  by (simp add: max_def)

lemma rnd_nonneg: "0 \<le> x \<Longrightarrow> 0 \<le> rnd x"
  using rnd_mono [of 0 x] by (simp add: rnd_zero)

lemma rnd_nonpos: "x \<le> 0 \<Longrightarrow> rnd x \<le> 0"
  using rnd_mono [of x 0] by (simp add: rnd_zero)

lemma rnd_le_fixed: "x \<le> y \<Longrightarrow> rnd y = y \<Longrightarrow> rnd x \<le> y"
  using rnd_mono by metis

lemma rnd_ge_fixed: "y \<le> x \<Longrightarrow> rnd y = y \<Longrightarrow> y \<le> rnd x"
  using rnd_mono by metis

lemma rnd_upper: "rnd x \<le> x + ulp / 2"
  using abs_le_D1 [OF rnd_near [of x]] by linarith

lemma rnd_lower: "x - ulp / 2 \<le> rnd x"
  using abs_le_D2 [OF rnd_near [of x]] by linarith

lemma rnd_sum_error: "\<bar>(\<Sum>x\<leftarrow>xs. rnd (f x)) - (\<Sum>x\<leftarrow>xs. f x)\<bar> \<le> of_nat (length xs) * (ulp / 2)"
proof (induction xs)
  case Nil
  show ?case by simp
next
  case (Cons x xs)
  have "(\<Sum>y\<leftarrow>x # xs. rnd (f y)) - (\<Sum>y\<leftarrow>x # xs. f y) =
      (rnd (f x) - f x) + ((\<Sum>x\<leftarrow>xs. rnd (f x)) - (\<Sum>x\<leftarrow>xs. f x))"
    by simp
  also have "\<bar>\<dots>\<bar> \<le> \<bar>rnd (f x) - f x\<bar> + \<bar>(\<Sum>x\<leftarrow>xs. rnd (f x)) - (\<Sum>x\<leftarrow>xs. f x)\<bar>"
    by (rule abs_triangle_ineq)
  also have "\<dots> \<le> ulp / 2 + of_nat (length xs) * (ulp / 2)"
    by (intro add_mono rnd_near Cons.IH)
  also have "\<dots> = of_nat (length (x # xs)) * (ulp / 2)"
    by (simp add: algebra_simps)
  finally show ?case .
qed

lemma rnd_diff_error: "\<bar>rnd x - rnd y - (x - y)\<bar> \<le> ulp"
proof -
  have "rnd x - rnd y - (x - y) \<le> ulp"
    using rnd_upper [of x] rnd_lower [of y] by linarith
  moreover have "- (rnd x - rnd y - (x - y)) \<le> ulp"
    using rnd_lower [of x] rnd_upper [of y] by linarith
  ultimately show ?thesis by (simp add: abs_le_iff)
qed

end

lemma rounding_round_to:
  assumes k: "0 < k"
  shows "rounding (round_to k) (1 / k)"
proof
  show "0 < 1 / k" using k by simp
next
  fix x y :: rat
  assume "x \<le> y"
  then show "round_to k x \<le> round_to k y"
    using k by (auto simp: round_to_def intro!: divide_right_mono js_round_mono mult_right_mono)
next
  show "round_to k 0 = 0" by (simp add: round_to_def)
next
  fix x :: rat
  show "round_to k (round_to k x) = round_to k x" using k by (simp add: round_to_def)
next
  fix x :: rat
  have eq: "round_to k x - x = (of_int (js_round (x * k)) - x * k) / k"
    using k by (simp add: round_to_def field_simps)
  have "\<bar>of_int (js_round (x * k)) - x * k\<bar> \<le> 1 / 2"
    using js_round_bounds [of "x * k"] by linarith
  then have "\<bar>of_int (js_round (x * k)) - x * k\<bar> / k \<le> (1 / 2) / k"
    using k by (intro divide_right_mono) simp_all
  then show "\<bar>round_to k x - x\<bar> \<le> 1 / k / 2" using k by (simp add: eq)
next
  fix x y :: rat
  assume "round_to k x = x" "round_to k y = y"
  then have "x * k = of_int (js_round (x * k))" "y * k = of_int (js_round (y * k))"
    using k by (simp_all add: round_to_def field_simps)
  then have "(x + y) * k = of_int (js_round (x * k) + js_round (y * k))"
    by (simp add: algebra_simps)
  then have "js_round ((x + y) * k) = js_round (x * k) + js_round (y * k)"
    by (metis js_round_of_int)
  then have "round_to k (x + y) = round_to k x + round_to k y"
    by (simp add: round_to_def add_divide_distrib)
  then show "round_to k (x + y) = x + y"
    using \<open>round_to k x = x\<close> \<open>round_to k y = y\<close> by simp
next
  fix x :: rat
  assume "round_to k x = x"
  then have "x * k = of_int (js_round (x * k))" using k by (simp add: round_to_def field_simps)
  then have "(- x) * k = of_int (- js_round (x * k))" by simp
  then have "js_round ((- x) * k) = - js_round (x * k)" by (metis js_round_of_int)
  then have "round_to k (- x) = - round_to k x" by (simp add: round_to_def)
  then show "round_to k (- x) = - x" using \<open>round_to k x = x\<close> by simp
qed

interpretation r2: rounding round2 "1 / 100"
  by (rule rounding_round_to) simp

interpretation r4: rounding round4 "1 / 10000"
  by (rule rounding_round_to) simp

lemmas round2_laws [intro] = r2.rnd_nonneg r2.rnd_mono
lemmas round4_laws [intro] = r4.rnd_nonneg r4.rnd_mono

lemma round2_zero [simp]: "round2 0 = 0" by (rule r2.rnd_zero)
lemma round4_zero [simp]: "round4 0 = 0" by (rule r4.rnd_zero)
lemma round2_idem [simp]: "round2 (round2 x) = round2 x" by (rule r2.rnd_idem)
lemma round4_idem [simp]: "round4 (round4 x) = round4 x" by (rule r4.rnd_idem)

subsection \<open>Lists as database tables\<close>

text \<open>
  A table is a list of rows in storage order. \<open>update_where\<close> is \<open>UPDATE .. SET .. WHERE\<close>;
  \<open>exists_where\<close> is a \<open>SELECT 1 .. LIMIT 1\<close> that is tested for a row; \<open>find\<close> is a select
  by primary key.
\<close>

definition update_where :: "('r \<Rightarrow> bool) \<Rightarrow> ('r \<Rightarrow> 'r) \<Rightarrow> 'r list \<Rightarrow> 'r list" where
  "update_where p f rows = map (\<lambda>r. if p r then f r else r) rows"

definition exists_where :: "('r \<Rightarrow> bool) \<Rightarrow> 'r list \<Rightarrow> bool" where
  "exists_where p rows = list_ex p rows"

lemma exists_where_iff [simp]: "exists_where p rows \<longleftrightarrow> (\<exists>r\<in>set rows. p r)"
  by (simp add: exists_where_def list_ex_iff)

lemma length_update_where [simp]: "length (update_where p f rows) = length rows"
  by (simp add: update_where_def)

lemma set_update_where:
  "set (update_where p f rows) = (\<lambda>r. if p r then f r else r) ` set rows"
  by (simp add: update_where_def)

lemma in_update_whereE:
  assumes "r \<in> set (update_where p f rows)"
  obtains "r \<in> set rows" "\<not> p r"
    | r0 where "r0 \<in> set rows" "p r0" "r = f r0"
  using assms by (auto simp: set_update_where split: if_splits)

lemma map_update_where_same:
  "(\<And>r. p r \<Longrightarrow> k (f r) = k r) \<Longrightarrow> map k (update_where p f rows) = map k rows"
  by (induction rows) (auto simp: update_where_def)

text \<open>The \<open>??\<close> operator.\<close>

definition the_default :: "'a \<Rightarrow> 'a option \<Rightarrow> 'a" where
  "the_default d x = (case x of None \<Rightarrow> d | Some y \<Rightarrow> y)"

lemma the_default_simps [simp]: "the_default d None = d" "the_default d (Some y) = y"
  by (simp_all add: the_default_def)

lemma find_Some_iff_mem:
  "find p xs = Some x \<Longrightarrow> x \<in> set xs \<and> p x"
  by (induction xs) (auto split: if_splits)

lemma find_None_iff_mem: "find p xs = None \<longleftrightarrow> (\<forall>x\<in>set xs. \<not> p x)"
  by (induction xs) auto

lemma sum_list_nonneg_rat: "(\<And>x. x \<in> set xs \<Longrightarrow> 0 \<le> f x) \<Longrightarrow> 0 \<le> (\<Sum>x\<leftarrow>xs. (f x :: rat))"
  by (induction xs) auto

lemma sum_list_mono_rat:
  "(\<And>x. x \<in> set xs \<Longrightarrow> f x \<le> g x) \<Longrightarrow> (\<Sum>x\<leftarrow>xs. (f x :: rat)) \<le> (\<Sum>x\<leftarrow>xs. g x)"
  by (induction xs) (auto intro: add_mono)

subsection \<open>First row of an ordered query\<close>

text \<open>
  \<open>ORDER BY key LIMIT 1\<close>: the first row whose key is least. Ties, which SQL leaves open,
  go to the earlier row.
\<close>

definition limit1 :: "('r \<Rightarrow> 'k::linorder) \<Rightarrow> 'r list \<Rightarrow> 'r option" where
  "limit1 key rows = (if rows = [] then None else Some (arg_min_list key rows))"

lemma limit1_None [simp]: "limit1 key rows = None \<longleftrightarrow> rows = []"
  by (simp add: limit1_def)

lemma limit1_Some:
  assumes "limit1 key rows = Some r"
  shows "r \<in> set rows" and "x \<in> set rows \<Longrightarrow> key r \<le> key x"
proof -
  from assms have ne: "rows \<noteq> []" and r: "r = arg_min_list key rows"
    by (auto simp: limit1_def split: if_splits)
  show "r \<in> set rows" using ne r by (simp add: arg_min_list_in)
  have "key r = Min (key ` set rows)" using ne r by (simp add: f_arg_min_list_f)
  then show "x \<in> set rows \<Longrightarrow> key r \<le> key x" by simp
qed

end
