(* ===== verification/Js_Values.thy ===== *)
theory Js_Values
  imports Prelude "HOL-Library.Char_ord" "HOL-Library.Multiset"
begin

text \<open>
  The JavaScript values and conversions the services rely on: numbers with \<open>NaN\<close> and the
  infinities, strings (ASCII, as \<open>string\<close>), the values that \<open>JSON.parse\<close> and the database
  driver produce, \<open>Number()\<close>, \<open>String()\<close>, strict equality and the string methods. This is
  language semantics; the components build on it.
\<close>

named_theorems js_simps "evaluation rules for JavaScript numbers and conversions"

subsection \<open>Numbers\<close>

datatype jsnum = NaN | NegInf | Num rat | PosInf

fun js_neg :: "jsnum \<Rightarrow> jsnum" where
  "js_neg NaN = NaN"
| "js_neg NegInf = PosInf"
| "js_neg (Num a) = Num (- a)"
| "js_neg PosInf = NegInf"

fun js_add :: "jsnum \<Rightarrow> jsnum \<Rightarrow> jsnum" where
  "js_add (Num a) (Num b) = Num (a + b)"
| "js_add NaN _ = NaN"
| "js_add _ NaN = NaN"
| "js_add PosInf NegInf = NaN"
| "js_add NegInf PosInf = NaN"
| "js_add PosInf _ = PosInf"
| "js_add NegInf _ = NegInf"
| "js_add _ PosInf = PosInf"
| "js_add _ NegInf = NegInf"

definition js_sub :: "jsnum \<Rightarrow> jsnum \<Rightarrow> jsnum" where
  "js_sub a b = js_add a (js_neg b)"

fun js_sgn :: "jsnum \<Rightarrow> int" where
  "js_sgn NaN = 0"
| "js_sgn NegInf = -1"
| "js_sgn PosInf = 1"
| "js_sgn (Num a) = (if a > 0 then 1 else if a < 0 then -1 else 0)"

fun js_mul :: "jsnum \<Rightarrow> jsnum \<Rightarrow> jsnum" where
  "js_mul (Num a) (Num b) = Num (a * b)"
| "js_mul NaN _ = NaN"
| "js_mul _ NaN = NaN"
| "js_mul a b =
     (if js_sgn a * js_sgn b = 0 then NaN
      else if js_sgn a * js_sgn b > 0 then PosInf else NegInf)"

text \<open>Division of a number by a non-zero finite constant, the only division of the numeric
  services that can see a non-finite operand.\<close>

definition js_divc :: "jsnum \<Rightarrow> rat \<Rightarrow> jsnum" where
  "js_divc a c = js_mul a (Num (1 / c))"

fun js_lt :: "jsnum \<Rightarrow> jsnum \<Rightarrow> bool" where
  "js_lt (Num a) (Num b) \<longleftrightarrow> a < b"
| "js_lt NaN _ \<longleftrightarrow> False"
| "js_lt _ NaN \<longleftrightarrow> False"
| "js_lt NegInf b \<longleftrightarrow> b \<noteq> NegInf"
| "js_lt PosInf _ \<longleftrightarrow> False"
| "js_lt (Num _) b \<longleftrightarrow> b = PosInf"

fun js_le :: "jsnum \<Rightarrow> jsnum \<Rightarrow> bool" where
  "js_le (Num a) (Num b) \<longleftrightarrow> a \<le> b"
| "js_le NaN _ \<longleftrightarrow> False"
| "js_le _ NaN \<longleftrightarrow> False"
| "js_le NegInf _ \<longleftrightarrow> True"
| "js_le PosInf b \<longleftrightarrow> b = PosInf"
| "js_le (Num _) b \<longleftrightarrow> b = PosInf"

text \<open>\<open>Math.min\<close> and \<open>Math.max\<close> of two numbers: \<open>NaN\<close> is contagious.\<close>

definition js_min :: "jsnum \<Rightarrow> jsnum \<Rightarrow> jsnum" where
  "js_min a b = (if a = NaN \<or> b = NaN then NaN else if js_le a b then a else b)"

definition js_max :: "jsnum \<Rightarrow> jsnum \<Rightarrow> jsnum" where
  "js_max a b = (if a = NaN \<or> b = NaN then NaN else if js_le a b then b else a)"

definition js_round2 :: "jsnum \<Rightarrow> jsnum" where
  "js_round2 a = (case a of Num q \<Rightarrow> Num (round2 q) | _ \<Rightarrow> a)"

text \<open>The idiom \<open>Number(x) || 0\<close>.\<close>

definition js_or0 :: "jsnum \<Rightarrow> jsnum" where
  "js_or0 a = (if a = NaN then Num 0 else a)"

definition js_finite :: "jsnum \<Rightarrow> bool" where
  "js_finite a = (case a of Num _ \<Rightarrow> True | _ \<Rightarrow> False)"

lemma js_num_simps [simp, js_simps]:
  "js_sub (Num a) (Num b) = Num (a - b)"
  "js_min (Num a) (Num b) = Num (min a b)"
  "js_max (Num a) (Num b) = Num (max a b)"
  "js_min (Num a) PosInf = Num a"
  "js_max (Num a) PosInf = PosInf"
  "js_round2 (Num a) = Num (round2 a)"
  "js_round2 NaN = NaN"
  "js_divc (Num a) c = Num (a / c)"
  "js_or0 (Num a) = Num a"
  "js_or0 NaN = Num 0"
  "js_finite (Num a)"
  "\<not> js_finite NaN"
  by (simp_all add: js_sub_def js_min_def js_max_def js_round2_def js_divc_def js_or0_def
      js_finite_def)

lemma js_lt_PosInf_simps [simp, js_simps]: "js_lt PosInf x = False" "js_lt (Num q) PosInf"
  by (cases x) simp_all

lemma js_le_PosInf_simps [simp, js_simps]: "js_le (Num a) PosInf" "\<not> js_le PosInf (Num a)"
  by simp_all

text \<open>
  Numbers as keys of a sort: the order of the extended line, with \<open>NaN\<close> below everything.
  It is the order of the comparisons wherever neither side is \<open>NaN\<close>.
\<close>

definition jsnum_key :: "jsnum \<Rightarrow> nat \<times> rat" where
  "jsnum_key a = (case a of NaN \<Rightarrow> (0, 0) | NegInf \<Rightarrow> (1, 0) | Num q \<Rightarrow> (2, q) | PosInf \<Rightarrow> (3, 0))"

lemma jsnum_key_inject: "jsnum_key a = jsnum_key b \<longleftrightarrow> a = b"
  by (auto simp: jsnum_key_def split: jsnum.splits)

instantiation jsnum :: linorder
begin

definition less_eq_jsnum :: "jsnum \<Rightarrow> jsnum \<Rightarrow> bool" where
  "less_eq_jsnum a b \<longleftrightarrow> jsnum_key a \<le> jsnum_key b"

definition less_jsnum :: "jsnum \<Rightarrow> jsnum \<Rightarrow> bool" where
  "less_jsnum a b \<longleftrightarrow> jsnum_key a < jsnum_key b"

instance
  by standard
    (auto simp: less_eq_jsnum_def less_jsnum_def jsnum_key_inject less_le_not_le
      intro: order_trans antisym iffD1 [OF jsnum_key_inject])

end

lemma jsnum_order_simps [simp]:
  "Num a \<le> Num b \<longleftrightarrow> a \<le> b" "Num a < Num b \<longleftrightarrow> a < b"
  "Num a < PosInf" "Num a \<le> PosInf" "\<not> PosInf < Num a" "\<not> PosInf \<le> Num a"
  by (simp_all add: less_eq_jsnum_def less_jsnum_def jsnum_key_def less_prod_simp less_eq_prod_simp)

lemma js_le_iff: "a \<noteq> NaN \<Longrightarrow> b \<noteq> NaN \<Longrightarrow> js_le a b \<longleftrightarrow> a \<le> b"
  by (cases a; cases b)
    (simp_all add: less_eq_jsnum_def jsnum_key_def less_prod_simp less_eq_prod_simp)

lemma js_sub_negative_iff: "a \<noteq> NaN \<Longrightarrow> b \<noteq> NaN \<Longrightarrow> js_lt (js_sub a b) (Num 0) \<longleftrightarrow> a < b"
  by (cases a; cases b)
    (simp_all add: js_sub_def less_jsnum_def jsnum_key_def less_prod_simp less_eq_prod_simp)

subsection \<open>Strings\<close>

definition char_code :: "char \<Rightarrow> nat" where
  "char_code c = of_char c"

definition is_digit :: "char \<Rightarrow> bool" where
  "is_digit c \<longleftrightarrow> 48 \<le> char_code c \<and> char_code c \<le> 57"

definition is_upper :: "char \<Rightarrow> bool" where
  "is_upper c \<longleftrightarrow> 65 \<le> char_code c \<and> char_code c \<le> 90"

definition is_lower :: "char \<Rightarrow> bool" where
  "is_lower c \<longleftrightarrow> 97 \<le> char_code c \<and> char_code c \<le> 122"

definition is_space :: "char \<Rightarrow> bool" where
  "is_space c \<longleftrightarrow> char_code c = 32 \<or> (9 \<le> char_code c \<and> char_code c \<le> 13)"

definition to_lower :: "char \<Rightarrow> char" where
  "to_lower c = (if is_upper c then char_of (char_code c + 32) else c)"

definition to_upper :: "char \<Rightarrow> char" where
  "to_upper c = (if is_lower c then char_of (char_code c - 32) else c)"

definition js_lower :: "string \<Rightarrow> string" where
  "js_lower s = map to_lower s"

definition js_upper :: "string \<Rightarrow> string" where
  "js_upper s = map to_upper s"

definition js_trim :: "string \<Rightarrow> string" where
  "js_trim s = rev (dropWhile is_space (rev (dropWhile is_space s)))"

fun starts_with :: "string \<Rightarrow> string \<Rightarrow> bool" where
  "starts_with [] _ = True"
| "starts_with (p # ps) [] = False"
| "starts_with (p # ps) (c # cs) = (p = c \<and> starts_with ps cs)"

text \<open>\<open>s.includes(sub)\<close>, which is also a regular expression test for a literal.\<close>

fun str_includes :: "string \<Rightarrow> string \<Rightarrow> bool" where
  "str_includes sub [] = (sub = [])"
| "str_includes sub (c # cs) = (starts_with sub (c # cs) \<or> str_includes sub cs)"

fun js_split :: "char \<Rightarrow> string \<Rightarrow> string list" where
  "js_split sep [] = [[]]"
| "js_split sep (c # cs) =
     (if c = sep then [] # js_split sep cs
      else (case js_split sep cs of [] \<Rightarrow> [[c]] | w # ws \<Rightarrow> (c # w) # ws))"

fun js_join :: "string \<Rightarrow> string list \<Rightarrow> string" where
  "js_join sep [] = []"
| "js_join sep [w] = w"
| "js_join sep (w # v # ws) = w @ sep @ js_join sep (v # ws)"

lemma js_split_nonempty [simp]: "js_split sep s \<noteq> []"
  by (cases s) (auto split: list.splits)

lemma js_join_split: "js_join [sep] (js_split sep s) = s"
proof (induction s)
  case Nil
  show ?case by simp
next
  case (Cons c s)
  obtain w ws where "js_split sep s = w # ws" by (cases "js_split sep s") auto
  with Cons show ?case by (cases ws) auto
qed

subsection \<open>Decimal literals\<close>

definition digit_value :: "char \<Rightarrow> nat" where
  "digit_value c = char_code c - 48"

definition digits_value :: "string \<Rightarrow> nat" where
  "digits_value s = foldl (\<lambda>n c. 10 * n + digit_value c) 0 s"

definition digit_char :: "nat \<Rightarrow> char" where
  "digit_char d = char_of (48 + d)"

fun string_of_nat :: "nat \<Rightarrow> string" where
  "string_of_nat n =
     (if n < 10 then [digit_char n] else string_of_nat (n div 10) @ [digit_char (n mod 10)])"

declare string_of_nat.simps [simp del]

definition string_of_int :: "int \<Rightarrow> string" where
  "string_of_int i = (if i < 0 then ''-'' @ string_of_nat (nat (- i)) else string_of_nat (nat i))"

definition split_sign :: "string \<Rightarrow> bool \<times> string" where
  "split_sign s =
     (case s of
        [] \<Rightarrow> (False, [])
      | c # cs \<Rightarrow> if c = CHR ''-'' then (True, cs) else if c = CHR ''+'' then (False, cs) else (False, s))"

definition exponent_of :: "string \<Rightarrow> int option" where
  "exponent_of s =
     (case s of
        [] \<Rightarrow> Some 0
      | c # cs \<Rightarrow>
          if c = CHR ''e'' \<or> c = CHR ''E''
          then (let (neg, ds) = split_sign cs in
                if ds \<noteq> [] \<and> list_all is_digit ds
                then Some (if neg then - int (digits_value ds) else int (digits_value ds))
                else None)
          else None)"

definition scale10 :: "rat \<Rightarrow> int \<Rightarrow> rat" where
  "scale10 q e = (if e < 0 then q / 10 ^ nat (- e) else q * 10 ^ nat e)"

definition unsigned_decimal :: "string \<Rightarrow> rat option" where
  "unsigned_decimal s =
     (let ip = takeWhile is_digit s; r = dropWhile is_digit s;
          (fp, r') = (case r of
             [] \<Rightarrow> ([], [])
           | c # cs \<Rightarrow> if c = CHR ''.'' then (takeWhile is_digit cs, dropWhile is_digit cs)
                       else ([], r))
      in if ip @ fp = [] then None
         else map_option (\<lambda>e. scale10 (of_nat (digits_value (ip @ fp)) / 10 ^ length fp) e)
                (exponent_of r'))"

text \<open>
  \<open>Number(s)\<close> for a string: white space is trimmed, the empty string is 0. The literals
  with a radix prefix (\<open>0x\<close>, \<open>0o\<close>, \<open>0b\<close>) are not modelled and read as \<open>NaN\<close>.
\<close>

definition number_of_string :: "string \<Rightarrow> jsnum" where
  "number_of_string s0 =
     (let s = js_trim s0; (neg, body) = split_sign s in
      if s = [] then Num 0
      else if body = ''Infinity'' then (if neg then NegInf else PosInf)
      else (case unsigned_decimal body of
              None \<Rightarrow> NaN
            | Some q \<Rightarrow> Num (if neg then - q else q)))"

subsection \<open>Values\<close>

datatype jval =
    JUndef
  | JNull
  | JBool bool
  | JNum rat
  | JStr string
  | JArr "jval list"
  | JObj "(string \<times> jval) list"

definition is_nullish :: "jval \<Rightarrow> bool" where
  "is_nullish v \<longleftrightarrow> v = JUndef \<or> v = JNull"

text \<open>\<open>a ?? b\<close>, reading a property, reading an array element.\<close>

definition coalesce :: "jval \<Rightarrow> jval \<Rightarrow> jval" where
  "coalesce a b = (if is_nullish a then b else a)"

definition obj_get :: "(string \<times> jval) list \<Rightarrow> string \<Rightarrow> jval" where
  "obj_get kvs k = (case map_of kvs k of None \<Rightarrow> JUndef | Some v \<Rightarrow> v)"

fun jget :: "jval \<Rightarrow> string \<Rightarrow> jval" where
  "jget (JObj kvs) k = obj_get kvs k"
| "jget _ k = JUndef"

definition arr_get :: "jval list \<Rightarrow> nat \<Rightarrow> jval" where
  "arr_get xs i = (if i < length xs then xs ! i else JUndef)"

fun is_array :: "jval \<Rightarrow> bool" where
  "is_array (JArr _) = True"
| "is_array _ = False"

fun arr_elems :: "jval \<Rightarrow> jval list" where
  "arr_elems (JArr xs) = xs"
| "arr_elems _ = []"

text \<open>\<open>typeof v === 'object'\<close> holds of \<open>null\<close> too.\<close>

fun typeof_object :: "jval \<Rightarrow> bool" where
  "typeof_object JNull = True"
| "typeof_object (JArr _) = True"
| "typeof_object (JObj _) = True"
| "typeof_object _ = False"

text \<open>
  Strict equality. Arrays and objects compare by reference; the values compared by the code
  come from separately parsed documents, so two of them are never the same reference.
\<close>

fun strict_eq :: "jval \<Rightarrow> jval \<Rightarrow> bool" where
  "strict_eq (JArr _) _ = False"
| "strict_eq (JObj _) _ = False"
| "strict_eq _ (JArr _) = False"
| "strict_eq _ (JObj _) = False"
| "strict_eq a b = (a = b)"

definition js_includes :: "jval list \<Rightarrow> jval \<Rightarrow> bool" where
  "js_includes xs v = list_ex (\<lambda>x. strict_eq x v) xs"

fun to_number :: "jval \<Rightarrow> jsnum" where
  "to_number JUndef = NaN"
| "to_number JNull = Num 0"
| "to_number (JBool b) = Num (if b then 1 else 0)"
| "to_number (JNum q) = Num q"
| "to_number (JStr s) = number_of_string s"
| "to_number (JArr []) = Num 0"
| "to_number (JArr [x]) =
     (case x of
        JUndef \<Rightarrow> Num 0
      | JBool _ \<Rightarrow> NaN
      | JObj _ \<Rightarrow> NaN
      | _ \<Rightarrow> to_number x)"
| "to_number (JArr (_ # _ # _)) = NaN"
| "to_number (JObj _) = NaN"

text \<open>
  \<open>String(q)\<close> of a number with a finite decimal expansion of at most 20 fractional digits
  and below \<open>10^21\<close>; JavaScript's exponent notation for other magnitudes is not modelled.
\<close>

fun frac_digits :: "nat \<Rightarrow> rat \<Rightarrow> string" where
  "frac_digits 0 q = []"
| "frac_digits (Suc n) q =
     (if q = 0 then []
      else (let d = \<lfloor>10 * q\<rfloor> in digit_char (nat d) # frac_digits n (10 * q - of_int d)))"

definition string_of_num :: "rat \<Rightarrow> string" where
  "string_of_num q =
     (let i = \<lfloor>\<bar>q\<bar>\<rfloor>; f = \<bar>q\<bar> - of_int i; ds = frac_digits 20 f in
      (if q < 0 then ''-'' else []) @ string_of_nat (nat i) @ (if ds = [] then [] else ''.'' @ ds))"

fun to_string :: "jval \<Rightarrow> string" where
  "to_string JUndef = ''undefined''"
| "to_string JNull = ''null''"
| "to_string (JBool b) = (if b then ''true'' else ''false'')"
| "to_string (JNum q) = string_of_num q"
| "to_string (JStr s) = s"
| "to_string (JArr xs) =
     js_join '','' (map (\<lambda>x. if x = JUndef \<or> x = JNull then [] else to_string x) xs)"
| "to_string (JObj _) = ''[object Object]''"

definition truthy :: "jval \<Rightarrow> bool" where
  "truthy v = (case v of
     JUndef \<Rightarrow> False | JNull \<Rightarrow> False | JBool b \<Rightarrow> b | JNum q \<Rightarrow> q \<noteq> 0 | JStr s \<Rightarrow> s \<noteq> []
   | JArr _ \<Rightarrow> True | JObj _ \<Rightarrow> True)"

text \<open>\<open>Array.prototype.sort\<close> with a comparator is stable; an answer of \<open>NaN\<close> counts as 0.\<close>

fun js_insert :: "('a \<Rightarrow> 'a \<Rightarrow> jsnum) \<Rightarrow> 'a \<Rightarrow> 'a list \<Rightarrow> 'a list" where
  "js_insert cmp x [] = [x]"
| "js_insert cmp x (y # ys) =
     (if js_lt (cmp y x) (Num 0) then y # js_insert cmp x ys else x # y # ys)"

definition js_sort :: "('a \<Rightarrow> 'a \<Rightarrow> jsnum) \<Rightarrow> 'a list \<Rightarrow> 'a list" where
  "js_sort cmp xs = foldr (js_insert cmp) xs []"

subsection \<open>Laws\<close>

lemma mset_js_insert [simp]: "mset (js_insert cmp x ys) = mset (x # ys)"
  by (induction ys) auto

lemma mset_js_sort [simp]: "mset (js_sort cmp xs) = mset xs"
  by (induction xs) (auto simp: js_sort_def)

lemma set_js_sort [simp]: "set (js_sort cmp xs) = set xs"
  using mset_eq_setD [OF mset_js_sort] .

lemma js_sort_Nil_iff [simp]: "js_sort cmp xs = [] \<longleftrightarrow> xs = []"
  using mset_js_sort [of cmp xs] by (metis mset_zero_iff)

text \<open>With a comparator that agrees with a key the sort is the stable sort by that key.\<close>

lemma js_insert_insort_key:
  assumes "\<And>a b. a \<in> set (x # ys) \<Longrightarrow> b \<in> set (x # ys) \<Longrightarrow> js_lt (cmp a b) (Num 0) = (k a < (k b :: 'k::linorder))"
  shows "js_insert cmp x ys = insort_key k x ys"
  using assms
proof (induction ys)
  case Nil
  show ?case by simp
next
  case (Cons y ys)
  have "js_lt (cmp y x) (Num 0) = (k y < k x)" using Cons.prems by simp
  moreover have "js_insert cmp x ys = insort_key k x ys"
    using Cons.prems by (intro Cons.IH) auto
  ultimately show ?case by auto
qed

lemma js_sort_sort_key:
  assumes "\<And>a b. a \<in> set xs \<Longrightarrow> b \<in> set xs \<Longrightarrow> js_lt (cmp a b) (Num 0) = (k a < (k b :: 'k::linorder))"
  shows "js_sort cmp xs = sort_key k xs"
  using assms
proof (induction xs)
  case Nil
  show ?case by (simp add: js_sort_def)
next
  case (Cons x xs)
  have IH: "foldr (js_insert cmp) xs [] = sort_key k xs"
    using Cons.IH Cons.prems by (simp add: js_sort_def)
  have "js_insert cmp x (sort_key k xs) = insort_key k x (sort_key k xs)"
    by (rule js_insert_insort_key) (use Cons.prems in auto)
  with IH show ?case by (simp add: js_sort_def)
qed

lemma char_code_digit_char: "d < 10 \<Longrightarrow> char_code (digit_char d) = 48 + d"
  by (simp add: char_code_def digit_char_def)

lemma is_digit_digit_char [simp]: "d < 10 \<Longrightarrow> is_digit (digit_char d)"
  by (simp add: is_digit_def char_code_digit_char)

lemma digit_value_digit_char [simp]: "d < 10 \<Longrightarrow> digit_value (digit_char d) = d"
  by (simp add: digit_value_def char_code_digit_char)

lemma digits_value_snoc: "digits_value (s @ [c]) = 10 * digits_value s + digit_value c"
  by (simp add: digits_value_def)

lemma string_of_nat_props:
  "string_of_nat n \<noteq> []" "list_all is_digit (string_of_nat n)" "digits_value (string_of_nat n) = n"
proof (induction n rule: string_of_nat.induct)
  case (1 n)
  {
    case 1
    show ?case by (subst string_of_nat.simps) simp
  next
    case 2
    show ?case using "1.IH"(2) by (subst string_of_nat.simps) (cases "n < 10", auto)
  next
    case 3
    show ?case
    proof (cases "n < 10")
      case True
      then show ?thesis by (subst string_of_nat.simps) (simp add: digits_value_def)
    next
      case False
      then show ?thesis
        using "1.IH"(3) by (subst string_of_nat.simps) (simp add: digits_value_snoc)
    qed
  }
qed

lemma string_of_nat_inject [simp]: "string_of_nat m = string_of_nat n \<longleftrightarrow> m = n"
  by (metis string_of_nat_props(3))

lemma digit_not_space: "is_digit c \<Longrightarrow> \<not> is_space c"
  by (auto simp: is_digit_def is_space_def)

lemma digit_not_sign: "is_digit c \<Longrightarrow> c \<noteq> CHR ''-'' \<and> c \<noteq> CHR ''+'' \<and> c \<noteq> CHR ''I''"
  by (auto simp: is_digit_def char_code_def)

lemma dropWhile_space_digits:
  "list_all is_digit s \<Longrightarrow> dropWhile is_space s = s"
  by (cases s) (auto dest: digit_not_space)

lemma js_trim_digits: "list_all is_digit s \<Longrightarrow> js_trim s = s"
  by (simp add: js_trim_def dropWhile_space_digits list.pred_set)

text \<open>Printing a natural number and reading it back is the identity.\<close>

lemma number_of_string_of_nat [simp]: "number_of_string (string_of_nat n) = Num (of_nat n)"
proof -
  let ?s = "string_of_nat n"
  have dig: "list_all is_digit ?s" and ne: "?s \<noteq> []" by (simp_all add: string_of_nat_props)
  then obtain c cs where s: "?s = c # cs" by (cases ?s) auto
  with dig have c: "is_digit c" by simp
  have sign: "split_sign ?s = (False, ?s)"
    using digit_not_sign [OF c] by (simp add: s split_sign_def)
  have inf: "?s \<noteq> ''Infinity''" using digit_not_sign [OF c] by (auto simp: s)
  have tw: "takeWhile is_digit ?s = ?s" and dw: "dropWhile is_digit ?s = []"
    using dig by (simp_all add: list.pred_set)
  have "unsigned_decimal ?s = Some (of_nat n)"
    unfolding unsigned_decimal_def Let_def tw dw
    using ne by (simp add: exponent_of_def scale10_def string_of_nat_props(3))
  with sign inf ne js_trim_digits [OF dig] show ?thesis
    by (simp add: number_of_string_def)
qed

end
