(* ===== verification/Utils.thy ===== *)
theory Utils
  imports Js_Values
begin

text \<open>
  The pure helpers of \<^verbatim>\<open>apps/api/src/utils.ts\<close>: id comparison across the driver's
  representations, pagination, and the renaming of columns between snake and camel case.
\<close>

subsection \<open>Identifiers\<close>

definition same_id :: "jval \<Rightarrow> jval \<Rightarrow> bool" where
  "same_id a b =
     (if is_nullish a \<or> is_nullish b then False
      else if a = JStr [] \<or> b = JStr [] then False
      else to_string a = to_string b)"

definition id_in :: "jval list option \<Rightarrow> jval \<Rightarrow> bool" where
  "id_in xs i =
     (case xs of
        None \<Rightarrow> False
      | Some vs \<Rightarrow>
          if vs = [] then False
          else if is_nullish i \<or> i = JStr [] then False
          else list_ex (\<lambda>v. \<not> is_nullish v \<and> to_string v = to_string i) vs)"

definition is_numeric_ref :: "jval \<Rightarrow> bool" where
  "is_numeric_ref v =
     (case v of
        JNum q \<Rightarrow> 0 < q
      | JStr s \<Rightarrow> js_trim s \<noteq> [] \<and> list_all is_digit (js_trim s)
      | _ \<Rightarrow> False)"

subsection \<open>Pagination\<close>

record page_window =
  pw_page :: jsnum
  pw_size :: jsnum
  pw_offset :: jsnum

definition or_default :: "jsnum \<Rightarrow> rat \<Rightarrow> jsnum" where
  "or_default n d = (if n = NaN \<or> n = Num 0 then Num d else n)"

definition parse_pagination :: "jval \<Rightarrow> page_window" where
  "parse_pagination q =
     (let page = js_max (Num 1) (or_default (to_number (jget q ''page'')) 1);
          size = js_min (Num 500) (js_max (Num 1) (or_default (to_number (jget q ''pageSize'')) 25))
      in \<lparr>pw_page = page, pw_size = size, pw_offset = js_mul (js_sub page (Num 1)) size\<rparr>)"

subsection \<open>Column names\<close>

fun camel_to_snake :: "string \<Rightarrow> string" where
  "camel_to_snake [] = []"
| "camel_to_snake (c # cs) =
     (if is_upper c then CHR ''_'' # to_lower c # camel_to_snake cs else c # camel_to_snake cs)"

fun snake_to_camel :: "string \<Rightarrow> string" where
  "snake_to_camel (c # d # cs) =
     (if c = CHR ''_'' \<and> is_lower d then to_upper d # snake_to_camel cs
      else c # snake_to_camel (d # cs))"
| "snake_to_camel cs = cs"

text \<open>Assignment \<open>out[k] = v\<close> of an object: an existing key keeps its place.\<close>

fun obj_set :: "string \<Rightarrow> 'v \<Rightarrow> (string \<times> 'v) list \<Rightarrow> (string \<times> 'v) list" where
  "obj_set k v [] = [(k, v)]"
| "obj_set k v ((k', v') # kvs) = (if k' = k then (k, v) # kvs else (k', v') # obj_set k v kvs)"

definition to_camel_row :: "(string \<times> jval) list \<Rightarrow> (string \<times> jval) list" where
  "to_camel_row row = fold (\<lambda>(k, v) out. obj_set (snake_to_camel k) v out) row []"

definition safe_pick :: "(string \<times> jval) list \<Rightarrow> string list \<Rightarrow> (string \<times> jval) list" where
  "safe_pick obj keys =
     fold (\<lambda>k out. if obj_get obj k \<noteq> JUndef then obj_set k (obj_get obj k) out else out) keys []"

subsection \<open>Laws\<close>

lemma char_code_to_lower: "is_upper c \<Longrightarrow> char_code (to_lower c) = char_code c + 32"
  by (simp add: to_lower_def is_upper_def char_code_def)

lemma is_lower_to_lower: "is_upper c \<Longrightarrow> is_lower (to_lower c)"
  using char_code_to_lower [of c] by (simp add: is_lower_def is_upper_def)

lemma to_upper_to_lower: "is_upper c \<Longrightarrow> to_upper (to_lower c) = c"
  using is_lower_to_lower [of c] char_code_to_lower [of c]
  by (simp add: to_upper_def char_code_def)

lemma snake_to_camel_Cons:
  "c \<noteq> CHR ''_'' \<Longrightarrow> snake_to_camel (c # cs) = c # snake_to_camel cs"
  by (cases cs) simp_all

lemma is_upper_not_underscore: "is_upper c \<Longrightarrow> c \<noteq> CHR ''_''"
  by (auto simp: is_upper_def char_code_def)

lemma snake_camel_roundtrip:
  "CHR ''_'' \<notin> set s \<Longrightarrow> snake_to_camel (camel_to_snake s) = s"
  by (induction s) (auto simp: is_lower_to_lower to_upper_to_lower snake_to_camel_Cons)

lemma map_of_obj_set: "map_of (obj_set k v kvs) = (map_of kvs)(k \<mapsto> v)"
  by (induction kvs) auto

lemma keys_obj_set: "fst ` set (obj_set k v kvs) = insert k (fst ` set kvs)"
  by (simp add: dom_map_of_conv_image_fst [symmetric] map_of_obj_set)

lemma distinct_obj_set: "distinct (map fst kvs) \<Longrightarrow> distinct (map fst (obj_set k v kvs))"
  by (induction kvs) (auto simp: keys_obj_set)

lemma frac_digits_zero [simp]: "frac_digits n 0 = []"
  by (cases n) simp_all

lemma string_of_num_of_nat [simp]: "string_of_num (of_nat n) = string_of_nat n"
  by (simp add: string_of_num_def Let_def)

lemma js_max_ge: "x \<noteq> NaN \<Longrightarrow> Num q \<le> js_max (Num q) x \<and> js_max (Num q) x \<noteq> NaN"
  by (auto simp: js_max_def js_le_iff)

lemma js_min_le: "x \<noteq> NaN \<Longrightarrow> js_min (Num q) x \<le> Num q"
  by (auto simp: js_min_def js_le_iff)

lemma js_min_ge: "x \<noteq> NaN \<Longrightarrow> r \<le> q \<Longrightarrow> Num r \<le> x \<Longrightarrow> Num r \<le> js_min (Num q) x"
  by (simp add: js_min_def)

lemma or_default_not_NaN: "or_default n d \<noteq> NaN"
  by (simp add: or_default_def)

lemma parse_pagination_bounds:
  "Num 1 \<le> pw_page (parse_pagination q)"
  "Num 1 \<le> pw_size (parse_pagination q)" "pw_size (parse_pagination q) \<le> Num 500"
  using js_max_ge [OF or_default_not_NaN]
  by (simp_all add: parse_pagination_def Let_def js_min_le js_min_ge)

subsection \<open>Properties\<close>

text \<open>
  Id comparison across representations. A database id compares equal to itself however the
  driver delivered it (JavaScript number or decimal string), differs from every other id in
  every representation, and never equals a missing id.
\<close>

theorem same_id_representation:
  "same_id (JNum (of_nat m)) (JStr (string_of_nat n)) = (m = n)
   \<and> same_id (JStr (string_of_nat n)) (JNum (of_nat m)) = (m = n)
   \<and> same_id (JStr (string_of_nat m)) (JStr (string_of_nat n)) = (m = n)
   \<and> same_id (JNum (of_nat m)) (JNum (of_nat n)) = (m = n)
   \<and> \<not> same_id JNull v \<and> \<not> same_id v JUndef"
  using string_of_nat_props(1) by (auto simp: same_id_def is_nullish_def)

text \<open>
  Column renaming. \<open>snakeToCamel\<close> undoes \<open>camelToSnake\<close> on every name without an
  underscore, so the property names the API exchanges determine the column names.
\<close>

theorem column_name_roundtrip:
  assumes "CHR ''_'' \<notin> set s"
  shows "snake_to_camel (camel_to_snake s) = s"
  using assms by (rule snake_camel_roundtrip)

theorem column_name_roundtrip_witness:
  "snake_to_camel (camel_to_snake ''payrollRunId'') = ''payrollRunId''"
  using column_name_roundtrip [of "''payrollRunId''"] by simp

end
