(* ===== verification/Access_Control.thy ===== *)
theory Access_Control
  imports Utils
begin

text \<open>
  Authorization of a request: \<^verbatim>\<open>apps/api/src/abac.ts\<close> (attribute conditions),
  \<^verbatim>\<open>apps/api/src/middleware/authorize.ts\<close> (permission wildcards, segregation-of-duties rules,
  attribute policies, company scope) and \<^verbatim>\<open>apps/api/src/middleware/moduleAccess.ts\<close>. The rows
  the middleware selects are lists; a call of \<open>next()\<close> is \<open>Inr ()\<close> and a call of \<open>next(err)\<close> is
  \<open>Inl err\<close>.
\<close>

subsection \<open>Attribute conditions (abac.ts)\<close>

type_synonym resolver = "string \<Rightarrow> jval"

definition is_missing :: "jval \<Rightarrow> bool" where
  "is_missing v \<longleftrightarrow> is_nullish v"

definition both_numbers :: "(rat \<Rightarrow> rat \<Rightarrow> bool) \<Rightarrow> jval \<Rightarrow> jval \<Rightarrow> bool" where
  "both_numbers cmp v w = (case (v, w) of (JNum a, JNum b) \<Rightarrow> cmp a b | _ \<Rightarrow> False)"

definition op_holds :: "resolver \<Rightarrow> jval \<Rightarrow> string \<Rightarrow> jval \<Rightarrow> bool" where
  "op_holds ref val opn operand =
     (if opn = ''$in'' then is_array operand \<and> js_includes (arr_elems operand) val
      else if opn = ''$outside'' \<or> opn = ''$not_in''
        then is_array operand \<and> \<not> js_includes (arr_elems operand) val
      else if opn = ''$eq'' then strict_eq val operand
      else if opn = ''$ne'' then \<not> strict_eq val operand
      else if opn = ''$gt'' then both_numbers (>) val operand
      else if opn = ''$gte'' then both_numbers (\<ge>) val operand
      else if opn = ''$lt'' then both_numbers (<) val operand
      else if opn = ''$lte'' then both_numbers (\<le>) val operand
      else if opn = ''$between'' then
        (case (operand, val) of
           (JArr [lo, hi], JNum q) \<Rightarrow> js_le (to_number lo) (Num q) \<and> js_le (Num q) (to_number hi)
         | _ \<Rightarrow> False)
      else if opn = ''$exists''
        then (if operand = JBool True then \<not> is_missing val else is_missing val)
      else if opn = ''$missing''
        then (if operand = JBool True then is_missing val else \<not> is_missing val)
      else if opn = ''$ref'' then strict_eq val (ref (to_string operand))
      else False)"

text \<open>The loop over the operators of a condition object: every one must hold.\<close>

fun ops_hold :: "resolver \<Rightarrow> jval \<Rightarrow> (string \<times> jval) list \<Rightarrow> bool" where
  "ops_hold ref val [] = True"
| "ops_hold ref val ((opn, operand) # ops) =
     (if \<not> op_holds ref val opn operand then False else ops_hold ref val ops)"

definition cond_match :: "jval \<Rightarrow> jval \<Rightarrow> resolver \<Rightarrow> bool" where
  "cond_match cond val ref =
     (case cond of
        JObj ops \<Rightarrow> ops_hold ref val ops
      | JArr xs \<Rightarrow> js_includes xs val
      | _ \<Rightarrow> strict_eq cond val)"

fun attr_matches :: "(string \<times> jval) list \<Rightarrow> (string \<times> jval) list \<Rightarrow> resolver \<Rightarrow> bool" where
  "attr_matches [] source ref = True"
| "attr_matches ((k, cond) # attrs) source ref =
     (if \<not> cond_match cond (obj_get source k) ref then False else attr_matches attrs source ref)"

subsection \<open>Permissions\<close>

definition second_part :: "string list \<Rightarrow> string" where
  "second_part parts = (case parts of _ # r # _ \<Rightarrow> r | _ \<Rightarrow> ''undefined'')"

definition can :: "string list option \<Rightarrow> string \<Rightarrow> bool" where
  "can user permission =
     (case user of
        None \<Rightarrow> False
      | Some perms \<Rightarrow>
          if ''system.admin.all'' \<in> set perms \<or> ''*'' \<in> set perms then True
          else (let parts = js_split CHR ''.'' permission; m = hd parts; r = second_part parts in
                permission \<in> set perms
                \<or> m @ ''.'' @ r @ ''.*'' \<in> set perms
                \<or> m @ ''.*'' \<in> set perms))"

record auth_user =
  au_id :: row_id
  au_tenant :: row_id
  au_company :: "row_id option"
  au_branch :: "row_id option"
  au_department :: "row_id option"
  au_job_title :: "string option"
  au_email :: string
  au_status :: string
  au_mfa_enabled :: bool
  au_mfa_verified :: bool
  au_attributes :: "(string \<times> jval) list"
  au_permissions :: "string list"

record request_ctx =
  rc_tenant :: "row_id option"
  rc_company :: "row_id option"
  rc_ip :: "string option"
  rc_resource :: "(string \<times> jval) list"
  rc_now :: instant
  rc_clock :: "nat \<times> nat"

text \<open>Rows of the tables that the middleware reads.\<close>

record sod_rule =
  so_code :: string
  so_name :: string
  so_tenant :: row_id
  so_active :: bool
  so_primary :: string
  so_conflicting :: string
  so_enforcement :: string

record user_role =
  ur_user :: row_id
  ur_role :: row_id
  ur_company :: "row_id option"
  ur_status :: string
  ur_expires :: "instant option"

record policy =
  po_id :: row_id
  po_code :: string
  po_tenant :: row_id
  po_active :: bool
  po_priority :: int
  po_effect :: string
  po_subject :: "(string \<times> jval) list"
  po_resource :: "(string \<times> jval) list"
  po_environment :: "(string \<times> jval) list"

record auth_db =
  db_sod :: "sod_rule list"
  db_user_roles :: "user_role list"
  db_role_permissions :: "(row_id \<times> string) list"
  db_policies :: "policy list"
  db_modules :: "row_id \<rightharpoonup> jval"

definition role_live :: "instant \<Rightarrow> user_role \<Rightarrow> bool" where
  "role_live now ur \<longleftrightarrow>
     ur_status ur = ''ACTIVE'' \<and> (case ur_expires ur of None \<Rightarrow> True | Some e \<Rightarrow> now < e)"

definition holds_permission :: "auth_db \<Rightarrow> instant \<Rightarrow> row_id \<Rightarrow> string \<Rightarrow> bool" where
  "holds_permission db now uid perm =
     exists_where (\<lambda>ur. ur_user ur = uid \<and> role_live now ur
        \<and> (ur_role ur, perm) \<in> set (db_role_permissions db)) (db_user_roles db)"

definition sod_rows :: "auth_db \<Rightarrow> instant \<Rightarrow> auth_user \<Rightarrow> string \<Rightarrow> sod_rule list" where
  "sod_rows db now u matched =
     filter (\<lambda>r. so_tenant r = au_tenant u \<and> so_active r \<and> so_conflicting r = matched
       \<and> holds_permission db now (au_id u) (so_primary r)) (db_sod db)"

subsection \<open>Policy evaluation\<close>

definition jid :: "row_id \<Rightarrow> jval" where
  "jid i = JNum (of_nat i)"

definition jopt :: "('a \<Rightarrow> jval) \<Rightarrow> 'a option \<Rightarrow> jval" where
  "jopt f x = (case x of None \<Rightarrow> JNull | Some y \<Rightarrow> f y)"

text \<open>In an object literal later entries win; in these lists the first entry of a key wins.\<close>

definition subject_source :: "auth_user \<Rightarrow> (string \<times> jval) list" where
  "subject_source u =
     [(''user_id'', jid (au_id u)), (''id'', jid (au_id u)),
      (''company_id'', jopt jid (au_company u)), (''branch_id'', jopt jid (au_branch u)),
      (''department_id'', jopt jid (au_department u)), (''job_title'', jopt JStr (au_job_title u)),
      (''email'', JStr (au_email u)), (''status'', JStr (au_status u)),
      (''mfa_enabled'', JBool (au_mfa_enabled u))] @ au_attributes u"

definition part_at :: "string list \<Rightarrow> nat \<Rightarrow> jval" where
  "part_at parts i = (if i < length parts then JStr (parts ! i) else JUndef)"

definition resource_source :: "request_ctx \<Rightarrow> string \<Rightarrow> (string \<times> jval) list" where
  "resource_source ctx matched =
     (let parts = js_split CHR ''.'' matched in
      rc_resource ctx @
      [(''module'', part_at parts 0), (''resource'', part_at parts 1),
       (''action'', part_at parts 2), (''permission'', JStr matched)])"

definition pad2 :: "nat \<Rightarrow> string" where
  "pad2 n = (if n < 10 then ''0'' @ string_of_nat n else string_of_nat n)"

definition environment_source :: "auth_user \<Rightarrow> request_ctx \<Rightarrow> (string \<times> jval) list" where
  "environment_source u ctx =
     [(''time_of_day'', JStr (pad2 (fst (rc_clock ctx)) @ '':'' @ pad2 (snd (rc_clock ctx)))),
      (''ip'', jopt JStr (rc_ip ctx)), (''mfa_verified'', JBool (au_mfa_verified u))]"

text \<open>\<open>refValue\<close>: a prefixed path reads its source, a bare name tries the three in order.\<close>

definition ref_value ::
  "(string \<times> jval) list \<Rightarrow> (string \<times> jval) list \<Rightarrow> (string \<times> jval) list \<Rightarrow> resolver" where
  "ref_value subj res env ref =
     (let prefix = takeWhile (\<lambda>c. c \<noteq> CHR ''.'') ref; rest = dropWhile (\<lambda>c. c \<noteq> CHR ''.'') ref;
          bare = coalesce (obj_get res ref) (coalesce (obj_get subj ref) (obj_get env ref))
      in if rest \<noteq> [] \<and> prefix \<noteq> [] then
           (if prefix = ''subject'' then obj_get subj (tl rest)
            else if prefix = ''resource'' then obj_get res (tl rest)
            else if prefix = ''environment'' then obj_get env (tl rest)
            else bare)
         else bare)"

definition unconditional :: "policy \<Rightarrow> bool" where
  "unconditional p \<longleftrightarrow> po_subject p = [] \<and> po_resource p = [] \<and> po_environment p = []"

definition policy_matches ::
  "(string \<times> jval) list \<Rightarrow> (string \<times> jval) list \<Rightarrow> (string \<times> jval) list \<Rightarrow> policy \<Rightarrow> bool" where
  "policy_matches subj res env p =
     (let ref = ref_value subj res env in
      attr_matches (po_subject p) subj ref \<and> attr_matches (po_resource p) res ref
      \<and> attr_matches (po_environment p) env ref)"

fun eval_policies ::
  "(string \<times> jval) list \<Rightarrow> (string \<times> jval) list \<Rightarrow> (string \<times> jval) list \<Rightarrow> policy list \<Rightarrow> unit result" where
  "eval_policies subj res env [] = Inr ()"
| "eval_policies subj res env (p # ps) =
     (if unconditional p \<and> po_effect p = ''deny'' then eval_policies subj res env ps
      else if policy_matches subj res env p
        then (if po_effect p = ''deny''
              then Inl (Forbidden (''Policy '' @ po_code p @ '' denies this action''))
              else Inr ())
        else eval_policies subj res env ps)"

definition active_policies :: "auth_db \<Rightarrow> row_id \<Rightarrow> policy list" where
  "active_policies db tenant =
     sort_key (\<lambda>p. (po_priority p, po_id p))
       (filter (\<lambda>p. po_tenant p = tenant \<and> po_active p) (db_policies db))"

subsection \<open>The middleware\<close>

text \<open>SQL's \<open>ur.company_id <> $2\<close> is not true when the context has no company.\<close>

definition out_of_company_scope :: "auth_db \<Rightarrow> request_ctx \<Rightarrow> auth_user \<Rightarrow> bool" where
  "out_of_company_scope db ctx u =
     (let company = (case rc_company ctx of None \<Rightarrow> au_company u | c \<Rightarrow> c) in
      exists_where (\<lambda>ur. ur_user ur = au_id u
        \<and> (case (ur_company ur, company) of (Some a, Some b) \<Rightarrow> a \<noteq> b | _ \<Rightarrow> False)
        \<and> role_live (rc_now ctx) ur) (db_user_roles db))"

definition require_permission :: "string list \<Rightarrow> auth_db \<Rightarrow> request_ctx \<Rightarrow> auth_user option \<Rightarrow> unit result" where
  "require_permission perms db ctx user =
     (case user of
        None \<Rightarrow> Inl (Unauthorized ''Authentication required'')
      | Some u \<Rightarrow>
          (case find (\<lambda>p. can (Some (au_permissions u)) p) perms of
             None \<Rightarrow> Inl (Forbidden (''Missing permission: '' @ js_join '' or '' perms))
           | Some matched \<Rightarrow>
               if (case sod_rows db (rc_now ctx) u matched of
                     [] \<Rightarrow> False | r # _ \<Rightarrow> so_enforcement r = ''hard'')
               then Inl (Forbidden (''Segregation of duties conflict: ''
                      @ so_name (hd (sod_rows db (rc_now ctx) u matched))))
               else rbind (eval_policies (subject_source u) (resource_source ctx matched)
                             (environment_source u ctx) (active_policies db (au_tenant u)))
                      (\<lambda>_. if out_of_company_scope db ctx u
                           then Inl (Forbidden ''Role scope does not cover this company'')
                           else Inr ())))"

definition require_module :: "string \<Rightarrow> auth_db \<Rightarrow> request_ctx \<Rightarrow> unit result" where
  "require_module m db ctx =
     (let refuse = Inl (Forbidden (''Module '' @ m @ '' is not activated for this organisation'')) in
      case rc_tenant ctx of
        None \<Rightarrow> refuse
      | Some t \<Rightarrow>
          (let modules = (case db_modules db t of Some (JArr xs) \<Rightarrow> xs | _ \<Rightarrow> []) in
           if \<not> js_includes modules (JStr m) then refuse else Inr ()))"

text \<open>\<open>scopeFilter\<close>: the SQL clause of a list query and its bound parameters.\<close>

definition nonzero_id :: "row_id option \<Rightarrow> row_id option" where
  "nonzero_id i = (case i of Some (Suc n) \<Rightarrow> Some (Suc n) | _ \<Rightarrow> None)"

definition scope_filter :: "string \<Rightarrow> auth_user option \<Rightarrow> string \<times> row_id list" where
  "scope_filter alias user =
     (case user of
        None \<Rightarrow> (''1=0'', [])
      | Some u \<Rightarrow>
          (let admin = ''system.admin.all'' \<in> set (au_permissions u) \<or> ''*'' \<in> set (au_permissions u);
               (conds1, params1) = (case nonzero_id (au_company u) of
                  None \<Rightarrow> ([], [])
                | Some c \<Rightarrow> ([alias @ ''.company_id = $1''], [c]));
               (conds, params) = (case nonzero_id (au_branch u) of
                  None \<Rightarrow> (conds1, params1)
                | Some b \<Rightarrow> (conds1 @ [alias @ ''.branch_id = $'' @ string_of_nat (length params1 + 1)],
                             params1 @ [b]))
           in if conds \<noteq> [] then (js_join '' AND '' conds, params)
              else (if admin then ''TRUE'' else ''1=0'', [])))"

subsection \<open>Lemmas\<close>

lemma ops_hold_iff: "ops_hold ref val ops \<longleftrightarrow> (\<forall>(opn, operand)\<in>set ops. op_holds ref val opn operand)"
  by (induction ops) (auto split: if_splits)

lemma attr_matches_iff:
  "attr_matches attrs source ref \<longleftrightarrow> (\<forall>(k, c)\<in>set attrs. cond_match c (obj_get source k) ref)"
  by (induction attrs) (auto split: if_splits)

lemma eval_policies_ignores_unconditional_deny:
  "eval_policies subj res env (filter (\<lambda>p. \<not> (unconditional p \<and> po_effect p = ''deny'')) ps)
   = eval_policies subj res env ps"
  by (induction ps) auto

text \<open>The first policy that is not skipped and matches decides.\<close>

lemma eval_policies_first_match:
  "eval_policies subj res env ps =
     (case find (\<lambda>p. \<not> (unconditional p \<and> po_effect p = ''deny'') \<and> policy_matches subj res env p) ps of
        None \<Rightarrow> Inr ()
      | Some p \<Rightarrow> if po_effect p = ''deny''
                  then Inl (Forbidden (''Policy '' @ po_code p @ '' denies this action'')) else Inr ())"
  by (induction ps) auto

lemma can_mono: "set ps \<subseteq> set qs \<Longrightarrow> can (Some ps) perm \<Longrightarrow> can (Some qs) perm"
  by (auto simp: can_def Let_def split: if_splits)

subsection \<open>Properties\<close>

text \<open>
  A condition object is a conjunction (SEC-002). It holds of a value exactly when each of its
  operators holds on its own; an unknown operator makes the whole condition false.
\<close>

theorem condition_is_conjunction:
  "cond_match (JObj ops) val ref
     = (\<forall>(opn, operand)\<in>set ops. cond_match (JObj [(opn, operand)]) val ref)
   \<and> (cond_match (JObj [(''$gte'', JNum lo), (''$lte'', JNum hi)]) (JNum q) ref = (lo \<le> q \<and> q \<le> hi))
   \<and> cond_match (JObj [(''$regex'', operand)]) val ref = False"
  by (auto simp: cond_match_def ops_hold_iff op_holds_def both_numbers_def)

theorem condition_is_conjunction_witness:
  "\<not> cond_match (JObj [(''$gte'', JNum 100), (''$lte'', JNum 500)]) (JNum 900) (\<lambda>_. JUndef)"
  by (simp add: conjunct1 [OF conjunct2 [OF condition_is_conjunction]])

text \<open>
  C7. What an authorized request has passed. When the middleware lets a request through, the
  user is authenticated and holds one of the required permissions (directly or by wildcard), the
  first matching segregation-of-duties rule is not a hard one, no role of the user is bound to
  another company, and the first active policy that matches and is not an unconditional deny, if
  any, is not a deny.
\<close>

theorem authorized_request:
  assumes "require_permission perms db ctx user = Inr ()"
  shows "\<exists>u matched. user = Some u \<and> matched \<in> set perms \<and> can (Some (au_permissions u)) matched
    \<and> (\<forall>r rs. sod_rows db (rc_now ctx) u matched = r # rs \<longrightarrow> so_enforcement r \<noteq> ''hard'')
    \<and> \<not> out_of_company_scope db ctx u
    \<and> (\<forall>p. find (\<lambda>p. \<not> (unconditional p \<and> po_effect p = ''deny'')
             \<and> policy_matches (subject_source u) (resource_source ctx matched) (environment_source u ctx) p)
           (active_policies db (au_tenant u)) = Some p \<longrightarrow> po_effect p \<noteq> ''deny'')"
proof -
  from assms obtain u where u: "user = Some u" by (auto simp: require_permission_def split: option.splits)
  from assms u obtain m where m: "find (\<lambda>p. can (Some (au_permissions u)) p) perms = Some m"
    by (auto simp: require_permission_def split: option.splits)
  then have "m \<in> set perms \<and> can (Some (au_permissions u)) m" by (rule find_Some_iff_mem)
  with assms u m show ?thesis
    by (intro exI [of _ u] exI [of _ m])
      (auto simp: require_permission_def eval_policies_first_match rbind_Inr_iff
        split: if_splits list.splits)
qed

definition sample_user :: auth_user where
  "sample_user = \<lparr>au_id = 7, au_tenant = 1, au_company = Some 3, au_branch = None, au_department = None,
     au_job_title = None, au_email = ''a@b'', au_status = ''ACTIVE'', au_mfa_enabled = False,
     au_mfa_verified = False, au_attributes = [], au_permissions = [''sales.*'']\<rparr>"

definition sample_request :: request_ctx where
  "sample_request = \<lparr>rc_tenant = Some 1, rc_company = Some 3, rc_ip = None, rc_resource = [],
     rc_now = 0, rc_clock = (9, 30)\<rparr>"

definition sample_auth_db :: auth_db where
  "sample_auth_db = \<lparr>db_sod = [], db_user_roles =
       [\<lparr>ur_user = 7, ur_role = 2, ur_company = Some 3, ur_status = ''ACTIVE'', ur_expires = None\<rparr>],
     db_role_permissions = [(2, ''sales.orders.create'')], db_policies = [], db_modules = Map.empty\<rparr>"

lemma sample_request_passes:
  "require_permission [''sales.orders.create''] sample_auth_db sample_request (Some sample_user) = Inr ()"
  by (simp add: require_permission_def sample_auth_db_def sample_request_def sample_user_def can_def
      sod_rows_def active_policies_def out_of_company_scope_def)

theorem authorized_request_witness:
  "\<exists>u matched. Some sample_user = Some u \<and> matched \<in> set [''sales.orders.create'']
     \<and> can (Some (au_permissions u)) matched"
  using authorized_request [OF sample_request_passes] by blast

text \<open>
  An unconditional deny never decides a request: dropping every policy without conditions
  whose effect is deny leaves the outcome of the policy evaluation unchanged, so a mis-configured
  rule cannot lock the tenant out.
\<close>

theorem unconditional_deny_is_inert:
  "eval_policies subj res env (filter (\<lambda>p. \<not> (unconditional p \<and> po_effect p = ''deny'')) ps)
   = eval_policies subj res env ps"
  by (rule eval_policies_ignores_unconditional_deny)

definition soft_rule :: sod_rule where
  "soft_rule = \<lparr>so_code = ''S'', so_name = ''soft'', so_tenant = 1, so_active = True,
     so_primary = ''sales.orders.create'', so_conflicting = ''sales.orders.approve'', so_enforcement = ''soft''\<rparr>"

definition hard_rule :: sod_rule where
  "hard_rule = soft_rule\<lparr>so_code := ''H'', so_name := ''hard'', so_enforcement := ''hard''\<rparr>"


end
