(* ===== verification/Payroll_Engine.thy ===== *)
theory Payroll_Engine
  imports Js_Values
begin

text \<open>
  The payroll inputs of \<^verbatim>\<open>apps/api/src/services/payrollEngine.ts\<close>: proration of an employment
  inside the pay period, the amount of a pay component, and the loaders that select the approved
  and effective rows of a run. A loader is a function of the table rows; its result map is a
  partial function from employee ids. A date that does not parse is \<open>None\<close>.
\<close>

subsection \<open>Proration\<close>

definition overlap_days :: "date option \<Rightarrow> date option \<Rightarrow> date option \<Rightarrow> date option \<Rightarrow> int" where
  "overlap_days a_start a_end b_start b_end =
     (case (a_start, a_end, b_start, b_end) of
        (Some s1, Some e1, Some s2, Some e2) \<Rightarrow>
          (let s = max s1 s2; e = min e1 e2 in if e < s then 0 else (e - s) + 1)
      | _ \<Rightarrow> 0)"

record proration =
  pr_period_days :: int
  pr_work_days :: int
  pr_unpaid_days :: rat
  pr_payable_days :: rat
  pr_factor :: rat

definition prorate_employment ::
  "date option \<Rightarrow> date option \<Rightarrow> date option \<Rightarrow> date option \<Rightarrow> rat \<Rightarrow> proration" where
  "prorate_employment hire term period_start period_end unpaid =
     (let period_days = overlap_days period_start period_end period_start period_end;
          work_days = (if hire \<noteq> None \<or> term \<noteq> None
             then overlap_days period_start period_end
                    (if hire = None then period_start else hire)
                    (if term = None then period_end else term)
             else period_days);
          capped = min (max 0 unpaid) (of_int work_days);
          payable = max 0 (of_int work_days - capped);
          factor = (if period_days > 0 then payable / of_int period_days else 1)
      in \<lparr>pr_period_days = period_days, pr_work_days = work_days, pr_unpaid_days = capped,
          pr_payable_days = payable, pr_factor = factor\<rparr>)"

definition prorate_basic :: "rat \<Rightarrow> proration \<Rightarrow> rat" where
  "prorate_basic base pr =
     (let work_factor = (if pr_period_days pr > 0
                         then of_int (pr_work_days pr) / of_int (pr_period_days pr) else 1);
          prorated = round2 (max 0 base * work_factor);
          unpaid_deduct = round2 ((max 0 base / 30) * pr_unpaid_days pr)
      in round2 (max 0 (prorated - unpaid_deduct)))"

subsection \<open>Pay components\<close>

datatype component_type = EARNING | DEDUCTION

record payroll_component =
  pc_component :: row_id
  pc_code :: string
  pc_name :: string
  pc_type :: component_type
  pc_category :: string
  pc_taxable :: bool
  pc_benefit_in_kind :: bool
  pc_calculation :: string
  pc_value :: rat

definition resolve_component_amount :: "payroll_component \<Rightarrow> rat \<Rightarrow> rat \<Rightarrow> rat" where
  "resolve_component_amount c prorated_basic factor =
     (let method = js_upper (if pc_calculation c = [] then ''FIXED'' else pc_calculation c) in
      if method = ''PERCENTAGE'' then round2 (prorated_basic * (pc_value c / 100))
      else if method = ''FORMULA'' then 0
      else round2 (pc_value c * factor))"

subsection \<open>Loaders\<close>

text \<open>The scope that every loader's query fixes: tenant, company, staff and period.\<close>

record load_scope =
  ls_ctx :: ctx
  ls_staff :: "row_id list"
  ls_start :: date
  ls_end :: date

definition in_scope :: "load_scope \<Rightarrow> row_id option \<Rightarrow> row_id option \<Rightarrow> row_id \<Rightarrow> bool" where
  "in_scope sc tenant company employee \<longleftrightarrow>
     sql_eq tenant (cx_tenant (ls_ctx sc)) \<and> sql_eq company (cx_company (ls_ctx sc))
     \<and> employee \<in> set (ls_staff sc)"

definition effective_in :: "load_scope \<Rightarrow> date \<Rightarrow> date option \<Rightarrow> bool" where
  "effective_in sc from to \<longleftrightarrow>
     from \<le> ls_end sc \<and> (case to of None \<Rightarrow> True | Some d \<Rightarrow> ls_start sc \<le> d)"

text \<open>\<open>COALESCE(NULLIF(a, 0), b, 0)\<close>.\<close>

definition coalesce_nonzero :: "rat option \<Rightarrow> rat option \<Rightarrow> rat" where
  "coalesce_nonzero a b =
     (case a of Some x \<Rightarrow> if x \<noteq> 0 then x else (case b of Some y \<Rightarrow> y | None \<Rightarrow> 0)
      | None \<Rightarrow> (case b of Some y \<Rightarrow> y | None \<Rightarrow> 0))"

text \<open>\<open>map.get(k) ?? default\<close>, changed and stored back.\<close>

definition upsert :: "'v \<Rightarrow> ('v \<Rightarrow> 'v) \<Rightarrow> row_id \<Rightarrow> (row_id \<rightharpoonup> 'v) \<Rightarrow> (row_id \<rightharpoonup> 'v)" where
  "upsert dflt f k m = m(k \<mapsto> f (case m k of None \<Rightarrow> dflt | Some v \<Rightarrow> v))"

record component_row =
  er_tenant :: "row_id option"
  er_company :: "row_id option"
  er_employee :: row_id
  er_component :: row_id
  er_value :: "rat option"
  er_status :: string
  er_from :: date
  er_to :: "date option"

record component_definition =
  cd_id :: row_id
  cd_code :: string
  cd_name :: string
  cd_type :: string
  cd_category :: "string option"
  cd_taxable :: bool
  cd_benefit_in_kind :: bool
  cd_calculation :: "string option"
  cd_value :: "rat option"
  cd_status :: string

definition component_of :: "component_row \<Rightarrow> component_definition \<Rightarrow> payroll_component" where
  "component_of r d =
     \<lparr>pc_component = er_component r, pc_code = cd_code d, pc_name = cd_name d,
      pc_type = (if cd_type d = ''DEDUCTION'' then DEDUCTION else EARNING),
      pc_category = (case cd_category d of None \<Rightarrow> ''OTHER'' | Some c \<Rightarrow> c),
      pc_taxable = cd_taxable d, pc_benefit_in_kind = cd_benefit_in_kind d,
      pc_calculation = (case cd_calculation d of None \<Rightarrow> ''FIXED'' | Some c \<Rightarrow> c),
      pc_value = coalesce_nonzero (er_value r) (cd_value d)\<rparr>"

definition load_employee_components ::
  "load_scope \<Rightarrow> component_row list \<Rightarrow> component_definition list
     \<Rightarrow> (row_id \<rightharpoonup> payroll_component list)" where
  "load_employee_components sc rows defs =
     (if ls_staff sc = [] then Map.empty
      else fold (\<lambda>(r, d) m. upsert [] (\<lambda>l. l @ [component_of r d]) (er_employee r) m)
             [(r, d). r \<leftarrow> rows, d \<leftarrow> defs, cd_id d = er_component r
               \<and> in_scope sc (er_tenant r) (er_company r) (er_employee r)
               \<and> er_status r = ''ACTIVE'' \<and> cd_status d = ''ACTIVE''
               \<and> effective_in sc (er_from r) (er_to r)]
             Map.empty)"

record pay_line =
  pl_id :: row_id
  pl_code :: string
  pl_name :: string
  pl_amount :: rat
  pl_taxable :: bool
  pl_percentage :: rat

record variable_pay =
  vp_overtime :: rat
  vp_bonuses :: rat
  vp_commissions :: rat
  vp_earnings :: "pay_line list"
  vp_deductions :: "pay_line list"
  vp_benefits_employee :: rat
  vp_benefits_employer :: rat
  vp_benefits_taxable :: rat

definition empty_variable_pay :: variable_pay where
  "empty_variable_pay =
     \<lparr>vp_overtime = 0, vp_bonuses = 0, vp_commissions = 0, vp_earnings = [], vp_deductions = [],
      vp_benefits_employee = 0, vp_benefits_employer = 0, vp_benefits_taxable = 0\<rparr>"

text \<open>
  A row of \<open>overtime_records\<close>, \<open>bonus_records\<close> or \<open>commission_records\<close>. \<open>vr_from\<close> is the date the
  query tests (the overtime date, the approval or creation date, the start of the commission
  period with its creation date as default); \<open>vr_to\<close> is the end of a commission period.
\<close>

record variable_row =
  vr_tenant :: "row_id option"
  vr_company :: "row_id option"
  vr_employee :: row_id
  vr_status :: string
  vr_from :: date
  vr_to :: "date option"
  vr_amount :: "rat option"
  vr_unit_amount :: "rat option"
  vr_hours :: "rat option"

definition overtime_amount :: "variable_row \<Rightarrow> rat" where
  "overtime_amount r =
     coalesce_nonzero (vr_amount r)
       (case (vr_unit_amount r, vr_hours r) of (Some u, Some h) \<Rightarrow> Some (u * h) | _ \<Rightarrow> None)"

definition plain_amount :: "variable_row \<Rightarrow> rat" where
  "plain_amount r = (case vr_amount r of None \<Rightarrow> 0 | Some x \<Rightarrow> x)"

definition approved_between :: "load_scope \<Rightarrow> variable_row \<Rightarrow> bool" where
  "approved_between sc r \<longleftrightarrow>
     in_scope sc (vr_tenant r) (vr_company r) (vr_employee r)
     \<and> vr_status r = ''APPROVED'' \<and> ls_start sc \<le> vr_from r \<and> vr_from r \<le> ls_end sc"

definition approved_effective :: "load_scope \<Rightarrow> variable_row \<Rightarrow> bool" where
  "approved_effective sc r \<longleftrightarrow>
     in_scope sc (vr_tenant r) (vr_company r) (vr_employee r)
     \<and> vr_status r = ''APPROVED'' \<and> effective_in sc (vr_from r) (vr_to r)"

definition add_overtime :: "variable_row \<Rightarrow> (row_id \<rightharpoonup> variable_pay) \<Rightarrow> (row_id \<rightharpoonup> variable_pay)" where
  "add_overtime r = upsert empty_variable_pay
     (\<lambda>v. v\<lparr>vp_overtime := round2 (vp_overtime v + overtime_amount r)\<rparr>) (vr_employee r)"

definition add_bonus :: "variable_row \<Rightarrow> (row_id \<rightharpoonup> variable_pay) \<Rightarrow> (row_id \<rightharpoonup> variable_pay)" where
  "add_bonus r = upsert empty_variable_pay
     (\<lambda>v. v\<lparr>vp_bonuses := round2 (vp_bonuses v + plain_amount r)\<rparr>) (vr_employee r)"

definition add_commission :: "variable_row \<Rightarrow> (row_id \<rightharpoonup> variable_pay) \<Rightarrow> (row_id \<rightharpoonup> variable_pay)" where
  "add_commission r = upsert empty_variable_pay
     (\<lambda>v. v\<lparr>vp_commissions := round2 (vp_commissions v + plain_amount r)\<rparr>) (vr_employee r)"

definition load_variable_pay ::
  "load_scope \<Rightarrow> variable_row list \<Rightarrow> variable_row list \<Rightarrow> variable_row list
     \<Rightarrow> (row_id \<rightharpoonup> variable_pay)" where
  "load_variable_pay sc overtime bonuses commissions =
     (if ls_staff sc = [] then Map.empty
      else fold add_commission (filter (approved_effective sc) commissions)
             (fold add_bonus (filter (approved_between sc) bonuses)
               (fold add_overtime (filter (approved_between sc) overtime) Map.empty)))"

text \<open>
  Rows of \<open>employee_earnings\<close> and \<open>employee_deductions\<close>, with the code and name of the joined
  salary component when there is one.
\<close>

record line_row =
  lr_tenant :: "row_id option"
  lr_company :: "row_id option"
  lr_employee :: row_id
  lr_id :: row_id
  lr_amount :: "rat option"
  lr_percentage :: "rat option"
  lr_taxable :: bool
  lr_component :: "(string \<times> string) option"
  lr_status :: string
  lr_from :: date
  lr_to :: "date option"

definition line_selected :: "load_scope \<Rightarrow> line_row \<Rightarrow> bool" where
  "line_selected sc r \<longleftrightarrow>
     in_scope sc (lr_tenant r) (lr_company r) (lr_employee r)
     \<and> lr_status r = ''APPROVED'' \<and> effective_in sc (lr_from r) (lr_to r)"

definition line_of :: "string \<times> string \<Rightarrow> bool \<Rightarrow> line_row \<Rightarrow> pay_line" where
  "line_of dflt taxable r =
     (let (code, name) = (case lr_component r of None \<Rightarrow> dflt | Some cn \<Rightarrow> cn) in
      \<lparr>pl_id = lr_id r, pl_code = code, pl_name = name,
       pl_amount = (case lr_amount r of None \<Rightarrow> 0 | Some a \<Rightarrow> a), pl_taxable = taxable,
       pl_percentage = (case lr_percentage r of None \<Rightarrow> 0 | Some p \<Rightarrow> p)\<rparr>)"

definition load_earnings_and_deductions ::
  "load_scope \<Rightarrow> line_row list \<Rightarrow> line_row list \<Rightarrow> (row_id \<rightharpoonup> pay_line list \<times> pay_line list)" where
  "load_earnings_and_deductions sc earnings deductions =
     (if ls_staff sc = [] then Map.empty
      else fold (\<lambda>r. upsert ([], []) (\<lambda>(es, ds).
                   (es, ds @ [line_of (''EDDED'', ''Employee deduction'') False r])) (lr_employee r))
             (filter (line_selected sc) deductions)
             (fold (\<lambda>r. upsert ([], []) (\<lambda>(es, ds).
                   (es @ [line_of (''EEARN'', ''Employee earning'') (lr_taxable r) r], ds)) (lr_employee r))
               (filter (line_selected sc) earnings) Map.empty))"

record benefit_row =
  bn_tenant :: "row_id option"
  bn_company :: "row_id option"
  bn_employee :: row_id
  bn_employer_contribution :: "rat option"
  bn_employee_contribution :: "rat option"
  bn_taxable :: bool
  bn_recurrence :: "string option"
  bn_status :: string
  bn_from :: date
  bn_to :: "date option"

record benefit_totals =
  bt_employee :: rat
  bt_employer :: rat
  bt_taxable :: rat

definition add_benefit :: "load_scope \<Rightarrow> benefit_row \<Rightarrow> (row_id \<rightharpoonup> benefit_totals) \<Rightarrow> (row_id \<rightharpoonup> benefit_totals)" where
  "add_benefit sc r m =
     (let recurrence = js_upper (case bn_recurrence r of None \<Rightarrow> ''MONTHLY'' | Some s \<Rightarrow> s);
          in_period = overlap_days (Some (bn_from r)) (Some (bn_from r))
                        (Some (ls_start sc)) (Some (ls_end sc)) > 0;
          ee = (case bn_employee_contribution r of None \<Rightarrow> 0 | Some x \<Rightarrow> x);
          er = (case bn_employer_contribution r of None \<Rightarrow> 0 | Some x \<Rightarrow> x);
          (ee', er') = (if recurrence = ''ANNUAL'' then (ee / 12, er / 12) else (ee, er))
      in if recurrence \<noteq> ''ANNUAL'' \<and> recurrence = ''ONE_TIME'' \<and> \<not> in_period then m
         else upsert \<lparr>bt_employee = 0, bt_employer = 0, bt_taxable = 0\<rparr>
                (\<lambda>v. \<lparr>bt_employee = round2 (bt_employee v + ee'),
                      bt_employer = round2 (bt_employer v + er'),
                      bt_taxable = (if bn_taxable r then round2 (bt_taxable v + er') else bt_taxable v)\<rparr>)
                (bn_employee r) m)"

definition load_employee_benefits :: "load_scope \<Rightarrow> benefit_row list \<Rightarrow> (row_id \<rightharpoonup> benefit_totals)" where
  "load_employee_benefits sc rows =
     (if ls_staff sc = [] then Map.empty
      else fold (add_benefit sc)
             (filter (\<lambda>r. in_scope sc (bn_tenant r) (bn_company r) (bn_employee r)
                 \<and> bn_status r = ''ACTIVE'' \<and> effective_in sc (bn_from r) (bn_to r)) rows)
             Map.empty)"

record salary_row =
  sr_tenant :: "row_id option"
  sr_company :: "row_id option"
  sr_employee :: row_id
  sr_id :: row_id
  sr_basic :: "rat option"
  sr_current :: bool
  sr_from :: date
  sr_to :: "date option"

record effective_salary =
  es_id :: row_id
  es_basic :: rat
  es_from :: date

definition load_effective_salaries :: "load_scope \<Rightarrow> salary_row list \<Rightarrow> (row_id \<rightharpoonup> effective_salary)" where
  "load_effective_salaries sc rows =
     (if ls_staff sc = [] then Map.empty
      else fold (\<lambda>r m. m(sr_employee r \<mapsto>
                   \<lparr>es_id = sr_id r, es_basic = (case sr_basic r of None \<Rightarrow> 0 | Some b \<Rightarrow> b),
                    es_from = sr_from r\<rparr>))
             (filter (\<lambda>r. in_scope sc (sr_tenant r) (sr_company r) (sr_employee r)
                 \<and> sr_current r \<and> effective_in sc (sr_from r) (sr_to r)) rows)
             Map.empty)"

record payroll_tables =
  pt_components :: "component_row list"
  pt_definitions :: "component_definition list"
  pt_overtime :: "variable_row list"
  pt_bonuses :: "variable_row list"
  pt_commissions :: "variable_row list"
  pt_earnings :: "line_row list"
  pt_deductions :: "line_row list"
  pt_benefits :: "benefit_row list"
  pt_salaries :: "salary_row list"

record payroll_inputs =
  pi_components :: "row_id \<rightharpoonup> payroll_component list"
  pi_variable :: "row_id \<rightharpoonup> variable_pay"
  pi_lines :: "row_id \<rightharpoonup> pay_line list \<times> pay_line list"
  pi_benefits :: "row_id \<rightharpoonup> benefit_totals"
  pi_salaries :: "row_id \<rightharpoonup> effective_salary"

definition load_modern_payroll_inputs :: "load_scope \<Rightarrow> payroll_tables \<Rightarrow> payroll_inputs" where
  "load_modern_payroll_inputs sc t =
     \<lparr>pi_components = load_employee_components sc (pt_components t) (pt_definitions t),
      pi_variable = load_variable_pay sc (pt_overtime t) (pt_bonuses t) (pt_commissions t),
      pi_lines = load_earnings_and_deductions sc (pt_earnings t) (pt_deductions t),
      pi_benefits = load_employee_benefits sc (pt_benefits t),
      pi_salaries = load_effective_salaries sc (pt_salaries t)\<rparr>"

subsection \<open>Proration is bounded by the period\<close>

lemma overlap_days_nonneg: "0 \<le> overlap_days a b c d"
  by (auto simp: overlap_days_def Let_def split: option.splits)

lemma overlap_days_le_left: "overlap_days a b c d \<le> overlap_days a b a b"
  by (auto simp: overlap_days_def Let_def split: option.splits)

lemma overlap_days_commute: "overlap_days a b c d = overlap_days c d a b"
  by (auto simp: overlap_days_def Let_def max.commute min.commute split: option.splits)

lemma prorate_work_days:
  "0 \<le> pr_work_days (prorate_employment h t s e u)"
  "pr_work_days (prorate_employment h t s e u) \<le> pr_period_days (prorate_employment h t s e u)"
  by (simp_all add: prorate_employment_def Let_def overlap_days_nonneg overlap_days_le_left)

lemma prorate_unpaid_days:
  "0 \<le> pr_unpaid_days (prorate_employment h t s e u)"
  "pr_unpaid_days (prorate_employment h t s e u) \<le> of_int (pr_work_days (prorate_employment h t s e u))"
  by (simp_all add: prorate_employment_def Let_def overlap_days_nonneg)

lemma prorate_payable_days:
  "pr_payable_days (prorate_employment h t s e u)
     = of_int (pr_work_days (prorate_employment h t s e u)) - pr_unpaid_days (prorate_employment h t s e u)"
  by (simp add: prorate_employment_def Let_def)

lemma prorate_factor:
  "pr_factor (prorate_employment h t s e u) =
     (if pr_period_days (prorate_employment h t s e u) > 0
      then pr_payable_days (prorate_employment h t s e u) / of_int (pr_period_days (prorate_employment h t s e u))
      else 1)"
  by (simp add: prorate_employment_def Let_def)

lemma prorate_factor_bounds:
  "0 \<le> pr_factor (prorate_employment h t s e u)" "pr_factor (prorate_employment h t s e u) \<le> 1"
proof -
  let ?p = "prorate_employment h t s e u"
  have payable: "0 \<le> pr_payable_days ?p" "pr_payable_days ?p \<le> of_int (pr_period_days ?p)"
  proof -
    show "0 \<le> pr_payable_days ?p" using prorate_unpaid_days(2) [of h t s e u] by (simp add: prorate_payable_days)
    have "(of_int (pr_work_days ?p) :: rat) \<le> of_int (pr_period_days ?p)"
      using prorate_work_days(2) by simp
    then show "pr_payable_days ?p \<le> of_int (pr_period_days ?p)"
      using prorate_unpaid_days(1) [of h t s e u] unfolding prorate_payable_days by linarith
  qed
  then show "0 \<le> pr_factor ?p" by (simp add: prorate_factor)
  show "pr_factor ?p \<le> 1" using payable by (simp add: prorate_factor divide_le_eq)
qed

lemma prorate_basic_bounds:
  assumes "pr_work_days pr \<le> pr_period_days pr" and "0 \<le> pr_work_days pr" and "0 \<le> pr_unpaid_days pr"
  shows "0 \<le> prorate_basic base pr" and "prorate_basic base pr \<le> round2 (max 0 base)"
proof -
  define wf :: rat where "wf = (if pr_period_days pr > 0 then of_int (pr_work_days pr) / of_int (pr_period_days pr) else 1)"
  have wf: "wf \<le> 1" using assms by (simp add: wf_def divide_le_eq)
  have "max 0 base * wf \<le> max 0 base" using wf by (simp add: mult_left_le)
  then have *: "round2 (max 0 base * wf) \<le> round2 (max 0 base)" by (rule r2.rnd_mono)
  have "0 \<le> round2 (max 0 base / 30 * pr_unpaid_days pr)" using assms(3) by (intro r2.rnd_nonneg) simp
  with * have "max 0 (round2 (max 0 base * wf) - round2 (max 0 base / 30 * pr_unpaid_days pr)) \<le> round2 (max 0 base)"
    using r2.rnd_nonneg [of "max 0 base"] by simp
  then have "round2 (max 0 (round2 (max 0 base * wf) - round2 (max 0 base / 30 * pr_unpaid_days pr)))
      \<le> round2 (max 0 base)"
    by (rule r2.rnd_le_fixed) simp
  then show "prorate_basic base pr \<le> round2 (max 0 base)"
    by (simp add: prorate_basic_def Let_def wf_def)
  show "0 \<le> prorate_basic base pr" by (simp add: prorate_basic_def Let_def r2.rnd_nonneg)
qed

lemma prorate_basic_grid: "round2 (prorate_basic base pr) = prorate_basic base pr"
  by (simp add: prorate_basic_def Let_def)

subsection \<open>Loader totals\<close>

definition map_total :: "('v \<Rightarrow> rat) \<Rightarrow> (row_id \<rightharpoonup> 'v) \<Rightarrow> row_id \<Rightarrow> rat" where
  "map_total get m k = (case m k of None \<Rightarrow> 0 | Some v \<Rightarrow> get v)"

lemma map_total_empty [simp]: "map_total get Map.empty k = 0"
  by (simp add: map_total_def)

text \<open>
  Every loader folds rows into a map of records and rounds one field after each addition. The
  contract of such a fold: the field of a fresh record is zero and one step adds the row's amount
  and rounds. For amounts that already have two decimals, which is what a \<open>NUMERIC(18,2)\<close> column
  holds, the repeated rounding changes nothing and the field is the exact sum.
\<close>

locale keyed_accumulator =
  fixes dflt :: 'v and put :: "'r \<Rightarrow> 'v \<Rightarrow> 'v" and key :: "'r \<Rightarrow> row_id"
    and get :: "'v \<Rightarrow> rat" and amt :: "'r \<Rightarrow> rat"
  assumes get_dflt: "get dflt = 0"
    and get_put: "get (put r v) = round2 (get v + amt r)"
begin

lemma total_upsert:
  assumes "round2 (amt r) = amt r" and "round2 (map_total get m k) = map_total get m k"
  shows "map_total get (upsert dflt (put r) (key r) m) k
     = map_total get m k + (if key r = k then amt r else 0)"
  using assms r2.rnd_add_fixed [OF assms(2,1)]
  by (auto simp: map_total_def upsert_def get_put get_dflt split: option.splits)

lemma total_fold:
  assumes "\<forall>r\<in>set rows. round2 (amt r) = amt r" and "round2 (map_total get m k) = map_total get m k"
  shows "map_total get (fold (\<lambda>r. upsert dflt (put r) (key r)) rows m) k
     = map_total get m k + (\<Sum>r\<leftarrow>filter (\<lambda>r. key r = k) rows. amt r)"
  using assms
proof (induction rows arbitrary: m)
  case Nil
  then show ?case by simp
next
  case (Cons r rows)
  have step: "map_total get (upsert dflt (put r) (key r) m) k
      = map_total get m k + (if key r = k then amt r else 0)"
    using Cons.prems by (intro total_upsert) simp_all
  moreover have "round2 (map_total get (upsert dflt (put r) (key r) m) k)
      = map_total get (upsert dflt (put r) (key r) m) k"
    unfolding step using Cons.prems by (auto intro: r2.rnd_add_fixed)
  ultimately show ?case using Cons.IH Cons.prems(1) by simp
qed

end

text \<open>A fold that leaves a field alone keeps its total, provided fresh records start at zero.\<close>

lemma map_total_frame:
  assumes "get dflt = 0" and "\<And>r v. get (put r v) = get v"
  shows "map_total get (fold (\<lambda>r. upsert dflt (put r) (key r)) rows m) k = map_total get m k"
  using assms by (induction rows arbitrary: m) (auto simp: map_total_def upsert_def split: option.splits)

interpretation overtime: keyed_accumulator empty_variable_pay
  "\<lambda>r v. v\<lparr>vp_overtime := round2 (vp_overtime v + overtime_amount r)\<rparr>" vr_employee vp_overtime overtime_amount
  by unfold_locales (simp_all add: empty_variable_pay_def)

interpretation bonus: keyed_accumulator empty_variable_pay
  "\<lambda>r v. v\<lparr>vp_bonuses := round2 (vp_bonuses v + plain_amount r)\<rparr>" vr_employee vp_bonuses plain_amount
  by unfold_locales (simp_all add: empty_variable_pay_def)

interpretation commission: keyed_accumulator empty_variable_pay
  "\<lambda>r v. v\<lparr>vp_commissions := round2 (vp_commissions v + plain_amount r)\<rparr>" vr_employee vp_commissions plain_amount
  by unfold_locales (simp_all add: empty_variable_pay_def)

lemmas add_variable_defs = add_overtime_def add_bonus_def add_commission_def

lemma empty_variable_pay_fields [simp]:
  "vp_overtime empty_variable_pay = 0" "vp_bonuses empty_variable_pay = 0"
  "vp_commissions empty_variable_pay = 0"
  by (simp_all add: empty_variable_pay_def)

lemma add_variable_frames [simp]:
  "map_total vp_overtime (fold add_bonus rows m) k = map_total vp_overtime m k"
  "map_total vp_overtime (fold add_commission rows m) k = map_total vp_overtime m k"
  "map_total vp_bonuses (fold add_overtime rows m) k = map_total vp_bonuses m k"
  "map_total vp_bonuses (fold add_commission rows m) k = map_total vp_bonuses m k"
  "map_total vp_commissions (fold add_overtime rows m) k = map_total vp_commissions m k"
  "map_total vp_commissions (fold add_bonus rows m) k = map_total vp_commissions m k"
  unfolding add_variable_defs by (rule map_total_frame; simp)+

lemma add_overtime_total:
  "\<forall>r\<in>set rows. round2 (overtime_amount r) = overtime_amount r \<Longrightarrow>
   map_total vp_overtime (fold add_overtime rows Map.empty) k
     = (\<Sum>r\<leftarrow>filter (\<lambda>r. vr_employee r = k) rows. overtime_amount r)"
  unfolding add_overtime_def using overtime.total_fold [of rows Map.empty k] by simp

lemma add_bonus_total:
  "\<forall>r\<in>set rows. round2 (plain_amount r) = plain_amount r \<Longrightarrow>
   map_total vp_bonuses m k = 0 \<Longrightarrow>
   map_total vp_bonuses (fold add_bonus rows m) k
     = (\<Sum>r\<leftarrow>filter (\<lambda>r. vr_employee r = k) rows. plain_amount r)"
  unfolding add_bonus_def using bonus.total_fold [of rows m k] by simp

lemma add_commission_total:
  "\<forall>r\<in>set rows. round2 (plain_amount r) = plain_amount r \<Longrightarrow>
   map_total vp_commissions m k = 0 \<Longrightarrow>
   map_total vp_commissions (fold add_commission rows m) k
     = (\<Sum>r\<leftarrow>filter (\<lambda>r. vr_employee r = k) rows. plain_amount r)"
  unfolding add_commission_def using commission.total_fold [of rows m k] by simp

subsection \<open>Properties\<close>

text \<open>
  Proration. Whatever the hire, termination and leave data, the worked days lie between zero
  and the days of the period, the payable days are the worked days less the (capped) unpaid days,
  the proration factor lies between 0 and 1, and the prorated basic pay lies between zero and the
  monthly salary.
\<close>

theorem proration_bounded:
  "let p = prorate_employment hire fired period_start period_end unpaid in
     0 \<le> pr_work_days p \<and> pr_work_days p \<le> pr_period_days p
   \<and> pr_payable_days p = of_int (pr_work_days p) - pr_unpaid_days p
   \<and> 0 \<le> pr_factor p \<and> pr_factor p \<le> 1
   \<and> 0 \<le> prorate_basic base p \<and> prorate_basic base p \<le> round2 (max 0 base)"
  by (simp add: Let_def prorate_work_days prorate_payable_days prorate_factor_bounds
      prorate_unpaid_days(1) prorate_basic_bounds)

text \<open>
  Variable pay. For amounts with two decimals, the overtime, bonus and commission totals that
  the run loads for an employee are exactly the sums of that employee's approved rows inside the
  period (for commissions: overlapping it); rows of other employees, other tenants, other periods
  or other statuses add nothing and the rounding after each row loses nothing.
\<close>

theorem variable_pay_totals:
  assumes "ls_staff sc \<noteq> []"
    and "\<forall>r\<in>set ot. round2 (overtime_amount r) = overtime_amount r"
    and "\<forall>r\<in>set bs. round2 (plain_amount r) = plain_amount r"
    and "\<forall>r\<in>set cs. round2 (plain_amount r) = plain_amount r"
  shows "map_total vp_overtime (load_variable_pay sc ot bs cs) k =
      (\<Sum>r\<leftarrow>filter (\<lambda>r. vr_employee r = k) (filter (approved_between sc) ot). overtime_amount r)
    \<and> map_total vp_bonuses (load_variable_pay sc ot bs cs) k =
      (\<Sum>r\<leftarrow>filter (\<lambda>r. vr_employee r = k) (filter (approved_between sc) bs). plain_amount r)
    \<and> map_total vp_commissions (load_variable_pay sc ot bs cs) k =
      (\<Sum>r\<leftarrow>filter (\<lambda>r. vr_employee r = k) (filter (approved_effective sc) cs). plain_amount r)"
  using assms
  by (simp add: load_variable_pay_def add_overtime_total add_bonus_total add_commission_total
      del: filter_filter)

definition sample_scope :: load_scope where
  "sample_scope = \<lparr>ls_ctx = \<lparr>cx_tenant = Some 1, cx_company = Some 2, cx_branch = None, cx_user = Some 9\<rparr>,
     ls_staff = [5, 6], ls_start = 100, ls_end = 130\<rparr>"

definition sample_overtime :: "row_id \<Rightarrow> date \<Rightarrow> rat \<Rightarrow> variable_row" where
  "sample_overtime e d h = \<lparr>vr_tenant = Some 1, vr_company = Some 2, vr_employee = e,
     vr_status = ''APPROVED'', vr_from = d, vr_to = None, vr_amount = Some 0,
     vr_unit_amount = Some 5000, vr_hours = Some h\<rparr>"

theorem variable_pay_totals_witness:
  "map_total vp_overtime
     (load_variable_pay sample_scope
        [sample_overtime 5 101 2, sample_overtime 6 102 1, sample_overtime 5 129 3, sample_overtime 5 131 9] [] []) 5
   = 25000"
proof -
  have "\<forall>r\<in>set [sample_overtime 5 101 2, sample_overtime 6 102 1, sample_overtime 5 129 3, sample_overtime 5 131 9].
      round2 (overtime_amount r) = overtime_amount r"
    by (simp add: sample_overtime_def overtime_amount_def coalesce_nonzero_def round_eval)
  from variable_pay_totals [OF _ this, of sample_scope "[]" "[]" 5] show ?thesis
    by (simp add: sample_scope_def sample_overtime_def approved_between_def in_scope_def
        overtime_amount_def coalesce_nonzero_def)
qed

end
