(* ===== verification/Statutory.thy ===== *)
theory Statutory
  imports Js_Values
begin

text \<open>
  Statutory payroll deductions, \<^verbatim>\<open>apps/api/src/services/statutory.ts\<close>: selection of the
  effective configuration, progressive income tax (PAYE), social security (NSSF), local service
  tax (LST) and the secondary-employment tax. All legal values are JSON documents of the
  configuration row (\<open>rates\<close>, \<open>thresholds\<close>, \<open>limits\<close>), read here as \<open>jval\<close>. The functions
  follow the source branch by branch, including what a malformed document does (a \<open>NaN\<close>
  result, a \<open>TypeError\<close>).
\<close>

subsection \<open>The configuration row and its selection\<close>

record statutory_config =
  sc_id :: row_id
  sc_company :: "row_id option"
  sc_tenant :: row_id
  sc_country :: string
  sc_category :: string
  sc_code :: string
  sc_name :: string
  sc_description :: "string option"
  sc_from :: "date option"
  sc_to :: "date option"
  sc_rates :: jval
  sc_thresholds :: jval
  sc_limits :: jval
  sc_formula :: jval
  sc_version :: int
  sc_status :: string

text \<open>
  \<open>opts.companyId\<close> distinguishes \<open>undefined\<close> (outer \<open>None\<close>: take the context's company) from
  \<open>null\<close> (\<open>Some None\<close>: no company).
\<close>

record config_opts =
  co_code :: "string option"
  co_effective :: "date option"
  co_company :: "row_id option option"
  co_country :: "string option"

definition config_matches ::
  "row_id \<Rightarrow> string \<Rightarrow> string \<Rightarrow> string option \<Rightarrow> date \<Rightarrow> row_id option \<Rightarrow> statutory_config \<Rightarrow> bool" where
  "config_matches tenant country category code eff company c \<longleftrightarrow>
     sc_tenant c = tenant \<and> sc_country c = country \<and> sc_category c = category
     \<and> (case code of None \<Rightarrow> True | Some k \<Rightarrow> sc_code c = k)
     \<and> sc_status c = ''ACTIVE''
     \<and> (case sc_from c of None \<Rightarrow> True | Some d \<Rightarrow> d \<le> eff)
     \<and> (case sc_to c of None \<Rightarrow> True | Some d \<Rightarrow> eff \<le> d)
     \<and> (company = None \<or> sc_company c = None \<or> sc_company c = company)"

text \<open>
  The sort key of the query: an exact company first, then tenant-wide rows, then other
  companies' rows (reachable only without a company); \<open>effective_from DESC NULLS LAST\<close>;
  \<open>version DESC\<close>.
\<close>

definition config_rank :: "row_id option \<Rightarrow> statutory_config \<Rightarrow> nat" where
  "config_rank company c =
     (if company \<noteq> None \<and> sc_company c = company then 0
      else if sc_company c = None then 1 else 2)"

definition config_key :: "row_id option \<Rightarrow> statutory_config \<Rightarrow> nat \<times> (nat \<times> int) \<times> int" where
  "config_key company c =
     (config_rank company c,
      (case sc_from c of None \<Rightarrow> (1, 0) | Some d \<Rightarrow> (0, - d)),
      - sc_version c)"

definition get_statutory_config ::
  "statutory_config list \<Rightarrow> row_id \<Rightarrow> row_id option \<Rightarrow> date \<Rightarrow> string \<Rightarrow> config_opts
     \<Rightarrow> statutory_config option" where
  "get_statutory_config rows tenant ctx_company today category opts =
     (let eff = (case co_effective opts of None \<Rightarrow> today | Some d \<Rightarrow> d);
          company = (case co_company opts of None \<Rightarrow> ctx_company | Some c \<Rightarrow> c);
          country = (case co_country opts of None \<Rightarrow> ''UG'' | Some c \<Rightarrow> c)
      in limit1 (config_key company)
           (filter (config_matches tenant country category (co_code opts) eff company) rows))"

definition require_statutory_config ::
  "statutory_config list \<Rightarrow> row_id \<Rightarrow> row_id option \<Rightarrow> date \<Rightarrow> string \<Rightarrow> config_opts
     \<Rightarrow> statutory_config result" where
  "require_statutory_config rows tenant ctx_company today category opts =
     (case get_statutory_config rows tenant ctx_company today category opts of
        None \<Rightarrow> Inl (BadRequest (''No ACTIVE statutory configuration for '' @ category))
      | Some c \<Rightarrow> Inr c)"

subsection \<open>Reading the JSON documents\<close>

text \<open>Reading a property of \<open>null\<close> or \<open>undefined\<close> throws a \<open>TypeError\<close>.\<close>

definition jprop :: "jval \<Rightarrow> string \<Rightarrow> jval result" where
  "jprop v k = (if is_nullish v then Inl (Internal ''TypeError'') else Inr (jget v k))"

definition has_key :: "jval \<Rightarrow> string \<Rightarrow> bool" where
  "has_key v k = (case v of JObj kvs \<Rightarrow> list_ex (\<lambda>(k', _). k' = k) kvs | _ \<Rightarrow> False)"

definition number_prop :: "jval \<Rightarrow> string \<Rightarrow> jsnum" where
  "number_prop v k = to_number (coalesce (jget v k) (JNum 0))"

text \<open>\<open>x != null ? Number(x) : Infinity\<close>, the upper end of a band.\<close>

definition upper_of :: "jval \<Rightarrow> jsnum" where
  "upper_of v = (if is_nullish v then PosInf else to_number v)"

definition limits_of :: "statutory_config \<Rightarrow> jval" where
  "limits_of cfg = coalesce (sc_limits cfg) (JObj [])"

record paye_band =
  pb_min :: jsnum
  pb_max :: "jsnum option"
  pb_rate :: jsnum

definition band_of :: "jval \<Rightarrow> jval \<Rightarrow> paye_band result" where
  "band_of e r =
     (if is_nullish e then Inl (Internal ''TypeError'')
      else Inr \<lparr>pb_min = number_prop e ''min'',
                 pb_max = (if is_nullish (jget e ''max'') then None
                           else Some (to_number (jget e ''max''))),
                 pb_rate = number_prop r ''rate''\<rparr>)"

definition sort_bands :: "paye_band list \<Rightarrow> paye_band list" where
  "sort_bands = js_sort (\<lambda>a b. js_sub (pb_min a) (pb_min b))"

definition paye_bands :: "statutory_config \<Rightarrow> paye_band list result" where
  "paye_bands cfg =
     (let rates = arr_elems (sc_rates cfg); thresholds = arr_elems (sc_thresholds cfg) in
      if thresholds \<noteq> [] then
        rbind (traverse (\<lambda>(i, e). band_of e (coalesce (arr_get rates i) (JObj [])))
                 (enumerate 0 thresholds))
          (\<lambda>bs. Inr (sort_bands bs))
      else if rates \<noteq> [] \<and> truthy (hd rates) \<and> typeof_object (hd rates) \<and> has_key (hd rates) ''rate''
      then rbind (traverse (\<lambda>b. band_of b b) rates) (\<lambda>bs. Inr (sort_bands bs))
      else Inr [])"

subsection \<open>PAYE\<close>

text \<open>The loop of \<open>computePaye\<close>: \<open>break\<close> below the band, \<open>continue\<close> over an empty band.\<close>

fun paye_loop :: "jsnum \<Rightarrow> jsnum \<Rightarrow> paye_band list \<Rightarrow> jsnum" where
  "paye_loop t tax [] = tax"
| "paye_loop t tax (b # bs) =
     (if js_le t (pb_min b) then tax
      else (let upper = (case pb_max b of None \<Rightarrow> PosInf | Some m \<Rightarrow> m) in
            if js_le upper (pb_min b) then paye_loop t tax bs
            else paye_loop t
                   (js_add tax (js_mul (js_sub (js_min t upper) (pb_min b)) (js_divc (pb_rate b) 100)))
                   bs))"

definition compute_paye :: "jsnum \<Rightarrow> statutory_config \<Rightarrow> jsnum result" where
  "compute_paye taxable cfg =
     (let t = js_max (Num 0) (js_or0 taxable) in
      rbind (paye_bands cfg) (\<lambda>bands.
        if bands = []
        then Inl (BadRequest (''PAYE configuration '' @ sc_code cfg @ '' has no rate bands''))
        else Inr (js_round2 (paye_loop t (Num 0) bands))))"

subsection \<open>NSSF and the employment scope\<close>

record nssf_result =
  nr_employee :: jsnum
  nr_employer :: jsnum
  nr_base :: jsnum
  nr_ceiling :: "jsnum option"

definition config_rates :: "statutory_config \<Rightarrow> jval" where
  "config_rates cfg =
     (case sc_rates cfg of
        JArr [x] \<Rightarrow> if typeof_object x then x else JObj []
      | JObj kvs \<Rightarrow> JObj kvs
      | _ \<Rightarrow> JObj [])"

datatype employment_scope = Primary | Secondary

definition scope_of_string :: "string \<Rightarrow> employment_scope option" where
  "scope_of_string s =
     (if s = ''primary'' then Some Primary else if s = ''secondary'' then Some Secondary else None)"

fun collect_scopes :: "employment_scope list \<Rightarrow> jval list \<Rightarrow> employment_scope list" where
  "collect_scopes out [] = out"
| "collect_scopes out (e # es) =
     (case scope_of_string (js_lower (js_trim (to_string (coalesce e (JStr []))))) of
        Some s \<Rightarrow> collect_scopes (if s \<in> set out then out else out @ [s]) es
      | None \<Rightarrow> collect_scopes out es)"

definition employment_scopes :: "statutory_config option \<Rightarrow> employment_scope list" where
  "employment_scopes cfg =
     (let raw = (case cfg of None \<Rightarrow> JUndef | Some c \<Rightarrow> jget (limits_of c) ''applies_to_employment'');
          entries = (case raw of JArr xs \<Rightarrow> xs
                     | _ \<Rightarrow> if is_nullish raw \<or> raw = JStr [] then [] else [raw])
      in collect_scopes [] entries)"

definition applies_to_employment :: "statutory_config option \<Rightarrow> employment_scope \<Rightarrow> bool" where
  "applies_to_employment cfg scope \<longleftrightarrow>
     employment_scopes cfg = [] \<or> scope \<in> set (employment_scopes cfg)"

definition out_of_scope :: "statutory_config \<Rightarrow> employment_scope option \<Rightarrow> bool" where
  "out_of_scope cfg scope \<longleftrightarrow>
     (case scope of None \<Rightarrow> False | Some s \<Rightarrow> \<not> applies_to_employment (Some cfg) s)"

definition compute_nssf :: "jsnum \<Rightarrow> statutory_config \<Rightarrow> employment_scope option \<Rightarrow> nssf_result result" where
  "compute_nssf gross cfg scope =
     (if out_of_scope cfg scope
      then Inr \<lparr>nr_employee = Num 0, nr_employer = Num 0, nr_base = Num 0, nr_ceiling = None\<rparr>
      else
        (let g = js_max (Num 0) (js_or0 gross);
             rates = config_rates cfg;
             limits = limits_of cfg;
             ceiling = to_number (coalesce (jget limits ''monthly_ceiling'')
                         (coalesce (jget limits ''ceiling'') (JNum 0)));
             base = (if js_lt (Num 0) ceiling then js_min g ceiling else g)
         in if is_nullish rates then Inl (Internal ''TypeError'')
            else Inr \<lparr>nr_employee = js_round2 (js_mul base (number_prop rates ''employee'')),
                       nr_employer = js_round2 (js_mul base (number_prop rates ''employer'')),
                       nr_base = js_round2 base,
                       nr_ceiling = (if js_lt (Num 0) ceiling then Some ceiling else None)\<rparr>))"

subsection \<open>Local service tax\<close>

text \<open>Year and month of a \<open>YYYY-MM..\<close> date string; anything else is \<open>null\<close>.\<close>

definition month_of :: "string \<Rightarrow> (nat \<times> nat) option" where
  "month_of s =
     (if 7 \<le> length s \<and> list_all is_digit (take 4 s) \<and> s ! 4 = CHR ''-''
         \<and> list_all is_digit (take 2 (drop 5 s))
      then (let m = digits_value (take 2 (drop 5 s)) in
            if m < 1 \<or> 12 < m then None else Some (digits_value (take 4 s), m))
      else None)"

definition num_mem :: "jsnum list \<Rightarrow> nat \<Rightarrow> bool" where
  "num_mem ms k = list_ex (\<lambda>m. m = Num (of_nat k)) ms"

text \<open>The loop over the month indices of the pay period, stopped by the first hit.\<close>

function season_scan :: "jsnum list \<Rightarrow> nat \<Rightarrow> nat \<Rightarrow> bool" where
  "season_scan months index last_index =
     (if index \<le> last_index
      then (if num_mem months (index mod 12 + 1) then True
            else season_scan months (Suc index) last_index)
      else False)"
  by pat_completeness auto
termination
  by (relation "measure (\<lambda>(_, i, n). Suc n - i)") auto

declare season_scan.simps [simp del]

definition in_season :: "jsnum list \<Rightarrow> string \<Rightarrow> string \<Rightarrow> bool" where
  "in_season months period_start period_end =
     (case (month_of period_start, month_of period_end) of
        (Some (ys, ms), Some (ye, me)) \<Rightarrow>
          season_scan months (ys * 12 + (ms - 1)) (ye * 12 + (me - 1))
      | _ \<Rightarrow> True)"

text \<open>The graduated schedules of LST and of the secondary tax: ceiling and amount of a band.\<close>

definition schedule_band :: "jval \<Rightarrow> (jsnum \<times> jsnum) result" where
  "schedule_band b =
     (if is_nullish b then Inl (Internal ''TypeError'')
      else Inr (upper_of (jget b ''max''),
                to_number (coalesce (jget b ''monthly_amount'') (coalesce (jget b ''amount'') (JNum 0)))))"

definition sorted_schedule :: "jval list \<Rightarrow> (jsnum \<times> jsnum) list result" where
  "sorted_schedule bands =
     rbind (traverse schedule_band bands) (\<lambda>bs. Inr (js_sort (\<lambda>a b. js_sub (fst a) (fst b)) bs))"

fun lst_loop :: "jsnum \<Rightarrow> (jsnum \<times> jsnum) list \<Rightarrow> jsnum" where
  "lst_loop g [] = Num 0"
| "lst_loop g ((upper, amt) # bs) = (if js_le g upper then js_round2 amt else lst_loop g bs)"

record lst_opts =
  lo_start :: "string option"
  lo_end :: "string option"

definition season_gate :: "jsnum list \<Rightarrow> lst_opts \<Rightarrow> bool" where
  "season_gate months opts =
     (case (lo_start opts, lo_end opts) of
        (Some ps, Some pe) \<Rightarrow> months = [] \<or> ps = [] \<or> pe = [] \<or> in_season months ps pe
      | _ \<Rightarrow> True)"

definition compute_lst :: "jsnum \<Rightarrow> statutory_config option \<Rightarrow> lst_opts \<Rightarrow> jsnum result" where
  "compute_lst gross cfg opts =
     (case cfg of
        None \<Rightarrow> Inr (Num 0)
      | Some c \<Rightarrow>
          let rates = config_rates c;
              limits = limits_of c;
              min_gross = number_prop limits ''min_gross'';
              months = map to_number (arr_elems (jget limits ''months''));
              bands = arr_elems (jget limits ''bands'')
          in if jget limits ''apply_to_payroll'' = JBool False then Inr (Num 0)
             else if js_lt (Num 0) min_gross \<and> js_lt (js_or0 gross) min_gross then Inr (Num 0)
             else if \<not> season_gate months opts then Inr (Num 0)
             else if bands \<noteq> [] then
               rbind (sorted_schedule bands) (\<lambda>bs. Inr (lst_loop (js_max (Num 0) (js_or0 gross)) bs))
             else if is_nullish rates \<and> is_nullish (jget limits ''monthly_amount'')
               then Inl (Internal ''TypeError'')
             else
               (let flat = to_number (coalesce (jget limits ''monthly_amount'')
                             (coalesce (jget rates ''monthly_amount'') (JNum 0)))
                in if js_lt (Num 0) flat then Inr (js_round2 flat)
                   else if is_nullish rates then Inl (Internal ''TypeError'')
                   else (let pct = number_prop rates ''rate'' in
                         if js_lt (Num 0) pct
                         then Inr (js_round2 (js_mul (js_or0 gross) (js_divc pct 100)))
                         else Inr (Num 0))))"

subsection \<open>Secondary-employment PAYE\<close>

text \<open>As \<open>lst_loop\<close>, but income above every ceiling pays the last band's amount.\<close>

fun secondary_loop :: "jsnum \<Rightarrow> jsnum \<Rightarrow> (jsnum \<times> jsnum) list \<Rightarrow> jsnum" where
  "secondary_loop amount top_due [] = js_round2 top_due"
| "secondary_loop amount top_due ((upper, amt) # bs) =
     (if js_le amount upper then js_round2 amt else secondary_loop amount (js_round2 amt) bs)"

definition compute_secondary_paye ::
  "jsnum \<Rightarrow> statutory_config option \<Rightarrow> employment_scope option \<Rightarrow> jsnum result" where
  "compute_secondary_paye base cfg scope =
     (case cfg of
        None \<Rightarrow> Inr (Num 0)
      | Some c \<Rightarrow>
          if out_of_scope c scope then Inr (Num 0)
          else
            (let rates = config_rates c;
                 limits = limits_of c;
                 amount = js_max (Num 0) (js_or0 base);
                 min_gross = number_prop limits ''min_gross'';
                 bands = arr_elems (jget limits ''bands'')
             in if jget limits ''apply_to_payroll'' = JBool False then Inr (Num 0)
                else if js_lt (Num 0) min_gross \<and> js_lt amount min_gross then Inr (Num 0)
                else if bands \<noteq> [] then
                  rbind (sorted_schedule bands) (\<lambda>bs. Inr (secondary_loop amount (Num 0) bs))
                else if is_nullish rates \<and> is_nullish (jget limits ''monthly_amount'')
                  then Inl (Internal ''TypeError'')
                else
                  (let flat = to_number (coalesce (jget limits ''monthly_amount'')
                                (coalesce (jget rates ''monthly_amount'') (JNum 0)))
                   in if js_lt (Num 0) flat then Inr (js_round2 flat)
                      else if is_nullish rates then Inl (Internal ''TypeError'')
                      else (let rate = to_number (coalesce (jget rates ''rate'')
                                  (coalesce (jget limits ''rate'') (JNum 0)))
                            in if js_le rate (Num 0) then Inr (Num 0)
                               else Inr (js_round2 (js_mul amount (js_divc rate 100)))))))"

subsection \<open>PAYE: the loop against a closed form\<close>

definition num_val :: "jsnum \<Rightarrow> rat" where
  "num_val a = (case a of Num q \<Rightarrow> q | _ \<Rightarrow> 0)"

lemma num_val_Num [simp]: "num_val (Num q) = q"
  by (simp add: num_val_def)

definition finite_band :: "paye_band \<Rightarrow> bool" where
  "finite_band b \<longleftrightarrow> js_finite (pb_min b) \<and> js_finite (pb_rate b)
     \<and> (case pb_max b of None \<Rightarrow> True | Some m \<Rightarrow> js_finite m)"

text \<open>The part of the income \<open>t\<close> that falls into a band, and the tax on it.\<close>

definition band_width :: "rat \<Rightarrow> paye_band \<Rightarrow> rat" where
  "band_width t b =
     max 0 ((case pb_max b of None \<Rightarrow> t | Some u \<Rightarrow> min t (num_val u)) - num_val (pb_min b))"

definition progressive_tax :: "rat \<Rightarrow> paye_band list \<Rightarrow> rat" where
  "progressive_tax t bands = (\<Sum>b\<leftarrow>bands. band_width t b * (num_val (pb_rate b) / 100))"

lemma js_finiteE: "js_finite a \<Longrightarrow> (\<And>q. a = Num q \<Longrightarrow> P) \<Longrightarrow> P"
  by (cases a) (auto simp: js_finite_def)

lemma finite_bandE:
  assumes "finite_band b"
  obtains m r where "pb_min b = Num m" "pb_rate b = Num r" "pb_max b = None"
    | m r u where "pb_min b = Num m" "pb_rate b = Num r" "pb_max b = Some (Num u)"
  using assms by (auto simp: finite_band_def elim!: js_finiteE split: option.splits)

lemma band_width_nonneg: "0 \<le> band_width t b"
  by (simp add: band_width_def)

lemma band_width_below: "t \<le> num_val (pb_min b) \<Longrightarrow> band_width t b = 0"
  by (auto simp: band_width_def split: option.splits)

lemma progressive_tax_below:
  "(\<And>b. b \<in> set bs \<Longrightarrow> t \<le> num_val (pb_min b)) \<Longrightarrow> progressive_tax t bs = 0"
  by (induction bs) (auto simp: progressive_tax_def band_width_below)

lemma paye_loop_closed_form:
  assumes "sorted (map (\<lambda>b. num_val (pb_min b)) bs)" and "\<forall>b\<in>set bs. finite_band b"
  shows "paye_loop (Num t) (Num tax) bs = Num (tax + progressive_tax t bs)"
  using assms
proof (induction bs arbitrary: tax)
  case Nil
  then show ?case by (simp add: progressive_tax_def)
next
  case (Cons b bs)
  have IH: "paye_loop (Num t) (Num x) bs = Num (x + progressive_tax t bs)" for x
    using Cons by simp
  have split: "progressive_tax t (b # bs) =
      band_width t b * (num_val (pb_rate b) / 100) + progressive_tax t bs"
    by (simp add: progressive_tax_def)
  show ?case
  proof (cases "t \<le> num_val (pb_min b)")
    case True
    have "progressive_tax t (b # bs) = 0"
      using True Cons.prems(1) by (intro progressive_tax_below) auto
    moreover have "js_le (Num t) (pb_min b)"
      using True Cons.prems(2) by (auto simp: finite_band_def elim!: js_finiteE)
    ultimately show ?thesis by simp
  next
    case False
    from Cons.prems(2) have "finite_band b" by simp
    then show ?thesis
      using False by (cases rule: finite_bandE) (auto simp: IH split band_width_def)
  qed
qed

lemma sort_bands_sorted:
  assumes "\<forall>b\<in>set bs. finite_band b"
  shows "sorted (map (\<lambda>b. num_val (pb_min b)) (sort_bands bs))"
proof -
  have "sort_bands bs = sort_key (\<lambda>b. num_val (pb_min b)) bs"
    unfolding sort_bands_def
  proof (rule js_sort_sort_key)
    fix a b assume "a \<in> set bs" "b \<in> set bs"
    with assms have "finite_band a" "finite_band b" by auto
    then show "js_lt (js_sub (pb_min a) (pb_min b)) (Num 0)
        = (num_val (pb_min a) < num_val (pb_min b))"
      by (auto simp: finite_band_def elim!: js_finiteE)
  qed
  then show ?thesis by simp
qed

lemma paye_bands_sorted:
  assumes "paye_bands cfg = Inr bands" and "\<forall>b\<in>set bands. finite_band b"
  shows "sorted (map (\<lambda>b. num_val (pb_min b)) bands)"
proof -
  have "bands = [] \<or> (\<exists>bs. bands = sort_bands bs)"
    using assms(1) by (auto simp: paye_bands_def Let_def split: if_splits)
  with assms(2) show ?thesis
    using sort_bands_sorted by (auto simp: sort_bands_def)
qed

lemma compute_paye_closed_form:
  assumes "paye_bands cfg = Inr bands" and "bands \<noteq> []" and "\<forall>b\<in>set bands. finite_band b"
  shows "compute_paye (Num t) cfg = Inr (Num (round2 (progressive_tax (max 0 t) bands)))"
  using assms paye_loop_closed_form [OF paye_bands_sorted [OF assms(1,3)] assms(3)]
  by (simp add: compute_paye_def)

subsection \<open>PAYE: monotone and bounded\<close>

text \<open>
  A schedule is \<open>layered\<close> when its bands do not overlap: each band ends where, or before, the
  next begins, and only the last is unbounded. \<open>low\<close> is a lower end for all of them.
\<close>

fun layered :: "rat \<Rightarrow> paye_band list \<Rightarrow> bool" where
  "layered low [] = True"
| "layered low (b # bs) =
     (low \<le> num_val (pb_min b) \<and>
      (case pb_max b of
         None \<Rightarrow> bs = []
       | Some u \<Rightarrow> num_val (pb_min b) \<le> num_val u \<and> layered (num_val u) bs))"

lemma band_width_mono: "t \<le> t' \<Longrightarrow> band_width t b \<le> band_width t' b"
  by (auto simp: band_width_def split: option.splits)

lemma progressive_tax_mono:
  assumes "t \<le> t'" and "\<forall>b\<in>set bs. 0 \<le> num_val (pb_rate b)"
  shows "progressive_tax t bs \<le> progressive_tax t' bs"
  unfolding progressive_tax_def
  by (rule sum_list_mono_rat) (use assms in \<open>auto intro!: mult_right_mono band_width_mono\<close>)

lemma layered_width_growth:
  assumes "layered low bs" and "t \<le> t'"
  shows "(\<Sum>b\<leftarrow>bs. band_width t' b - band_width t b) \<le> max 0 (t' - max low t)"
  using assms
proof (induction bs arbitrary: low)
  case Nil
  then show ?case by simp
next
  case (Cons b bs)
  show ?case
  proof (cases "pb_max b")
    case None
    with Cons.prems show ?thesis by (auto simp: band_width_def max_def)
  next
    case (Some u)
    have "(\<Sum>b\<leftarrow>bs. band_width t' b - band_width t b) \<le> max 0 (t' - max (num_val u) t)"
      using Cons Some by simp
    moreover have "low \<le> num_val (pb_min b)" "num_val (pb_min b) \<le> num_val u"
      using Cons.prems Some by simp_all
    ultimately show ?thesis
      using Some Cons.prems(2) by (auto simp: band_width_def max_def min_def split: if_splits)
  qed
qed

lemma progressive_tax_growth:
  assumes "layered low bs" and "t \<le> t'" and "\<forall>b\<in>set bs. num_val (pb_rate b) \<le> 100"
  shows "progressive_tax t' bs - progressive_tax t bs \<le> t' - t"
proof -
  have "progressive_tax t' bs - progressive_tax t bs =
      (\<Sum>b\<leftarrow>bs. (band_width t' b - band_width t b) * (num_val (pb_rate b) / 100))"
    by (induction bs) (simp_all add: progressive_tax_def algebra_simps add_divide_distrib diff_divide_distrib)
  also have "\<dots> \<le> (\<Sum>b\<leftarrow>bs. band_width t' b - band_width t b)"
  proof (rule sum_list_mono_rat)
    fix b assume b: "b \<in> set bs"
    have "0 \<le> band_width t' b - band_width t b" using band_width_mono [OF assms(2)] by simp
    moreover have "num_val (pb_rate b) / 100 \<le> 1" using assms(3) b by simp
    ultimately show "(band_width t' b - band_width t b) * (num_val (pb_rate b) / 100)
        \<le> band_width t' b - band_width t b"
      using mult_left_le by blast
  qed
  also have "\<dots> \<le> max 0 (t' - max low t)" by (rule layered_width_growth [OF assms(1,2)])
  also have "\<dots> \<le> t' - t" using assms(2) by simp
  finally show ?thesis .
qed

subsection \<open>Graduated schedules\<close>

definition proper_schedule :: "(jsnum \<times> jsnum) list \<Rightarrow> bool" where
  "proper_schedule bs \<longleftrightarrow> sorted (map fst bs) \<and> (\<forall>b\<in>set bs. fst b \<noteq> NaN)"

lemma sorted_schedule_proper:
  assumes "sorted_schedule bands = Inr bs" and "\<forall>b\<in>set bs. fst b \<noteq> NaN"
  shows "proper_schedule bs"
proof -
  from assms(1) obtain xs where bs: "bs = js_sort (\<lambda>a b. js_sub (fst a) (fst b)) xs"
    by (auto simp: sorted_schedule_def)
  have "bs = sort_key fst xs"
    unfolding bs by (rule js_sort_sort_key) (use assms(2) bs in \<open>auto simp: js_sub_negative_iff\<close>)
  with assms(2) show ?thesis by (simp add: proper_schedule_def)
qed

lemma lst_loop_cases:
  assumes "proper_schedule bs" and "g \<noteq> NaN"
  shows "(\<exists>b\<in>set bs. g \<le> fst b \<and> (\<forall>b'\<in>set bs. g \<le> fst b' \<longrightarrow> fst b \<le> fst b')
           \<and> lst_loop g bs = js_round2 (snd b) \<and> secondary_loop g top_due bs = js_round2 (snd b))
     \<or> ((\<forall>b\<in>set bs. fst b < g) \<and> lst_loop g bs = Num 0
           \<and> secondary_loop g top_due bs = js_round2 (if bs = [] then top_due else snd (last bs)))"
  using assms
proof (induction bs arbitrary: top_due)
  case Nil
  then show ?case by simp
next
  case (Cons b bs)
  obtain u a where b: "b = (u, a)" by (cases b)
  have u: "u \<noteq> NaN" and low: "\<forall>b'\<in>set bs. u \<le> fst b'" and bs: "proper_schedule bs"
    using Cons.prems(1) by (auto simp: proper_schedule_def b)
  have idem: "js_round2 (js_round2 x) = js_round2 x" for x
    by (cases x) (simp_all add: js_round2_def)
  show ?case
  proof (cases "g \<le> u")
    case True
    then have "lst_loop g (b # bs) = js_round2 a" "secondary_loop g top_due (b # bs) = js_round2 a"
      using Cons.prems(2) u by (simp_all add: b js_le_iff)
    with True low show ?thesis by (intro disjI1 bexI [of _ b]) (auto simp: b)
  next
    case False
    then have "\<not> js_le g u" using Cons.prems(2) u by (simp add: js_le_iff)
    then have step: "lst_loop g (b # bs) = lst_loop g bs"
        "secondary_loop g top_due (b # bs) = secondary_loop g (js_round2 a) bs"
      by (simp_all add: b)
    from Cons.IH [OF bs Cons.prems(2), of "js_round2 a"] show ?thesis
    proof
      assume "\<exists>b\<in>set bs. g \<le> fst b \<and> (\<forall>b'\<in>set bs. g \<le> fst b' \<longrightarrow> fst b \<le> fst b')
          \<and> lst_loop g bs = js_round2 (snd b) \<and> secondary_loop g (js_round2 a) bs = js_round2 (snd b)"
      with False show ?thesis unfolding step by (auto simp: b)
    next
      assume "(\<forall>b\<in>set bs. fst b < g) \<and> lst_loop g bs = Num 0
          \<and> secondary_loop g (js_round2 a) bs
            = js_round2 (if bs = [] then js_round2 a else snd (last bs))"
      with False show ?thesis unfolding step by (auto simp: b idem)
    qed
  qed
qed

lemma season_scan_iff:
  "season_scan ms i n \<longleftrightarrow> (\<exists>k. i \<le> k \<and> k \<le> n \<and> num_mem ms (k mod 12 + 1))"
proof (induction ms i n rule: season_scan.induct)
  case (1 ms i n)
  show ?case
  proof (cases "i \<le> n \<and> \<not> num_mem ms (i mod 12 + 1)")
    case True
    with "1.IH" have "season_scan ms i n \<longleftrightarrow> (\<exists>k. Suc i \<le> k \<and> k \<le> n \<and> num_mem ms (k mod 12 + 1))"
      by (subst season_scan.simps) simp
    also have "\<dots> \<longleftrightarrow> (\<exists>k. i \<le> k \<and> k \<le> n \<and> num_mem ms (k mod 12 + 1))"
      using True by (metis Suc_leD le_antisym not_less_eq_eq)
    finally show ?thesis .
  next
    case False
    then show ?thesis by (subst season_scan.simps) auto
  qed
qed

subsection \<open>Properties\<close>

text \<open>A concrete configuration for the witnesses: the resident monthly bands as band objects.\<close>

definition resident_bands :: jval where
  "resident_bands = JArr
     [JObj [(''min'', JNum 410000), (''max'', JNull), (''rate'', JNum 30)],
      JObj [(''min'', JNum 0), (''max'', JNum 235000), (''rate'', JNum 0)],
      JObj [(''min'', JNum 235000), (''max'', JNum 335000), (''rate'', JNum 10)],
      JObj [(''min'', JNum 335000), (''max'', JNum 410000), (''rate'', JNum 20)]]"

definition sample_config :: "jval \<Rightarrow> jval \<Rightarrow> jval \<Rightarrow> statutory_config" where
  "sample_config rates thresholds limits =
     \<lparr>sc_id = 1, sc_company = None, sc_tenant = 1, sc_country = ''UG'', sc_category = ''PAYE'',
      sc_code = ''UG-PAYE'', sc_name = ''PAYE'', sc_description = None, sc_from = None, sc_to = None,
      sc_rates = rates, sc_thresholds = thresholds, sc_limits = limits, sc_formula = JNull,
      sc_version = 1, sc_status = ''ACTIVE''\<rparr>"

definition resident_sorted :: "paye_band list" where
  "resident_sorted =
     [\<lparr>pb_min = Num 0, pb_max = Some (Num 235000), pb_rate = Num 0\<rparr>,
      \<lparr>pb_min = Num 235000, pb_max = Some (Num 335000), pb_rate = Num 10\<rparr>,
      \<lparr>pb_min = Num 335000, pb_max = Some (Num 410000), pb_rate = Num 20\<rparr>,
      \<lparr>pb_min = Num 410000, pb_max = None, pb_rate = Num 30\<rparr>]"

lemma resident_paye_bands:
  "paye_bands (sample_config resident_bands JNull JNull) = Inr resident_sorted"
  by (simp add: paye_bands_def sample_config_def resident_bands_def resident_sorted_def band_of_def
      number_prop_def coalesce_def is_nullish_def obj_get_def sort_bands_def js_sort_def
      truthy_def has_key_def js_sub_def)

lemma resident_sorted_ok:
  "\<forall>b\<in>set resident_sorted. finite_band b"
  "layered 0 resident_sorted"
  "\<forall>b\<in>set resident_sorted. 0 \<le> num_val (pb_rate b) \<and> num_val (pb_rate b) \<le> 100"
  "resident_sorted \<noteq> []"
  by (simp_all add: resident_sorted_def finite_band_def)

text \<open>
  C11. Progressive tax. For a PAYE configuration whose bands are numbers, \<open>computePaye\<close> returns
  the sum over all bands of the income inside the band times the band's rate, rounded to cents;
  the early exit of the loop and the skipping of empty bands never change the tax, whatever the
  order of the bands in the configuration, and a negative income is taxed as zero.
\<close>

theorem paye_sum_of_slices:
  assumes "paye_bands cfg = Inr bands" and "bands \<noteq> []" and "\<forall>b\<in>set bands. finite_band b"
  shows "compute_paye (Num t) cfg =
    Inr (Num (round2 (\<Sum>b\<leftarrow>bands. band_width (max 0 t) b * (num_val (pb_rate b) / 100))))"
  using compute_paye_closed_form [OF assms] by (simp add: progressive_tax_def)

theorem paye_sum_of_slices_witness:
  "compute_paye (Num 500000) (sample_config resident_bands JNull JNull) = Inr (Num 52000)"
  using paye_sum_of_slices [OF resident_paye_bands resident_sorted_ok(4,1), of 500000]
  by (simp add: resident_sorted_def band_width_def round_eval)



text \<open>
  Choice of the configuration. The row that \<open>getStatutoryConfig\<close> returns satisfies every
  condition of the query; a tenant-wide or foreign row is returned only when no row of the
  requested company satisfies them; and among the rows of the same precedence with a start date
  none that started later satisfies them.
\<close>

theorem statutory_config_choice:
  assumes "get_statutory_config rows tenant ctx_company today category
             \<lparr>co_code = code, co_effective = Some eff, co_company = Some company, co_country = Some country\<rparr>
           = Some c"
  shows "c \<in> set rows \<and> config_matches tenant country category code eff company c
    \<and> (\<forall>c'\<in>set rows. config_matches tenant country category code eff company c' \<longrightarrow>
         (company \<noteq> None \<and> sc_company c' = company \<longrightarrow> sc_company c = company)
       \<and> (config_rank company c' = config_rank company c \<longrightarrow>
            (\<forall>d d'. sc_from c = Some d \<longrightarrow> sc_from c' = Some d' \<longrightarrow> d' \<le> d)))"
proof -
  let ?ms = "filter (config_matches tenant country category code eff company) rows"
  have l: "limit1 (config_key company) ?ms = Some c"
    using assms by (simp add: get_statutory_config_def)
  have c: "c \<in> set ?ms" by (rule limit1_Some(1) [OF l])
  have least: "config_key company c \<le> config_key company c'"
    if "c' \<in> set rows" "config_matches tenant country category code eff company c'" for c'
    using limit1_Some(2) [OF l] that by simp
  show ?thesis
    using c by (auto dest!: least simp: config_key_def config_rank_def less_eq_prod_simp split: if_splits)
qed

theorem statutory_config_choice_witness:
  "\<exists>c. get_statutory_config
        [sample_config resident_bands JNull JNull,
         sample_config resident_bands JNull JNull\<lparr>sc_company := Some 4, sc_id := 2\<rparr>] 1 None 0 ''PAYE''
        \<lparr>co_code = None, co_effective = Some 10, co_company = Some (Some 4), co_country = Some ''UG''\<rparr>
      = Some c \<and> sc_id c = 2 \<and> config_matches 1 ''UG'' ''PAYE'' None 10 (Some 4) c"
proof -
  let ?t = "sample_config resident_bands JNull JNull"
  let ?c = "?t\<lparr>sc_company := Some 4, sc_id := 2\<rparr>"
  have res: "get_statutory_config [?t, ?c] 1 None 0 ''PAYE''
      \<lparr>co_code = None, co_effective = Some 10, co_company = Some (Some 4), co_country = Some ''UG''\<rparr> = Some ?c"
    by (simp add: get_statutory_config_def sample_config_def config_matches_def limit1_def
        config_key_def config_rank_def less_eq_prod_simp)
  have "config_matches 1 ''UG'' ''PAYE'' None 10 (Some 4) ?c"
    using statutory_config_choice [OF res] by (elim conjE)
  with res show ?thesis by (intro exI [of _ ?c]) simp
qed

text \<open>
  Graduated schedules. LST and the secondary tax sort the declared bands by ceiling and
  charge the rounded amount of the band with the least ceiling that covers the income, and then
  they agree. They differ above every ceiling: LST charges nothing, the secondary tax charges the
  top band.
\<close>

theorem graduated_schedule_lookup:
  assumes "sorted_schedule bands = Inr bs" and "\<forall>b\<in>set bs. fst b \<noteq> NaN" and "bs \<noteq> []"
  shows "(\<exists>b\<in>set bs. Num g \<le> fst b \<and> (\<forall>b'\<in>set bs. Num g \<le> fst b' \<longrightarrow> fst b \<le> fst b')
            \<and> lst_loop (Num g) bs = js_round2 (snd b)
            \<and> secondary_loop (Num g) (Num 0) bs = js_round2 (snd b))
     \<or> ((\<forall>b\<in>set bs. fst b < Num g) \<and> lst_loop (Num g) bs = Num 0
            \<and> secondary_loop (Num g) (Num 0) bs = js_round2 (snd (last bs)))"
  using lst_loop_cases [OF sorted_schedule_proper [OF assms(1,2)], of "Num g" "Num 0"] assms(3)
  by simp

definition sample_schedule :: "jval list" where
  "sample_schedule =
     [JObj [(''max'', JNum 300000), (''monthly_amount'', JNum 2500)],
      JObj [(''max'', JNum 200000), (''monthly_amount'', JNum 1250)]]"

theorem graduated_schedule_lookup_witness:
  "lst_loop (Num 250000) [(Num 200000, Num 1250), (Num 300000, Num 2500)] = Num 2500
   \<and> lst_loop (Num 900000) [(Num 200000, Num 1250), (Num 300000, Num 2500)] = Num 0
   \<and> secondary_loop (Num 900000) (Num 0) [(Num 200000, Num 1250), (Num 300000, Num 2500)] = Num 2500"
proof -
  have s: "sorted_schedule sample_schedule = Inr [(Num 200000, Num 1250), (Num 300000, Num 2500)]"
    by (simp add: sorted_schedule_def sample_schedule_def schedule_band_def upper_of_def obj_get_def
        coalesce_def is_nullish_def js_sort_def js_sub_def)
  show ?thesis
    using graduated_schedule_lookup [OF s, of 250000] graduated_schedule_lookup [OF s, of 900000]
    by (auto simp: round_eval)
qed

end
