(* ===== verification/Calendar.thy ===== *)
theory Calendar
  imports Js_Values
begin

text \<open>
  Calendar dates. A \<open>DATE\<close> is the number of days since 1970-01-01; the services compare and slice
  its \<open>YYYY-MM-DD\<close> form, which \<open>toISODate\<close> of \<^verbatim>\<open>apps/api/src/utils.ts\<close> produces. The civil date of
  a day number is computed over 400-year cycles that start on 1 March, as the proleptic Gregorian
  calendar of JavaScript and of PostgreSQL has it.
\<close>

subsection \<open>Civil dates\<close>

record civil =
  cv_year :: int
  cv_month :: int
  cv_day :: int

text \<open>A day of the 400-year cycle splits into centuries, leap cycles, years and the day of the year.\<close>

definition century_of_era :: "int \<Rightarrow> int" where
  "century_of_era doe = min 3 (doe div 36524)"

definition leap_cycle_of_era :: "int \<Rightarrow> int" where
  "leap_cycle_of_era doe = (doe - 36524 * century_of_era doe) div 1461"

definition year_of_cycle :: "int \<Rightarrow> int" where
  "year_of_cycle doe = min 3 ((doe - 36524 * century_of_era doe) mod 1461 div 365)"

definition year_of_era :: "int \<Rightarrow> int" where
  "year_of_era doe = 100 * century_of_era doe + 4 * leap_cycle_of_era doe + year_of_cycle doe"

definition day_of_year :: "int \<Rightarrow> int" where
  "day_of_year doe = (doe - 36524 * century_of_era doe) mod 1461 - 365 * year_of_cycle doe"

definition civil_of_date :: "date \<Rightarrow> civil" where
  "civil_of_date n =
     (let z = n + 719468;
          era = z div 146097;
          doe = z mod 146097;
          doy = day_of_year doe;
          mp = (5 * doy + 2) div 153;
          m = (if mp < 10 then mp + 3 else mp - 9)
      in \<lparr>cv_year = year_of_era doe + era * 400 + (if m \<le> 2 then 1 else 0),
          cv_month = m, cv_day = doy - (153 * mp + 2) div 5 + 1\<rparr>)"

definition date_of_civil :: "int \<Rightarrow> int \<Rightarrow> int \<Rightarrow> date" where
  "date_of_civil y m d =
     (let y' = (if m \<le> 2 then y - 1 else y);
          era = y' div 400;
          yoe = y' mod 400;
          mp = (if m > 2 then m - 3 else m + 9);
          doy = (153 * mp + 2) div 5 + d - 1;
          doe = yoe * 365 + yoe div 4 - yoe div 100 + doy
      in era * 146097 + doe - 719468)"

definition weekday :: "date \<Rightarrow> int" where
  "weekday n = (n + 4) mod 7"

definition pad_left :: "nat \<Rightarrow> char \<Rightarrow> string \<Rightarrow> string" where
  "pad_left n c s = replicate (n - length s) c @ s"

definition iso_of_date :: "date \<Rightarrow> string" where
  "iso_of_date n =
     (let c = civil_of_date n;
          two = (\<lambda>k. pad_left 2 (CHR ''0'') (string_of_int k))
      in string_of_int (cv_year c) @ ''-'' @ two (cv_month c) @ ''-'' @ two (cv_day c))"

definition year_of_date :: "date \<Rightarrow> int" where
  "year_of_date n = cv_year (civil_of_date n)"

subsection \<open>Laws\<close>

lemma era_split:
  assumes "0 \<le> doe" and "doe < 146097"
  shows "0 \<le> century_of_era doe \<and> century_of_era doe \<le> 3"
    and "0 \<le> leap_cycle_of_era doe \<and> leap_cycle_of_era doe \<le> 24"
    and "0 \<le> year_of_cycle doe \<and> year_of_cycle doe \<le> 3"
    and "0 \<le> day_of_year doe \<and> day_of_year doe \<le> 365"
proof -
  define r where "r = doe - 36524 * century_of_era doe"
  show c: "0 \<le> century_of_era doe \<and> century_of_era doe \<le> 3"
    using assms by (auto simp: century_of_era_def pos_imp_zdiv_nonneg_iff min_def)
  have "36524 * (doe div 36524) \<le> doe" "doe < 36524 * (doe div 36524) + 36524"
    using div_mult_mod_eq [of doe 36524] pos_mod_bound [of 36524 doe] pos_mod_sign [of 36524 doe]
    by linarith+
  then have r: "0 \<le> r" "r \<le> 36524" using assms by (auto simp: r_def century_of_era_def min_def)
  then show "0 \<le> leap_cycle_of_era doe \<and> leap_cycle_of_era doe \<le> 24"
    by (auto simp: leap_cycle_of_era_def pos_imp_zdiv_nonneg_iff simp flip: r_def)
  define q where "q = r mod 1461"
  have q: "0 \<le> q" "q \<le> 1460" using pos_mod_bound [of 1461 r] by (simp_all add: q_def)
  have d: "365 * (q div 365) \<le> q" "q < 365 * (q div 365) + 365"
    using div_mult_mod_eq [of q 365] pos_mod_bound [of 365 q] pos_mod_sign [of 365 q] by linarith+
  have y: "year_of_cycle doe = min 3 (q div 365)" by (simp add: year_of_cycle_def q_def r_def)
  then show "0 \<le> year_of_cycle doe \<and> year_of_cycle doe \<le> 3"
    using q by (auto simp: pos_imp_zdiv_nonneg_iff min_def)
  show "0 \<le> day_of_year doe \<and> day_of_year doe \<le> 365"
    using q d y by (auto simp: day_of_year_def min_def simp flip: r_def q_def)
qed

lemma year_of_era_div:
  assumes "0 \<le> doe" and "doe < 146097"
  shows "year_of_era doe div 4 = 25 * century_of_era doe + leap_cycle_of_era doe"
    and "year_of_era doe div 100 = century_of_era doe"
    and "0 \<le> year_of_era doe" and "year_of_era doe < 400"
  using era_split [OF assms] unfolding year_of_era_def by (auto simp: div_pos_pos_trivial)

lemma day_of_era:
  assumes "0 \<le> doe" and "doe < 146097"
  shows "doe = year_of_era doe * 365 + year_of_era doe div 4 - year_of_era doe div 100 + day_of_year doe"
  unfolding year_of_era_div(1,2) [OF assms]
  using div_mult_mod_eq [of "doe - 36524 * century_of_era doe" 1461]
  by (simp add: year_of_era_def leap_cycle_of_era_def day_of_year_def algebra_simps)

lemma month_index_bounds:
  assumes "0 \<le> doy" and "doy \<le> (365 :: int)"
  shows "0 \<le> (5 * doy + 2) div 153" and "(5 * doy + 2) div 153 \<le> 11"
proof -
  show "0 \<le> (5 * doy + 2) div 153" using assms by (simp add: pos_imp_zdiv_nonneg_iff)
  have "(5 * doy + 2) div 153 \<le> 1827 div 153" using assms by (intro zdiv_mono1) simp_all
  then show "(5 * doy + 2) div 153 \<le> 11" by simp
qed

lemma date_of_civil_of_date:
  "date_of_civil (cv_year (civil_of_date n)) (cv_month (civil_of_date n)) (cv_day (civil_of_date n)) = n"
proof -
  define z where "z = n + 719468"
  define doe where "doe = z mod 146097"
  define doy where "doy = day_of_year doe"
  define mp where "mp = (5 * doy + 2) div 153"
  define yoe where "yoe = year_of_era doe"
  have doe: "0 \<le> doe" "doe < 146097" by (simp_all add: doe_def)
  have yoe: "0 \<le> yoe" "yoe < 400" using year_of_era_div(3,4) [OF doe] by (simp_all add: yoe_def)
  have mp: "0 \<le> mp" "mp \<le> 11"
    using era_split(4) [OF doe] month_index_bounds [of doy] by (simp_all add: doy_def mp_def)
  have cycle: "(yoe + z div 146097 * 400) div 400 = z div 146097"
    "(yoe + z div 146097 * 400) mod 400 = yoe"
    using yoe by (simp_all add: div_add1_eq mod_pos_pos_trivial div_pos_pos_trivial)
  have era: "yoe * 365 + yoe div 4 - yoe div 100 + doy = doe"
    using day_of_era [OF doe] by (simp add: yoe_def doy_def)
  have civil: "civil_of_date n =
      \<lparr>cv_year = yoe + z div 146097 * 400 + (if (if mp < 10 then mp + 3 else mp - 9) \<le> 2 then 1 else 0),
       cv_month = (if mp < 10 then mp + 3 else mp - 9), cv_day = doy - (153 * mp + 2) div 5 + 1\<rparr>"
    by (simp add: civil_of_date_def Let_def yoe_def doy_def mp_def doe_def z_def)
  have "date_of_civil (cv_year (civil_of_date n)) (cv_month (civil_of_date n)) (cv_day (civil_of_date n))
      = z div 146097 * 146097 + (yoe * 365 + yoe div 4 - yoe div 100 + doy) - 719468"
    using mp yoe unfolding civil
    by (auto simp: date_of_civil_def Let_def cycle add.commute [of 2 "153 * mp"] mod_pos_pos_trivial)
  then show ?thesis unfolding era by (simp add: z_def doe_def)
qed

lemma civil_month_bounds: "1 \<le> cv_month (civil_of_date n)" "cv_month (civil_of_date n) \<le> 12"
proof -
  define doe where "doe = (n + 719468) mod 146097"
  have doe: "0 \<le> doe" "doe < 146097" by (simp_all add: doe_def)
  have "0 \<le> (5 * day_of_year doe + 2) div 153" "(5 * day_of_year doe + 2) div 153 \<le> 11"
    using era_split(4) [OF doe] month_index_bounds by blast+
  then show "1 \<le> cv_month (civil_of_date n)" "cv_month (civil_of_date n) \<le> 12"
    by (auto simp: civil_of_date_def Let_def simp flip: doe_def)
qed

lemma civil_of_date_inject [simp]: "civil_of_date m = civil_of_date n \<longleftrightarrow> m = n"
  using date_of_civil_of_date by metis

end
