(* ===== verification/Audit_Trail.thy ===== *)
theory Audit_Trail
  imports Js_Values
begin

text \<open>
  The two journals every business operation writes: \<open>audit_logs\<close> (\<^verbatim>\<open>apps/api/src/services/audit.ts\<close>)
  and \<open>system_events\<close> (\<^verbatim>\<open>apps/api/src/services/events.ts\<close>). Both are append-only lists of rows, newest
  last. The columns that only identify the client (address, agent, device, correlation id), the free-form
  metadata and the notification mirror that \<open>emitEvent\<close> starts on a connection of its own are not modelled.
\<close>

record audit_row =
  au_tenant :: "row_id option"
  au_company :: "row_id option"
  au_branch :: "row_id option"
  au_user :: "row_id option"
  au_action :: string
  au_resource :: string
  au_record :: "row_id option"
  au_code :: "string option"
  au_old :: "(string \<times> jval) list"
  au_new :: "(string \<times> jval) list"

record audit_entry =
  ae_action :: string
  ae_resource :: string
  ae_record :: "row_id option"
  ae_code :: "string option"
  ae_old :: "(string \<times> jval) list"
  ae_new :: "(string \<times> jval) list"

definition log_audit :: "ctx \<Rightarrow> audit_entry \<Rightarrow> audit_row list \<Rightarrow> audit_row list" where
  "log_audit c e rows = rows @
     [\<lparr>au_tenant = cx_tenant c, au_company = cx_company c, au_branch = cx_branch c,
       au_user = cx_user c, au_action = ae_action e, au_resource = ae_resource e,
       au_record = ae_record e, au_code = ae_code e, au_old = ae_old e, au_new = ae_new e\<rparr>]"

datatype severity_level = DEBUG | INFO | WARN | ERROR | CRITICAL

record event_row =
  ev_tenant :: "row_id option"
  ev_company :: "row_id option"
  ev_branch :: "row_id option"
  ev_user :: "row_id option"
  ev_type :: string
  ev_entity_type :: "string option"
  ev_entity :: "row_id option"
  ev_code :: "string option"
  ev_payload :: "(string \<times> jval) list"
  ev_severity :: severity_level

record event_payload =
  ep_type :: string
  ep_entity_type :: "string option"
  ep_entity :: "row_id option"
  ep_code :: "string option"
  ep_payload :: "(string \<times> jval) list"
  ep_severity :: "severity_level option"

definition emit_event :: "ctx \<Rightarrow> event_payload \<Rightarrow> event_row list \<Rightarrow> event_row list" where
  "emit_event c e rows = rows @
     [\<lparr>ev_tenant = cx_tenant c, ev_company = cx_company c, ev_branch = cx_branch c,
       ev_user = cx_user c, ev_type = ep_type e, ev_entity_type = ep_entity_type e,
       ev_entity = ep_entity e, ev_code = ep_code e, ev_payload = ep_payload e,
       ev_severity = (case ep_severity e of None \<Rightarrow> INFO | Some s \<Rightarrow> s)\<rparr>]"

subsection \<open>The journals only grow\<close>

text \<open>
  The contract of a journal, which the services rely on: a write appends one row that carries the
  writer's identity and leaves the rows before it in place.
\<close>

locale journal =
  fixes add :: "ctx \<Rightarrow> 'e \<Rightarrow> 'r list \<Rightarrow> 'r list" and user_of :: "'r \<Rightarrow> row_id option"
  assumes add_appends: "\<exists>r. add c e rows = rows @ [r] \<and> user_of r = cx_user c"
begin

lemma length_add: "length (add c e rows) = Suc (length rows)"
  using add_appends [of c e rows] by auto

lemma add_keeps: "r \<in> set rows \<Longrightarrow> r \<in> set (add c e rows)"
  using add_appends [of c e rows] by auto

lemma add_prefix: "take (length rows) (add c e rows) = rows"
  using add_appends [of c e rows] by auto

lemma add_user: "user_of (last (add c e rows)) = cx_user c"
  using add_appends [of c e rows] by auto

end

interpretation audit: journal log_audit au_user
  by unfold_locales (simp add: log_audit_def)

interpretation events: journal emit_event ev_user
  by unfold_locales (simp add: emit_event_def)

end
