(* ===== verification/Payroll_Data.thy ===== *)
theory Payroll_Data
  imports Payroll_Engine Statutory Calendar Audit_Trail
begin

text \<open>
  The tables that a payroll run reads and writes (\<^verbatim>\<open>apps/api/src/services/hr.ts\<close>,
  \<^verbatim>\<open>payrollValidation.ts\<close>), one record per row and one list per table, and the two lookups that
  every payroll function makes: the run by id within the tenant, and a named payroll setting
  (\<^verbatim>\<open>payrollSettings.ts\<close>). Columns that no modelled function reads are left out.
\<close>

subsection \<open>Rows\<close>

datatype run_status =
    R_DRAFT | R_VALIDATING | R_REVIEW | R_PENDING_APPROVAL | R_SUBMITTED | R_APPROVED | R_RELEASED
  | R_PAID | R_POSTED | R_CLOSED | R_LOCKED | R_REOPENED | R_CANCELLED | R_VOID

record payroll_run =
  run_id :: row_id
  run_tenant :: row_id
  run_company :: row_id
  run_no :: string
  run_start :: date
  run_end :: date
  run_status :: run_status
  run_currency :: string
  run_type :: string
  run_off_cycle_type :: "string option"
  run_employees :: "row_id list"
  run_extra_earnings :: rat
  run_extra_deductions :: rat
  run_deduct_loans :: bool
  run_deduct_advances :: bool
  run_group :: "row_id option"
  run_gross :: jsnum
  run_deductions :: jsnum
  run_net :: jsnum
  run_config :: "row_id option"
  run_score :: int
  run_gl_posted :: bool
  run_gl_journal :: "row_id option"

record employee =
  em_id :: row_id
  em_tenant :: row_id
  em_company :: row_id
  em_no :: string
  em_first :: string
  em_last :: string
  em_base :: rat
  em_hire :: "date option"
  em_termination :: "date option"
  em_status :: string
  em_enabled :: bool
  em_secondary :: bool
  em_tin :: "string option"
  em_bank :: "string option"

record contract =
  ct_employee :: row_id
  ct_status :: string
  ct_start :: date
  ct_allowances :: jval

record pay_profile =
  pp_employee :: row_id
  pp_tenant :: row_id
  pp_company :: row_id
  pp_group :: "row_id option"

record pay_group =
  pg_id :: row_id
  pg_tenant :: row_id
  pg_company :: row_id
  pg_status :: string

record leave_request =
  lv_employee :: row_id
  lv_status :: string
  lv_type :: string
  lv_start :: date
  lv_end :: date

record attendance_row =
  at_tenant :: row_id
  at_company :: row_id
  at_employee :: row_id
  at_date :: date
  at_status :: string
  at_period :: "row_id option"

record attendance_period =
  ap_id :: row_id
  ap_tenant :: row_id
  ap_company :: row_id
  ap_status :: string

text \<open>
  \<open>employee_loans\<close>, \<open>salary_advances\<close> and \<open>employee_fines\<close>: \<open>rc_balance\<close> is \<open>balance\<close> of a loan
  (kept equal to its \<open>outstanding_balance\<close>) and \<open>outstanding_balance\<close> of the others.
\<close>

record recovery_row =
  rc_id :: row_id
  rc_employee :: row_id
  rc_status :: string
  rc_balance :: rat
  rc_monthly :: rat
  rc_interest :: "rat option"
  rc_period :: "string option"

record arrears_row =
  ra_employee :: row_id
  ra_payroll :: "row_id option"
  ra_status :: string
  ra_net :: rat

text \<open>\<open>payroll_items\<close> and its JSON breakdown.\<close>

record payslip_line =
  li_kind :: string
  li_component :: "row_id option"
  li_code :: string
  li_name :: string
  li_amount :: rat
  li_taxable :: bool

record payslip =
  ps_payroll :: row_id
  ps_employee :: row_id
  ps_basic :: rat
  ps_allowances :: jsnum
  ps_gross :: jsnum
  ps_paye :: jsnum
  ps_nssf :: jsnum
  ps_loans :: jsnum
  ps_advances :: jsnum
  ps_fines :: jsnum
  ps_other :: jsnum
  ps_net :: jsnum
  ps_taxable :: jsnum
  ps_employer_nssf :: jsnum
  ps_lst :: jsnum
  ps_total_deductions :: jsnum
  ps_chargeable :: jsnum
  ps_paye_config :: row_id
  ps_earnings :: "payslip_line list"
  ps_deductions :: "payslip_line list"
  ps_proration :: proration
  ps_number :: string

record component_entry =
  ce_payroll :: row_id
  ce_employee :: row_id
  ce_component :: row_id
  ce_amount :: rat

datatype check_severity = CK_ERROR | CK_WARNING | CK_HIGH_RISK
datatype exception_status = EX_OPEN | EX_RESOLVED | EX_IGNORED

record payroll_exception =
  px_id :: row_id
  px_payroll :: row_id
  px_employee :: "row_id option"
  px_type :: string
  px_severity :: check_severity
  px_message :: string
  px_status :: exception_status
  px_resolved_by :: "row_id option"
  px_note :: "string option"

record setting_row =
  st_tenant :: row_id
  st_company :: row_id
  st_key :: string
  st_value :: jval
  st_status :: string

record repayment =
  rp_kind :: string
  rp_source :: row_id
  rp_payroll :: row_id
  rp_amount :: rat
  rp_principal :: rat
  rp_interest :: rat

subsection \<open>The database\<close>

record payroll_db =
  db_runs :: "payroll_run list"
  db_employees :: "employee list"
  db_contracts :: "contract list"
  db_profiles :: "pay_profile list"
  db_groups :: "pay_group list"
  db_leaves :: "leave_request list"
  db_attendance :: "attendance_row list"
  db_periods :: "attendance_period list"
  db_statutory :: "statutory_config list"
  db_inputs :: payroll_tables
  db_loans :: "recovery_row list"
  db_advances :: "recovery_row list"
  db_fines :: "recovery_row list"
  db_arrears :: "arrears_row list"
  db_items :: "payslip list"
  db_entries :: "component_entry list"
  db_exceptions :: "payroll_exception list"
  db_repayments :: "repayment list"
  db_settings :: "setting_row list"
  db_documents :: "row_id option \<times> string \<Rightarrow> nat"
  db_next :: row_id
  db_audit :: "audit_row list"
  db_events :: "event_row list"

definition find_run :: "ctx \<Rightarrow> row_id \<Rightarrow> payroll_db \<Rightarrow> payroll_run option" where
  "find_run c payroll db =
     find (\<lambda>r. run_id r = payroll \<and> cx_tenant c = Some (run_tenant r)) (db_runs db)"

definition update_run :: "row_id \<Rightarrow> (payroll_run \<Rightarrow> payroll_run) \<Rightarrow> payroll_db \<Rightarrow> payroll_db" where
  "update_run payroll f db = db\<lparr>db_runs := update_where (\<lambda>r. run_id r = payroll) f (db_runs db)\<rparr>"

lemma find_run_Some:
  assumes "find_run c payroll db = Some r"
  shows "r \<in> set (db_runs db)" and "run_id r = payroll" and "cx_tenant c = Some (run_tenant r)"
  using find_Some_iff_mem [OF assms [unfolded find_run_def]] by auto

definition own_company :: "ctx \<Rightarrow> row_id \<Rightarrow> row_id \<Rightarrow> bool" where
  "own_company c tenant company \<longleftrightarrow> cx_tenant c = Some tenant \<and> cx_company c = Some company"

subsection \<open>Settings and document numbers\<close>

definition unwrap_setting_value :: "jval \<Rightarrow> string option" where
  "unwrap_setting_value v =
     (case v of
        JStr s \<Rightarrow> Some s
      | JNum q \<Rightarrow> Some (to_string v)
      | JBool b \<Rightarrow> Some (to_string v)
      | JObj kvs \<Rightarrow>
          map_option to_string
            (find (\<lambda>x. case x of JStr _ \<Rightarrow> True | JNum _ \<Rightarrow> True | JBool _ \<Rightarrow> True | _ \<Rightarrow> False)
              (map (jget v) [''value'', ''text'', ''string'', ''code'', ''amount'']))
      | _ \<Rightarrow> None)"

definition get_setting_string :: "ctx \<Rightarrow> setting_row list \<Rightarrow> string \<Rightarrow> string \<Rightarrow> string" where
  "get_setting_string c rows key fallback =
     (if cx_company c = None then fallback
      else case find (\<lambda>r. own_company c (st_tenant r) (st_company r) \<and> st_key r = key
                        \<and> st_status r = ''ACTIVE'') rows of
          None \<Rightarrow> fallback
        | Some r \<Rightarrow>
            (let value = (case unwrap_setting_value (st_value r) of None \<Rightarrow> [] | Some s \<Rightarrow> js_trim s)
             in if value = [] then fallback else value))"

definition get_payslip_prefix :: "ctx \<Rightarrow> setting_row list \<Rightarrow> string" where
  "get_payslip_prefix c rows = get_setting_string c rows ''PAYSLIP_NUMBER_PREFIX'' ''PS''"

definition get_default_currency :: "ctx \<Rightarrow> setting_row list \<Rightarrow> string" where
  "get_default_currency c rows = get_setting_string c rows ''DEFAULT_PAYROLL_CURRENCY'' ''UGX''"

text \<open>
  \<open>next_doc_no\<close>: the next number of the tenant's series for a prefix. The year that the SQL function
  puts between prefix and number is an argument.
\<close>

definition next_doc ::
  "int \<Rightarrow> ctx \<Rightarrow> string \<Rightarrow> (row_id option \<times> string \<Rightarrow> nat)
     \<Rightarrow> string \<times> (row_id option \<times> string \<Rightarrow> nat)" where
  "next_doc year c prefix docs =
     (let n = Suc (docs (cx_tenant c, prefix)) in
      (prefix @ ''-'' @ string_of_int year @ ''-'' @ pad_left 8 (CHR ''0'') (string_of_nat n),
       docs((cx_tenant c, prefix) := n)))"

subsection \<open>An empty database and sample rows\<close>

text \<open>The concrete values at which the theorems of the payroll theories are exercised.\<close>

definition empty_payroll_db :: payroll_db where
  "empty_payroll_db =
     \<lparr>db_runs = [], db_employees = [], db_contracts = [], db_profiles = [], db_groups = [],
      db_leaves = [], db_attendance = [], db_periods = [], db_statutory = [],
      db_inputs = \<lparr>pt_components = [], pt_definitions = [], pt_overtime = [], pt_bonuses = [],
        pt_commissions = [], pt_earnings = [], pt_deductions = [], pt_benefits = [], pt_salaries = []\<rparr>,
      db_loans = [], db_advances = [], db_fines = [], db_arrears = [], db_items = [], db_entries = [],
      db_exceptions = [], db_repayments = [], db_settings = [], db_documents = (\<lambda>_. 0), db_next = 1,
      db_audit = [], db_events = []\<rparr>"

definition sample_run :: payroll_run where
  "sample_run =
     \<lparr>run_id = 7, run_tenant = 1, run_company = 2, run_no = ''PAY-1'', run_start = 20454, run_end = 20484,
      run_status = R_DRAFT, run_currency = ''UGX'', run_type = ''NORMAL'', run_off_cycle_type = None,
      run_employees = [], run_extra_earnings = 0, run_extra_deductions = 0, run_deduct_loans = True,
      run_deduct_advances = True, run_group = None, run_gross = Num 0, run_deductions = Num 0,
      run_net = Num 0, run_config = None, run_score = 100, run_gl_posted = False, run_gl_journal = None\<rparr>"

definition sample_employee :: "row_id \<Rightarrow> rat \<Rightarrow> employee" where
  "sample_employee i base =
     \<lparr>em_id = i, em_tenant = 1, em_company = 2, em_no = ''E'', em_first = ''A'', em_last = ''B'',
      em_base = base, em_hire = None, em_termination = None, em_status = ''ACTIVE'', em_enabled = True,
      em_secondary = False, em_tin = Some ''T'', em_bank = None\<rparr>"

definition sample_ctx :: ctx where
  "sample_ctx = \<lparr>cx_tenant = Some 1, cx_company = Some 2, cx_branch = None, cx_user = Some 9\<rparr>"

lemmas sample_defs = empty_payroll_db_def sample_run_def sample_employee_def sample_ctx_def

end
