(* ===== verification/Payroll_Validation.thy ===== *)
theory Payroll_Validation
  imports Payroll_Data "HOL-Library.List_Lexorder"
begin

text \<open>
  Readiness checks of a payroll run, \<^verbatim>\<open>apps/api/src/services/payrollValidation.ts\<close>: the eligible
  staff, the suite of checks, the reconciliation of the stored exceptions with the current checks,
  the readiness score, and the resolution of an exception by a reviewer.
\<close>

subsection \<open>Eligible staff\<close>

definition in_group :: "payroll_db \<Rightarrow> row_id option \<Rightarrow> employee \<Rightarrow> bool" where
  "in_group db grp e \<longleftrightarrow>
     (case grp of None \<Rightarrow> True
      | Some g \<Rightarrow> exists_where (\<lambda>p. pp_employee p = em_id e \<and> pp_group p = Some g
                     \<and> pp_tenant p = em_tenant e \<and> pp_company p = em_company e) (db_profiles db))"

definition on_roll :: "ctx \<Rightarrow> date \<Rightarrow> employee \<Rightarrow> bool" where
  "on_roll c period_start e \<longleftrightarrow>
     own_company c (em_tenant e) (em_company e)
     \<and> em_status e \<in> {''ACTIVE'', ''ON_LEAVE'', ''PROBATION''}
     \<and> (case em_termination e of None \<Rightarrow> True | Some d \<Rightarrow> period_start \<le> d)"

definition is_off_cycle :: "payroll_run \<Rightarrow> bool" where
  "is_off_cycle r \<longleftrightarrow> run_type r = ''OFF_CYCLE''"

definition selected_employees :: "payroll_run \<Rightarrow> row_id list" where
  "selected_employees r = (if is_off_cycle r then filter (\<lambda>n. 0 < n) (run_employees r) else [])"

definition eligible_staff :: "ctx \<Rightarrow> payroll_run \<Rightarrow> payroll_db \<Rightarrow> employee list" where
  "eligible_staff c r db =
     (if is_off_cycle r
      then filter (\<lambda>e. own_company c (em_tenant e) (em_company e)
                     \<and> em_id e \<in> set (selected_employees r)) (db_employees db)
      else filter (\<lambda>e. on_roll c (run_start r) e \<and> em_enabled e \<and> in_group db (run_group r) e)
             (db_employees db))"

text \<open>
  \<open>loadEligibleStaff\<close> tests the group for truthiness where \<open>calculatePayroll\<close> tests it for
  \<open>null\<close>; ids start at 1, so the two select the same staff.
\<close>

definition load_eligible_staff :: "ctx \<Rightarrow> payroll_run \<Rightarrow> payroll_db \<Rightarrow> employee list" where
  "load_eligible_staff c r db =
     (if is_off_cycle r
      then filter (\<lambda>e. own_company c (em_tenant e) (em_company e)
                     \<and> em_id e \<in> set (selected_employees r)) (db_employees db)
      else filter (\<lambda>e. on_roll c (run_start r) e \<and> em_enabled e
                     \<and> in_group db (if run_group r = Some 0 then None else run_group r) e)
             (db_employees db))"

subsection \<open>The checks\<close>

record validation_check =
  vc_employee :: "row_id option"
  vc_type :: string
  vc_severity :: check_severity
  vc_message :: string

definition check_of :: "row_id option \<Rightarrow> string \<Rightarrow> check_severity \<Rightarrow> string \<Rightarrow> validation_check" where
  "check_of e t s m = \<lparr>vc_employee = e, vc_type = t, vc_severity = s, vc_message = m\<rparr>"

definition blank :: "string option \<Rightarrow> bool" where
  "blank v = (case v of None \<Rightarrow> True | Some s \<Rightarrow> js_trim s = [])"

definition employee_checks :: "date \<Rightarrow> employee \<Rightarrow> validation_check list" where
  "employee_checks period_start e =
     (if em_base e \<le> 0
      then [check_of (Some (em_id e)) ''NO_SALARY'' CK_ERROR
              ''Employee has no salary configured (base salary is zero)''] else [])
   @ (if em_status e = ''TERMINATED''
         \<or> (case em_termination e of None \<Rightarrow> False | Some d \<Rightarrow> d < period_start)
      then [check_of (Some (em_id e)) ''TERMINATED_INCLUDED'' CK_ERROR
              ''Terminated employee included in payroll run''] else [])
   @ (if blank (em_bank e)
      then [check_of (Some (em_id e)) ''MISSING_BANK_ACCOUNT'' CK_WARNING
              ''Employee has no bank account for payment''] else [])
   @ (if blank (em_tin e)
      then [check_of (Some (em_id e)) ''MISSING_TAX_PROFILE'' CK_WARNING
              ''Employee has no tax identification (TIN) on file''] else [])"

definition outside_payroll_checks :: "ctx \<Rightarrow> payroll_run \<Rightarrow> payroll_db \<Rightarrow> validation_check list" where
  "outside_payroll_checks c r db =
     (if is_off_cycle r then []
      else map (\<lambda>e. check_of (Some (em_id e)) ''PAID_OUTSIDE_PAYROLL'' CK_WARNING
                  (em_first e @ '' '' @ em_last e @ '' ('' @ em_no e
                     @ '') is paid outside payroll and is excluded from this run''))
             (sort_key (\<lambda>e. map char_code (em_no e))
               (filter (\<lambda>e. on_roll c (run_start r) e \<and> \<not> em_enabled e) (db_employees db))))"

definition group_checks :: "ctx \<Rightarrow> payroll_run \<Rightarrow> payroll_db \<Rightarrow> validation_check list" where
  "group_checks c r db =
     (case run_group r of
        None \<Rightarrow> []
      | Some g \<Rightarrow>
          if is_off_cycle r \<or> g = 0 then []
          else
            (let grp = find (\<lambda>x. pg_id x = g \<and> own_company c (pg_tenant x) (pg_company x)) (db_groups db);
                 profiles = (\<lambda>e. filter (\<lambda>p. pp_employee p = em_id e \<and> pp_tenant p = em_tenant e
                                          \<and> pp_company p = em_company e) (db_profiles db));
                 staff = filter (\<lambda>e. on_roll c (run_start r) e \<and> em_enabled e) (db_employees db);
                 joined = concat (map (\<lambda>e. if profiles e = [] then [(e, None)]
                                           else map (\<lambda>p. (e, Some p)) (profiles e)) staff);
                 outside = filter (\<lambda>(e, p). case p of None \<Rightarrow> True | Some q \<Rightarrow> pp_group q \<noteq> Some g) joined
             in (case grp of
                   None \<Rightarrow> [check_of None ''PAYROLL_GROUP_INACTIVE'' CK_ERROR
                              ''Payroll group configured on this run no longer exists'']
                 | Some x \<Rightarrow>
                     if pg_status x \<noteq> ''ACTIVE''
                     then [check_of None ''PAYROLL_GROUP_INACTIVE'' CK_ERROR
                             ''Payroll group configured on this run is inactive'']
                     else [])
              @ map (\<lambda>(e, p). check_of (Some (em_id e)) ''PAID_OUTSIDE_PAYROLL_GROUP'' CK_ERROR
                  (if (case p of None \<Rightarrow> True | Some q \<Rightarrow> pp_group q = None)
                   then ''Employee has no payroll group assignment for this run''
                   else ''Employee is assigned to a different payroll group'')) outside))"

definition negative_pay_checks :: "row_id \<Rightarrow> payroll_db \<Rightarrow> validation_check list" where
  "negative_pay_checks payroll db =
     map (\<lambda>i. check_of (Some (ps_employee i)) ''NEGATIVE_NET_PAY'' CK_ERROR
                ''Net pay is negative after deductions'')
       (filter (\<lambda>i. ps_payroll i = payroll \<and> js_lt (ps_net i) (Num 0)) (db_items db))"

definition period_of :: "payroll_db \<Rightarrow> attendance_row \<Rightarrow> attendance_period option" where
  "period_of db a =
     (case at_period a of None \<Rightarrow> None
      | Some p \<Rightarrow> find (\<lambda>x. ap_id x = p \<and> ap_tenant x = at_tenant a \<and> ap_company x = at_company a)
                    (db_periods db))"

definition attendance_checks :: "ctx \<Rightarrow> payroll_run \<Rightarrow> payroll_db \<Rightarrow> validation_check list" where
  "attendance_checks c r db =
     (let rows = filter (\<lambda>a. own_company c (at_tenant a) (at_company a)
                          \<and> run_start r \<le> at_date a \<and> at_date a \<le> run_end r) (db_attendance db);
          locked = filter (\<lambda>a. map_option ap_status (period_of db a) = Some ''LOCKED'') rows
      in if length locked < length rows
         then [check_of None ''ATTENDANCE_PERIOD_NOT_LOCKED'' CK_WARNING
           ''Attendance for this period is not fully locked, so no absence days are deducted from pay'']
         else [])"

definition run_checks :: "ctx \<Rightarrow> payroll_run \<Rightarrow> payroll_db \<Rightarrow> validation_check list" where
  "run_checks c r db =
     concat (map (employee_checks (run_start r)) (load_eligible_staff c r db))
   @ outside_payroll_checks c r db
   @ group_checks c r db
   @ negative_pay_checks (run_id r) db
   @ attendance_checks c r db"

subsection \<open>Reconciliation of the stored exceptions\<close>

type_synonym check_key = "row_id option \<times> string"

definition check_key :: "validation_check \<Rightarrow> check_key" where
  "check_key ck = (vc_employee ck, vc_type ck)"

definition exception_key :: "payroll_exception \<Rightarrow> check_key" where
  "exception_key x = (px_employee x, px_type x)"

text \<open>
  The stale pass deletes the open exceptions whose condition is gone. The \<open>byKey\<close> map is built from
  the rows read before the deletions; a later row of the same key replaces an earlier one.
\<close>

definition delete_stale :: "check_key set \<Rightarrow> payroll_exception list \<Rightarrow> row_id list" where
  "delete_stale keys existing =
     map px_id (filter (\<lambda>x. px_status x = EX_OPEN \<and> exception_key x \<notin> keys) existing)"

definition by_key :: "payroll_exception list \<Rightarrow> (check_key \<rightharpoonup> row_id \<times> exception_status)" where
  "by_key existing = fold (\<lambda>x m. m(exception_key x \<mapsto> (px_id x, px_status x))) existing Map.empty"

definition apply_check ::
  "row_id \<Rightarrow> (check_key \<rightharpoonup> row_id \<times> exception_status) \<Rightarrow> validation_check
     \<Rightarrow> payroll_exception list \<times> row_id \<Rightarrow> payroll_exception list \<times> row_id" where
  "apply_check payroll keys ck = (\<lambda>(rows, next_id).
     case keys (check_key ck) of
       None \<Rightarrow>
         (rows @ [\<lparr>px_id = next_id, px_payroll = payroll, px_employee = vc_employee ck,
                   px_type = vc_type ck, px_severity = vc_severity ck, px_message = vc_message ck,
                   px_status = EX_OPEN, px_resolved_by = None, px_note = None\<rparr>], Suc next_id)
     | Some (i, s) \<Rightarrow>
         (if s = EX_OPEN
          then update_where (\<lambda>x. px_id x = i)
                 (\<lambda>x. x\<lparr>px_severity := vc_severity ck, px_message := vc_message ck\<rparr>) rows
          else rows, next_id))"

definition reconcile ::
  "row_id \<Rightarrow> validation_check list \<Rightarrow> payroll_exception list \<times> row_id \<Rightarrow> payroll_exception list \<times> row_id" where
  "reconcile payroll checks = (\<lambda>(rows, next_id).
     let existing = filter (\<lambda>x. px_payroll x = payroll) rows;
         stale = delete_stale (set (map check_key checks)) existing
     in fold (apply_check payroll (by_key existing)) checks
          (filter (\<lambda>x. px_id x \<notin> set stale) rows, next_id))"

subsection \<open>Score and validation\<close>

definition count_severity :: "check_severity \<Rightarrow> validation_check list \<Rightarrow> nat" where
  "count_severity s checks = length (filter (\<lambda>ck. vc_severity ck = s) checks)"

definition validation_score :: "validation_check list \<Rightarrow> int" where
  "validation_score checks =
     max 0 (100 - int (count_severity CK_ERROR checks) * 25 - int (count_severity CK_WARNING checks) * 5)"

record validation_result =
  vr_payroll :: row_id
  vr_score :: int
  vr_errors :: nat
  vr_warnings :: nat
  vr_exceptions :: nat
  vr_ready :: bool

definition validate_payroll :: "ctx \<Rightarrow> row_id \<Rightarrow> payroll_db \<Rightarrow> (validation_result \<times> payroll_db) result" where
  "validate_payroll c payroll db =
     (case find_run c payroll db of
        None \<Rightarrow> Inl (NotFound ''Payroll not found'')
      | Some r \<Rightarrow>
          (let checks = run_checks c r db;
               (rows, next_id) = reconcile payroll checks (db_exceptions db, db_next db);
               errors = count_severity CK_ERROR checks;
               warnings = count_severity CK_WARNING checks;
               score = validation_score checks;
               db1 = (update_run payroll (\<lambda>x. x\<lparr>run_score := score\<rparr>) db)
                       \<lparr>db_exceptions := rows, db_next := next_id\<rparr>;
               db2 = db1\<lparr>db_audit := log_audit c
                       \<lparr>ae_action = ''validate'', ae_resource = ''payrolls'', ae_record = Some payroll,
                        ae_code = Some (run_no r), ae_old = [],
                        ae_new = [(''validationScore'', JNum (of_int score)), (''errors'', JNum (of_nat errors)),
                                  (''warnings'', JNum (of_nat warnings)),
                                  (''exceptionCount'', JNum (of_nat (length checks)))]\<rparr> (db_audit db1)\<rparr>
           in Inr (\<lparr>vr_payroll = payroll, vr_score = score, vr_errors = errors, vr_warnings = warnings,
                    vr_exceptions = length checks, vr_ready = (errors = 0)\<rparr>, db2)))"

definition count_open_errors :: "row_id \<Rightarrow> payroll_db \<Rightarrow> nat" where
  "count_open_errors payroll db =
     length (filter (\<lambda>x. px_payroll x = payroll \<and> px_severity x = CK_ERROR \<and> px_status x = EX_OPEN)
       (db_exceptions db))"

subsection \<open>Resolving an exception\<close>

definition resolution_of_string :: "string \<Rightarrow> exception_status option" where
  "resolution_of_string s =
     (let t = js_upper s in
      if t = ''RESOLVED'' then Some EX_RESOLVED else if t = ''IGNORED'' then Some EX_IGNORED else None)"

definition resolve_exception ::
  "ctx \<Rightarrow> row_id \<Rightarrow> string \<Rightarrow> string option \<Rightarrow> payroll_db \<Rightarrow> (validation_result \<times> payroll_db) result" where
  "resolve_exception c ex status note db =
     (case resolution_of_string status of
        None \<Rightarrow> Inl (BadRequest ''Resolution status must be RESOLVED or IGNORED'')
      | Some target \<Rightarrow>
          (case find (\<lambda>(x, r). px_id x = ex) [(x, r). x \<leftarrow> db_exceptions db, r \<leftarrow> db_runs db,
                   run_id r = px_payroll x \<and> own_company c (run_tenant r) (run_company r)] of
             None \<Rightarrow> Inl (NotFound ''Exception not found'')
           | Some (x, r) \<Rightarrow>
               if px_status x \<noteq> EX_OPEN
               then Inl (BadRequest ''This exception is already resolved or ignored'')
               else if run_status r \<notin> {R_DRAFT, R_SUBMITTED}
               then Inl (BadRequest ''Cannot resolve exceptions on a payroll run that is no longer in progress'')
               else
                 (let db1 = db\<lparr>db_exceptions := update_where (\<lambda>y. px_id y = ex \<and> px_status y = EX_OPEN)
                              (\<lambda>y. y\<lparr>px_status := target, px_resolved_by := cx_user c, px_note := note\<rparr>)
                              (db_exceptions db)\<rparr>;
                      db2 = db1\<lparr>db_audit := log_audit c
                              \<lparr>ae_action = ''resolve-exception'', ae_resource = ''payroll_exceptions'',
                               ae_record = Some ex, ae_code = Some (run_no r),
                               ae_old = [(''status'', JStr ''OPEN'')],
                               ae_new = [(''status'', JStr (js_upper status)),
                                         (''note'', (case note of None \<Rightarrow> JNull | Some s \<Rightarrow> JStr s))]\<rparr>
                              (db_audit db1)\<rparr>
                  in validate_payroll c (px_payroll x) db2)))"

subsection \<open>What reconciliation keeps and adds\<close>

text \<open>
  The identity of an exception: everything but its severity, message and resolution note. A check
  that finds an open exception only refreshes severity and message, so the list of identities is
  the old one followed by the new exceptions.
\<close>

definition identity :: "payroll_exception \<Rightarrow> row_id \<times> row_id \<times> check_key \<times> exception_status" where
  "identity x = (px_id x, px_payroll x, exception_key x, px_status x)"

fun fresh ::
  "row_id \<Rightarrow> (check_key \<rightharpoonup> row_id \<times> exception_status) \<Rightarrow> row_id \<Rightarrow> validation_check list
     \<Rightarrow> (row_id \<times> row_id \<times> check_key \<times> exception_status) list" where
  "fresh payroll keys n [] = []"
| "fresh payroll keys n (ck # cks) =
     (if keys (check_key ck) = None
      then (n, payroll, check_key ck, EX_OPEN) # fresh payroll keys (Suc n) cks
      else fresh payroll keys n cks)"

lemma identity_update [simp]:
  "map identity (update_where p (\<lambda>x. x\<lparr>px_severity := s, px_message := m\<rparr>) rows) = map identity rows"
  by (rule map_update_where_same) (simp add: identity_def exception_key_def)

lemma apply_check_identities:
  "map identity (fst (apply_check payroll keys ck (rows, n))) =
     map identity rows @ (if keys (check_key ck) = None then [(n, payroll, check_key ck, EX_OPEN)] else [])"
  "snd (apply_check payroll keys ck (rows, n)) = (if keys (check_key ck) = None then Suc n else n)"
  by (auto simp: apply_check_def split: option.splits)
    (simp add: identity_def exception_key_def check_key_def)

lemma identities_after_checks:
  "map identity (fst (fold (apply_check payroll keys) cks (rows, n)))
     = map identity rows @ fresh payroll keys n cks
   \<and> snd (fold (apply_check payroll keys) cks (rows, n)) = n + length (fresh payroll keys n cks)"
proof (induction cks arbitrary: rows n)
  case Nil
  show ?case by simp
next
  case (Cons ck cks)
  obtain rows' n' where step: "apply_check payroll keys ck (rows, n) = (rows', n')" by fastforce
  show ?case
    using apply_check_identities [of payroll keys ck rows n] Cons.IH [of rows' n']
    by (auto simp: step)
qed

lemma fresh_ids: "(i, p, k, s) \<in> set (fresh payroll keys n cks) \<Longrightarrow> n \<le> i"
  by (induction cks arbitrary: n) (fastforce split: if_splits)+

lemma fresh_iff:
  "(\<exists>i. (i, p, k, s) \<in> set (fresh payroll keys n cks)) \<longleftrightarrow>
     p = payroll \<and> s = EX_OPEN \<and> keys k = None \<and> k \<in> check_key ` set cks"
  by (induction cks arbitrary: n) auto

text \<open>
  The invariant of the table: ids are unique and below the sequence, and a run has at most one
  exception per employee and type.
\<close>

definition exceptions_ok :: "payroll_exception list \<Rightarrow> row_id \<Rightarrow> bool" where
  "exceptions_ok rows n \<longleftrightarrow> distinct (map px_id rows) \<and> (\<forall>x\<in>set rows. px_id x < n)"

definition keys_unique :: "row_id \<Rightarrow> payroll_exception list \<Rightarrow> bool" where
  "keys_unique payroll rows \<longleftrightarrow> distinct (map exception_key (filter (\<lambda>x. px_payroll x = payroll) rows))"

definition keys_with :: "row_id \<Rightarrow> exception_status \<Rightarrow> payroll_exception list \<Rightarrow> check_key set" where
  "keys_with payroll s rows = exception_key ` {x \<in> set rows. px_payroll x = payroll \<and> px_status x = s}"

lemma keys_with_identity:
  "k \<in> keys_with payroll s rows \<longleftrightarrow> (\<exists>i. (i, payroll, k, s) \<in> set (map identity rows))"
  by (auto simp: keys_with_def identity_def image_iff)

lemma keys_unique_identity:
  "keys_unique payroll rows \<longleftrightarrow>
     distinct (map (fst \<circ> snd \<circ> snd) (filter (\<lambda>(i, p, k, s). p = payroll) (map identity rows)))"
  by (simp add: keys_unique_def filter_map comp_def identity_def)

lemma exceptions_ok_identity:
  "exceptions_ok rows n \<longleftrightarrow>
     distinct (map fst (map identity rows)) \<and> (\<forall>c\<in>set (map identity rows). fst c < n)"
  by (simp add: exceptions_ok_def comp_def identity_def)

lemma keys_with_code:
  "keys_with payroll s rows =
     set (map exception_key (filter (\<lambda>x. px_payroll x = payroll \<and> px_status x = s) rows))"
  by (simp add: keys_with_def)

lemma by_key_Some:
  assumes "distinct (map exception_key rows)"
  shows "by_key rows k = Some (i, s) \<longleftrightarrow> (\<exists>x\<in>set rows. exception_key x = k \<and> px_id x = i \<and> px_status x = s)"
proof -
  have "fold (\<lambda>x m. m(exception_key x \<mapsto> (px_id x, px_status x))) rows m k =
      (case find (\<lambda>x. exception_key x = k) rows of None \<Rightarrow> m k | Some x \<Rightarrow> Some (px_id x, px_status x))"
    if "distinct (map exception_key rows)" for rows m
    using that
  proof (induction rows arbitrary: m)
    case (Cons x rows)
    have "find (\<lambda>y. exception_key y = k) rows = None" if "exception_key x = k"
      using Cons.prems that by (force simp: find_None_iff_mem image_iff)
    with Cons show ?case by simp
  qed simp
  from this [OF assms, of Map.empty]
  have eq: "by_key rows k = map_option (\<lambda>x. (px_id x, px_status x)) (find (\<lambda>x. exception_key x = k) rows)"
    by (simp add: by_key_def split: option.splits)
  have uniq: "x = y" if "x \<in> set rows" "y \<in> set rows" "exception_key x = exception_key y" for x y
    using assms that by (auto simp: distinct_map dest: inj_onD)
  show ?thesis
    unfolding eq
    by (cases "find (\<lambda>x. exception_key x = k) rows")
      (auto simp: find_None_iff_mem dest!: find_Some_iff_mem dest: uniq)
qed

lemma by_key_None:
  "distinct (map exception_key rows) \<Longrightarrow> by_key rows k = None \<longleftrightarrow> k \<notin> exception_key ` set rows"
  using by_key_Some [of rows k] by (cases "by_key rows k") (auto simp: image_iff)

definition run_exceptions :: "row_id \<Rightarrow> payroll_exception list \<Rightarrow> payroll_exception list" where
  "run_exceptions payroll rows = filter (\<lambda>x. px_payroll x = payroll) rows"

definition kept_exceptions ::
  "row_id \<Rightarrow> validation_check list \<Rightarrow> payroll_exception list \<Rightarrow> payroll_exception list" where
  "kept_exceptions payroll checks rows =
     filter (\<lambda>x. px_id x \<notin> set (delete_stale (set (map check_key checks)) (run_exceptions payroll rows))) rows"

lemma same_exception:
  "exceptions_ok rows n \<Longrightarrow> x \<in> set rows \<Longrightarrow> y \<in> set rows \<Longrightarrow> px_id x = px_id y \<Longrightarrow> x = y"
  by (auto simp: exceptions_ok_def distinct_map dest: inj_onD)

lemma kept_exceptions_iff:
  assumes "exceptions_ok rows n"
  shows "x \<in> set (kept_exceptions payroll checks rows) \<longleftrightarrow> x \<in> set rows \<and>
     (px_payroll x = payroll \<and> px_status x = EX_OPEN \<longrightarrow> exception_key x \<in> check_key ` set checks)"
  using same_exception [OF assms]
  by (auto simp: kept_exceptions_def delete_stale_def run_exceptions_def)

lemma run_exceptions_keys:
  "keys_unique payroll rows \<Longrightarrow> distinct (map exception_key (run_exceptions payroll rows))"
  by (simp add: keys_unique_def run_exceptions_def)

lemma same_key:
  assumes "keys_unique payroll rows" "x \<in> set rows" "y \<in> set rows"
    "px_payroll x = payroll" "px_payroll y = payroll" "exception_key x = exception_key y"
  shows "x = y"
  using assms by (auto simp: keys_unique_def distinct_map dest: inj_onD)

lemma reconcile_fold:
  "reconcile payroll checks (rows, n) =
     fold (apply_check payroll (by_key (run_exceptions payroll rows))) checks
       (kept_exceptions payroll checks rows, n)"
  by (simp add: reconcile_def Let_def run_exceptions_def kept_exceptions_def)

lemma reconcile_identities:
  "map identity (fst (reconcile payroll checks (rows, n)))
     = map identity (kept_exceptions payroll checks rows)
       @ fresh payroll (by_key (run_exceptions payroll rows)) n checks"
  "snd (reconcile payroll checks (rows, n))
     = n + length (fresh payroll (by_key (run_exceptions payroll rows)) n checks)"
  using identities_after_checks [of payroll "by_key (run_exceptions payroll rows)" checks
      "kept_exceptions payroll checks rows" n]
  by (simp_all add: reconcile_fold)

definition has_exception :: "row_id \<Rightarrow> payroll_exception list \<Rightarrow> check_key \<Rightarrow> bool" where
  "has_exception payroll rows k \<longleftrightarrow> (\<exists>x\<in>set rows. px_payroll x = payroll \<and> exception_key x = k)"

lemma fresh_open_iff:
  assumes "keys_unique payroll rows"
  shows "(\<exists>i. (i, payroll, k, EX_OPEN) \<in> set (fresh payroll (by_key (run_exceptions payroll rows)) n checks))
     \<longleftrightarrow> k \<in> check_key ` set checks \<and> \<not> has_exception payroll rows k"
proof -
  have "by_key (run_exceptions payroll rows) k = None \<longleftrightarrow> \<not> has_exception payroll rows k"
    unfolding by_key_None [OF run_exceptions_keys [OF assms]]
    by (auto simp: run_exceptions_def has_exception_def image_iff)
  then show ?thesis unfolding fresh_iff by (simp add: conj_commute)
qed

lemma has_exception_split:
  "has_exception payroll rows k \<longleftrightarrow>
     k \<in> keys_with payroll EX_OPEN rows \<or> k \<in> keys_with payroll EX_RESOLVED rows
     \<or> k \<in> keys_with payroll EX_IGNORED rows"
proof -
  have "has_exception payroll rows k \<longleftrightarrow> (\<exists>s. k \<in> keys_with payroll s rows)"
    by (auto simp: has_exception_def keys_with_def)
  then show ?thesis by (metis exception_status.exhaust)
qed

lemma one_status:
  "keys_unique payroll rows \<Longrightarrow> k \<in> keys_with payroll s rows \<Longrightarrow> k \<in> keys_with payroll t rows \<Longrightarrow> s = t"
  by (auto simp: keys_with_def dest: same_key)

lemma reconcile_open_keys:
  assumes ok: "exceptions_ok rows n" and uniq: "keys_unique payroll rows"
  shows "keys_with payroll EX_OPEN (fst (reconcile payroll checks (rows, n))) =
     check_key ` set checks - keys_with payroll EX_RESOLVED rows - keys_with payroll EX_IGNORED rows"
proof (rule set_eqI)
  fix k
  have old: "k \<in> keys_with payroll EX_OPEN (kept_exceptions payroll checks rows) \<longleftrightarrow>
      k \<in> keys_with payroll EX_OPEN rows \<and> k \<in> check_key ` set checks"
    by (auto simp: keys_with_def kept_exceptions_iff [OF ok])
  have "k \<in> keys_with payroll EX_OPEN (fst (reconcile payroll checks (rows, n))) \<longleftrightarrow>
      k \<in> check_key ` set checks
      \<and> (k \<in> keys_with payroll EX_OPEN rows \<or> \<not> has_exception payroll rows k)"
  proof -
    have "k \<in> keys_with payroll EX_OPEN (fst (reconcile payroll checks (rows, n))) \<longleftrightarrow>
        (\<exists>i. (i, payroll, k, EX_OPEN) \<in> set (map identity (kept_exceptions payroll checks rows)))
        \<or> (\<exists>i. (i, payroll, k, EX_OPEN)
              \<in> set (fresh payroll (by_key (run_exceptions payroll rows)) n checks))"
      unfolding keys_with_identity reconcile_identities(1) set_append by blast
    then show ?thesis
      unfolding fresh_open_iff [OF uniq] keys_with_identity [symmetric] old by blast
  qed
  also have "\<dots> \<longleftrightarrow> k \<in> check_key ` set checks - keys_with payroll EX_RESOLVED rows
      - keys_with payroll EX_IGNORED rows"
    using one_status [OF uniq] by (fastforce simp: has_exception_split)
  finally show "k \<in> keys_with payroll EX_OPEN (fst (reconcile payroll checks (rows, n))) \<longleftrightarrow>
      k \<in> check_key ` set checks - keys_with payroll EX_RESOLVED rows - keys_with payroll EX_IGNORED rows" .
qed

text \<open>Closed rows and rows of other runs are not touched by a check, which updates open rows of the run.\<close>

lemma untouched_by_checks:
  assumes "x \<in> set rows"
    and "\<And>ck i. ck \<in> set cks \<Longrightarrow> keys (check_key ck) = Some (i, EX_OPEN) \<Longrightarrow> i \<noteq> px_id x"
  shows "x \<in> set (fst (fold (apply_check payroll keys) cks (rows, n)))"
  using assms
proof (induction cks arbitrary: rows n)
  case (Cons ck cks)
  obtain rows' n' where step: "apply_check payroll keys ck (rows, n) = (rows', n')" by fastforce
  have "x \<in> set rows'"
  proof (cases "keys (check_key ck)")
    case (Some p)
    obtain i s where p: "p = (i, s)" by (cases p)
    have "s = EX_OPEN \<Longrightarrow> px_id x \<noteq> i" using Cons.prems(2) [of ck i] Some p by auto
    then show ?thesis
      using step Some p Cons.prems(1) by (force simp: apply_check_def set_update_where split: if_splits)
  qed (use step Cons.prems(1) in \<open>auto simp: apply_check_def\<close>)
  then have "x \<in> set (fst (fold (apply_check payroll keys) cks (rows', n')))"
    by (rule Cons.IH) (use Cons.prems(2) in auto)
  then show ?case by (simp add: step)
qed simp

lemma reconcile_keeps:
  assumes ok: "exceptions_ok rows n" and uniq: "keys_unique payroll rows"
    and x: "x \<in> set rows" and closed: "px_payroll x \<noteq> payroll \<or> px_status x \<noteq> EX_OPEN"
  shows "x \<in> set (fst (reconcile payroll checks (rows, n)))"
  unfolding reconcile_fold
proof (rule untouched_by_checks)
  show "x \<in> set (kept_exceptions payroll checks rows)"
    using x closed by (auto simp: kept_exceptions_iff [OF ok])
next
  fix ck i
  assume "by_key (run_exceptions payroll rows) (check_key ck) = Some (i, EX_OPEN)"
  then obtain y where "y \<in> set rows" "px_payroll y = payroll" "px_status y = EX_OPEN" "px_id y = i"
    unfolding by_key_Some [OF run_exceptions_keys [OF uniq]] by (auto simp: run_exceptions_def)
  then show "i \<noteq> px_id x" using same_exception [OF ok x] closed by metis
qed

lemma distinct_fresh_ids: "distinct (map fst (fresh payroll keys n cks))"
  by (induction cks arbitrary: n) (fastforce dest: fresh_ids)+

lemma distinct_fresh_keys:
  "distinct (map check_key cks) \<Longrightarrow> distinct (map (fst \<circ> snd \<circ> snd) (fresh payroll keys n cks))"
proof (induction cks arbitrary: n)
  case (Cons ck cks)
  have "check_key ck \<noteq> k" if "(i, p, k, s) \<in> set (fresh payroll keys m cks)" for i p k s m
    using that fresh_iff [of p k s payroll keys m cks] Cons.prems by auto
  then show ?case using Cons by (force simp del: split_paired_All)
qed simp

lemma fresh_below: "(i, p, k, s) \<in> set (fresh payroll keys n cks) \<Longrightarrow> i < n + length (fresh payroll keys n cks)"
  by (induction cks arbitrary: n) (fastforce split: if_splits)+

lemma reconcile_ok:
  assumes ok: "exceptions_ok rows n"
  shows "exceptions_ok (fst (reconcile payroll checks (rows, n))) (snd (reconcile payroll checks (rows, n)))"
proof -
  have kept: "distinct (map px_id (kept_exceptions payroll checks rows))"
    using ok by (auto simp: exceptions_ok_def kept_exceptions_def distinct_map_filter)
  have below: "px_id x < n" if "x \<in> set (kept_exceptions payroll checks rows)" for x
    using that ok by (auto simp: kept_exceptions_iff [OF ok] exceptions_ok_def)
  show ?thesis
    unfolding exceptions_ok_identity reconcile_identities
    using kept below distinct_fresh_ids
    by (fastforce simp: identity_def comp_def dest: fresh_ids fresh_below)
qed

lemma reconcile_keys_unique:
  assumes ok: "exceptions_ok rows n" and uniq: "keys_unique payroll rows"
    and once: "distinct (map check_key checks)"
  shows "keys_unique payroll (fst (reconcile payroll checks (rows, n)))"
proof -
  let ?K = "by_key (run_exceptions payroll rows)"
  have "filter (\<lambda>x. px_payroll x = payroll) (kept_exceptions payroll checks rows) =
      filter (\<lambda>x. px_id x \<notin> set (delete_stale (set (map check_key checks)) (run_exceptions payroll rows)))
        (filter (\<lambda>x. px_payroll x = payroll) rows)"
    by (simp add: kept_exceptions_def conj_commute)
  then have kept: "keys_unique payroll (kept_exceptions payroll checks rows)"
    using uniq by (simp add: keys_unique_def distinct_map_filter del: filter_filter)
  have all: "filter (\<lambda>(i, p, k, s). p = payroll) (fresh payroll ?K n checks) = fresh payroll ?K n checks"
    using fresh_iff by (fastforce simp: filter_id_conv)
  have new: "\<not> has_exception payroll rows k" if "(i, p, k, s) \<in> set (fresh payroll ?K n checks)" for i p k s
    using that fresh_iff [of p k s payroll ?K n checks] fresh_open_iff [OF uniq, of k n checks] by blast
  have "k \<notin> (fst \<circ> snd \<circ> snd) ` set (fresh payroll ?K n checks)" if "has_exception payroll rows k" for k
    using that new by (auto simp del: split_paired_All)
  moreover have "has_exception payroll rows k"
    if "k \<in> (fst \<circ> snd \<circ> snd) ` set (filter (\<lambda>(i, p, k, s). p = payroll)
        (map identity (kept_exceptions payroll checks rows)))" for k
    using that by (auto simp: has_exception_def identity_def kept_exceptions_iff [OF ok])
  ultimately have "set (map (fst \<circ> snd \<circ> snd) (filter (\<lambda>(i, p, k, s). p = payroll)
        (map identity (kept_exceptions payroll checks rows))))
      \<inter> set (map (fst \<circ> snd \<circ> snd) (fresh payroll ?K n checks)) = {}"
    unfolding set_map by blast
  then show ?thesis
    using kept distinct_fresh_keys [OF once]
    unfolding keys_unique_identity reconcile_identities filter_append map_append all distinct_append
    by blast
qed

subsection \<open>Properties\<close>

lemma validate_payroll_Inr:
  assumes "find_run c payroll db = Some r"
  shows "validate_payroll c payroll db = Inr (res, db') \<Longrightarrow>
      db_exceptions db' = fst (reconcile payroll (run_checks c r db) (db_exceptions db, db_next db))
      \<and> db_next db' = snd (reconcile payroll (run_checks c r db) (db_exceptions db, db_next db))
      \<and> db_items db' = db_items db
      \<and> vr_score res = validation_score (run_checks c r db)
      \<and> vr_errors res = count_severity CK_ERROR (run_checks c r db)
      \<and> vr_ready res = (count_severity CK_ERROR (run_checks c r db) = 0)
      \<and> db_runs db' = update_where (\<lambda>x. run_id x = payroll)
           (\<lambda>x. x\<lparr>run_score := validation_score (run_checks c r db)\<rparr>) (db_runs db)"
  using assms by (auto simp: validate_payroll_def Let_def update_run_def split: prod.splits)

lemma validate_payroll_returns:
  assumes "find_run c payroll db = Some r"
  obtains res db' where "validate_payroll c payroll db = Inr (res, db')"
  using assms
  by (cases "reconcile payroll (run_checks c r db) (db_exceptions db, db_next db)")
    (auto simp: validate_payroll_def Let_def)

lemma validation_score_bounds:
  "0 \<le> validation_score checks" "validation_score checks \<le> 100"
  by (simp_all add: validation_score_def)


definition sample_exception :: "row_id \<Rightarrow> row_id \<Rightarrow> string \<Rightarrow> exception_status \<Rightarrow> payroll_exception" where
  "sample_exception i e t s =
     \<lparr>px_id = i, px_payroll = 7, px_employee = Some e, px_type = t, px_severity = CK_WARNING,
      px_message = [], px_status = s, px_resolved_by = None, px_note = None\<rparr>"

definition sample_validation_db :: payroll_db where
  "sample_validation_db = empty_payroll_db
     \<lparr>db_runs := [sample_run], db_employees := [sample_employee 5 0, sample_employee 6 1000],
      db_exceptions := [sample_exception 1 5 ''MISSING_BANK_ACCOUNT'' EX_IGNORED,
                        sample_exception 2 6 ''NO_SALARY'' EX_OPEN],
      db_next := 3\<rparr>"


lemma run_checks_frame:
  "run_checks c r (db\<lparr>db_exceptions := xs, db_audit := au\<rparr>) = run_checks c r db"
proof -
  have "in_group (db\<lparr>db_exceptions := xs, db_audit := au\<rparr>) = in_group db"
    "period_of (db\<lparr>db_exceptions := xs, db_audit := au\<rparr>) = period_of db"
    by (intro ext; simp add: in_group_def period_of_def split: option.split)+
  moreover have "group_checks c r (db\<lparr>db_exceptions := xs, db_audit := au\<rparr>) = group_checks c r db"
    by (cases "run_group r") (simp_all add: group_checks_def)
  ultimately show ?thesis
    by (simp add: run_checks_def load_eligible_staff_def outside_payroll_checks_def
        negative_pay_checks_def attendance_checks_def)
qed

lemma resolution_of_string_closed: "resolution_of_string s = Some t \<Longrightarrow> t \<noteq> EX_OPEN"
  by (auto simp: resolution_of_string_def Let_def split: if_splits)

lemma exceptions_ok_update:
  "exceptions_ok rows n \<Longrightarrow> (\<And>x. px_id (f x) = px_id x) \<Longrightarrow> exceptions_ok (update_where p f rows) n"
  unfolding exceptions_ok_def
  by (simp add: map_update_where_same) (auto simp: set_update_where)

lemma keys_unique_update:
  "keys_unique payroll rows \<Longrightarrow> (\<And>x. exception_key (f x) = exception_key x \<and> px_payroll (f x) = px_payroll x)
    \<Longrightarrow> keys_unique payroll (update_where p f rows)"
proof -
  assume uniq: "keys_unique payroll rows"
    and f: "\<And>x. exception_key (f x) = exception_key x \<and> px_payroll (f x) = px_payroll x"
  have "map exception_key (filter (\<lambda>x. px_payroll x = payroll) (update_where p f rows))
      = map exception_key (filter (\<lambda>x. px_payroll x = payroll) rows)"
    using f by (induction rows) (auto simp: update_where_def)
  then show ?thesis using uniq by (simp add: keys_unique_def)
qed

lemma resolve_exception_Inr:
  assumes "resolve_exception c ex status note db = Inr (res, db')"
  obtains x r target where
    "resolution_of_string status = Some target"
    "x \<in> set (db_exceptions db)" "px_id x = ex" "px_status x = EX_OPEN"
    "r \<in> set (db_runs db)" "run_id r = px_payroll x" "own_company c (run_tenant r) (run_company r)"
    "run_status r \<in> {R_DRAFT, R_SUBMITTED}"
    "\<exists>au. validate_payroll c (px_payroll x)
       (db\<lparr>db_exceptions := update_where (\<lambda>y. px_id y = ex \<and> px_status y = EX_OPEN)
             (\<lambda>y. y\<lparr>px_status := target, px_resolved_by := cx_user c, px_note := note\<rparr>) (db_exceptions db),
           db_audit := au\<rparr>) = Inr (res, db')"
proof -
  from assms obtain target x r where t: "resolution_of_string status = Some target"
    and f: "find (\<lambda>(x, r). px_id x = ex) [(x, r). x \<leftarrow> db_exceptions db, r \<leftarrow> db_runs db,
       run_id r = px_payroll x \<and> own_company c (run_tenant r) (run_company r)] = Some (x, r)"
    by (auto simp: resolve_exception_def split: option.splits)
  show thesis
    by (rule that [of target x r])
      (use assms t find_Some_iff_mem [OF f] in
        \<open>auto simp: resolve_exception_def f Let_def split: if_splits\<close>)
qed

text \<open>
  Resolving an exception. A successful resolution records the decision, the reviewer and the note
  on the exception, which was open and belongs to a run still in progress, and the decision survives
  the validation that follows. The score that the validation stores is the one of the run's checks
  before the decision: resolving or ignoring an exception never changes the score.
\<close>

theorem resolution_survives_validation:
  assumes "exceptions_ok (db_exceptions db) (db_next db)"
    and "x \<in> set (db_exceptions db)" and "px_id x = ex"
    and "keys_unique (px_payroll x) (db_exceptions db)"
    and "find_run c (px_payroll x) db = Some r"
    and "resolve_exception c ex status note db = Inr (res, db')"
  shows "px_status x = EX_OPEN
    \<and> (\<exists>target. resolution_of_string status = Some target \<and>
         x\<lparr>px_status := target, px_resolved_by := cx_user c, px_note := note\<rparr> \<in> set (db_exceptions db'))
    \<and> vr_score res = validation_score (run_checks c r db)"
proof -
  from assms(6) obtain x' r' target au where t: "resolution_of_string status = Some target"
    and x': "x' \<in> set (db_exceptions db)" "px_id x' = ex" "px_status x' = EX_OPEN"
    and v: "validate_payroll c (px_payroll x')
       (db\<lparr>db_exceptions := update_where (\<lambda>y. px_id y = ex \<and> px_status y = EX_OPEN)
             (\<lambda>y. y\<lparr>px_status := target, px_resolved_by := cx_user c, px_note := note\<rparr>) (db_exceptions db),
           db_audit := au\<rparr>) = Inr (res, db')"
    by (elim resolve_exception_Inr exE)
  have x: "x' = x" using same_exception [OF assms(1) x'(1) assms(2)] x'(2) assms(3) by simp
  define db1 where "db1 = db\<lparr>db_exceptions := update_where (\<lambda>y. px_id y = ex \<and> px_status y = EX_OPEN)
     (\<lambda>y. y\<lparr>px_status := target, px_resolved_by := cx_user c, px_note := note\<rparr>) (db_exceptions db),
     db_audit := au\<rparr>"
  have run: "find_run c (px_payroll x) db1 = Some r" using assms(5) by (simp add: find_run_def db1_def)
  have v1: "validate_payroll c (px_payroll x) db1 = Inr (res, db')" using v by (simp add: x db1_def)
  have ok: "exceptions_ok (db_exceptions db1) (db_next db1)"
    using assms(1) by (simp add: db1_def exceptions_ok_update)
  have uniq: "keys_unique (px_payroll x) (db_exceptions db1)"
    using assms(4) by (simp add: db1_def keys_unique_update exception_key_def)
  have closed: "x\<lparr>px_status := target, px_resolved_by := cx_user c, px_note := note\<rparr> \<in> set (db_exceptions db1)"
    using assms(2,3) x'(3) by (auto simp: db1_def set_update_where x)
  have "x\<lparr>px_status := target, px_resolved_by := cx_user c, px_note := note\<rparr> \<in> set (db_exceptions db')"
    using validate_payroll_Inr [OF run v1] resolution_of_string_closed [OF t]
      reconcile_keeps [OF ok uniq closed] by simp
  moreover have "vr_score res = validation_score (run_checks c r db)"
    using validate_payroll_Inr [OF run v1] by (simp add: db1_def run_checks_frame)
  ultimately show ?thesis using t x'(3) x by blast
qed

theorem resolution_survives_validation_witness:
  "\<exists>res db' y. resolve_exception sample_ctx 2 ''resolved'' (Some ''ok'') sample_validation_db = Inr (res, db')
     \<and> y \<in> set (db_exceptions db') \<and> px_id y = 2 \<and> px_status y = EX_RESOLVED \<and> px_resolved_by y = Some 9"
proof -
  let ?db = sample_validation_db
  let ?call = "resolve_exception sample_ctx 2 ''resolved'' (Some ''ok'') ?db"
  have target: "resolution_of_string ''resolved'' = Some EX_RESOLVED"
    by code_simp
  have run: "find_run sample_ctx 7 (?db\<lparr>db_exceptions := xs, db_audit := au\<rparr>) = Some sample_run" for xs au
    by (simp add: find_run_def sample_validation_db_def sample_defs)
  have "\<exists>xs au. ?call = validate_payroll sample_ctx 7 (?db\<lparr>db_exceptions := xs, db_audit := au\<rparr>)"
    unfolding resolve_exception_def target option.case Let_def
    by (simp add: sample_validation_db_def sample_exception_def own_company_def sample_run_def
        sample_ctx_def empty_payroll_db_def) blast
  then obtain res db' where call: "?call = Inr (res, db')"
    using run by (metis validate_payroll_returns)
  have ok: "exceptions_ok (db_exceptions ?db) (db_next ?db)"
    by (simp add: exceptions_ok_def sample_validation_db_def sample_exception_def)
  have mem: "sample_exception 2 6 ''NO_SALARY'' EX_OPEN \<in> set (db_exceptions ?db)"
    "px_id (sample_exception 2 6 ''NO_SALARY'' EX_OPEN) = 2"
    by (simp_all add: sample_validation_db_def sample_exception_def)
  have uniq: "keys_unique (px_payroll (sample_exception 2 6 ''NO_SALARY'' EX_OPEN)) (db_exceptions ?db)"
    by (simp add: keys_unique_def sample_validation_db_def sample_exception_def exception_key_def)
  have found: "find_run sample_ctx (px_payroll (sample_exception 2 6 ''NO_SALARY'' EX_OPEN)) ?db = Some sample_run"
    by (simp add: find_run_def sample_exception_def sample_validation_db_def sample_defs)
  show ?thesis
  proof (intro exI conjI)
    note all = resolution_survives_validation [OF ok mem uniq found call]
    show "?call = Inr (res, db')" by (rule call)
    show "(sample_exception 2 6 ''NO_SALARY'' EX_OPEN)
        \<lparr>px_status := EX_RESOLVED, px_resolved_by := cx_user sample_ctx, px_note := Some ''ok''\<rparr>
        \<in> set (db_exceptions db')"
      using conjunct1 [OF conjunct2 [OF all]] unfolding target by blast
  qed (simp_all add: sample_exception_def sample_ctx_def)
qed

end
