(* ===== verification/Payroll_Calc.thy ===== *)
theory Payroll_Calc
  imports Payroll_Validation
begin

text \<open>
  The payroll calculation, \<open>calculatePayroll\<close> of \<^verbatim>\<open>apps/api/src/services/hr.ts\<close>, in the stages of
  its loop body: unpaid days and prorated basic pay, component and line totals, gross and chargeable
  income, statutory deductions, recoveries under the attachment limit, the payslip and the totals of
  the run. Amounts that depend on JSON documents (contract allowances, statutory figures) can be
  \<open>NaN\<close> or infinite in the source and are kept as \<open>jsnum\<close>.
\<close>

subsection \<open>Contract allowances and unpaid days\<close>

definition sum_allowances :: "jval \<Rightarrow> jsnum" where
  "sum_allowances raw =
     (case raw of
        JObj kvs \<Rightarrow> fold (\<lambda>(k, v) s. js_add s (js_or0 (to_number v))) kvs (Num 0)
      | _ \<Rightarrow> Num 0)"

definition contract_allowances :: "payroll_db \<Rightarrow> row_id \<Rightarrow> jval" where
  "contract_allowances db e =
     (case limit1 (\<lambda>k. - ct_start k)
             (filter (\<lambda>k. ct_employee k = e \<and> ct_status k = ''ACTIVE'') (db_contracts db)) of
        None \<Rightarrow> JNull
      | Some k \<Rightarrow> ct_allowances k)"

text \<open>
  Absence rows that count: \<open>ABSENT\<close> or \<open>HALF_DAY\<close> inside the run period and attached to a locked
  attendance period of the same tenant and company.
\<close>

definition counted_absence :: "ctx \<Rightarrow> payroll_db \<Rightarrow> date \<Rightarrow> date \<Rightarrow> attendance_row \<Rightarrow> bool" where
  "counted_absence c db period_start period_end a \<longleftrightarrow>
     own_company c (at_tenant a) (at_company a)
     \<and> at_status a \<in> {''ABSENT'', ''HALF_DAY''}
     \<and> map_option ap_status (period_of db a) = Some ''LOCKED''
     \<and> period_start \<le> at_date a \<and> at_date a \<le> period_end"

definition absence_days :: "attendance_row list \<Rightarrow> rat" where
  "absence_days rows =
     (\<Sum>d\<leftarrow>remdups (map at_date rows).
        if list_ex (\<lambda>a. at_date a = d \<and> at_status a = ''ABSENT'') rows then 1 else 1 / 2)"

definition load_attendance_unpaid_days ::
  "ctx \<Rightarrow> payroll_db \<Rightarrow> date \<Rightarrow> date \<Rightarrow> (row_id \<rightharpoonup> rat)" where
  "load_attendance_unpaid_days c db period_start period_end =
     (\<lambda>e. let rows = filter (\<lambda>a. at_employee a = e \<and> counted_absence c db period_start period_end a)
                       (db_attendance db)
          in if rows = [] then None else Some (round2 (absence_days rows)))"

definition unpaid_leave_days :: "payroll_db \<Rightarrow> row_id \<Rightarrow> date \<Rightarrow> date \<Rightarrow> int" where
  "unpaid_leave_days db e period_start period_end =
     (\<Sum>l\<leftarrow>filter (\<lambda>l. lv_employee l = e \<and> lv_status l = ''APPROVED'' \<and> lv_type l = ''UNPAID''
                      \<and> lv_start l \<le> period_end \<and> period_start \<le> lv_end l) (db_leaves db).
        max 0 (min (lv_end l) period_end - max (lv_start l) period_start + 1))"

subsection \<open>Components and lines\<close>

record earning_totals =
  tot_earnings :: rat
  tot_taxable :: rat
  tot_deductions :: rat
  tot_earning_lines :: "payslip_line list"
  tot_deduction_lines :: "payslip_line list"

definition no_totals :: earning_totals where
  "no_totals = \<lparr>tot_earnings = 0, tot_taxable = 0, tot_deductions = 0, tot_earning_lines = [],
     tot_deduction_lines = []\<rparr>"

definition add_earning :: "payslip_line \<Rightarrow> earning_totals \<Rightarrow> earning_totals" where
  "add_earning l t =
     t\<lparr>tot_earnings := round2 (tot_earnings t + li_amount l),
       tot_taxable := (if li_taxable l then round2 (tot_taxable t + li_amount l) else tot_taxable t),
       tot_earning_lines := tot_earning_lines t @ [l]\<rparr>"

definition add_deduction :: "payslip_line \<Rightarrow> earning_totals \<Rightarrow> earning_totals" where
  "add_deduction l t =
     t\<lparr>tot_deductions := round2 (tot_deductions t + li_amount l),
       tot_deduction_lines := tot_deduction_lines t @ [l]\<rparr>"

definition component_line :: "payroll_component \<Rightarrow> rat \<Rightarrow> payslip_line" where
  "component_line k amt =
     \<lparr>li_kind = ''COMPONENT'', li_component = Some (pc_component k), li_code = pc_code k,
      li_name = pc_name k, li_amount = amt, li_taxable = pc_taxable k\<rparr>"

definition add_component :: "rat \<Rightarrow> rat \<Rightarrow> payroll_component \<Rightarrow> earning_totals \<Rightarrow> earning_totals" where
  "add_component basic factor k t =
     (let amt = resolve_component_amount k basic factor in
      if amt \<le> 0 then t
      else if pc_type k = EARNING then add_earning (component_line k amt) t
      else add_deduction (component_line k amt) t)"

definition component_totals :: "rat \<Rightarrow> rat \<Rightarrow> payroll_component list \<Rightarrow> earning_totals" where
  "component_totals basic factor ks = fold (add_component basic factor) ks no_totals"

definition component_entries :: "row_id \<Rightarrow> row_id \<Rightarrow> rat \<Rightarrow> rat \<Rightarrow> payroll_component list \<Rightarrow> component_entry list" where
  "component_entries payroll e basic factor ks =
     map (\<lambda>k. \<lparr>ce_payroll = payroll, ce_employee = e, ce_component = pc_component k,
               ce_amount = round2 (resolve_component_amount k basic factor)\<rparr>)
       (filter (\<lambda>k. 0 < resolve_component_amount k basic factor) ks)"

definition line_amount :: "rat \<Rightarrow> pay_line \<Rightarrow> rat" where
  "line_amount basic l =
     (if pl_percentage l \<noteq> 0 then round2 (basic * (pl_percentage l / 100)) else round2 (pl_amount l))"

definition pay_line_entry :: "string \<Rightarrow> rat \<Rightarrow> pay_line \<Rightarrow> payslip_line" where
  "pay_line_entry kind amt l =
     \<lparr>li_kind = kind, li_component = None, li_code = pl_code l, li_name = pl_name l,
      li_amount = amt, li_taxable = pl_taxable l\<rparr>"

definition line_totals :: "rat \<Rightarrow> pay_line list \<times> pay_line list \<Rightarrow> earning_totals" where
  "line_totals basic lines =
     fold (\<lambda>l t. let amt = line_amount basic l in
             if amt \<le> 0 then t else add_deduction (pay_line_entry ''DEDUCTION'' amt l) t) (snd lines)
       (fold (\<lambda>l t. let amt = line_amount basic l in
                if amt \<le> 0 then t else add_earning (pay_line_entry ''EARNING'' amt l) t) (fst lines)
          no_totals)"

definition plain_line :: "string \<Rightarrow> string \<Rightarrow> rat \<Rightarrow> payslip_line list" where
  "plain_line code name amt =
     (if 0 < amt
      then [\<lparr>li_kind = code, li_component = None, li_code = code, li_name = name, li_amount = amt,
             li_taxable = True\<rparr>]
      else [])"

definition variable_lines :: "variable_pay \<Rightarrow> payslip_line list" where
  "variable_lines v =
     plain_line ''OVERTIME'' ''Overtime'' (vp_overtime v)
   @ plain_line ''BONUS'' ''Bonus'' (vp_bonuses v)
   @ plain_line ''COMMISSION'' ''Commission'' (vp_commissions v)"

definition variable_earnings :: "variable_pay \<Rightarrow> rat" where
  "variable_earnings v = round2 (vp_overtime v + vp_bonuses v + vp_commissions v)"

subsection \<open>Parameters of the run\<close>

record run_params =
  rp_start :: date
  rp_end :: date
  rp_extra_earnings :: rat
  rp_extra_deductions :: rat
  rp_deduct_loans :: bool
  rp_deduct_advances :: bool
  rp_arrears :: "row_id \<rightharpoonup> rat"
  rp_paye_config :: statutory_config
  rp_nssf_config :: statutory_config
  rp_lst_config :: "statutory_config option"
  rp_secondary_config :: "statutory_config option"

definition arrears_by_employee :: "payroll_run \<Rightarrow> payroll_db \<Rightarrow> (row_id \<rightharpoonup> rat)" where
  "arrears_by_employee r db =
     (if is_off_cycle r \<and> run_off_cycle_type r = Some ''ARREARS''
      then (\<lambda>e. let rows = filter (\<lambda>a. ra_employee a = e \<and> ra_payroll a = Some (run_id r)
                                    \<and> ra_status a = ''APPROVED'') (db_arrears db)
                in if rows = [] then None else Some (round2 (\<Sum>a\<leftarrow>rows. ra_net a)))
      else Map.empty)"

definition run_params_of :: "ctx \<Rightarrow> date \<Rightarrow> payroll_run \<Rightarrow> payroll_db \<Rightarrow> run_params result" where
  "run_params_of c today r db =
     (let off = is_off_cycle r;
          opts = \<lparr>co_code = None, co_effective = Some (run_end r), co_company = None, co_country = None\<rparr>;
          config = (\<lambda>cat. get_statutory_config (db_statutory db) (run_tenant r) (cx_company c) today cat opts);
          needed = (\<lambda>cat. require_statutory_config (db_statutory db) (run_tenant r) (cx_company c) today cat opts)
      in if off \<and> selected_employees r = []
         then Inl (BadRequest ''Off-cycle payroll requires at least one selected employee'')
         else rbind (needed ''PAYE'') (\<lambda>paye. rbind (needed ''NSSF'') (\<lambda>nssf.
           Inr \<lparr>rp_start = run_start r, rp_end = run_end r,
                rp_extra_earnings = (if off then round2 (max 0 (run_extra_earnings r)) else 0),
                rp_extra_deductions = (if off then round2 (max 0 (run_extra_deductions r)) else 0),
                rp_deduct_loans = (if off then run_deduct_loans r else True),
                rp_deduct_advances = (if off then run_deduct_advances r else True),
                rp_arrears = arrears_by_employee r db,
                rp_paye_config = paye, rp_nssf_config = nssf,
                rp_lst_config = config ''LST'', rp_secondary_config = config ''PAYE_SECONDARY''\<rparr>)))"

subsection \<open>Statutory deductions of a payslip\<close>

record statutory_figures =
  sf_paye :: jsnum
  sf_nssf :: jsnum
  sf_employer_nssf :: jsnum
  sf_lst :: jsnum
  sf_taxable :: jsnum
  sf_config :: row_id

definition second_employment_tax :: "run_params \<Rightarrow> bool \<Rightarrow> bool" where
  "second_employment_tax p secondary \<longleftrightarrow>
     secondary \<and> applies_to_employment (rp_secondary_config p) Secondary"

definition statutory_figures_of ::
  "run_params \<Rightarrow> bool \<Rightarrow> jsnum \<Rightarrow> jsnum \<Rightarrow> statutory_figures result" where
  "statutory_figures_of p secondary gross chargeable =
     rbind (compute_nssf gross (rp_nssf_config p) (Some (if secondary then Secondary else Primary))) (\<lambda>nssf.
     rbind (compute_lst gross (rp_lst_config p)
              \<lparr>lo_start = Some (iso_of_date (rp_start p)), lo_end = Some (iso_of_date (rp_end p))\<rparr>) (\<lambda>lst.
       (let taxable = js_round2 (js_max (Num 0)
               (js_sub chargeable (if js_lt (Num 0) lst then lst else nr_employee nssf)));
            second = second_employment_tax p secondary
        in rbind (if second then compute_secondary_paye chargeable (rp_secondary_config p) (Some Secondary)
                  else compute_paye taxable (rp_paye_config p)) (\<lambda>paye.
             Inr \<lparr>sf_paye = paye, sf_nssf = nr_employee nssf, sf_employer_nssf = nr_employer nssf,
                  sf_lst = lst, sf_taxable = taxable,
                  sf_config = sc_id (if second then (case rp_secondary_config p of
                                       None \<Rightarrow> rp_paye_config p | Some k \<Rightarrow> k)
                                     else rp_paye_config p)\<rparr>))))"

subsection \<open>Recoveries\<close>

text \<open>
  \<open>roomFor\<close>: what may still be recovered after \<open>taken\<close>, within the attachment limit and within
  what the statutory deductions leave. The three loops take one after the other.
\<close>

definition recovery_cap :: "jsnum \<Rightarrow> jsnum" where
  "recovery_cap gross = js_round2 (js_divc (js_mul gross (Num 2)) 3)"

definition room_for :: "jsnum \<Rightarrow> statutory_figures \<Rightarrow> jsnum \<Rightarrow> jsnum" where
  "room_for gross f taken =
     js_round2 (js_max (Num 0) (js_min
       (js_sub (js_sub (js_sub (js_sub gross (sf_paye f)) (sf_nssf f)) (sf_lst f)) taken)
       (js_sub (recovery_cap gross) taken)))"

fun recover :: "(jsnum \<Rightarrow> jsnum) \<Rightarrow> jsnum \<Rightarrow> recovery_row list \<Rightarrow> jsnum" where
  "recover room taken [] = taken"
| "recover room taken (r # rs) =
     (let take = js_min (js_min (Num (rc_monthly r)) (Num (rc_balance r))) (room taken) in
      if js_le take (Num 0) then recover room taken rs
      else recover room (js_round2 (js_add taken take)) rs)"

definition active_recoveries :: "row_id \<Rightarrow> recovery_row list \<Rightarrow> recovery_row list" where
  "active_recoveries e rows =
     filter (\<lambda>r. rc_employee r = e \<and> rc_status r = ''ACTIVE'' \<and> 0 < rc_balance r) rows"

record recovery_figures =
  rf_loans :: jsnum
  rf_advances :: jsnum
  rf_fines :: jsnum

definition recoveries_of ::
  "run_params \<Rightarrow> payroll_db \<Rightarrow> row_id \<Rightarrow> jsnum \<Rightarrow> statutory_figures \<Rightarrow> recovery_figures" where
  "recoveries_of p db e gross f =
     (let room = room_for gross f;
          loans = (if rp_deduct_loans p
                   then recover room (Num 0) (active_recoveries e (db_loans db)) else Num 0);
          advances = (if rp_deduct_advances p
                      then recover (\<lambda>t. room (js_add loans t)) (Num 0) (active_recoveries e (db_advances db))
                      else Num 0);
          fines = recover (\<lambda>t. room (js_add (js_add loans advances) t)) (Num 0)
                    (sort_key rc_id (active_recoveries e (db_fines db)))
      in \<lparr>rf_loans = loans, rf_advances = advances, rf_fines = fines\<rparr>)"

subsection \<open>The payslip\<close>

record earnings_figures =
  ef_basic :: rat
  ef_allowances :: jsnum
  ef_gross :: jsnum
  ef_chargeable :: jsnum
  ef_other :: rat
  ef_earnings :: "payslip_line list"
  ef_deductions :: "payslip_line list"
  ef_proration :: proration
  ef_entries :: "component_entry list"

definition benefit_of :: "payroll_inputs \<Rightarrow> row_id \<Rightarrow> benefit_totals" where
  "benefit_of inputs e =
     (case pi_benefits inputs e of
        None \<Rightarrow> \<lparr>bt_employee = 0, bt_employer = 0, bt_taxable = 0\<rparr>
      | Some b \<Rightarrow> b)"

definition earnings_of ::
  "run_params \<Rightarrow> row_id \<Rightarrow> payroll_db \<Rightarrow> payroll_inputs \<Rightarrow> (row_id \<rightharpoonup> rat) \<Rightarrow> employee \<Rightarrow> earnings_figures" where
  "earnings_of p payroll db inputs absence emp =
     (let e = em_id emp;
          contract = sum_allowances (contract_allowances db e);
          unpaid = round2 (of_int (unpaid_leave_days db e (rp_start p) (rp_end p))
                           + (case absence e of None \<Rightarrow> 0 | Some d \<Rightarrow> d));
          pr = prorate_employment (em_hire emp) (em_termination emp) (Some (rp_start p)) (Some (rp_end p)) unpaid;
          base = (case pi_salaries inputs e of None \<Rightarrow> em_base emp | Some s \<Rightarrow> es_basic s);
          basic = prorate_basic base pr;
          ks = (case pi_components inputs e of None \<Rightarrow> [] | Some ks \<Rightarrow> ks);
          comps = component_totals basic (pr_factor pr) ks;
          variable = (case pi_variable inputs e of None \<Rightarrow> empty_variable_pay | Some v \<Rightarrow> v);
          lines = line_totals basic (case pi_lines inputs e of None \<Rightarrow> ([], []) | Some l \<Rightarrow> l);
          benefit = benefit_of inputs e;
          extra = (case rp_arrears p e of None \<Rightarrow> rp_extra_earnings p | Some a \<Rightarrow> a);
          allowances = js_round2 (js_add contract (Num (tot_earnings comps)))
      in \<lparr>ef_basic = basic, ef_allowances = allowances,
          ef_gross = js_round2 (js_add (js_add (js_add (js_add (Num basic) allowances) (Num extra))
                       (Num (variable_earnings variable))) (Num (tot_earnings lines))),
          ef_chargeable = js_round2 (js_add (js_add (Num basic) contract)
                       (Num (extra + tot_taxable comps + variable_earnings variable
                             + tot_taxable lines + bt_taxable benefit))),
          ef_other = round2 (rp_extra_deductions p + tot_deductions comps + tot_deductions lines
                       + bt_employee benefit),
          ef_earnings = tot_earning_lines comps @ variable_lines variable @ tot_earning_lines lines,
          ef_deductions = tot_deduction_lines comps @ tot_deduction_lines lines
            @ plain_line ''BENEFIT'' ''Benefits (employee share)'' (bt_employee benefit),
          ef_proration = pr,
          ef_entries = component_entries payroll e basic (pr_factor pr) ks\<rparr>)"

definition payslip_of ::
  "row_id \<Rightarrow> row_id \<Rightarrow> earnings_figures \<Rightarrow> statutory_figures \<Rightarrow> recovery_figures \<Rightarrow> string \<Rightarrow> payslip" where
  "payslip_of payroll e ef f rf slip =
     (let total = js_round2 (js_add (js_add (js_add (js_add (js_add (js_add (sf_paye f) (sf_nssf f))
                    (sf_lst f)) (rf_loans rf)) (rf_advances rf)) (rf_fines rf)) (Num (ef_other ef)))
      in \<lparr>ps_payroll = payroll, ps_employee = e, ps_basic = ef_basic ef, ps_allowances = ef_allowances ef,
          ps_gross = ef_gross ef, ps_paye = sf_paye f, ps_nssf = sf_nssf f, ps_loans = rf_loans rf,
          ps_advances = rf_advances rf, ps_fines = rf_fines rf, ps_other = Num (ef_other ef),
          ps_net = js_round2 (js_sub (ef_gross ef) total), ps_taxable = sf_taxable f,
          ps_employer_nssf = sf_employer_nssf f, ps_lst = sf_lst f, ps_total_deductions = total,
          ps_chargeable = ef_chargeable ef, ps_paye_config = sf_config f,
          ps_earnings = ef_earnings ef, ps_deductions = ef_deductions ef,
          ps_proration = ef_proration ef, ps_number = slip\<rparr>)"

text \<open>
  One pass of the employee loop. The \<open>INSERT\<close> fails on an infinite amount, which no \<open>NUMERIC(18,2)\<close>
  column holds; \<open>NaN\<close> is a \<open>NUMERIC\<close> value.
\<close>

definition storable :: "payslip \<Rightarrow> bool" where
  "storable s = list_all (\<lambda>x. x \<noteq> PosInf \<and> x \<noteq> NegInf)
     [ps_allowances s, ps_gross s, ps_paye s, ps_nssf s, ps_loans s, ps_advances s, ps_fines s,
      ps_net s, ps_taxable s, ps_employer_nssf s, ps_lst s, ps_total_deductions s]"

definition pay_employee ::
  "ctx \<Rightarrow> int \<Rightarrow> run_params \<Rightarrow> row_id \<Rightarrow> payroll_inputs \<Rightarrow> (row_id \<rightharpoonup> rat) \<Rightarrow> employee \<Rightarrow> payroll_db
     \<Rightarrow> payroll_db result" where
  "pay_employee c year p payroll inputs absence emp db =
     (let ef = earnings_of p payroll db inputs absence emp in
      rbind (statutory_figures_of p (em_secondary emp) (ef_gross ef) (ef_chargeable ef)) (\<lambda>f.
        (let rf = recoveries_of p db (em_id emp) (ef_gross ef) f;
             (slip, docs) = next_doc year c (get_payslip_prefix c (db_settings db)) (db_documents db);
             s = payslip_of payroll (em_id emp) ef f rf slip
         in rbind (require (storable s) (Internal ''numeric field overflow'')) (\<lambda>_.
              Inr (db\<lparr>db_items := db_items db @ [s], db_entries := db_entries db @ ef_entries ef,
                      db_documents := docs\<rparr>)))))"

fun pay_staff ::
  "ctx \<Rightarrow> int \<Rightarrow> run_params \<Rightarrow> row_id \<Rightarrow> payroll_inputs \<Rightarrow> (row_id \<rightharpoonup> rat) \<Rightarrow> employee list \<Rightarrow> payroll_db
     \<Rightarrow> payroll_db result" where
  "pay_staff c year p payroll inputs absence [] db = Inr db"
| "pay_staff c year p payroll inputs absence (emp # emps) db =
     rbind (pay_employee c year p payroll inputs absence emp db)
       (pay_staff c year p payroll inputs absence emps)"

subsection \<open>The calculation\<close>

record calculation =
  ca_employees :: nat
  ca_gross :: jsnum
  ca_deductions :: jsnum
  ca_net :: jsnum
  ca_validation :: validation_result

definition js_total :: "jsnum list \<Rightarrow> jsnum" where
  "js_total xs = js_round2 (fold (\<lambda>x t. js_add t x) xs (Num 0))"

definition clear_run :: "row_id \<Rightarrow> payroll_db \<Rightarrow> payroll_db" where
  "clear_run payroll db =
     db\<lparr>db_items := filter (\<lambda>i. ps_payroll i \<noteq> payroll) (db_items db),
        db_entries := filter (\<lambda>e. ce_payroll e \<noteq> payroll) (db_entries db)\<rparr>"

definition run_items :: "row_id \<Rightarrow> payroll_db \<Rightarrow> payslip list" where
  "run_items payroll db = filter (\<lambda>i. ps_payroll i = payroll) (db_items db)"

definition store_totals :: "ctx \<Rightarrow> run_params \<Rightarrow> row_id \<Rightarrow> payroll_db \<Rightarrow> payroll_db" where
  "store_totals c p payroll db =
     update_run payroll
       (\<lambda>r. r\<lparr>run_gross := js_total (map ps_gross (run_items payroll db)),
              run_deductions := js_total (map ps_total_deductions (run_items payroll db)),
              run_net := js_total (map ps_net (run_items payroll db)),
              run_currency := (if run_currency r = [] then get_default_currency c (db_settings db)
                               else run_currency r),
              run_config := Some (sc_id (rp_paye_config p))\<rparr>) db"

definition calculate_payroll ::
  "ctx \<Rightarrow> date \<Rightarrow> int \<Rightarrow> row_id \<Rightarrow> payroll_db \<Rightarrow> (calculation \<times> payroll_db) result" where
  "calculate_payroll c today year payroll db =
     (case find_run c payroll db of
        None \<Rightarrow> Inl (NotFound ''Payroll not found'')
      | Some r \<Rightarrow>
          if run_status r \<notin> {R_DRAFT, R_SUBMITTED}
          then Inl (BadRequest ''Cannot recalculate this payroll'')
          else rbind (run_params_of c today r db) (\<lambda>p.
            (let db1 = clear_run payroll db;
                 staff = eligible_staff c r db1;
                 inputs = load_modern_payroll_inputs
                   \<lparr>ls_ctx = c, ls_staff = map em_id staff, ls_start = run_start r, ls_end = run_end r\<rparr>
                   (db_inputs db1);
                 absence = load_attendance_unpaid_days c db1 (run_start r) (run_end r)
             in if staff = [] then Inl (BadRequest ''No employees to pay'')
                else rbind (pay_staff c year p payroll inputs absence staff db1) (\<lambda>db2.
                  (let items = run_items payroll db2
                   in rbind (validate_payroll c payroll (store_totals c p payroll db2)) (\<lambda>(v, db3).
                        Inr (\<lparr>ca_employees = length staff, ca_gross = js_total (map ps_gross items),
                               ca_deductions = js_total (map ps_total_deductions items),
                               ca_net = js_total (map ps_net items), ca_validation = v\<rparr>, db3)))))))"

text \<open>\<open>JSON.stringify\<close> writes a number that is not finite as \<open>null\<close>.\<close>

definition json_number :: "jsnum \<Rightarrow> jval" where
  "json_number x = (case x of Num q \<Rightarrow> JNum q | _ \<Rightarrow> JNull)"

text \<open>\<open>submitPayroll\<close> up to the workflow it starts.\<close>

definition submit_payroll :: "ctx \<Rightarrow> row_id \<Rightarrow> payroll_db \<Rightarrow> (payroll_run \<times> payroll_db) result" where
  "submit_payroll c payroll db =
     (let open_errors = count_open_errors payroll db in
      if 0 < open_errors then Inl (BadRequest ''Payroll has unresolved errors'')
      else case find (\<lambda>r. run_id r = payroll \<and> cx_tenant c = Some (run_tenant r) \<and> run_status r = R_DRAFT)
                  (db_runs db) of
          None \<Rightarrow> Inl (BadRequest ''Payroll not found or not DRAFT'')
        | Some r \<Rightarrow>
            Inr (r\<lparr>run_status := R_SUBMITTED\<rparr>,
                 (update_run payroll (\<lambda>x. x\<lparr>run_status := R_SUBMITTED\<rparr>) db)
                   \<lparr>db_events := emit_event c
                      \<lparr>ep_type = ''hr.payroll.submitted'', ep_entity_type = Some ''hr.payrolls'',
                       ep_entity = Some payroll, ep_code = Some (run_no r),
                       ep_payload = [(''netTotal'', json_number (run_net r))], ep_severity = None\<rparr>
                      (db_events db)\<rparr>))"

subsection \<open>Grid amounts\<close>

definition on_grid :: "jsnum \<Rightarrow> bool" where
  "on_grid x \<longleftrightarrow> js_round2 x = x"

lemma on_grid_Num [simp]: "on_grid (Num q) \<longleftrightarrow> round2 q = q"
  by (simp add: on_grid_def)

lemma on_grid_js_round2 [simp]: "on_grid (js_round2 x)"
  by (cases x) (simp_all add: on_grid_def js_round2_def)

lemma lst_loop_grid: "on_grid (lst_loop g bs)"
  by (induction g bs rule: lst_loop.induct) simp_all

lemma secondary_loop_grid: "on_grid (secondary_loop a t bs)"
  by (induction a t bs rule: secondary_loop.induct) simp_all

lemma compute_grid:
  "compute_paye t cfg = Inr x \<Longrightarrow> on_grid x"
  "compute_nssf g cfg scope = Inr n \<Longrightarrow> on_grid (nr_employee n)"
  "compute_lst g cfg' opts = Inr x \<Longrightarrow> on_grid x"
  "compute_secondary_paye b cfg' scope = Inr x \<Longrightarrow> on_grid x"
  by (auto simp: compute_paye_def compute_nssf_def compute_lst_def compute_secondary_paye_def Let_def
      lst_loop_grid secondary_loop_grid split: option.splits if_splits)

lemma statutory_grid:
  "statutory_figures_of p secondary gross chargeable = Inr f \<Longrightarrow>
     on_grid (sf_paye f) \<and> on_grid (sf_nssf f) \<and> on_grid (sf_lst f)"
  by (auto simp: statutory_figures_of_def Let_def compute_grid split: if_splits)

subsection \<open>Recoveries stay within the limit\<close>

text \<open>
  With finite figures on the grid the room after \<open>t\<close> is exactly what the limit leaves, so a loop
  that starts within the limit ends within it, never gives anything back and takes at most the
  balances.
\<close>

definition recovery_limit :: "rat \<Rightarrow> rat \<Rightarrow> rat" where
  "recovery_limit gross statutory = min (gross - statutory) (round2 (gross * 2 / 3))"

lemma room_for_Num:
  assumes "sf_paye f = Num a" "sf_nssf f = Num b" "sf_lst f = Num d"
    and "round2 g = g" "round2 a = a" "round2 b = b" "round2 d = d" "round2 t = t"
  shows "room_for (Num g) f (Num t) = Num (max 0 (recovery_limit g (a + b + d) - t))"
proof -
  have cap: "recovery_cap (Num g) = Num (round2 (g * 2 / 3))" by (simp add: recovery_cap_def)
  have "min (g - a - b - d - t) (round2 (g * 2 / 3) - t) = recovery_limit g (a + b + d) - t"
    by (simp add: recovery_limit_def min_def)
  moreover have "round2 (recovery_limit g (a + b + d)) = recovery_limit g (a + b + d)"
    unfolding recovery_limit_def using assms
    by (intro r2.rnd_min_fixed r2.rnd_diff_fixed r2.rnd_add_fixed) simp_all
  ultimately show ?thesis
    using assms by (simp add: room_for_def cap r2.rnd_max_fixed r2.rnd_diff_fixed)
qed

lemma recover_within:
  assumes "\<And>t. round2 t = t \<Longrightarrow> room (Num t) = Num (max 0 (limit - t))"
    and "round2 limit = limit" and "round2 t = t"
  obtains x where "recover room (Num t) rs = Num x" "round2 x = x" "t \<le> x" "x = t \<or> x \<le> limit"
    "(\<forall>r\<in>set rs. round2 (rc_balance r) = rc_balance r \<and> 0 \<le> rc_balance r)
       \<longrightarrow> x \<le> t + (\<Sum>r\<leftarrow>rs. rc_balance r)"
  using assms(3)
proof (induction rs arbitrary: t thesis)
  case Nil
  then show ?case by simp
next
  case (Cons r rs)
  define take where "take = min (min (rc_monthly r) (rc_balance r)) (max 0 (limit - t))"
  show ?case
  proof (cases "take \<le> 0")
    case True
    obtain x where x: "recover room (Num t) rs = Num x" "round2 x = x" "t \<le> x" "x = t \<or> x \<le> limit"
      "(\<forall>r\<in>set rs. round2 (rc_balance r) = rc_balance r \<and> 0 \<le> rc_balance r)
         \<longrightarrow> x \<le> t + (\<Sum>r\<leftarrow>rs. rc_balance r)"
      using Cons.IH Cons.prems(2) by blast
    show ?thesis
      by (rule Cons.prems(1) [of x])
        (use x True Cons.prems(2) in \<open>auto simp: take_def assms(1) Let_def intro: add_increasing\<close>)
  next
    case False
    define u where "u = round2 (t + take)"
    have take: "0 < take" "take \<le> limit - t" "take \<le> rc_balance r"
      using False by (auto simp: take_def)
    have u: "round2 u = u" "t \<le> u" "u \<le> limit"
      using take Cons.prems(2) assms(2)
      by (auto simp: u_def intro: r2.rnd_ge_fixed r2.rnd_le_fixed)
    have ub: "u \<le> t + rc_balance r" if "round2 (rc_balance r) = rc_balance r"
      using take(3) that Cons.prems(2) unfolding u_def
      by (intro r2.rnd_le_fixed r2.rnd_add_fixed) auto
    obtain x where x: "recover room (Num u) rs = Num x" "round2 x = x" "u \<le> x" "x = u \<or> x \<le> limit"
      "(\<forall>r\<in>set rs. round2 (rc_balance r) = rc_balance r \<and> 0 \<le> rc_balance r)
         \<longrightarrow> x \<le> u + (\<Sum>r\<leftarrow>rs. rc_balance r)"
      using Cons.IH u(1) by blast
    have "recover room (Num t) (r # rs) = Num x"
    proof -
      have "max 0 (limit - t) = limit - t" "0 < min (min (rc_monthly r) (rc_balance r)) (limit - t)"
        using take(1,2) by (auto simp: take_def)
      then have "\<not> min (min (rc_monthly r) (rc_balance r)) (limit - t) \<le> 0" by linarith
      then show ?thesis
        using x(1) Cons.prems(2) \<open>max 0 (limit - t) = limit - t\<close>
        by (simp only: recover.simps Let_def assms(1) js_num_simps js_le.simps take_def u_def js_add.simps if_False)
    qed
    then show ?thesis
      by (rule Cons.prems(1)) (use x u ub in auto)
  qed
qed

text \<open>The three loops share one limit; each starts where the one before stopped.\<close>

definition recovery_balances :: "run_params \<Rightarrow> payroll_db \<Rightarrow> row_id \<Rightarrow> rat" where
  "recovery_balances p db e =
     (\<Sum>r\<leftarrow>active_recoveries e (db_loans db). rc_balance r)
   + (\<Sum>r\<leftarrow>active_recoveries e (db_advances db). rc_balance r)
   + (\<Sum>r\<leftarrow>active_recoveries e (db_fines db). rc_balance r)"

lemma recover_optional:
  assumes "\<And>t. round2 t = t \<Longrightarrow> room (Num t) = Num (max 0 (limit - t))" and "round2 limit = limit"
  obtains x where "(if b then recover room (Num 0) rs else Num 0) = Num x" "round2 x = x" "0 \<le> x"
    "x = 0 \<or> x \<le> limit"
  by (rule recover_within [OF assms, of 0 rs]; cases b; simp)

lemma recoveries_within:
  assumes f: "sf_paye f = Num a" "sf_nssf f = Num b" "sf_lst f = Num d"
    and grid: "round2 g = g" "round2 a = a" "round2 b = b" "round2 d = d"
  obtains l v n where "recoveries_of p db e (Num g) f = \<lparr>rf_loans = Num l, rf_advances = Num v, rf_fines = Num n\<rparr>"
    "round2 l = l" "round2 v = v" "round2 n = n" "0 \<le> l" "0 \<le> v" "0 \<le> n"
    "l + v + n \<le> max 0 (recovery_limit g (a + b + d))"
proof -
  let ?L = "recovery_limit g (a + b + d)"
  have L: "round2 ?L = ?L"
    unfolding recovery_limit_def using grid
    by (intro r2.rnd_min_fixed r2.rnd_diff_fixed r2.rnd_add_fixed) simp_all
  have room: "room_for (Num g) f (Num t) = Num (max 0 (?L - t))" if "round2 t = t" for t
    using f grid that by (intro room_for_Num)
  obtain l where l: "(if rp_deduct_loans p
       then recover (room_for (Num g) f) (Num 0) (active_recoveries e (db_loans db)) else Num 0) = Num l"
    "round2 l = l" "0 \<le> l" "l = 0 \<or> l \<le> ?L"
    by (rule recover_optional [OF room L])
  have room': "room_for (Num g) f (js_add (Num l) (Num t)) = Num (max 0 ((?L - l) - t))"
    if "round2 t = t" for t
    using room [of "l + t"] l(2) that by (simp add: r2.rnd_add_fixed algebra_simps)
  obtain v where v: "(if rp_deduct_advances p
       then recover (\<lambda>t. room_for (Num g) f (js_add (Num l) t)) (Num 0) (active_recoveries e (db_advances db))
       else Num 0) = Num v"
    "round2 v = v" "0 \<le> v" "v = 0 \<or> v \<le> ?L - l"
    by (rule recover_optional [OF room' r2.rnd_diff_fixed [OF L l(2)]])
  have lv: "round2 (l + v) = l + v" using l(2) v(2) by (rule r2.rnd_add_fixed)
  have room'': "room_for (Num g) f (js_add (js_add (Num l) (Num v)) (Num t)) = Num (max 0 ((?L - (l + v)) - t))"
    if "round2 t = t" for t
    using room [OF r2.rnd_add_fixed [OF lv that]] by (simp add: algebra_simps)
  obtain n where n: "recover (\<lambda>t. room_for (Num g) f (js_add (js_add (Num l) (Num v)) t)) (Num 0)
       (sort_key rc_id (active_recoveries e (db_fines db))) = Num n"
    "round2 n = n" "0 \<le> n" "n = 0 \<or> n \<le> ?L - (l + v)"
    by (rule recover_within [OF room'' r2.rnd_diff_fixed [OF L lv], of 0]) simp_all
  show thesis
  proof (rule that [of l v n])
    show "recoveries_of p db e (Num g) f = \<lparr>rf_loans = Num l, rf_advances = Num v, rf_fines = Num n\<rparr>"
      using l(1) v(1) n(1) by (simp only: recoveries_of_def Let_def)
    show "l + v + n \<le> max 0 ?L" using l(3,4) v(3,4) n(3,4) by auto
  qed (use l v n in auto)
qed

text \<open>A payslip whose figures are finite: everything on it is exact.\<close>

definition finite_slip :: "payslip \<Rightarrow> bool" where
  "finite_slip s \<longleftrightarrow> js_finite (ps_gross s) \<and> js_finite (ps_paye s) \<and> js_finite (ps_nssf s) \<and> js_finite (ps_lst s)"

definition slip_deductions :: "payslip \<Rightarrow> rat" where
  "slip_deductions s = num_val (ps_paye s) + num_val (ps_nssf s) + num_val (ps_lst s)
     + num_val (ps_loans s) + num_val (ps_advances s) + num_val (ps_fines s) + num_val (ps_other s)"

definition balanced_slip :: "payslip \<Rightarrow> bool" where
  "balanced_slip s \<longleftrightarrow>
     ps_total_deductions s = Num (slip_deductions s)
   \<and> ps_net s = Num (num_val (ps_gross s) - slip_deductions s)
   \<and> 0 \<le> num_val (ps_loans s) \<and> 0 \<le> num_val (ps_advances s) \<and> 0 \<le> num_val (ps_fines s)
   \<and> num_val (ps_loans s) + num_val (ps_advances s) + num_val (ps_fines s)
       \<le> max 0 (recovery_limit (num_val (ps_gross s))
                  (num_val (ps_paye s) + num_val (ps_nssf s) + num_val (ps_lst s)))"

lemma payslip_balanced:
  assumes f: "statutory_figures_of p secondary (ef_gross ef) chargeable = Inr f"
    and gross: "on_grid (ef_gross ef)" and other: "round2 (ef_other ef) = ef_other ef"
    and fin: "finite_slip (payslip_of payroll e ef f (recoveries_of p db e (ef_gross ef) f) slip)"
  shows "balanced_slip (payslip_of payroll e ef f (recoveries_of p db e (ef_gross ef) f) slip)"
proof -
  from fin obtain g a b d where fig: "ef_gross ef = Num g" "sf_paye f = Num a" "sf_nssf f = Num b" "sf_lst f = Num d"
    by (auto simp: finite_slip_def payslip_of_def Let_def elim!: js_finiteE)
  then have grid: "round2 g = g" "round2 a = a" "round2 b = b" "round2 d = d"
    using statutory_grid [OF f] gross by simp_all
  obtain l v n where r: "recoveries_of p db e (Num g) f = \<lparr>rf_loans = Num l, rf_advances = Num v, rf_fines = Num n\<rparr>"
    and rg: "round2 l = l" "round2 v = v" "round2 n = n" and pos: "0 \<le> l" "0 \<le> v" "0 \<le> n"
    and lim: "l + v + n \<le> max 0 (recovery_limit g (a + b + d))"
    by (rule recoveries_within [OF fig(2-4) grid])
  have "round2 (a + b + d + l + v + n + ef_other ef) = a + b + d + l + v + n + ef_other ef"
    using grid rg other by (intro r2.rnd_add_fixed)
  moreover from this have "round2 (g - (a + b + d + l + v + n + ef_other ef)) = g - (a + b + d + l + v + n + ef_other ef)"
    using grid by (intro r2.rnd_diff_fixed)
  ultimately show ?thesis
    using pos lim by (simp add: balanced_slip_def slip_deductions_def payslip_of_def Let_def fig r)
qed

lemma earnings_of_grid:
  "on_grid (ef_gross (earnings_of p payroll db inputs absence emp))"
  "round2 (ef_other (earnings_of p payroll db inputs absence emp)) = ef_other (earnings_of p payroll db inputs absence emp)"
  by (simp_all add: earnings_of_def Let_def)

subsection \<open>The run as a whole\<close>

definition doc_number :: "string \<Rightarrow> int \<Rightarrow> nat \<Rightarrow> string" where
  "doc_number prefix year n =
     prefix @ ''-'' @ string_of_int year @ ''-'' @ pad_left 8 (CHR ''0'') (string_of_nat n)"

lemma digits_value_pad: "digits_value (replicate k (CHR ''0'') @ s) = digits_value s"
proof (induction s rule: rev_induct)
  case Nil
  show ?case by (induction k) (simp_all add: digits_value_def digit_value_def char_code_def)
next
  case (snoc c s)
  then show ?case using digits_value_snoc by (metis append_assoc)
qed

lemma doc_number_inject: "doc_number prefix year m = doc_number prefix year n \<longleftrightarrow> m = n"
proof
  assume "doc_number prefix year m = doc_number prefix year n"
  then have "digits_value (pad_left 8 (CHR ''0'') (string_of_nat m)) = digits_value (pad_left 8 (CHR ''0'') (string_of_nat n))"
    by (simp add: doc_number_def)
  then show "m = n"
    using string_of_nat_props by (simp add: pad_left_def digits_value_pad)
qed simp

lemma next_doc_number:
  "next_doc year c prefix docs =
     (doc_number prefix year (Suc (docs (cx_tenant c, prefix))),
      docs((cx_tenant c, prefix) := Suc (docs (cx_tenant c, prefix))))"
  by (simp add: next_doc_def doc_number_def Let_def)

definition sound_slip :: "row_id \<Rightarrow> payslip \<Rightarrow> bool" where
  "sound_slip payroll s \<longleftrightarrow>
     ps_payroll s = payroll \<and> on_grid (ps_gross s) \<and> on_grid (ps_total_deductions s)
     \<and> on_grid (ps_net s) \<and> (finite_slip s \<longrightarrow> balanced_slip s)"

lemma exact_slip:
  assumes "sound_slip payroll s" and "finite_slip s"
  shows "ps_gross s = Num (num_val (ps_gross s)) \<and> round2 (num_val (ps_gross s)) = num_val (ps_gross s)"
    and "ps_total_deductions s = Num (slip_deductions s) \<and> round2 (slip_deductions s) = slip_deductions s"
    and "ps_net s = Num (num_val (ps_gross s) - slip_deductions s)
      \<and> round2 (num_val (ps_gross s) - slip_deductions s) = num_val (ps_gross s) - slip_deductions s"
  using assms by (auto simp: sound_slip_def finite_slip_def balanced_slip_def elim!: js_finiteE)

lemma pay_employee_Inr:
  assumes "pay_employee c year p payroll inputs absence emp db = Inr db'"
  obtains s ents where
    "db' = db\<lparr>db_items := db_items db @ [s], db_entries := db_entries db @ ents,
        db_documents := snd (next_doc year c (get_payslip_prefix c (db_settings db)) (db_documents db))\<rparr>"
    "sound_slip payroll s" "ps_employee s = em_id emp"
    "ps_number s = fst (next_doc year c (get_payslip_prefix c (db_settings db)) (db_documents db))"
proof -
  define ef where "ef = earnings_of p payroll db inputs absence emp"
  from assms obtain f where f: "statutory_figures_of p (em_secondary emp) (ef_gross ef) (ef_chargeable ef) = Inr f"
    by (auto simp: pay_employee_def Let_def ef_def)
  define slip where "slip = fst (next_doc year c (get_payslip_prefix c (db_settings db)) (db_documents db))"
  define s where "s = payslip_of payroll (em_id emp) ef f (recoveries_of p db (em_id emp) (ef_gross ef) f) slip"
  show thesis
  proof (rule that [of "ef_entries ef" s])
    show "db' = db\<lparr>db_items := db_items db @ [s], db_entries := db_entries db @ ef_entries ef,
        db_documents := snd (next_doc year c (get_payslip_prefix c (db_settings db)) (db_documents db))\<rparr>"
      using assms f
      by (auto simp: pay_employee_def Let_def rbind_Inr_iff s_def slip_def ef_def next_doc_number)
    show "sound_slip payroll s"
      using payslip_balanced [OF f, of payroll "em_id emp" db slip] earnings_of_grid
      by (auto simp: sound_slip_def s_def ef_def) (simp_all add: payslip_of_def Let_def earnings_of_grid)
  qed (simp_all add: s_def payslip_of_def Let_def slip_def)
qed

lemma pay_staff_Inr:
  assumes "pay_staff c year p payroll inputs absence emps db = Inr db'"
  shows "\<exists>new ents docs.
     db' = db\<lparr>db_items := db_items db @ new, db_entries := db_entries db @ ents, db_documents := docs\<rparr>
   \<and> map ps_employee new = map em_id emps \<and> list_all (sound_slip payroll) new
   \<and> map ps_number new = map (\<lambda>i. doc_number (get_payslip_prefix c (db_settings db)) year
        (Suc (db_documents db (cx_tenant c, get_payslip_prefix c (db_settings db)) + i))) [0..<length emps]"
  using assms
proof (induction emps arbitrary: db)
  case Nil
  then show ?case by (intro exI [of _ "[]"] exI [of _ "db_documents db"]) simp
next
  case (Cons emp emps)
  from Cons.prems obtain db1 where one: "pay_employee c year p payroll inputs absence emp db = Inr db1"
    and rest: "pay_staff c year p payroll inputs absence emps db1 = Inr db'"
    by auto
  from one obtain s ents where s: "db1 = db\<lparr>db_items := db_items db @ [s], db_entries := db_entries db @ ents,
        db_documents := snd (next_doc year c (get_payslip_prefix c (db_settings db)) (db_documents db))\<rparr>"
    "sound_slip payroll s" "ps_employee s = em_id emp"
    "ps_number s = fst (next_doc year c (get_payslip_prefix c (db_settings db)) (db_documents db))"
    by (rule pay_employee_Inr)
  from Cons.IH [OF rest] obtain new ents' docs where
    n: "db' = db1\<lparr>db_items := db_items db1 @ new, db_entries := db_entries db1 @ ents', db_documents := docs\<rparr>"
      "map ps_employee new = map em_id emps" "list_all (sound_slip payroll) new"
      "map ps_number new = map (\<lambda>i. doc_number (get_payslip_prefix c (db_settings db1)) year
        (Suc (db_documents db1 (cx_tenant c, get_payslip_prefix c (db_settings db1)) + i))) [0..<length emps]"
    by blast
  show ?case
    by (intro exI [of _ "s # new"] exI [of _ "ents @ ents'"] exI [of _ docs])
      (use n s in \<open>simp add: next_doc_number upt_conv_Cons map_Suc_upt [symmetric] comp_def del: upt_Suc\<close>)
qed

lemma find_run_update:
  assumes "\<And>r. run_id (f r) = run_id r \<and> run_tenant (f r) = run_tenant r"
  shows "find_run c payroll (update_run payroll f db) = map_option f (find_run c payroll db)"
proof -
  have "find (\<lambda>r. run_id r = payroll \<and> cx_tenant c = Some (run_tenant r))
      (update_where (\<lambda>r. run_id r = payroll) f rows)
    = map_option f (find (\<lambda>r. run_id r = payroll \<and> cx_tenant c = Some (run_tenant r)) rows)" for rows
    using assms by (induction rows) (auto simp: update_where_def)
  then show ?thesis by (simp add: find_run_def update_run_def)
qed

lemma eligible_staff_clear [simp]: "eligible_staff c r (clear_run payroll db) = eligible_staff c r db"
proof -
  have "in_group (clear_run payroll db) = in_group db"
    by (intro ext) (simp add: in_group_def clear_run_def split: option.split)
  then show ?thesis by (simp add: eligible_staff_def) (simp add: clear_run_def)
qed

lemma calculate_payroll_Inr:
  assumes calc: "calculate_payroll c today year payroll db = Inr (res, db')"
  obtains r p currency score where
    "find_run c payroll db = Some r" "run_status r \<in> {R_DRAFT, R_SUBMITTED}"
    "run_params_of c today r db = Inr p"
    "map ps_employee (run_items payroll db') = map em_id (eligible_staff c r db)"
    "list_all (sound_slip payroll) (run_items payroll db')"
    "distinct (map ps_number (run_items payroll db'))"
    "filter (\<lambda>i. ps_payroll i \<noteq> payroll) (db_items db') = filter (\<lambda>i. ps_payroll i \<noteq> payroll) (db_items db)"
    "find_run c payroll db' = Some (r\<lparr>run_gross := js_total (map ps_gross (run_items payroll db')),
        run_deductions := js_total (map ps_total_deductions (run_items payroll db')),
        run_net := js_total (map ps_net (run_items payroll db')),
        run_currency := currency, run_config := Some (sc_id (rp_paye_config p)), run_score := score\<rparr>)"
proof -
  from calc obtain r where r: "find_run c payroll db = Some r" "run_status r \<in> {R_DRAFT, R_SUBMITTED}"
    by (auto simp: calculate_payroll_def split: option.splits if_splits)
  define inputs where "inputs = load_modern_payroll_inputs
     \<lparr>ls_ctx = c, ls_staff = map em_id (eligible_staff c r db), ls_start = run_start r, ls_end = run_end r\<rparr>
     (db_inputs (clear_run payroll db))"
  define absence where "absence = load_attendance_unpaid_days c (clear_run payroll db) (run_start r) (run_end r)"
  from calc r obtain p db2 v where p: "run_params_of c today r db = Inr p"
    and staff: "pay_staff c year p payroll inputs absence (eligible_staff c r db) (clear_run payroll db) = Inr db2"
    and v: "validate_payroll c payroll (store_totals c p payroll db2) = Inr (v, db')"
    by (auto simp: calculate_payroll_def Let_def inputs_def absence_def rbind_Inr_iff split: if_splits)
  from pay_staff_Inr [OF staff] obtain new ents docs where
    new: "db2 = (clear_run payroll db)\<lparr>db_items := db_items (clear_run payroll db) @ new,
            db_entries := db_entries (clear_run payroll db) @ ents, db_documents := docs\<rparr>"
      "map ps_employee new = map em_id (eligible_staff c r db)" "list_all (sound_slip payroll) new"
      "map ps_number new = map (\<lambda>i. doc_number (get_payslip_prefix c (db_settings (clear_run payroll db))) year
        (Suc (db_documents (clear_run payroll db)
                (cx_tenant c, get_payslip_prefix c (db_settings (clear_run payroll db))) + i)))
        [0..<length (eligible_staff c r db)]"
    by blast
  have own: "filter (\<lambda>i. ps_payroll i = payroll) new = new" "filter (\<lambda>i. ps_payroll i \<noteq> payroll) new = []"
    using new(3) by (auto simp: sound_slip_def list_all_iff filter_id_conv filter_empty_conv)
  have items2: "run_items payroll db2 = new"
    by (simp add: run_items_def new(1) clear_run_def own(1))
  have f2: "find_run c payroll db2 = Some r" using r(1) by (simp add: find_run_def new(1) clear_run_def)
  have run2: "find_run c payroll (store_totals c p payroll db2) = Some (r\<lparr>run_gross := js_total (map ps_gross new),
        run_deductions := js_total (map ps_total_deductions new), run_net := js_total (map ps_net new),
        run_currency := (if run_currency r = [] then get_default_currency c (db_settings db2) else run_currency r),
        run_config := Some (sc_id (rp_paye_config p))\<rparr>)"
    unfolding store_totals_def items2 by (subst find_run_update) (simp_all add: f2)
  note validated = validate_payroll_Inr [OF run2 v]
  then have items: "db_items db' = db_items (store_totals c p payroll db2)" by blast
  from validated have "db_runs db' = update_where (\<lambda>x. run_id x = payroll)
      (\<lambda>x. x\<lparr>run_score := vr_score v\<rparr>) (db_runs (store_totals c p payroll db2))"
    by simp
  then have "find_run c payroll db' = map_option (\<lambda>x. x\<lparr>run_score := vr_score v\<rparr>)
      (find_run c payroll (store_totals c p payroll db2))"
    by (subst find_run_update [symmetric]) (simp_all add: find_run_def update_run_def)
  then have final: "find_run c payroll db' = Some (r\<lparr>run_gross := js_total (map ps_gross new),
        run_deductions := js_total (map ps_total_deductions new), run_net := js_total (map ps_net new),
        run_currency := (if run_currency r = [] then get_default_currency c (db_settings db2) else run_currency r),
        run_config := Some (sc_id (rp_paye_config p)), run_score := vr_score v\<rparr>)"
    using run2 by simp
  have same: "db_items (store_totals c p payroll db2) = db_items db2"
    by (simp add: store_totals_def update_run_def)
  have items': "run_items payroll db' = new" using items2 by (simp add: run_items_def items same)
  show thesis
  proof (rule that)
    show "distinct (map ps_number (run_items payroll db'))"
      unfolding items' new(4) by (simp add: distinct_map inj_on_def doc_number_inject)
    show "filter (\<lambda>i. ps_payroll i \<noteq> payroll) (db_items db') = filter (\<lambda>i. ps_payroll i \<noteq> payroll) (db_items db)"
      unfolding items same by (simp add: new(1) clear_run_def own(2))
    show "find_run c payroll db' = Some (r\<lparr>run_gross := js_total (map ps_gross (run_items payroll db')),
        run_deductions := js_total (map ps_total_deductions (run_items payroll db')),
        run_net := js_total (map ps_net (run_items payroll db')),
        run_currency := (if run_currency r = [] then get_default_currency c (db_settings db2) else run_currency r),
        run_config := Some (sc_id (rp_paye_config p)), run_score := vr_score v\<rparr>)"
      unfolding items' by (rule final)
  qed (use r p new in \<open>simp_all add: items'\<close>)
qed

lemma js_total_finite:
  "(\<And>s. s \<in> set xs \<Longrightarrow> f s = Num (g s) \<and> round2 (g s) = g s) \<Longrightarrow> js_total (map f xs) = Num (\<Sum>s\<leftarrow>xs. g s)"
proof -
  assume *: "\<And>s. s \<in> set xs \<Longrightarrow> f s = Num (g s) \<and> round2 (g s) = g s"
  then have "fold (\<lambda>x t. js_add t x) (map f xs) (Num a) = Num (a + (\<Sum>s\<leftarrow>xs. g s))" for a
    by (induction xs arbitrary: a) (simp_all add: add.assoc)
  from this [of 0] show ?thesis using * r2.rnd_sum_fixed [of xs g] by (simp add: js_total_def)
qed

subsection \<open>A sample run\<close>

text \<open>One employee on a million a month who repays a loan; the defaults of the source for the rest.\<close>

definition sample_nssf_config :: statutory_config where
  "sample_nssf_config =
     (sample_config (JObj [(''employee'', JNum (5 / 100)), (''employer'', JNum (1 / 10))]) JNull JNull)
       \<lparr>sc_category := ''NSSF''\<rparr>"

definition sample_recovery :: "row_id \<Rightarrow> rat \<Rightarrow> rat \<Rightarrow> recovery_row" where
  "sample_recovery i monthly balance =
     \<lparr>rc_id = i, rc_employee = 5, rc_status = ''ACTIVE'', rc_balance = balance, rc_monthly = monthly,
      rc_interest = None, rc_period = None\<rparr>"

definition sample_calc_db :: payroll_db where
  "sample_calc_db = empty_payroll_db
     \<lparr>db_runs := [sample_run], db_employees := [sample_employee 5 1000000],
      db_statutory := [sample_config resident_bands JNull JNull, sample_nssf_config],
      db_loans := [sample_recovery 1 100000 50000]\<rparr>"

definition sample_params :: run_params where
  "sample_params =
     \<lparr>rp_start = 20454, rp_end = 20484, rp_extra_earnings = 0, rp_extra_deductions = 0,
      rp_deduct_loans = True, rp_deduct_advances = True, rp_arrears = Map.empty,
      rp_paye_config = sample_config resident_bands JNull JNull, rp_nssf_config = sample_nssf_config,
      rp_lst_config = None, rp_secondary_config = None\<rparr>"

definition sample_inputs :: payroll_inputs where
  "sample_inputs = \<lparr>pi_components = Map.empty, pi_variable = Map.empty, pi_lines = Map.empty,
     pi_benefits = Map.empty, pi_salaries = Map.empty\<rparr>"

lemma sample_run_params: "run_params_of sample_ctx 20500 sample_run sample_calc_db = Inr sample_params"
  by (simp add: run_params_of_def sample_params_def sample_calc_db_def sample_defs is_off_cycle_def
      arrears_by_employee_def require_statutory_config_def get_statutory_config_def config_matches_def
      config_key_def limit1_def sample_nssf_config_def sample_config_def Let_def)

lemma sample_staff: "eligible_staff sample_ctx sample_run sample_calc_db = [sample_employee 5 1000000]"
  by code_simp

lemma sample_load:
  "load_modern_payroll_inputs \<lparr>ls_ctx = c, ls_staff = xs, ls_start = a, ls_end = b\<rparr>
     (db_inputs (clear_run 7 sample_calc_db)) = sample_inputs"
  "load_attendance_unpaid_days c (clear_run 7 sample_calc_db) a b = Map.empty"
  by (simp_all add: load_modern_payroll_inputs_def sample_inputs_def load_employee_components_def
      load_variable_pay_def load_earnings_and_deductions_def load_employee_benefits_def
      load_effective_salaries_def load_attendance_unpaid_days_def clear_run_def sample_calc_db_def
      empty_payroll_db_def)

definition sample_view :: "payslip \<Rightarrow> jsnum list" where
  "sample_view s = [ps_gross s, ps_paye s, ps_nssf s, ps_lst s, ps_loans s, ps_net s]"

lemma sample_paid:
  "(case pay_employee sample_ctx 2026 sample_params 7 sample_inputs Map.empty (sample_employee 5 1000000)
           (clear_run 7 sample_calc_db) of
      Inr db \<Rightarrow> map sample_view (run_items 7 db)
    | Inl _ \<Rightarrow> []) = [[Num 1000000, Num 187000, Num 50000, Num 0, Num 50000, Num 713000]]"
  by code_simp

lemma sample_calculation:
  obtains res db' s where "calculate_payroll sample_ctx 20500 2026 7 sample_calc_db = Inr (res, db')"
    "run_items 7 db' = [s]"
    "sample_view s = [Num 1000000, Num 187000, Num 50000, Num 0, Num 50000, Num 713000]"
proof -
  obtain db2 where paid: "pay_employee sample_ctx 2026 sample_params 7 sample_inputs Map.empty
      (sample_employee 5 1000000) (clear_run 7 sample_calc_db) = Inr db2"
    and view: "map sample_view (run_items 7 db2) = [[Num 1000000, Num 187000, Num 50000, Num 0, Num 50000, Num 713000]]"
    using sample_paid by (auto split: sum.splits)
  have run: "find_run sample_ctx 7 sample_calc_db = Some sample_run" by code_simp
  have run2: "find_run sample_ctx 7 db2 = Some sample_run"
    using paid by (rule pay_employee_Inr) (use run in \<open>simp add: find_run_def clear_run_def\<close>)
  then obtain r3 where run3: "find_run sample_ctx 7 (store_totals sample_ctx sample_params 7 db2) = Some r3"
    unfolding store_totals_def by (subst (asm) find_run_update) simp_all
  obtain v db' where v: "validate_payroll sample_ctx 7 (store_totals sample_ctx sample_params 7 db2) = Inr (v, db')"
    using run3 by (rule validate_payroll_returns)
  have "run_items 7 db' = run_items 7 db2"
    using validate_payroll_Inr [OF run3 v] by (simp add: run_items_def store_totals_def update_run_def)
  moreover have "run_status sample_run = R_DRAFT" by (simp add: sample_run_def)
  then have "\<exists>res. calculate_payroll sample_ctx 20500 2026 7 sample_calc_db = Inr (res, db')"
    using run paid v
    by (simp add: calculate_payroll_def sample_run_params sample_staff sample_load Let_def)
  ultimately show thesis using view that by (auto simp: map_eq_Cons_conv)
qed

subsection \<open>Properties\<close>

text \<open>
  C1. Net pay. Every payslip that a calculation stores balances: whenever its gross pay and statutory
  deductions are finite numbers, total deductions are the sum of PAYE, NSSF, LST, loan, advance and
  fine recoveries and other deductions, net pay is gross pay less total deductions, and no cent is
  lost to rounding. The recoveries are never negative and together stay within two thirds of gross
  pay and within what the statutory deductions leave.
\<close>

theorem payslips_balance:
  assumes "calculate_payroll c today year payroll db = Inr (res, db')"
    and "s \<in> set (run_items payroll db')"
    and "js_finite (ps_gross s)" and "js_finite (ps_paye s)" and "js_finite (ps_nssf s)" and "js_finite (ps_lst s)"
  shows "let deductions = num_val (ps_paye s) + num_val (ps_nssf s) + num_val (ps_lst s)
           + num_val (ps_loans s) + num_val (ps_advances s) + num_val (ps_fines s) + num_val (ps_other s);
         recoveries = num_val (ps_loans s) + num_val (ps_advances s) + num_val (ps_fines s);
         statutory = num_val (ps_paye s) + num_val (ps_nssf s) + num_val (ps_lst s)
     in ps_total_deductions s = Num deductions
      \<and> ps_net s = Num (num_val (ps_gross s) - deductions)
      \<and> 0 \<le> num_val (ps_loans s) \<and> 0 \<le> num_val (ps_advances s) \<and> 0 \<le> num_val (ps_fines s)
      \<and> recoveries \<le> max 0 (round2 (num_val (ps_gross s) * 2 / 3))
      \<and> recoveries \<le> max 0 (num_val (ps_gross s) - statutory)"
proof -
  have "balanced_slip s"
    using assms by (auto elim!: calculate_payroll_Inr simp: list_all_iff sound_slip_def finite_slip_def)
  then show ?thesis
    by (auto simp: balanced_slip_def slip_deductions_def recovery_limit_def Let_def)
qed

theorem payslips_balance_witness:
  "\<exists>res db' s. calculate_payroll sample_ctx 20500 2026 7 sample_calc_db = Inr (res, db')
     \<and> run_items 7 db' = [s] \<and> ps_net s = Num 713000 \<and> ps_loans s = Num 50000
     \<and> num_val (ps_loans s) + num_val (ps_advances s) + num_val (ps_fines s) \<le> 66666667 / 100"
proof -
  obtain res db' s where calc: "calculate_payroll sample_ctx 20500 2026 7 sample_calc_db = Inr (res, db')"
    and s: "run_items 7 db' = [s]"
    and view: "sample_view s = [Num 1000000, Num 187000, Num 50000, Num 0, Num 50000, Num 713000]"
    by (rule sample_calculation)
  have fig: "ps_gross s = Num 1000000" "ps_paye s = Num 187000" "ps_nssf s = Num 50000" "ps_lst s = Num 0"
    "ps_loans s = Num 50000" "ps_net s = Num 713000"
    using view by (simp_all add: sample_view_def)
  have fin: "js_finite (ps_gross s)" "js_finite (ps_paye s)" "js_finite (ps_nssf s)" "js_finite (ps_lst s)"
    by (simp_all add: fig)
  have mem: "s \<in> set (run_items 7 db')" by (simp add: s)
  have "num_val (ps_loans s) + num_val (ps_advances s) + num_val (ps_fines s)
      \<le> max 0 (round2 (num_val (ps_gross s) * 2 / 3))"
    using payslips_balance [OF calc mem fin] by (simp add: Let_def)
  then show ?thesis using calc s fig by (auto simp: round_eval)
qed



text \<open>
  Second employment without a rule. The comment above \<open>secondEmploymentTax\<close> says that a missing \<open>PAYE_SECONDARY\<close> rule degrades to
  normal taxation rather than to zero tax. The code does the opposite: an absent configuration has no
  employment scopes, so it applies to every employment, and the secondary tax of an absent
  configuration is zero.
\<close>

theorem second_employment_untaxed:
  assumes "rp_secondary_config p = None"
    and "statutory_figures_of p True gross chargeable = Inr f"
  shows "sf_paye f = Num 0 \<and> sf_config f = sc_id (rp_paye_config p)"
  using assms
  by (auto simp: statutory_figures_of_def second_employment_tax_def applies_to_employment_def
      employment_scopes_def is_nullish_def compute_secondary_paye_def Let_def)

theorem second_employment_untaxed_witness:
  "\<exists>f. statutory_figures_of sample_params True (Num 1000000) (Num 1000000) = Inr f \<and> sf_paye f = Num 0"
proof -
  have none: "rp_secondary_config sample_params = None" by (simp add: sample_params_def)
  have "(case statutory_figures_of sample_params True (Num 1000000) (Num 1000000) of
      Inr f \<Rightarrow> True | Inl _ \<Rightarrow> False)"
    by code_simp
  then obtain f where f: "statutory_figures_of sample_params True (Num 1000000) (Num 1000000) = Inr f"
    by (auto split: sum.splits)
  show ?thesis using second_employment_untaxed [OF none f] f by blast
qed

end
