(* ===== verification/Finance.thy ===== *)
theory Finance
  imports Audit_Trail Calendar
begin

text \<open>
  The general ledger, \<^verbatim>\<open>apps/api/src/services/finance.ts\<close>: accounts, financial periods, posting
  rules, the budget guard, the double-entry posting engine (the SQL function \<open>post_journal\<close> of
  \<^verbatim>\<open>packages/db/migrations/0010_finance.sql\<close>), and the posting of sales and purchase documents. An
  entry holds its lines. Amounts are exact rationals; the columns of a stored line have two decimals
  and round on insertion. The registration of a posted document for fiscalisation runs under a
  savepoint, cannot fail the posting and touches only fiscal tables; it is not modelled.
\<close>

subsection \<open>State\<close>

record account =
  ac_id :: row_id
  ac_company :: row_id
  ac_code :: string
  ac_active :: bool

record period =
  fp_id :: row_id
  fp_tenant :: row_id
  fp_company :: row_id
  fp_code :: string
  fp_start :: date
  fp_end :: date
  fp_status :: string
  fp_closed_by :: "row_id option"

record journal_line =
  jl_account :: row_id
  jl_debit :: rat
  jl_credit :: rat
  jl_centre :: "row_id option"
  jl_description :: string

datatype journal_status = J_DRAFT | J_POSTED | J_VOID

record journal_entry =
  je_id :: row_id
  je_company :: row_id
  je_tenant :: "row_id option"
  je_date :: date
  je_period :: "row_id option"
  je_type :: string
  je_description :: string
  je_ref :: "(string \<times> row_id \<times> string) option"
  je_total_debit :: rat
  je_total_credit :: rat
  je_status :: journal_status
  je_user :: "row_id option"
  je_reversal_of :: "row_id option"
  je_lines :: "journal_line list"

record posting_rule =
  pr_id :: row_id
  pr_company :: row_id
  pr_event :: string
  pr_active :: bool
  pr_lines :: jval

record budget =
  bg_id :: row_id
  bg_company :: row_id
  bg_tenant :: row_id
  bg_no :: string
  bg_status :: string
  bg_start :: date
  bg_end :: date
  bg_lines :: "(row_id \<times> rat) list"

record commitment =
  cm_tenant :: row_id
  cm_account :: row_id
  cm_status :: string
  cm_amount :: rat

text \<open>Every postable document has an id, a tenant, a number, a status and its GL stamp.\<close>

record document =
  dc_id :: row_id
  dc_tenant :: row_id
  dc_no :: string
  dc_date :: date
  dc_status :: string
  dc_posted :: bool
  dc_journal :: "row_id option"

record customer_invoice = document +
  ci_subtotal :: rat
  ci_discount :: rat
  ci_tax :: rat
  ci_total :: rat
  ci_paid :: rat

record receipt = document +
  rt_amount :: rat
  rt_bank_gl :: "row_id option"
  rt_invoice :: "row_id option"
  rt_unallocated :: rat

record allocation =
  al_receipt :: row_id
  al_invoice :: row_id
  al_amount :: rat

text \<open>Credit and debit notes.\<close>

record money_note = document +
  nt_amount :: rat
  nt_tax :: "rat option"
  nt_invoice :: "row_id option"

record supplier_item =
  it_amount :: "rat option"
  it_quantity :: rat
  it_price :: "rat option"
  it_account :: "row_id option"
  it_product_type :: "string option"
  it_description :: string

record supplier_invoice = document +
  si_tax :: rat
  si_total :: rat
  si_paid :: rat
  si_grn :: "row_id option"
  si_matched :: "bool option"
  si_items :: "supplier_item list"

record supplier_payment = document +
  sp_amount :: rat
  sp_bank_gl :: "row_id option"
  sp_invoice :: "row_id option"

record finance_db =
  fd_accounts :: "account list"
  fd_periods :: "period list"
  fd_rules :: "posting_rule list"
  fd_budgets :: "budget list"
  fd_commitments :: "commitment list"
  fd_entries :: "journal_entry list"
  fd_invoices :: "customer_invoice list"
  fd_receipts :: "receipt list"
  fd_allocations :: "allocation list"
  fd_credit_notes :: "money_note list"
  fd_debit_notes :: "money_note list"
  fd_supplier_invoices :: "supplier_invoice list"
  fd_supplier_payments :: "supplier_payment list"
  fd_settings :: "(row_id \<times> row_id option \<times> jval) list"
  fd_next :: row_id
  fd_events :: "event_row list"
  fd_audit :: "audit_row list"

subsection \<open>Chart of accounts\<close>

definition coa_ar :: string where "coa_ar = ''10111500''"
definition coa_ap :: string where "coa_ap = ''10121100''"
definition coa_vat :: string where "coa_vat = ''10121700''"
definition coa_vat_input :: string where "coa_vat_input = ''10111900''"
definition coa_revenue :: string where "coa_revenue = ''10241200''"
definition coa_inventory :: string where "coa_inventory = ''10111400''"
definition coa_admin_exp :: string where "coa_admin_exp = ''10254500''"
definition coa_default_bank :: string where "coa_default_bank = ''10111300''"
definition coa_petty :: string where "coa_petty = ''10111200''"
definition coa_accrual :: string where "coa_accrual = ''10121300''"
definition coa_paye :: string where "coa_paye = ''10121400''"
definition coa_other_recv :: string where "coa_other_recv = ''10111700''"

lemmas coa_defs = coa_ar_def coa_ap_def coa_vat_def coa_vat_input_def coa_revenue_def coa_inventory_def
  coa_admin_exp_def coa_default_bank_def coa_petty_def coa_accrual_def coa_paye_def coa_other_recv_def

text \<open>\<open>RAW_INV\<close>, \<open>FG_INV\<close> and \<open>WIP\<close> are one account, so every product type maps to it.\<close>

definition inventory_account_for_type :: "string option \<Rightarrow> string" where
  "inventory_account_for_type t =
     (if t \<in> {Some ''JUMBO_ROLL'', Some ''PAPER_BOBBIN'', Some ''PACKAGING'', Some ''CONSUMABLE''} then coa_inventory
      else if t \<in> {Some ''FINISHED_GOODS'', Some ''REAM'', Some ''SECURITY_ITEM''} then coa_inventory
      else coa_inventory)"

definition find_account :: "ctx \<Rightarrow> string \<Rightarrow> finance_db \<Rightarrow> row_id option" where
  "find_account c code db =
     map_option ac_id
       (find (\<lambda>a. cx_company c = Some (ac_company a) \<and> ac_code a = code \<and> ac_active a) (fd_accounts db))"

definition get_account_id :: "ctx \<Rightarrow> string \<Rightarrow> finance_db \<Rightarrow> row_id result" where
  "get_account_id c code db =
     (case find_account c code db of
        None \<Rightarrow> Inl (BadRequest (''Chart of accounts code '' @ code @ '' not found''))
      | Some i \<Rightarrow> Inr i)"

subsection \<open>Posting rules\<close>

definition is_word :: "char \<Rightarrow> bool" where
  "is_word c \<longleftrightarrow> is_digit c \<or> is_upper c \<or> is_lower c \<or> c = CHR ''_''"

text \<open>\<open>replace(/{{(\w+)}}/g, ..)\<close>.\<close>

function fill_template :: "(string \<Rightarrow> string) \<Rightarrow> string \<Rightarrow> string" where
  "fill_template val s =
     (case s of
        [] \<Rightarrow> []
      | c # cs \<Rightarrow>
          (let w = takeWhile is_word (drop 2 s); rest = drop (2 + length w) s in
           if starts_with ''{{'' s \<and> w \<noteq> [] \<and> starts_with ''}}'' rest
           then val w @ fill_template val (drop 2 rest)
           else c # fill_template val cs))"
  by pat_completeness auto
termination
  by (relation "measure (\<lambda>(_, s). length s)") auto

declare fill_template.simps [simp del]

definition render_amount :: "jval \<Rightarrow> (string \<rightharpoonup> rat) \<Rightarrow> rat" where
  "render_amount tpl vars =
     (let raw = fill_template (\<lambda>k. to_string (JNum (case vars k of None \<Rightarrow> 0 | Some q \<Rightarrow> q)))
                  (to_string (coalesce tpl (JStr ''0'')))
      in case number_of_string raw of Num v \<Rightarrow> round2 v | _ \<Rightarrow> 0)"

definition total_debit :: "journal_line list \<Rightarrow> rat" where
  "total_debit ls = (\<Sum>l\<leftarrow>ls. jl_debit l)"

definition total_credit :: "journal_line list \<Rightarrow> rat" where
  "total_credit ls = (\<Sum>l\<leftarrow>ls. jl_credit l)"

text \<open>
  The loop over the rule's lines: \<open>None\<close> is the early \<open>return null\<close>. A line with no amount on either
  side is skipped.
\<close>

fun render_lines ::
  "ctx \<Rightarrow> (string \<rightharpoonup> row_id) \<Rightarrow> string \<Rightarrow> (string \<rightharpoonup> rat) \<Rightarrow> finance_db \<Rightarrow> jval list
     \<Rightarrow> journal_line list option" where
  "render_lines c substitute desc vars db [] = Some []"
| "render_lines c substitute desc vars db (x # rest) =
     (let code = js_trim (to_string (coalesce (jget x ''account_code'')
                   (coalesce (jget x ''accountCode'') (JStr []))))
      in if code = [] then None
         else case (case substitute code of Some i \<Rightarrow> Some i | None \<Rightarrow> find_account c code db) of
             None \<Rightarrow> None
           | Some i \<Rightarrow>
               (let debit = render_amount (jget x ''debit'') vars;
                    credit = render_amount (jget x ''credit'') vars
                in case render_lines c substitute desc vars db rest of
                     None \<Rightarrow> None
                   | Some ls \<Rightarrow>
                       Some (if debit = 0 \<and> credit = 0 then ls
                             else \<lparr>jl_account = i, jl_debit = debit, jl_credit = credit, jl_centre = None,
                                   jl_description = desc\<rparr> # ls)))"

record rule_vars =
  rv_amount :: rat
  rv_net :: "rat option"
  rv_tax :: "rat option"

definition vars_map :: "rule_vars \<Rightarrow> (string \<rightharpoonup> rat)" where
  "vars_map v =
     [''amount'' \<mapsto> rv_amount v,
      ''net'' \<mapsto> (case rv_net v of None \<Rightarrow> rv_amount v | Some q \<Rightarrow> q),
      ''tax'' \<mapsto> (case rv_tax v of None \<Rightarrow> 0 | Some q \<Rightarrow> q)]"

definition resolve_event_lines ::
  "ctx \<Rightarrow> string \<Rightarrow> rule_vars \<Rightarrow> (string \<rightharpoonup> row_id) \<Rightarrow> string \<Rightarrow> finance_db \<Rightarrow> journal_line list option" where
  "resolve_event_lines c event vars substitute desc db =
     (case limit1 pr_id (filter (\<lambda>r. cx_company c = Some (pr_company r) \<and> pr_event r = event \<and> pr_active r)
             (fd_rules db)) of
        None \<Rightarrow> None
      | Some r \<Rightarrow>
          (case render_lines c substitute desc (vars_map vars) db (arr_elems (pr_lines r)) of
             None \<Rightarrow> None
           | Some ls \<Rightarrow>
               if length ls < 2 then None
               else if js_round (total_debit ls * 100) \<noteq> js_round (total_credit ls * 100) then None
               else Some ls))"

subsection \<open>Budgets\<close>

record budget_position =
  bp_result :: string
  bp_approved :: rat
  bp_committed :: rat
  bp_actual :: rat
  bp_available :: rat
  bp_budget :: "row_id option"

definition live_budget :: "ctx \<Rightarrow> date \<Rightarrow> budget \<Rightarrow> bool" where
  "live_budget c today b \<longleftrightarrow>
     cx_company c = Some (bg_company b) \<and> cx_tenant c = Some (bg_tenant b)
     \<and> bg_status b \<in> {''APPROVED'', ''ACTIVE''} \<and> bg_start b \<le> today \<and> today \<le> bg_end b"

definition account_movement :: "(journal_entry \<Rightarrow> bool) \<Rightarrow> row_id \<Rightarrow> journal_entry list \<Rightarrow> rat" where
  "account_movement p acct entries =
     (\<Sum>e\<leftarrow>filter p entries. \<Sum>l\<leftarrow>filter (\<lambda>l. jl_account l = acct) (je_lines e). jl_debit l - jl_credit l)"

definition budget_position_of :: "ctx \<Rightarrow> date \<Rightarrow> row_id \<Rightarrow> finance_db \<Rightarrow> budget_position" where
  "budget_position_of c today acct db =
     (let live = filter (live_budget c today) (fd_budgets db);
          approved = (\<Sum>b\<leftarrow>live. \<Sum>(a, q)\<leftarrow>bg_lines b. if a = acct then q else 0);
          committed = (\<Sum>k\<leftarrow>filter (\<lambda>k. cx_tenant c = Some (cm_tenant k) \<and> cm_account k = acct
                                     \<and> cm_status k = ''COMMITTED'') (fd_commitments db). cm_amount k);
          actual = account_movement (\<lambda>e. je_status e = J_POSTED \<and> cx_tenant c \<noteq> None \<and> je_tenant e = cx_tenant c)
                     acct (fd_entries db);
          available = round2 (approved - committed - actual)
      in \<lparr>bp_result = (if 0 < approved then (if 0 \<le> available then ''ALLOW'' else ''BLOCK'') else ''NONE''),
          bp_approved = approved, bp_committed = committed, bp_actual = actual, bp_available = available,
          bp_budget = map_option bg_id (limit1 (\<lambda>b. - int (bg_id b))
             (filter (\<lambda>b. list_ex (\<lambda>(a, q). a = acct) (bg_lines b)) live))\<rparr>)"

definition assert_budget_allows :: "ctx \<Rightarrow> date \<Rightarrow> row_id \<Rightarrow> rat \<Rightarrow> finance_db \<Rightarrow> budget_position result" where
  "assert_budget_allows c today acct amt db =
     (let pos = budget_position_of c today acct db in
      if bp_result pos = ''NONE'' then Inr pos
      else if bp_available pos + 5 / 1000 < amt then Inl (BadRequest ''Budget exceeded'')
      else Inr pos)"

subsection \<open>The posting engine\<close>

record post_input =
  ji_date :: date
  ji_type :: string
  ji_description :: string
  ji_lines :: "journal_line list"
  ji_ref :: "(string \<times> row_id \<times> string) option"

definition journal_type :: "string \<Rightarrow> string" where
  "journal_type raw =
     (if raw \<in> {''GOODS_RECEIPT'', ''GRN''} then ''GRN_RECEIPT''
      else if raw \<in> {''INVENTORY'', ''ADJUSTMENT'', ''PURCHASE_RETURN''} then ''INVENTORY_ADJUSTMENT''
      else raw)"

definition covering_period :: "row_id option \<Rightarrow> date \<Rightarrow> finance_db \<Rightarrow> period option" where
  "covering_period company d db =
     limit1 fp_start (filter (\<lambda>p. company = Some (fp_company p) \<and> fp_start p \<le> d \<and> d \<le> fp_end p) (fd_periods db))"

definition assert_period_open :: "ctx \<Rightarrow> date \<Rightarrow> finance_db \<Rightarrow> row_id result" where
  "assert_period_open c d db =
     (case covering_period (cx_company c) d db of
        None \<Rightarrow> Inl (BadRequest (''No financial period covers '' @ iso_of_date d))
      | Some p \<Rightarrow>
          if fp_status p \<noteq> ''OPEN''
          then Inl (BadRequest (''Period '' @ fp_code p @ '' is '' @ fp_status p @ '': posting is blocked''))
          else Inr (fp_id p))"

text \<open>\<open>round(x, 2)\<close> of PostgreSQL rounds halves away from zero.\<close>

definition sql_round2 :: "rat \<Rightarrow> rat" where
  "sql_round2 x = (if 0 \<le> x then round2 x else - round2 (- x))"

definition stored_line :: "journal_line \<Rightarrow> journal_line" where
  "stored_line l = l\<lparr>jl_debit := sql_round2 (jl_debit l), jl_credit := sql_round2 (jl_credit l)\<rparr>"

definition post_journal :: "ctx \<Rightarrow> row_id \<Rightarrow> post_input \<Rightarrow> finance_db \<Rightarrow> (row_id \<times> finance_db) result" where
  "post_journal c company j db =
     (if length (ji_lines j) < 2 then Inl (Internal ''A journal entry requires at least two lines'')
      else if sql_round2 (total_debit (ji_lines j)) \<noteq> sql_round2 (total_credit (ji_lines j))
      then Inl (Internal ''Journal does not balance'')
      else if total_debit (ji_lines j) \<le> 0 then Inl (Internal ''Journal entry amount must be positive'')
      else Inr (fd_next db, db
        \<lparr>fd_next := Suc (fd_next db),
         fd_entries := fd_entries db @
           [\<lparr>je_id = fd_next db, je_company = company, je_tenant = cx_tenant c, je_date = ji_date j,
             je_period = map_option fp_id (covering_period (Some company) (ji_date j) db), je_type = ji_type j,
             je_description = ji_description j, je_ref = ji_ref j,
             je_total_debit = sql_round2 (total_debit (ji_lines j)),
             je_total_credit = sql_round2 (total_credit (ji_lines j)),
             je_status = J_POSTED, je_user = cx_user c, je_reversal_of = None,
             je_lines = map stored_line (ji_lines j)\<rparr>]\<rparr>))"

definition post_journal_lines :: "ctx \<Rightarrow> post_input \<Rightarrow> finance_db \<Rightarrow> (row_id \<times> finance_db) result" where
  "post_journal_lines c j db =
     (case cx_company c of
        None \<Rightarrow> Inl (BadRequest ''Company context required'')
      | Some company \<Rightarrow>
          rbind (assert_period_open c (ji_date j) db) (\<lambda>_.
            post_journal c company (j\<lparr>ji_type := journal_type (ji_type j)\<rparr>) db))"

definition dr :: "row_id \<Rightarrow> rat \<Rightarrow> string \<Rightarrow> journal_line" where
  "dr a q d = \<lparr>jl_account = a, jl_debit = q, jl_credit = 0, jl_centre = None, jl_description = d\<rparr>"

definition cr :: "row_id \<Rightarrow> rat \<Rightarrow> string \<Rightarrow> journal_line" where
  "cr a q d = \<lparr>jl_account = a, jl_debit = 0, jl_credit = q, jl_centre = None, jl_description = d\<rparr>"

subsection \<open>Document posting\<close>

definition find_doc :: "ctx \<Rightarrow> row_id \<Rightarrow> 'd document_scheme list \<Rightarrow> 'd document_scheme option" where
  "find_doc c i docs = find (\<lambda>d. dc_id d = i \<and> cx_tenant c = Some (dc_tenant d)) docs"

definition stamp :: "row_id \<Rightarrow> row_id \<Rightarrow> string option \<Rightarrow> 'd document_scheme list \<Rightarrow> 'd document_scheme list" where
  "stamp i entry status docs =
     update_where (\<lambda>d. dc_id d = i)
       (\<lambda>d. d\<lparr>dc_posted := True, dc_journal := Some entry,
              dc_status := (case status of None \<Rightarrow> dc_status d | Some s \<Rightarrow> s)\<rparr>) docs"

definition posted_journal :: "'d document_scheme \<Rightarrow> row_id" where
  "posted_journal d = (case dc_journal d of None \<Rightarrow> 0 | Some j \<Rightarrow> j)"

definition finance_event :: "ctx \<Rightarrow> string \<Rightarrow> string \<Rightarrow> row_id \<Rightarrow> string \<Rightarrow> row_id \<Rightarrow> finance_db \<Rightarrow> finance_db" where
  "finance_event c kind table i code entry db =
     db\<lparr>fd_events := emit_event c
          \<lparr>ep_type = kind, ep_entity_type = Some table, ep_entity = Some i, ep_code = Some code,
           ep_payload = [(''journalId'', JNum (of_nat entry))], ep_severity = None\<rparr> (fd_events db)\<rparr>"

text \<open>
  The skeleton that the posting functions share: a missing document is an error, a posted one answers
  with its journal, anything else is turned into journal lines, posted, and stamped.
\<close>

definition post_document ::
  "api_error \<Rightarrow> (finance_db \<Rightarrow> 'd document_scheme list)
     \<Rightarrow> (ctx \<Rightarrow> finance_db \<Rightarrow> 'd document_scheme \<Rightarrow> post_input result)
     \<Rightarrow> (ctx \<Rightarrow> 'd document_scheme \<Rightarrow> row_id \<Rightarrow> finance_db \<Rightarrow> finance_db)
     \<Rightarrow> ctx \<Rightarrow> row_id \<Rightarrow> finance_db \<Rightarrow> (row_id \<times> finance_db) result" where
  "post_document missing docs build finish c i db =
     (case find_doc c i (docs db) of
        None \<Rightarrow> Inl missing
      | Some d \<Rightarrow>
          if dc_posted d then Inr (posted_journal d, db)
          else rbind (build c db d) (\<lambda>ji.
                 rbind (post_journal_lines c ji db) (\<lambda>(j, db1). Inr (j, finish c d j db1))))"

definition sales_invoice_journal :: "ctx \<Rightarrow> finance_db \<Rightarrow> customer_invoice \<Rightarrow> post_input result" where
  "sales_invoice_journal c db d =
     (if dc_status d \<noteq> ''APPROVED'' \<and> dc_status d \<noteq> ''POSTED''
      then Inl (BadRequest ''Invoice must be APPROVED before posting'')
      else
        rbind (get_account_id c coa_ar db) (\<lambda>ar.
        rbind (get_account_id c coa_revenue db) (\<lambda>income.
        rbind (get_account_id c coa_vat db) (\<lambda>vat.
          (let revenue = ci_subtotal d - ci_discount d;
               desc = ''Invoice '' @ dc_no d;
               fallback = [dr ar (ci_total d) desc, cr income revenue (''Revenue '' @ dc_no d)]
                 @ (if 0 < ci_tax d then [cr vat (ci_tax d) (''VAT '' @ dc_no d)] else [])
           in Inr \<lparr>ji_date = dc_date d, ji_type = ''SALES_INVOICE'',
                   ji_description = ''Customer invoice '' @ dc_no d,
                   ji_lines = (case resolve_event_lines c ''SALES_INVOICE''
                       \<lparr>rv_amount = ci_total d, rv_net = Some revenue, rv_tax = Some (ci_tax d)\<rparr>
                       Map.empty desc db of None \<Rightarrow> fallback | Some ls \<Rightarrow> ls),
                   ji_ref = Some (''customer_invoices'', dc_id d, dc_no d)\<rparr>)))))"

definition sales_invoice_done :: "ctx \<Rightarrow> customer_invoice \<Rightarrow> row_id \<Rightarrow> finance_db \<Rightarrow> finance_db" where
  "sales_invoice_done c d j db =
     (finance_event c ''finance.invoice_posted'' ''customer_invoices'' (dc_id d) (dc_no d) j
        (db\<lparr>fd_invoices := stamp (dc_id d) j (Some ''POSTED'') (fd_invoices db)\<rparr>))
       \<lparr>fd_audit := log_audit c
          \<lparr>ae_action = ''post'', ae_resource = ''customer_invoices'', ae_record = Some (dc_id d),
           ae_code = Some (dc_no d), ae_old = [], ae_new = [(''gl_journal_id'', JNum (of_nat j))]\<rparr> (fd_audit db)\<rparr>"

definition post_sales_invoice :: "ctx \<Rightarrow> row_id \<Rightarrow> finance_db \<Rightarrow> (row_id \<times> finance_db) result" where
  "post_sales_invoice =
     post_document (NotFound ''Invoice not found'') fd_invoices sales_invoice_journal sales_invoice_done"

text \<open>
  Applying a receipt: \<open>amount_paid + part\<close> on every allocated invoice that is not void, which becomes
  \<open>PAID\<close> when at most half a cent is left.
\<close>

definition apply_part :: "row_id \<times> rat \<Rightarrow> customer_invoice list \<Rightarrow> customer_invoice list" where
  "apply_part = (\<lambda>(invoice, part) rows.
     update_where (\<lambda>d. dc_id d = invoice \<and> dc_status d \<noteq> ''VOID'')
       (\<lambda>d. d\<lparr>ci_paid := ci_paid d + part,
              dc_status := (if ci_total d - 5 / 1000 \<le> ci_paid d + part then ''PAID'' else ''PARTIALLY_PAID'')\<rparr>) rows)"

definition receipt_parts :: "receipt \<Rightarrow> allocation list \<Rightarrow> allocation list" where
  "receipt_parts d rows =
     (let allocs = filter (\<lambda>a. al_receipt a = dc_id d) rows in
      case rt_invoice d of
        Some i \<Rightarrow>
          if allocs = [] then [\<lparr>al_receipt = dc_id d, al_invoice = i, al_amount = rt_amount d\<rparr>] else allocs
      | None \<Rightarrow> allocs)"

definition receipt_journal :: "ctx \<Rightarrow> finance_db \<Rightarrow> receipt \<Rightarrow> post_input result" where
  "receipt_journal c db d =
     rbind (get_account_id c coa_ar db) (\<lambda>ar.
     rbind (case rt_bank_gl d of Some b \<Rightarrow> Inr b | None \<Rightarrow> get_account_id c coa_default_bank db) (\<lambda>bank.
       (let desc = ''Receipt '' @ dc_no d in
        Inr \<lparr>ji_date = dc_date d, ji_type = ''CUSTOMER_RECEIPT'',
             ji_description = desc @ '' from customer'',
             ji_lines = (case resolve_event_lines c ''CUSTOMER_RECEIPT''
                 \<lparr>rv_amount = rt_amount d, rv_net = None, rv_tax = None\<rparr> [coa_default_bank \<mapsto> bank] desc db of
                 None \<Rightarrow> [dr bank (rt_amount d) desc, cr ar (rt_amount d) desc] | Some ls \<Rightarrow> ls),
             ji_ref = Some (''receipts'', dc_id d, dc_no d)\<rparr>)))"

definition receipt_done :: "ctx \<Rightarrow> receipt \<Rightarrow> row_id \<Rightarrow> finance_db \<Rightarrow> finance_db" where
  "receipt_done c d j db =
     (let parts = receipt_parts d (fd_allocations db);
          allocated = (\<Sum>a\<leftarrow>parts. al_amount a)
      in finance_event c ''finance.receipt_posted'' ''receipts'' (dc_id d) (dc_no d) j
           (db\<lparr>fd_allocations := filter (\<lambda>a. al_receipt a \<noteq> dc_id d) (fd_allocations db) @ parts,
               fd_invoices := fold apply_part (map (\<lambda>a. (al_invoice a, al_amount a)) parts) (fd_invoices db),
               fd_receipts := update_where (\<lambda>r. dc_id r = dc_id d)
                 (\<lambda>r. r\<lparr>rt_unallocated := max (rt_amount d - allocated) 0\<rparr>)
                 (stamp (dc_id d) j None (fd_receipts db))\<rparr>))"

definition post_receipt :: "ctx \<Rightarrow> row_id \<Rightarrow> finance_db \<Rightarrow> (row_id \<times> finance_db) result" where
  "post_receipt = post_document (NotFound ''Receipt not found'') fd_receipts receipt_journal receipt_done"

definition note_tax :: "money_note \<Rightarrow> rat" where
  "note_tax n = max 0 (case nt_tax n of None \<Rightarrow> 0 | Some t \<Rightarrow> t)"

definition credit_note_journal :: "ctx \<Rightarrow> finance_db \<Rightarrow> money_note \<Rightarrow> post_input result" where
  "credit_note_journal c db d =
     (if dc_status d \<noteq> ''APPROVED'' then Inl (BadRequest ''Credit note must be APPROVED'')
      else
        rbind (get_account_id c coa_ar db) (\<lambda>ar.
        rbind (get_account_id c coa_revenue db) (\<lambda>income.
        rbind (if 0 < note_tax d then rbind (get_account_id c coa_vat db) (\<lambda>v. Inr (Some v)) else Inr None) (\<lambda>vat.
          (let amt = nt_amount d; tax = note_tax d; net = max (amt - tax) 0; desc = ''Credit note '' @ dc_no d
           in Inr \<lparr>ji_date = dc_date d, ji_type = ''CREDIT_NOTE'', ji_description = desc,
                   ji_lines = [dr income net desc]
                     @ (case vat of Some v \<Rightarrow> [dr v tax (''VAT credit note '' @ dc_no d)] | None \<Rightarrow> [])
                     @ [cr ar amt desc],
                   ji_ref = Some (''credit_notes'', dc_id d, dc_no d)\<rparr>)))))"

definition credit_note_done :: "ctx \<Rightarrow> money_note \<Rightarrow> row_id \<Rightarrow> finance_db \<Rightarrow> finance_db" where
  "credit_note_done c d j db = db
     \<lparr>fd_credit_notes := stamp (dc_id d) j (Some ''POSTED'') (fd_credit_notes db),
      fd_invoices := (case nt_invoice d of
         None \<Rightarrow> fd_invoices db
       | Some i \<Rightarrow> update_where (\<lambda>r. dc_id r = i \<and> dc_status r \<noteq> ''VOID'')
           (\<lambda>r. r\<lparr>ci_paid := ci_paid r - nt_amount d\<rparr>) (fd_invoices db))\<rparr>"

definition post_credit_note :: "ctx \<Rightarrow> row_id \<Rightarrow> finance_db \<Rightarrow> (row_id \<times> finance_db) result" where
  "post_credit_note =
     post_document (NotFound ''Credit note not found'') fd_credit_notes credit_note_journal credit_note_done"

definition debit_note_journal :: "ctx \<Rightarrow> finance_db \<Rightarrow> money_note \<Rightarrow> post_input result" where
  "debit_note_journal c db d =
     (if dc_status d \<noteq> ''APPROVED'' then Inl (BadRequest ''Debit note must be APPROVED'')
      else
        rbind (get_account_id c coa_ar db) (\<lambda>ar.
        rbind (get_account_id c coa_revenue db) (\<lambda>income.
        rbind (if 0 < note_tax d then rbind (get_account_id c coa_vat db) (\<lambda>v. Inr (Some v)) else Inr None) (\<lambda>vat.
          (let amt = nt_amount d; tax = note_tax d; net = max (amt - tax) 0; desc = ''Debit note '' @ dc_no d
           in Inr \<lparr>ji_date = dc_date d, ji_type = ''DEBIT_NOTE'', ji_description = desc,
                   ji_lines = [dr ar amt desc, cr income net desc]
                     @ (case vat of Some v \<Rightarrow> [cr v tax (''VAT debit note '' @ dc_no d)] | None \<Rightarrow> []),
                   ji_ref = Some (''debit_notes'', dc_id d, dc_no d)\<rparr>)))))"

definition debit_note_done :: "ctx \<Rightarrow> money_note \<Rightarrow> row_id \<Rightarrow> finance_db \<Rightarrow> finance_db" where
  "debit_note_done c d j db = db
     \<lparr>fd_debit_notes := stamp (dc_id d) j (Some ''POSTED'') (fd_debit_notes db),
      fd_invoices := (case nt_invoice d of
         None \<Rightarrow> fd_invoices db
       | Some i \<Rightarrow> update_where (\<lambda>r. dc_id r = i \<and> dc_status r \<noteq> ''VOID'')
           (\<lambda>r. r\<lparr>ci_total := ci_total r + nt_amount d,
                  dc_status := (if ci_total r + nt_amount d - 5 / 1000 \<le> ci_paid r
                                then ''PAID'' else ''PARTIALLY_PAID'')\<rparr>) (fd_invoices db))\<rparr>"

definition post_debit_note :: "ctx \<Rightarrow> row_id \<Rightarrow> finance_db \<Rightarrow> (row_id \<times> finance_db) result" where
  "post_debit_note =
     post_document (NotFound ''Debit note not found'') fd_debit_notes debit_note_journal debit_note_done"

definition three_way_match_required :: "ctx \<Rightarrow> finance_db \<Rightarrow> bool" where
  "three_way_match_required c db =
     (case limit1 (\<lambda>(t, company, v). if company = None then (1 :: nat) else 0)
             (filter (\<lambda>(t, company, v). cx_tenant c = Some t \<and> (company = None \<or> sql_eq company (cx_company c)))
               (fd_settings db)) of
        None \<Rightarrow> True
      | Some (t, company, v) \<Rightarrow>
          (case v of
             JNull \<Rightarrow> True | JUndef \<Rightarrow> True | JBool b \<Rightarrow> b
           | _ \<Rightarrow> js_lower (js_trim (to_string v)) \<notin> {''false'', ''0'', ''no'', ''off''}))"

definition item_amount :: "supplier_item \<Rightarrow> rat" where
  "item_amount it =
     (case it_amount it of Some a \<Rightarrow> a
      | None \<Rightarrow> it_quantity it * (case it_price it of None \<Rightarrow> 0 | Some p \<Rightarrow> p))"

fun supplier_lines ::
  "ctx \<Rightarrow> bool \<Rightarrow> row_id \<Rightarrow> finance_db \<Rightarrow> supplier_item list \<Rightarrow> journal_line list result" where
  "supplier_lines c via_grn accrual db [] = Inr []"
| "supplier_lines c via_grn accrual db (it # its) =
     (if item_amount it = 0 then supplier_lines c via_grn accrual db its
      else rbind (if via_grn then Inr accrual
                  else case it_account it of
                      Some a \<Rightarrow> Inr a
                    | None \<Rightarrow> get_account_id c (inventory_account_for_type (it_product_type it)) db) (\<lambda>acct.
             rbind (supplier_lines c via_grn accrual db its) (\<lambda>ls.
               Inr (dr acct (item_amount it) (it_description it) # ls))))"

definition supplier_invoice_journal :: "ctx \<Rightarrow> finance_db \<Rightarrow> supplier_invoice \<Rightarrow> post_input result" where
  "supplier_invoice_journal c db d =
     (if dc_status d \<noteq> ''APPROVED'' \<and> dc_status d \<noteq> ''MATCHED''
      then Inl (BadRequest ''Supplier invoice must be APPROVED before posting'')
      else if si_matched d \<noteq> Some True \<and> three_way_match_required c db
      then Inl (BadRequest ''Supplier invoice fails three-way match'')
      else
        rbind (get_account_id c coa_ap db) (\<lambda>ap.
        rbind (get_account_id c coa_vat_input db) (\<lambda>vat.
        rbind (get_account_id c coa_accrual db) (\<lambda>accrual.
        rbind (supplier_lines c (si_grn d \<noteq> None) accrual db (si_items d)) (\<lambda>ls.
          Inr \<lparr>ji_date = dc_date d, ji_type = ''PURCHASE_INVOICE'',
               ji_description = ''Supplier invoice '' @ dc_no d,
               ji_lines = ls @ (if 0 < si_tax d then [dr vat (si_tax d) (''VAT '' @ dc_no d)] else [])
                 @ [cr ap (si_total d) (''Supplier invoice '' @ dc_no d)],
               ji_ref = Some (''supplier_invoices'', dc_id d, dc_no d)\<rparr>)))))"

definition supplier_invoice_done :: "ctx \<Rightarrow> supplier_invoice \<Rightarrow> row_id \<Rightarrow> finance_db \<Rightarrow> finance_db" where
  "supplier_invoice_done c d j db =
     finance_event c ''finance.supplier_invoice_posted'' ''supplier_invoices'' (dc_id d) (dc_no d) j
       (db\<lparr>fd_supplier_invoices := stamp (dc_id d) j (Some ''MATCHED'') (fd_supplier_invoices db)\<rparr>)"

definition post_supplier_invoice :: "ctx \<Rightarrow> row_id \<Rightarrow> finance_db \<Rightarrow> (row_id \<times> finance_db) result" where
  "post_supplier_invoice =
     post_document (NotFound ''Supplier invoice not found'') fd_supplier_invoices
       supplier_invoice_journal supplier_invoice_done"

definition supplier_payment_journal :: "ctx \<Rightarrow> finance_db \<Rightarrow> supplier_payment \<Rightarrow> post_input result" where
  "supplier_payment_journal c db d =
     (if dc_status d \<noteq> ''RELEASED'' \<and> dc_status d \<noteq> ''APPROVED''
      then Inl (BadRequest ''Supplier payment must be RELEASED before posting'')
      else
        rbind (get_account_id c coa_ap db) (\<lambda>ap.
        rbind (case sp_bank_gl d of Some b \<Rightarrow> Inr b | None \<Rightarrow> get_account_id c coa_default_bank db) (\<lambda>bank.
          (let desc = ''Payment '' @ dc_no d in
           Inr \<lparr>ji_date = dc_date d, ji_type = ''SUPPLIER_PAYMENT'',
                ji_description = ''Supplier payment '' @ dc_no d,
                ji_lines = [dr ap (sp_amount d) desc, cr bank (sp_amount d) desc],
                ji_ref = Some (''supplier_payments'', dc_id d, dc_no d)\<rparr>))))"

definition supplier_payment_done :: "ctx \<Rightarrow> supplier_payment \<Rightarrow> row_id \<Rightarrow> finance_db \<Rightarrow> finance_db" where
  "supplier_payment_done c d j db =
     finance_event c ''finance.supplier_payment_posted'' ''supplier_payments'' (dc_id d) (dc_no d) j
       (db\<lparr>fd_supplier_payments := stamp (dc_id d) j (Some ''RELEASED'') (fd_supplier_payments db),
           fd_supplier_invoices := (case sp_invoice d of
              None \<Rightarrow> fd_supplier_invoices db
            | Some i \<Rightarrow> update_where (\<lambda>r. dc_id r = i \<and> dc_status r \<noteq> ''VOID'')
                (\<lambda>r. r\<lparr>si_paid := si_paid r + sp_amount d,
                       dc_status := (if si_total r \<le> si_paid r + sp_amount d
                                     then ''PAID'' else ''PARTIALLY_PAID'')\<rparr>)
                (fd_supplier_invoices db))\<rparr>)"

definition post_supplier_payment :: "ctx \<Rightarrow> row_id \<Rightarrow> finance_db \<Rightarrow> (row_id \<times> finance_db) result" where
  "post_supplier_payment =
     post_document (NotFound ''Supplier payment not found'') fd_supplier_payments
       supplier_payment_journal supplier_payment_done"

subsection \<open>Journals: inventory value, void, manual entry, drafts, periods\<close>

record inventory_change =
  iv_product_type :: "string option"
  iv_amount :: rat
  iv_date :: date
  iv_description :: string
  iv_journal_type :: string
  iv_ref :: "(string \<times> row_id \<times> string) option"
  iv_contra :: "string option"

definition post_inventory_value_change ::
  "ctx \<Rightarrow> inventory_change \<Rightarrow> finance_db \<Rightarrow> (row_id option \<times> finance_db) result" where
  "post_inventory_value_change c v db =
     (if iv_amount v = 0 then Inr (None, db)
      else
        rbind (get_account_id c (inventory_account_for_type (iv_product_type v)) db) (\<lambda>stock.
        rbind (get_account_id c (case iv_contra v of Some k \<Rightarrow> k
                 | None \<Rightarrow> if iv_journal_type v = ''PRODUCTION'' then coa_inventory else coa_admin_exp) db) (\<lambda>contra.
          if stock = contra then Inr (None, db)
          else
            (let q = \<bar>iv_amount v\<bar>; d = iv_description v in
             rbind (post_journal_lines c
               \<lparr>ji_date = iv_date v, ji_type = iv_journal_type v, ji_description = d,
                ji_lines = (if 0 < iv_amount v then [dr stock q d, cr contra q d] else [dr contra q d, cr stock q d]),
                ji_ref = iv_ref v\<rparr> db) (\<lambda>(j, db1). Inr (Some j, db1))))))"

definition find_entry :: "ctx \<Rightarrow> row_id \<Rightarrow> finance_db \<Rightarrow> journal_entry option" where
  "find_entry c i db = find (\<lambda>e. je_id e = i \<and> cx_tenant c \<noteq> None \<and> je_tenant e = cx_tenant c) (fd_entries db)"

definition reverse_line :: "string \<Rightarrow> journal_line \<Rightarrow> journal_line" where
  "reverse_line desc l = l\<lparr>jl_debit := jl_credit l, jl_credit := jl_debit l, jl_description := desc\<rparr>"

definition void_journal :: "ctx \<Rightarrow> date \<Rightarrow> row_id \<Rightarrow> string \<Rightarrow> finance_db \<Rightarrow> (row_id \<times> finance_db) result" where
  "void_journal c today i reason db =
     (case find_entry c i db of
        None \<Rightarrow> Inl (NotFound ''Journal entry not found'')
      | Some je \<Rightarrow>
          if je_status je \<noteq> J_POSTED then Inl (BadRequest ''Journal is not POSTED, cannot void'')
          else
            (let desc = ''Reversal: '' @ je_description je @ '' ('' @ reason @ '')'' in
             rbind (post_journal_lines c
               \<lparr>ji_date = today, ji_type = je_type je, ji_description = desc,
                ji_lines = map (reverse_line desc) (je_lines je), ji_ref = je_ref je\<rparr> db) (\<lambda>(rev, db1).
               Inr (rev, db1\<lparr>fd_entries :=
                 update_where (\<lambda>e. je_id e = rev) (\<lambda>e. e\<lparr>je_reversal_of := Some i\<rparr>)
                   (update_where (\<lambda>e. je_id e = i) (\<lambda>e. e\<lparr>je_status := J_VOID, je_reversal_of := None\<rparr>)
                     (fd_entries db1))\<rparr>))))"

record manual_input =
  mi_date :: date
  mi_description :: string
  mi_type :: "string option"
  mi_lines :: "journal_line list"
  mi_post :: bool

definition create_manual_journal :: "ctx \<Rightarrow> manual_input \<Rightarrow> finance_db \<Rightarrow> (row_id \<times> finance_db) result" where
  "create_manual_journal c m db =
     (let debit = total_debit (mi_lines m); credit = total_credit (mi_lines m) in
      if length (mi_lines m) < 2 then Inl (BadRequest ''A journal needs at least two lines'')
      else if js_round (debit * 100) \<noteq> js_round (credit * 100) then Inl (BadRequest ''Journal does not balance'')
      else if debit \<le> 0 then Inl (BadRequest ''Journal amount must be positive'')
      else if mi_post m
      then post_journal_lines c
             \<lparr>ji_date = mi_date m, ji_type = (case mi_type m of None \<Rightarrow> ''MANUAL'' | Some t \<Rightarrow> t),
              ji_description = mi_description m, ji_lines = mi_lines m, ji_ref = None\<rparr> db
      else case cx_company c of
          None \<Rightarrow> rbind (assert_period_open c (mi_date m) db) (\<lambda>_. Inl (Internal ''company_id''))
        | Some company \<Rightarrow>
            rbind (assert_period_open c (mi_date m) db) (\<lambda>_.
              Inr (fd_next db, db
                \<lparr>fd_next := Suc (fd_next db),
                 fd_entries := fd_entries db @
                   [\<lparr>je_id = fd_next db, je_company = company, je_tenant = cx_tenant c, je_date = mi_date m,
                     je_period = None, je_type = ''MANUAL'', je_description = mi_description m, je_ref = None,
                     je_total_debit = sql_round2 debit, je_total_credit = sql_round2 credit, je_status = J_DRAFT,
                     je_user = None, je_reversal_of = None, je_lines = map stored_line (mi_lines m)\<rparr>]\<rparr>)))"

definition post_draft_journal :: "ctx \<Rightarrow> row_id \<Rightarrow> finance_db \<Rightarrow> (row_id \<times> finance_db) result" where
  "post_draft_journal c i db =
     (case find_entry c i db of
        None \<Rightarrow> Inl (NotFound ''Journal not found'')
      | Some je \<Rightarrow>
          if je_status je \<noteq> J_DRAFT then Inl (BadRequest ''Journal is not DRAFT'')
          else
            rbind (post_journal_lines c
              \<lparr>ji_date = je_date je, ji_type = je_type je, ji_description = je_description je,
               ji_lines = map (\<lambda>l. l\<lparr>jl_centre := None\<rparr>) (je_lines je),
               ji_ref = Some (''journal_entries'', i, [])\<rparr> db) (\<lambda>(j, db1).
              Inr (j, db1\<lparr>fd_entries := update_where (\<lambda>e. je_id e = i) (\<lambda>e. e\<lparr>je_status := J_VOID\<rparr>)
                            (fd_entries db1)\<rparr>)))"

definition set_period_status :: "ctx \<Rightarrow> row_id \<Rightarrow> string \<Rightarrow> finance_db \<Rightarrow> finance_db result" where
  "set_period_status c i status db =
     (case find (\<lambda>p. fp_id p = i \<and> cx_tenant c = Some (fp_tenant p)) (fd_periods db) of
        None \<Rightarrow> Inl (NotFound ''Period not found'')
      | Some p \<Rightarrow>
          if fp_status p = ''CLOSED'' \<and> status \<noteq> ''CLOSED''
          then Inl (BadRequest ''A CLOSED period cannot be re-opened'')
          else Inr (db
            \<lparr>fd_periods := update_where (\<lambda>p. fp_id p = i \<and> cx_tenant c = Some (fp_tenant p))
               (\<lambda>p. p\<lparr>fp_status := status,
                      fp_closed_by := (if status = ''CLOSED'' then cx_user c else fp_closed_by p)\<rparr>) (fd_periods db),
             fd_audit := log_audit c
               \<lparr>ae_action = js_lower status, ae_resource = ''financial_periods'', ae_record = Some i,
                ae_code = Some (fp_code p), ae_old = [], ae_new = [(''status'', JStr status)]\<rparr> (fd_audit db)\<rparr>))"

text \<open>The balance that the trial balance shows: the movements of the posted entries of the tenant.\<close>

definition posted_balance :: "ctx \<Rightarrow> row_id \<Rightarrow> finance_db \<Rightarrow> rat" where
  "posted_balance c acct db =
     account_movement (\<lambda>e. je_status e = J_POSTED \<and> cx_tenant c \<noteq> None \<and> je_tenant e = cx_tenant c) acct (fd_entries db)"

subsection \<open>What a posting writes\<close>

definition balanced_entry :: "journal_entry \<Rightarrow> bool" where
  "balanced_entry e \<longleftrightarrow> je_total_debit e = je_total_credit e \<and> 2 \<le> length (je_lines e)"

definition ledger_ok :: "finance_db \<Rightarrow> bool" where
  "ledger_ok db \<longleftrightarrow> distinct (map je_id (fd_entries db)) \<and> (\<forall>e\<in>set (fd_entries db). je_id e < fd_next db)
     \<and> (\<forall>e\<in>set (fd_entries db). je_status e = J_POSTED \<longrightarrow> balanced_entry e)"

lemma post_journal_lines_Inr:
  assumes "post_journal_lines c j db = Inr (i, db')"
  obtains e p where "db' = db\<lparr>fd_next := Suc (fd_next db), fd_entries := fd_entries db @ [e]\<rparr>" "i = fd_next db"
    "je_id e = fd_next db" "je_status e = J_POSTED" "balanced_entry e" "je_tenant e = cx_tenant c"
    "cx_company c = Some (je_company e)"
    "je_lines e = map stored_line (ji_lines j)" "je_date e = ji_date j"
    "covering_period (cx_company c) (ji_date j) db = Some p" "fp_status p = ''OPEN''"
    "je_total_debit e = sql_round2 (total_debit (ji_lines j))"
    "je_total_credit e = sql_round2 (total_credit (ji_lines j))" "0 < total_debit (ji_lines j)"
proof -
  from assms obtain company where company: "cx_company c = Some company"
    by (auto simp: post_journal_lines_def split: option.splits)
  with assms obtain p where p: "covering_period (cx_company c) (ji_date j) db = Some p" "fp_status p = ''OPEN''"
    and post: "post_journal c company (j\<lparr>ji_type := journal_type (ji_type j)\<rparr>) db = Inr (i, db')"
    by (auto simp: post_journal_lines_def assert_period_open_def split: option.splits if_splits)
  define e where "e = \<lparr>je_id = fd_next db, je_company = company, je_tenant = cx_tenant c, je_date = ji_date j,
    je_period = map_option fp_id (covering_period (Some company) (ji_date j) db),
    je_type = journal_type (ji_type j), je_description = ji_description j, je_ref = ji_ref j,
    je_total_debit = sql_round2 (total_debit (ji_lines j)),
    je_total_credit = sql_round2 (total_credit (ji_lines j)), je_status = J_POSTED, je_user = cx_user c,
    je_reversal_of = None, je_lines = map stored_line (ji_lines j)\<rparr>"
  have "2 \<le> length (ji_lines j)" "sql_round2 (total_debit (ji_lines j)) = sql_round2 (total_credit (ji_lines j))"
    "i = fd_next db" "db' = db\<lparr>fd_next := Suc (fd_next db), fd_entries := fd_entries db @ [e]\<rparr>"
    "0 < total_debit (ji_lines j)"
    using post unfolding post_journal_def e_def by (auto split: if_splits)
  then show thesis
    using p company by (intro that [of e p]) (simp_all add: e_def balanced_entry_def)
qed

text \<open>What never changes about an entry, and when an entry may be added.\<close>

definition entry_content ::
  "journal_entry \<Rightarrow> row_id \<times> row_id \<times> row_id option \<times> date \<times> rat \<times> rat \<times> journal_line list" where
  "entry_content e =
     (je_id e, je_company e, je_tenant e, je_date e, je_total_debit e, je_total_credit e, je_lines e)"

definition open_for :: "finance_db \<Rightarrow> row_id \<Rightarrow> date \<Rightarrow> bool" where
  "open_for db company d \<longleftrightarrow>
     (\<exists>p. covering_period (Some company) d db = Some p \<and> fp_status p = ''OPEN'')"

definition appends :: "finance_db \<Rightarrow> finance_db \<Rightarrow> bool" where
  "appends db db' \<longleftrightarrow>
     (\<exists>new. map entry_content (fd_entries db') = map entry_content (fd_entries db) @ map entry_content new
        \<and> (\<forall>e\<in>set new. open_for db (je_company e) (je_date e)))"

lemma appends_same: "map entry_content (fd_entries db') = map entry_content (fd_entries db) \<Longrightarrow> appends db db'"
  unfolding appends_def by (intro exI [of _ "[]"]) simp

lemma post_journal_appends:
  assumes "post_journal_lines c ji db = Inr (j, db1)"
    and "map entry_content (fd_entries db') = map entry_content (fd_entries db1)"
  shows "appends db db'"
  using assms(1)
proof (rule post_journal_lines_Inr)
  fix e p
  assume "db1 = db\<lparr>fd_next := Suc (fd_next db), fd_entries := fd_entries db @ [e]\<rparr>"
    and "cx_company c = Some (je_company e)" "je_date e = ji_date ji"
    and "covering_period (cx_company c) (ji_date ji) db = Some p" "fp_status p = ''OPEN''"
  then show ?thesis
    unfolding appends_def using assms(2) by (intro exI [of _ "[e]"]) (simp add: open_for_def)
qed

lemma ledger_ok_snoc:
  assumes "ledger_ok db" and "je_id e = fd_next db" and "je_status e = J_POSTED \<longrightarrow> balanced_entry e"
    and "fd_entries db' = fd_entries db @ [e]" and "fd_next db' = Suc (fd_next db)"
  shows "ledger_ok db'"
proof -
  have "fd_next db \<notin> je_id ` set (fd_entries db)" using assms(1) by (auto simp: ledger_ok_def)
  then show ?thesis using assms by (auto simp: ledger_ok_def less_Suc_eq)
qed

lemma ledger_ok_post_journal:
  assumes "ledger_ok db" and "post_journal_lines c ji db = Inr (j, db1)"
  shows "ledger_ok db1"
  using assms(2) by (rule post_journal_lines_Inr) (rule ledger_ok_snoc [OF assms(1)]; simp)

text \<open>
  The contract of a document posting, which the ledger relies on: it either finds the document
  posted and changes nothing, or goes through the posting engine once; it leaves periods and accounts
  alone; and posting again returns the same journal and changes nothing.
\<close>

locale gl_posting =
  fixes post :: "ctx \<Rightarrow> row_id \<Rightarrow> finance_db \<Rightarrow> (row_id \<times> finance_db) result"
  assumes post_writes: "post c i db = Inr (j, db') \<Longrightarrow>
      db' = db \<or> (\<exists>ji db1. post_journal_lines c ji db = Inr (j, db1)
        \<and> fd_entries db' = fd_entries db1 \<and> fd_next db' = fd_next db1)"
    and post_frame: "post c i db = Inr (j, db') \<Longrightarrow>
      fd_periods db' = fd_periods db \<and> fd_accounts db' = fd_accounts db"
    and post_again: "post c i db = Inr (j, db') \<Longrightarrow> post c i db' = Inr (j, db')"
begin

lemma ledger_ok_post:
  assumes "ledger_ok db" and "post c i db = Inr (j, db')"
  shows "ledger_ok db'"
  using post_writes [OF assms(2)]
proof
  assume "\<exists>ji db1. post_journal_lines c ji db = Inr (j, db1)
     \<and> fd_entries db' = fd_entries db1 \<and> fd_next db' = fd_next db1"
  then obtain ji db1 where "post_journal_lines c ji db = Inr (j, db1)"
    and "fd_entries db' = fd_entries db1" "fd_next db' = fd_next db1"
    by blast
  then show ?thesis
    using ledger_ok_post_journal [OF assms(1)] by (metis ledger_ok_def)
qed (use assms in simp)

lemma post_appends: "post c i db = Inr (j, db') \<Longrightarrow> appends db db'"
  using post_writes [of c i db j db'] post_journal_appends appends_same by metis

end

lemma find_doc_stamp:
  "find_doc c i (stamp i j st docs) =
     map_option (\<lambda>d. d\<lparr>dc_posted := True, dc_journal := Some j,
       dc_status := (case st of None \<Rightarrow> dc_status d | Some s \<Rightarrow> s)\<rparr>) (find_doc c i docs)"
  by (induction docs) (auto simp: find_doc_def stamp_def update_where_def)

lemma find_doc_update:
  assumes "\<And>d. dc_id (f d) = dc_id d \<and> dc_tenant (f d) = dc_tenant d"
  shows "find_doc c i (update_where p f docs) =
     map_option (\<lambda>d. if p d then f d else d) (find_doc c i docs)"
  using assms by (induction docs) (auto simp: find_doc_def update_where_def)

text \<open>A document posting keeps the contract when its last stage stamps the document and keeps the ledger.\<close>

lemma gl_posting_document:
  assumes ledger: "\<And>c d j db. fd_entries (finish c d j db) = fd_entries db \<and> fd_next (finish c d j db) = fd_next db
      \<and> fd_periods (finish c d j db) = fd_periods db \<and> fd_accounts (finish c d j db) = fd_accounts db"
    and docs: "\<And>ents n db. docs (db\<lparr>fd_next := n, fd_entries := ents\<rparr>) = docs db"
    and stamped: "\<And>c i d j db. find_doc c i (docs db) = Some d \<Longrightarrow>
      \<exists>d'. find_doc c i (docs (finish c d j db)) = Some d' \<and> dc_posted d' \<and> dc_journal d' = Some j"
  shows "gl_posting (post_document missing docs build finish)"
proof -
  have cases: "(\<exists>d. find_doc c i (docs db) = Some d \<and> dc_posted d \<and> j = posted_journal d \<and> db' = db)
      \<or> (\<exists>d ji db1. find_doc c i (docs db) = Some d \<and> post_journal_lines c ji db = Inr (j, db1)
            \<and> db' = finish c d j db1)"
    if "post_document missing docs build finish c i db = Inr (j, db')" for c i db j db'
    using that by (auto simp: post_document_def split: option.splits if_splits)
  show ?thesis
  proof
    fix c i db j db'
    assume post: "post_document missing docs build finish c i db = Inr (j, db')"
    show "db' = db \<or> (\<exists>ji db1. post_journal_lines c ji db = Inr (j, db1)
        \<and> fd_entries db' = fd_entries db1 \<and> fd_next db' = fd_next db1)"
      using cases [OF post] ledger by blast
    show "fd_periods db' = fd_periods db \<and> fd_accounts db' = fd_accounts db"
      using cases [OF post] ledger by (auto elim!: post_journal_lines_Inr)
    show "post_document missing docs build finish c i db' = Inr (j, db')"
      using cases [OF post]
    proof (elim disjE exE conjE)
      fix d ji db1
      assume d: "find_doc c i (docs db) = Some d" and j: "post_journal_lines c ji db = Inr (j, db1)"
        and db': "db' = finish c d j db1"
      have "docs db1 = docs db" using j by (rule post_journal_lines_Inr) (simp add: docs)
      then obtain d' where "find_doc c i (docs db') = Some d'" "dc_posted d'" "dc_journal d' = Some j"
        using stamped [of c i db1 d j] d db' by auto
      then show ?thesis by (simp add: post_document_def posted_journal_def)
    qed (simp add: post_document_def)
  qed
qed

lemma find_doc_Some: "find_doc c i docs = Some d \<Longrightarrow> dc_id d = i"
  by (auto simp: find_doc_def dest: find_Some_iff_mem)

lemma stamp_found [simp]:
  "find_doc c i docs = Some d \<Longrightarrow> find_doc c i (stamp (dc_id d) j st docs) =
     Some (d\<lparr>dc_posted := True, dc_journal := Some j,
       dc_status := (case st of None \<Rightarrow> dc_status d | Some s \<Rightarrow> s)\<rparr>)"
  using find_doc_stamp [of c "dc_id d" j st docs] find_doc_Some [of c i docs d] by simp

interpretation sales_invoice: gl_posting post_sales_invoice
  unfolding post_sales_invoice_def
  by (rule gl_posting_document)
    (auto simp: sales_invoice_done_def finance_event_def)

interpretation receipt: gl_posting post_receipt
  unfolding post_receipt_def
  by (rule gl_posting_document)
    (auto simp: receipt_done_def Let_def finance_event_def find_doc_update)

interpretation credit_note: gl_posting post_credit_note
  unfolding post_credit_note_def
  by (rule gl_posting_document) (auto simp: credit_note_done_def)

interpretation debit_note: gl_posting post_debit_note
  unfolding post_debit_note_def
  by (rule gl_posting_document) (auto simp: debit_note_done_def)

interpretation supplier_invoice: gl_posting post_supplier_invoice
  unfolding post_supplier_invoice_def
  by (rule gl_posting_document)
    (auto simp: supplier_invoice_done_def finance_event_def)

interpretation supplier_payment: gl_posting post_supplier_payment
  unfolding post_supplier_payment_def
  by (rule gl_posting_document)
    (auto simp: supplier_payment_done_def finance_event_def)

subsection \<open>Any sequence of ledger operations\<close>

inductive ledger_step :: "finance_db \<Rightarrow> finance_db \<Rightarrow> bool" where
  sales_invoice: "post_sales_invoice c i db = Inr (j, db') \<Longrightarrow> ledger_step db db'"
| receipt: "post_receipt c i db = Inr (j, db') \<Longrightarrow> ledger_step db db'"
| credit_note: "post_credit_note c i db = Inr (j, db') \<Longrightarrow> ledger_step db db'"
| debit_note: "post_debit_note c i db = Inr (j, db') \<Longrightarrow> ledger_step db db'"
| supplier_invoice: "post_supplier_invoice c i db = Inr (j, db') \<Longrightarrow> ledger_step db db'"
| supplier_payment: "post_supplier_payment c i db = Inr (j, db') \<Longrightarrow> ledger_step db db'"
| inventory: "post_inventory_value_change c v db = Inr (k, db') \<Longrightarrow> ledger_step db db'"
| manual: "create_manual_journal c m db = Inr (j, db') \<Longrightarrow> ledger_step db db'"
| draft: "post_draft_journal c i db = Inr (j, db') \<Longrightarrow> ledger_step db db'"
| void: "void_journal c today i reason db = Inr (j, db') \<Longrightarrow> ledger_step db db'"
| period_status: "set_period_status c i st db = Inr db' \<Longrightarrow> ledger_step db db'"

lemma ledger_ok_update:
  assumes "ledger_ok db" and "fd_entries db' = update_where p f (fd_entries db)" and "fd_next db' = fd_next db"
    and "\<And>e. entry_content (f e) = entry_content e \<and> (je_status (f e) = J_POSTED \<longrightarrow> je_status e = J_POSTED)"
  shows "ledger_ok db'"
proof -
  have ids: "map je_id (fd_entries db') = map je_id (fd_entries db)"
    unfolding assms(2) using assms(4) by (intro map_update_where_same) (simp add: entry_content_def)
  have "je_id e < fd_next db \<and> (je_status e = J_POSTED \<longrightarrow> balanced_entry e)"
    if "e \<in> set (fd_entries db')" for e
    using that unfolding assms(2)
  proof (rule in_update_whereE)
    fix e0
    assume "e0 \<in> set (fd_entries db)" "e = f e0"
    then show ?thesis
      using assms(1) assms(4) [of e0] by (auto simp: ledger_ok_def entry_content_def balanced_entry_def)
  qed (use assms(1) in \<open>simp add: ledger_ok_def\<close>)
  then show ?thesis using assms(1) ids by (auto simp: ledger_ok_def assms(3))
qed

lemma map_content_update:
  "(\<And>e. entry_content (f e) = entry_content e) \<Longrightarrow>
     map entry_content (update_where p f es) = map entry_content es"
  by (rule map_update_where_same) simp

lemma manual_step:
  assumes "create_manual_journal c m db = Inr (j, db')"
  shows "ledger_ok db \<Longrightarrow> ledger_ok db'" and "appends db db'" and "fd_periods db' = fd_periods db"
proof -
  have cases: "(\<exists>ji. post_journal_lines c ji db = Inr (j, db')) \<or>
      (\<exists>e p. fd_entries db' = fd_entries db @ [e] \<and> fd_next db' = Suc (fd_next db) \<and> fd_periods db' = fd_periods db
        \<and> je_id e = fd_next db \<and> je_status e = J_DRAFT \<and> open_for db (je_company e) (je_date e))"
    using assms
    by (auto simp: create_manual_journal_def assert_period_open_def open_for_def Let_def
        split: if_splits option.splits)
  from cases show "ledger_ok db \<Longrightarrow> ledger_ok db'"
    by (auto intro: ledger_ok_post_journal ledger_ok_snoc)
  from cases show "appends db db'"
    by (auto intro: post_journal_appends) (force simp: appends_def intro: exI [of _ "[_]"])
  from cases show "fd_periods db' = fd_periods db" by (auto elim!: post_journal_lines_Inr)
qed

text \<open>Posting a journal and then rewriting only status and reversal columns.\<close>

lemma post_then_update:
  assumes "post_journal_lines c ji db = Inr (j, db1)"
    and "fd_entries db' = update_where p f (update_where q g (fd_entries db1))"
    and "fd_next db' = fd_next db1" and "fd_periods db' = fd_periods db1"
    and f: "\<And>e. entry_content (f e) = entry_content e \<and> (je_status (f e) = J_POSTED \<longrightarrow> je_status e = J_POSTED)"
    and g: "\<And>e. entry_content (g e) = entry_content e \<and> (je_status (g e) = J_POSTED \<longrightarrow> je_status e = J_POSTED)"
  shows "ledger_ok db \<Longrightarrow> ledger_ok db'" and "appends db db'" and "fd_periods db' = fd_periods db"
proof -
  define mid where "mid = db1\<lparr>fd_entries := update_where q g (fd_entries db1)\<rparr>"
  show "ledger_ok db'" if ok: "ledger_ok db"
  proof -
    have "ledger_ok mid"
      by (rule ledger_ok_update [OF ledger_ok_post_journal [OF ok assms(1)]]) (use g in \<open>simp_all add: mid_def\<close>)
    then show ?thesis by (rule ledger_ok_update [where f = f]) (use f in \<open>simp_all add: mid_def assms(2,3)\<close>)
  qed
  show "appends db db'"
    by (rule post_journal_appends [OF assms(1)]) (simp add: assms(2) map_content_update f g)
  show "fd_periods db' = fd_periods db"
    using assms(1) by (rule post_journal_lines_Inr) (simp add: assms(4))
qed

lemma update_where_never: "update_where (\<lambda>_. False) f xs = xs"
  by (simp add: update_where_def)

lemma draft_step:
  assumes "post_draft_journal c i db = Inr (j, db')"
  shows "ledger_ok db \<Longrightarrow> ledger_ok db'" and "appends db db'" and "fd_periods db' = fd_periods db"
proof -
  obtain ji db1 where post: "post_journal_lines c ji db = Inr (j, db1)"
    and db': "db' = db1\<lparr>fd_entries := update_where (\<lambda>e. je_id e = i) (\<lambda>e. e\<lparr>je_status := J_VOID\<rparr>) (fd_entries db1)\<rparr>"
    using assms by (auto simp: post_draft_journal_def split: option.splits if_splits)
  note L = post_then_update [OF post, of db' "\<lambda>_. False" "\<lambda>e. e" "\<lambda>e. je_id e = i" "\<lambda>e. e\<lparr>je_status := J_VOID\<rparr>"]
  show "ledger_ok db \<Longrightarrow> ledger_ok db'" by (rule L(1)) (simp_all add: db' update_where_never entry_content_def)
  show "appends db db'" by (rule L(2)) (simp_all add: db' update_where_never entry_content_def)
  show "fd_periods db' = fd_periods db" by (rule L(3)) (simp_all add: db' update_where_never entry_content_def)
qed

lemma void_journal_Inr:
  assumes "void_journal c today i reason db = Inr (r, db')"
  obtains je ji db1 where "find_entry c i db = Some je" "je_status je = J_POSTED"
    "post_journal_lines c ji db = Inr (r, db1)" "ji_date ji = today"
    "ji_lines ji = map (reverse_line (''Reversal: '' @ je_description je @ '' ('' @ reason @ '')'')) (je_lines je)"
    "db' = db1\<lparr>fd_entries := update_where (\<lambda>e. je_id e = r) (\<lambda>e. e\<lparr>je_reversal_of := Some i\<rparr>)
       (update_where (\<lambda>e. je_id e = i) (\<lambda>e. e\<lparr>je_status := J_VOID, je_reversal_of := None\<rparr>) (fd_entries db1))\<rparr>"
  using assms by (force simp: void_journal_def Let_def split: option.splits if_splits)

lemma void_step:
  assumes "void_journal c today i reason db = Inr (r, db')"
  shows "ledger_ok db \<Longrightarrow> ledger_ok db'" and "appends db db'" and "fd_periods db' = fd_periods db"
proof -
  obtain je ji db1 where post: "post_journal_lines c ji db = Inr (r, db1)"
    and db': "db' = db1\<lparr>fd_entries := update_where (\<lambda>e. je_id e = r) (\<lambda>e. e\<lparr>je_reversal_of := Some i\<rparr>)
       (update_where (\<lambda>e. je_id e = i) (\<lambda>e. e\<lparr>je_status := J_VOID, je_reversal_of := None\<rparr>) (fd_entries db1))\<rparr>"
    using assms by (rule void_journal_Inr)
  note L = post_then_update [OF post, of db' "\<lambda>e. je_id e = r" "\<lambda>e. e\<lparr>je_reversal_of := Some i\<rparr>"
      "\<lambda>e. je_id e = i" "\<lambda>e. e\<lparr>je_status := J_VOID, je_reversal_of := None\<rparr>"]
  show "ledger_ok db \<Longrightarrow> ledger_ok db'" by (rule L(1)) (simp_all add: db' entry_content_def)
  show "appends db db'" by (rule L(2)) (simp_all add: db' entry_content_def)
  show "fd_periods db' = fd_periods db" by (rule L(3)) (simp_all add: db' entry_content_def)
qed

lemma inventory_step:
  assumes "post_inventory_value_change c v db = Inr (k, db')"
  shows "ledger_ok db \<Longrightarrow> ledger_ok db'" and "appends db db'" and "fd_periods db' = fd_periods db"
proof -
  have cases: "db' = db \<or> (\<exists>ji j. post_journal_lines c ji db = Inr (j, db'))"
    using assms unfolding post_inventory_value_change_def Let_def
    by (auto split: if_splits)
  then show "ledger_ok db \<Longrightarrow> ledger_ok db'" by (auto intro: ledger_ok_post_journal)
  from cases show "appends db db'" by (auto intro: post_journal_appends appends_same)
  from cases show "fd_periods db' = fd_periods db" by (auto elim!: post_journal_lines_Inr)
qed

text \<open>A closed period stays closed: no operation re-opens it or moves its dates.\<close>

definition closed_for :: "finance_db \<Rightarrow> row_id \<Rightarrow> date \<Rightarrow> bool" where
  "closed_for db company d \<longleftrightarrow>
     distinct (map fp_id (fd_periods db))
     \<and> (\<exists>p. covering_period (Some company) d db = Some p \<and> fp_status p = ''CLOSED'')"

lemma closed_not_open: "closed_for db company d \<Longrightarrow> \<not> open_for db company d"
  by (auto simp: closed_for_def open_for_def)

lemma closed_for_cong: "fd_periods db' = fd_periods db \<Longrightarrow> closed_for db' company d = closed_for db company d"
  by (simp add: closed_for_def covering_period_def)

lemma arg_min_list_map:
  "xs \<noteq> [] \<Longrightarrow> (\<And>x. k (f x) = k x) \<Longrightarrow> arg_min_list k (map f xs) = f (arg_min_list k xs)"
  by (induction k xs rule: arg_min_list.induct) (auto simp: Let_def)

lemma limit1_update_where:
  assumes "\<And>x. k (f x) = k x" and "\<And>x. q (f x) = q x"
  shows "limit1 k (filter q (update_where p f rows)) =
     map_option (\<lambda>x. if p x then f x else x) (limit1 k (filter q rows))"
proof -
  let ?g = "\<lambda>x. if p x then f x else x"
  have "filter q (map ?g rows) = map ?g (filter q rows)"
    using assms(2) by (induction rows) auto
  moreover have "arg_min_list k (map ?g xs) = ?g (arg_min_list k xs)" if "xs \<noteq> []" for xs
    by (rule arg_min_list_map [OF that]) (simp add: assms(1))
  ultimately show ?thesis by (simp add: limit1_def update_where_def)
qed

lemma period_step:
  assumes "set_period_status c i st db = Inr db'"
  shows "ledger_ok db \<Longrightarrow> ledger_ok db'" and "appends db db'"
    and "closed_for db company d \<Longrightarrow> closed_for db' company d"
proof -
  obtain p0 where p0: "find (\<lambda>p. fp_id p = i \<and> cx_tenant c = Some (fp_tenant p)) (fd_periods db) = Some p0"
    and final: "fp_status p0 = ''CLOSED'' \<longrightarrow> st = ''CLOSED''"
    and entries: "fd_entries db' = fd_entries db" "fd_next db' = fd_next db"
    and periods: "fd_periods db' = update_where (\<lambda>p. fp_id p = i \<and> cx_tenant c = Some (fp_tenant p))
        (\<lambda>p. p\<lparr>fp_status := st, fp_closed_by := (if st = ''CLOSED'' then cx_user c else fp_closed_by p)\<rparr>) (fd_periods db)"
    using assms by (auto simp: set_period_status_def split: option.splits if_splits)
  show "ledger_ok db \<Longrightarrow> ledger_ok db'" by (simp add: ledger_ok_def entries)
  show "appends db db'" by (rule appends_same) (simp add: entries)
  show "closed_for db' company d" if closed: "closed_for db company d"
  proof -
    obtain p where p: "covering_period (Some company) d db = Some p" "fp_status p = ''CLOSED''"
      and ids: "distinct (map fp_id (fd_periods db))"
      using closed by (auto simp: closed_for_def)
    have "p \<in> set (fd_periods db)" using p(1) by (auto simp: covering_period_def dest: limit1_Some)
    moreover have "p0 \<in> set (fd_periods db)" "fp_id p0 = i" using find_Some_iff_mem [OF p0] by auto
    ultimately have same: "fp_id p = i \<Longrightarrow> p = p0" using ids by (auto simp: distinct_map inj_on_def)
    have "map fp_id (fd_periods db') = map fp_id (fd_periods db)"
      unfolding periods by (rule map_update_where_same) simp
    then show ?thesis
      using p final same ids by (auto simp: closed_for_def covering_period_def periods limit1_update_where)
  qed
qed

text \<open>One step of the ledger.\<close>

lemma ledger_step_facts:
  assumes "ledger_step db db'"
  shows "(ledger_ok db \<longrightarrow> ledger_ok db') \<and> appends db db'
     \<and> (closed_for db company d \<longrightarrow> closed_for db' company d)"
  using assms
proof cases
  case (sales_invoice c i j)
  then show ?thesis
    using sales_invoice.ledger_ok_post sales_invoice.post_appends sales_invoice.post_frame closed_for_cong by metis
next
  case (receipt c i j)
  then show ?thesis
    using receipt.ledger_ok_post receipt.post_appends receipt.post_frame closed_for_cong by metis
next
  case (credit_note c i j)
  then show ?thesis
    using credit_note.ledger_ok_post credit_note.post_appends credit_note.post_frame closed_for_cong by metis
next
  case (debit_note c i j)
  then show ?thesis
    using debit_note.ledger_ok_post debit_note.post_appends debit_note.post_frame closed_for_cong by metis
next
  case (supplier_invoice c i j)
  then show ?thesis
    using supplier_invoice.ledger_ok_post supplier_invoice.post_appends supplier_invoice.post_frame
      closed_for_cong by metis
next
  case (supplier_payment c i j)
  then show ?thesis
    using supplier_payment.ledger_ok_post supplier_payment.post_appends supplier_payment.post_frame
      closed_for_cong by metis
next
  case (inventory c v k)
  then show ?thesis using inventory_step closed_for_cong by metis
next
  case (manual c m j)
  then show ?thesis using manual_step closed_for_cong by metis
next
  case (draft c i j)
  then show ?thesis using draft_step closed_for_cong by metis
next
  case (void c today i reason j)
  then show ?thesis using void_step closed_for_cong by metis
next
  case (period_status c i st)
  then show ?thesis using period_step by blast
qed

lemma ledger_reaches:
  assumes "ledger_step\<^sup>*\<^sup>* db db'"
  shows "(ledger_ok db \<longrightarrow> ledger_ok db')
     \<and> (\<exists>new. map entry_content (fd_entries db') = map entry_content (fd_entries db) @ map entry_content new
          \<and> (closed_for db company d \<longrightarrow>
               closed_for db' company d \<and> (\<forall>e\<in>set new. \<not> (je_company e = company \<and> je_date e = d))))"
  using assms
proof (induction rule: rtranclp_induct)
  case base
  then show ?case by (auto intro: exI [of _ "[]"])
next
  case (step db1 db2)
  note facts = ledger_step_facts [OF step.hyps(2), of company d]
  obtain new where new: "map entry_content (fd_entries db1) = map entry_content (fd_entries db) @ map entry_content new"
    and closed: "closed_for db company d \<longrightarrow>
      closed_for db1 company d \<and> (\<forall>e\<in>set new. \<not> (je_company e = company \<and> je_date e = d))"
    using step.IH by blast
  obtain more where more: "map entry_content (fd_entries db2) = map entry_content (fd_entries db1) @ map entry_content more"
    and opens: "\<forall>e\<in>set more. open_for db1 (je_company e) (je_date e)"
    using facts by (auto simp: appends_def)
  have "closed_for db1 company d \<Longrightarrow> \<forall>e\<in>set more. \<not> (je_company e = company \<and> je_date e = d)"
    using opens closed_not_open by blast
  then show ?case
    using step.IH facts new more closed by (intro conjI exI [of _ "new @ more"]) auto
qed

definition entries_on :: "row_id \<Rightarrow> date \<Rightarrow> finance_db \<Rightarrow> journal_entry list" where
  "entries_on company d db = filter (\<lambda>e. je_company e = company \<and> je_date e = d) (fd_entries db)"

lemma entries_on_content:
  "map entry_content (entries_on company d db) =
     filter (\<lambda>(i, co, t, d', rest). co = company \<and> d' = d) (map entry_content (fd_entries db))"
  by (simp add: entries_on_def filter_map o_def entry_content_def)

subsection \<open>Sample data\<close>

definition sample_gl :: finance_db where
  "sample_gl =
     \<lparr>fd_accounts =
        [\<lparr>ac_id = 1, ac_company = 2, ac_code = coa_ar, ac_active = True\<rparr>,
         \<lparr>ac_id = 2, ac_company = 2, ac_code = coa_revenue, ac_active = True\<rparr>,
         \<lparr>ac_id = 3, ac_company = 2, ac_code = coa_vat, ac_active = True\<rparr>],
      fd_periods =
        [\<lparr>fp_id = 1, fp_tenant = 1, fp_company = 2, fp_code = ''2026-01'', fp_start = 0, fp_end = 30,
          fp_status = ''CLOSED'', fp_closed_by = Some 9\<rparr>,
         \<lparr>fp_id = 2, fp_tenant = 1, fp_company = 2, fp_code = ''2026-02'', fp_start = 31, fp_end = 58,
          fp_status = ''OPEN'', fp_closed_by = None\<rparr>],
      fd_rules = [], fd_budgets = [], fd_commitments = [], fd_entries = [],
      fd_invoices =
        [\<lparr>dc_id = 5, dc_tenant = 1, dc_no = ''INV-5'', dc_date = 40, dc_status = ''APPROVED'', dc_posted = False,
          dc_journal = None, ci_subtotal = 100, ci_discount = 0, ci_tax = 18, ci_total = 118, ci_paid = 0\<rparr>],
      fd_receipts = [], fd_allocations = [],
      fd_credit_notes =
        [\<lparr>dc_id = 6, dc_tenant = 1, dc_no = ''CN-6'', dc_date = 41, dc_status = ''APPROVED'', dc_posted = False,
          dc_journal = None, nt_amount = 50, nt_tax = None, nt_invoice = Some 5\<rparr>],
      fd_debit_notes = [], fd_supplier_invoices = [], fd_supplier_payments = [], fd_settings = [], fd_next = 1,
      fd_events = [], fd_audit = []\<rparr>"

definition gl_user :: ctx where
  "gl_user = \<lparr>cx_tenant = Some 1, cx_company = Some 2, cx_branch = None, cx_user = Some 9\<rparr>"

lemmas sample_gl_defs = sample_gl_def gl_user_def

definition sample_journal :: manual_input where
  "sample_journal =
     \<lparr>mi_date = 45, mi_description = ''Opening'', mi_type = None,
      mi_lines = [dr 1 75 ''Opening'', cr 2 75 ''Opening''], mi_post = True\<rparr>"

definition sample_gl1 :: finance_db where
  "sample_gl1 = (case create_manual_journal gl_user sample_journal sample_gl of Inr (i, db) \<Rightarrow> db | Inl _ \<Rightarrow> sample_gl)"

lemmas gl_eval = sample_gl_defs sample_journal_def create_manual_journal_def post_journal_lines_def
  assert_period_open_def covering_period_def limit1_def post_journal_def total_debit_def total_credit_def
  dr_def cr_def sql_round2_def round_eval journal_type_def stored_line_def

lemma sample_gl_ok: "ledger_ok sample_gl"
  by (simp add: sample_gl_def ledger_ok_def)

lemma sample_gl1_posted: "create_manual_journal gl_user sample_journal sample_gl = Inr (1, sample_gl1)"
  unfolding sample_gl1_def by (simp add: gl_eval)

lemma sample_gl1_step: "ledger_step\<^sup>*\<^sup>* sample_gl sample_gl1"
  using ledger_step.manual [OF sample_gl1_posted] by blast





text \<open>
  Posting is idempotent: a document that has been posted answers every further request with the
  same journal and leaves the database as it is, so that a retry cannot post twice. It holds for all
  six documents.
\<close>

theorem posting_is_idempotent:
  assumes "post \<in> {post_sales_invoice, post_receipt, post_credit_note, post_debit_note,
      post_supplier_invoice, post_supplier_payment}"
    and "post c i db = Inr (j, db')"
  shows "post c i db' = Inr (j, db')"
  using assms sales_invoice.post_again receipt.post_again credit_note.post_again debit_note.post_again
    supplier_invoice.post_again supplier_payment.post_again
  by (elim insertE) auto

theorem posting_is_idempotent_witness:
  "\<exists>db. post_credit_note gl_user 6 sample_gl = Inr (1, db) \<and> post_credit_note gl_user 6 db = Inr (1, db)"
proof -
  have "case post_credit_note gl_user 6 sample_gl of Inl _ \<Rightarrow> False | Inr (j, db) \<Rightarrow> j = 1" by code_simp
  then obtain db where posted: "post_credit_note gl_user 6 sample_gl = Inr (1, db)"
    by (auto split: sum.splits prod.splits)
  have "post_credit_note gl_user 6 db = Inr (1, db)"
    by (rule posting_is_idempotent [of post_credit_note, OF _ posted]) simp
  with posted show ?thesis by blast
qed

lemma sql_round2_fixed: "round2 x = x \<Longrightarrow> sql_round2 x = x"
  using r2.rnd_diff_fixed [of 0 x] by (simp add: sql_round2_def)

lemma round2_sum: "(\<And>l. l \<in> set ls \<Longrightarrow> round2 (f l) = f l) \<Longrightarrow> round2 (\<Sum>l\<leftarrow>ls. f l) = (\<Sum>l\<leftarrow>ls. f l)"
  by (rule r2.rnd_sum_fixed)

definition whole_cents :: "journal_line list \<Rightarrow> bool" where
  "whole_cents ls \<longleftrightarrow> list_all (\<lambda>l. round2 (jl_debit l) = jl_debit l \<and> round2 (jl_credit l) = jl_credit l) ls"

lemma stored_whole_cents: "whole_cents ls \<Longrightarrow> map stored_line ls = ls"
  by (induction ls) (auto simp: whole_cents_def stored_line_def sql_round2_fixed)

lemma total_whole_cents:
  "whole_cents ls \<Longrightarrow> sql_round2 (total_debit ls) = total_debit ls \<and> sql_round2 (total_credit ls) = total_credit ls"
  by (auto simp: whole_cents_def list_all_iff total_debit_def total_credit_def intro!: sql_round2_fixed round2_sum)

text \<open>The entry that the engine writes for lines in whole cents.\<close>

lemma post_journal_lines_cents:
  assumes "post_journal_lines c j db = Inr (i, db')" and "whole_cents (ji_lines j)"
  obtains e where "db' = db\<lparr>fd_next := Suc (fd_next db), fd_entries := fd_entries db @ [e]\<rparr>"
    "je_id e = i" "i = fd_next db" "je_lines e = ji_lines j" "je_status e = J_POSTED" "je_tenant e = cx_tenant c"
    "total_debit (je_lines e) = je_total_debit e" "total_credit (je_lines e) = je_total_credit e"
    "je_total_debit e = je_total_credit e" "0 < je_total_debit e"
  using assms(1)
proof (rule post_journal_lines_Inr)
  fix e p
  assume "db' = db\<lparr>fd_next := Suc (fd_next db), fd_entries := fd_entries db @ [e]\<rparr>" "i = fd_next db"
    "je_id e = fd_next db" "je_status e = J_POSTED" "balanced_entry e" "je_tenant e = cx_tenant c"
    "je_lines e = map stored_line (ji_lines j)" "je_total_debit e = sql_round2 (total_debit (ji_lines j))"
    "je_total_credit e = sql_round2 (total_credit (ji_lines j))" "0 < total_debit (ji_lines j)"
  with assms(2) show ?thesis
    by (intro that [of e]) (simp_all add: stored_whole_cents total_whole_cents balanced_entry_def)
qed

text \<open>
  What the double-entry engine writes: a journal in whole cents that is accepted becomes exactly one new
  posted entry of the tenant, dated in an open period of the company, holding the given lines, and its
  line debits and its line credits both add up to the one positive total that its header states.
\<close>

theorem posted_lines_balance:
  assumes "post_journal_lines c j db = Inr (i, db')" and "whole_cents (ji_lines j)"
  shows "\<exists>e. fd_entries db' = fd_entries db @ [e] \<and> je_id e = i \<and> je_status e = J_POSTED \<and> je_tenant e = cx_tenant c
     \<and> je_lines e = ji_lines j \<and> 0 < je_total_debit e
     \<and> total_debit (je_lines e) = je_total_debit e \<and> total_credit (je_lines e) = je_total_debit e
     \<and> (\<exists>company. cx_company c = Some company \<and> open_for db company (ji_date j))"
proof -
  obtain company where "cx_company c = Some company" "open_for db company (ji_date j)"
    using assms(1) by (rule post_journal_lines_Inr) (auto simp: open_for_def)
  with assms show ?thesis
  proof (elim post_journal_lines_cents)
    fix e
    assume "db' = db\<lparr>fd_next := Suc (fd_next db), fd_entries := fd_entries db @ [e]\<rparr>"
      "je_id e = i" "je_lines e = ji_lines j" "je_status e = J_POSTED" "je_tenant e = cx_tenant c"
      "total_debit (je_lines e) = je_total_debit e" "total_credit (je_lines e) = je_total_credit e"
      "je_total_debit e = je_total_credit e" "0 < je_total_debit e"
      and "cx_company c = Some company" "open_for db company (ji_date j)"
    then show ?thesis by (intro exI [of _ e]) simp
  qed
qed

theorem posted_lines_balance_witness:
  "\<exists>e. fd_entries sample_gl1 = fd_entries sample_gl @ [e] \<and> total_debit (je_lines e) = total_credit (je_lines e)"
proof -
  let ?j = "\<lparr>ji_date = 45, ji_type = ''MANUAL'', ji_description = ''Opening'',
    ji_lines = [dr 1 75 ''Opening'', cr 2 75 ''Opening''], ji_ref = None\<rparr>"
  have "post_journal_lines gl_user ?j sample_gl = Inr (1, sample_gl1)"
    using sample_gl1_posted
    by (simp add: create_manual_journal_def sample_journal_def total_debit_def total_credit_def dr_def cr_def)
  moreover have "whole_cents (ji_lines ?j)" by (simp add: whole_cents_def dr_def cr_def round_eval)
  ultimately show ?thesis using posted_lines_balance by metis
qed

subsection \<open>Balances\<close>

definition line_movement :: "row_id \<Rightarrow> journal_entry \<Rightarrow> rat" where
  "line_movement acct e = (\<Sum>l\<leftarrow>filter (\<lambda>l. jl_account l = acct) (je_lines e). jl_debit l - jl_credit l)"

lemma account_movement_eq: "account_movement p acct es = (\<Sum>e\<leftarrow>filter p es. line_movement acct e)"
  by (simp add: account_movement_def line_movement_def)

lemma line_movement_reverse:
  assumes "je_lines e' = map (reverse_line s) (je_lines e)"
  shows "line_movement acct e' = - line_movement acct e"
proof -
  have "(\<Sum>l\<leftarrow>filter (\<lambda>l. jl_account l = acct) (map (reverse_line s) ls). jl_debit l - jl_credit l) =
      - (\<Sum>l\<leftarrow>filter (\<lambda>l. jl_account l = acct) ls. jl_debit l - jl_credit l)" for ls
    by (induction ls) (auto simp: reverse_line_def)
  then show ?thesis by (simp add: line_movement_def assms)
qed

text \<open>Withdrawing one entry from the posted ones takes its movement out of the balance.\<close>

lemma movement_withdraw:
  assumes "distinct (map je_id es)" and "je \<in> set es" and "p je" and "\<And>e. \<not> p (f e)"
  shows "account_movement p acct (update_where (\<lambda>e. je_id e = je_id je) f es) =
     account_movement p acct es - line_movement acct je"
proof -
  obtain xs ys where es: "es = xs @ je # ys" using assms(2) by (auto dest: split_list)
  have "je_id je \<notin> je_id ` (set xs \<union> set ys)" using assms(1) by (auto simp: es)
  then have "je_id e \<noteq> je_id je" if "e \<in> set xs \<union> set ys" for e
    using that by (metis imageI)
  then have "update_where (\<lambda>e. je_id e = je_id je) f es = xs @ f je # ys"
    by (simp add: es update_where_def map_idI)
  then show ?thesis using assms(3,4) by (simp add: account_movement_eq es)
qed

lemma movement_same:
  assumes "\<And>e. p (f e) = p e \<and> je_lines (f e) = je_lines e"
  shows "account_movement p acct (update_where q f es) = account_movement p acct es"
  using assms by (induction es) (auto simp: account_movement_def update_where_def)

lemma void_movement:
  assumes "ledger_ok db" and "find_entry c i db = Some je" and "whole_cents (je_lines je)"
    and "void_journal c today i reason db = Inr (r, db')"
  shows "posted_balance c acct db' = posted_balance c acct db - 2 * line_movement acct je"
  using assms(4)
proof (rule void_journal_Inr)
  fix je' ji db1
  assume found: "find_entry c i db = Some je'" and posted: "je_status je' = J_POSTED"
    and post: "post_journal_lines c ji db = Inr (r, db1)"
    and lines: "ji_lines ji = map (reverse_line (''Reversal: '' @ je_description je' @ '' ('' @ reason @ '')'')) (je_lines je')"
    and db': "db' = db1\<lparr>fd_entries := update_where (\<lambda>e. je_id e = r) (\<lambda>e. e\<lparr>je_reversal_of := Some i\<rparr>)
       (update_where (\<lambda>e. je_id e = i) (\<lambda>e. e\<lparr>je_status := J_VOID, je_reversal_of := None\<rparr>) (fd_entries db1))\<rparr>"
  let ?p = "\<lambda>e. je_status e = J_POSTED \<and> cx_tenant c \<noteq> None \<and> je_tenant e = cx_tenant c"
  have je: "je' = je" using assms(2) found by simp
  have mem: "je \<in> set (fd_entries db)" "je_id je = i" "?p je"
    using find_Some_iff_mem [OF assms(2) [unfolded find_entry_def]] posted je by auto
  have "whole_cents (ji_lines ji)" using assms(3) by (auto simp: lines je whole_cents_def list_all_iff reverse_line_def)
  with post obtain e where db1: "db1 = db\<lparr>fd_next := Suc (fd_next db), fd_entries := fd_entries db @ [e]\<rparr>"
    and e: "je_id e = fd_next db" "je_lines e = ji_lines ji" "?p e"
    using mem(3) by (elim post_journal_lines_cents) auto
  have fresh: "je_id e \<noteq> i" using assms(1) mem e by (auto simp: ledger_ok_def)
  have "account_movement ?p acct (fd_entries db') =
      account_movement ?p acct (update_where (\<lambda>e. je_id e = je_id je) (\<lambda>e. e\<lparr>je_status := J_VOID, je_reversal_of := None\<rparr>) (fd_entries db1))"
    unfolding db' mem(2) by (simp add: movement_same)
  also have "\<dots> = account_movement ?p acct (fd_entries db1) - line_movement acct je"
  proof (rule movement_withdraw)
    show "distinct (map je_id (fd_entries db1))"
      using ledger_ok_post_journal [OF assms(1) post] by (simp add: ledger_ok_def)
  qed (use mem db1 in simp_all)
  also have "\<dots> = account_movement ?p acct (fd_entries db) + line_movement acct e - line_movement acct je"
    using e by (simp add: db1 account_movement_eq)
  also have "line_movement acct e = - line_movement acct je"
    by (rule line_movement_reverse [OF trans [OF e(2) lines [unfolded je]]])
  finally show ?thesis by (simp add: posted_balance_def)
qed

text \<open>
  C16. Voiding a posted journal takes its effect out of the ledger twice: the original leaves the posted
  entries and its reversal joins them, so that the posted balance of each account moves by twice the
  original movement, instead of going back to what it was before the journal.
\<close>

theorem void_reverses_twice:
  assumes "ledger_ok db" and "find_entry c i db = Some je" and "whole_cents (je_lines je)"
    and "void_journal c today i reason db = Inr (r, db')"
  shows "posted_balance c acct db' = posted_balance c acct db - 2 * line_movement acct je"
  using void_movement [OF assms] .

theorem void_reverses_twice_witness:
  "\<exists>r db. void_journal gl_user 50 1 ''wrong'' sample_gl1 = Inr (r, db)
     \<and> posted_balance gl_user 1 sample_gl = 0 \<and> posted_balance gl_user 1 sample_gl1 = 75
     \<and> posted_balance gl_user 1 db = - 75"
proof -
  have "case void_journal gl_user 50 1 ''wrong'' sample_gl1 of Inl _ \<Rightarrow> False | Inr _ \<Rightarrow> True" by code_simp
  then obtain r db where void: "void_journal gl_user 50 1 ''wrong'' sample_gl1 = Inr (r, db)"
    by (auto split: sum.splits)
  have "case find_entry gl_user 1 sample_gl1 of None \<Rightarrow> False
      | Some je \<Rightarrow> whole_cents (je_lines je) \<and> line_movement 1 je = 75" by code_simp
  then obtain je where je: "find_entry gl_user 1 sample_gl1 = Some je" "whole_cents (je_lines je)" "line_movement 1 je = 75"
    by (auto split: option.splits)
  have "ledger_ok sample_gl1" using ledger_reaches [OF sample_gl1_step] sample_gl_ok by blast
  moreover have "posted_balance gl_user 1 sample_gl = 0" "posted_balance gl_user 1 sample_gl1 = 75" by code_simp+
  ultimately show ?thesis
    using void_reverses_twice [OF _ je(1,2) void, of 1] void je(3) by auto
qed

text \<open>What a customer still owes on an invoice.\<close>

definition outstanding :: "customer_invoice \<Rightarrow> rat" where
  "outstanding d = ci_total d - ci_paid d"

lemma post_credit_note_Inr:
  assumes "find_doc c i (fd_credit_notes db) = Some n" and "\<not> dc_posted n"
    and "post_credit_note c i db = Inr (j, db')"
  obtains ji db1 where "post_journal_lines c ji db = Inr (j, db1)" "db' = credit_note_done c n j db1"
    "credit_note_journal c db n = Inr ji"
  using assms by (auto simp: post_credit_note_def post_document_def)

lemma find_update_where:
  assumes "find p rows = Some d" and "\<And>r. p (f r) = p r"
  shows "find p (update_where q f rows) = Some (if q d then f d else d)"
  using assms by (induction rows) (auto simp: update_where_def split: if_splits)

text \<open>
  C17. Posting a credit note against an invoice that is not void raises what the customer still owes on
  the invoice by the credited amount, while the journal that it posts credits the receivable: the
  ledger and the invoice move in opposite directions.
\<close>

theorem credit_note_raises_outstanding:
  assumes "find_doc c i (fd_credit_notes db) = Some n" and "\<not> dc_posted n" and "nt_invoice n = Some k"
    and "find (\<lambda>r. dc_id r = k) (fd_invoices db) = Some r" and "dc_status r \<noteq> ''VOID''"
    and "post_credit_note c i db = Inr (j, db')"
  shows "(\<exists>r'. find (\<lambda>r. dc_id r = k) (fd_invoices db') = Some r' \<and> outstanding r' = outstanding r + nt_amount n)
     \<and> (\<exists>ar e. get_account_id c coa_ar db = Inr ar \<and> fd_entries db' = fd_entries db @ [e]
          \<and> cr ar (sql_round2 (nt_amount n)) (''Credit note '' @ dc_no n) \<in> set (je_lines e))"
proof -
  obtain ji db1 where post: "post_journal_lines c ji db = Inr (j, db1)" and db': "db' = credit_note_done c n j db1"
    and ji: "credit_note_journal c db n = Inr ji"
    using post_credit_note_Inr [OF assms(1,2,6)] by blast
  obtain e where db1: "db1 = db\<lparr>fd_next := Suc (fd_next db), fd_entries := fd_entries db @ [e]\<rparr>"
    and lines: "je_lines e = map stored_line (ji_lines ji)"
    using post by (rule post_journal_lines_Inr) blast
  have invoice: "\<exists>r'. find (\<lambda>r. dc_id r = k) (fd_invoices db') = Some r' \<and> outstanding r' = outstanding r + nt_amount n"
    using find_Some_iff_mem [OF assms(4)] assms(3,5)
    by (simp add: db' credit_note_done_def db1 find_update_where [OF assms(4)] outstanding_def)
  obtain ar where "get_account_id c coa_ar db = Inr ar"
    and "cr ar (nt_amount n) (''Credit note '' @ dc_no n) \<in> set (ji_lines ji)"
    using ji by (auto simp: credit_note_journal_def Let_def split: if_splits)
  moreover have "stored_line (cr ar q t) = cr ar (sql_round2 q) t" for ar q t
    by (simp add: stored_line_def cr_def sql_round2_def)
  ultimately have "\<exists>ar e. get_account_id c coa_ar db = Inr ar \<and> fd_entries db' = fd_entries db @ [e]
       \<and> cr ar (sql_round2 (nt_amount n)) (''Credit note '' @ dc_no n) \<in> set (je_lines e)"
    by (intro exI [of _ ar] exI [of _ e]) (auto simp: db' credit_note_done_def db1 lines intro!: rev_image_eqI)
  with invoice show ?thesis by blast
qed

theorem credit_note_raises_outstanding_witness:
  "\<exists>j db r. post_credit_note gl_user 6 sample_gl = Inr (j, db)
     \<and> find (\<lambda>r. dc_id r = 5) (fd_invoices db) = Some r \<and> outstanding r = 168"
proof -
  have "case post_credit_note gl_user 6 sample_gl of Inl _ \<Rightarrow> False | Inr _ \<Rightarrow> True" by code_simp
  then obtain j db where posted: "post_credit_note gl_user 6 sample_gl = Inr (j, db)"
    by (auto split: sum.splits)
  let ?n = "hd (fd_credit_notes sample_gl)" and ?r = "hd (fd_invoices sample_gl)"
  have "find_doc gl_user 6 (fd_credit_notes sample_gl) = Some ?n" "find (\<lambda>r. dc_id r = 5) (fd_invoices sample_gl) = Some ?r"
    by (simp_all add: find_doc_def sample_gl_defs)
  moreover have "\<not> dc_posted ?n" "nt_invoice ?n = Some 5" "dc_status ?r \<noteq> ''VOID''" "outstanding ?r + nt_amount ?n = 168"
    by (simp_all add: sample_gl_def outstanding_def)
  ultimately show ?thesis using credit_note_raises_outstanding posted by metis
qed

lemma resolve_no_rule:
  assumes "list_all (\<lambda>r. pr_event r \<noteq> event) (fd_rules db)"
  shows "resolve_event_lines c event vars sub desc db = None"
proof -
  have "filter (\<lambda>r. cx_company c = Some (pr_company r) \<and> pr_event r = event \<and> pr_active r) (fd_rules db) = []"
    using assms by (auto simp: filter_empty_conv list_all_iff)
  then show ?thesis by (simp add: resolve_event_lines_def limit1_def)
qed

text \<open>The engine accepts two balanced lines or more in whole cents in an open period.\<close>

lemma post_journal_lines_ok:
  assumes "cx_company c = Some co" and "open_for db co (ji_date j)" and "2 \<le> length (ji_lines j)"
    and "total_debit (ji_lines j) = total_credit (ji_lines j)" and "0 < total_debit (ji_lines j)"
  obtains i db' where "post_journal_lines c j db = Inr (i, db')"
  using assms by (auto simp: post_journal_lines_def assert_period_open_def open_for_def post_journal_def)

lemma posted_balance_snoc:
  assumes "cx_tenant c = Some t" and "fd_entries db' = fd_entries db @ [e]" and "je_status e = J_POSTED"
    and "je_tenant e = cx_tenant c"
  shows "posted_balance c acct db' = posted_balance c acct db + line_movement acct e"
  using assms by (simp add: posted_balance_def account_movement_eq)

definition sound_invoice :: "customer_invoice \<Rightarrow> bool" where
  "sound_invoice d \<longleftrightarrow>
     ci_total d = ci_subtotal d - ci_discount d + ci_tax d \<and> 0 < ci_total d \<and> 0 \<le> ci_tax d
     \<and> list_all (\<lambda>x. round2 x = x) [ci_subtotal d - ci_discount d, ci_tax d, ci_total d]"

text \<open>
  C15. An approved invoice with consistent amounts in whole cents posts: when the three accounts exist,
  the period of its date is open and no custom rule overrides the entry, the posting succeeds, the
  invoice becomes posted and carries the journal, and the receivable grows by the invoice total.
\<close>

theorem approved_invoice_posts:
  assumes d: "find_doc c i (fd_invoices db) = Some d" "\<not> dc_posted d" "dc_status d = ''APPROVED''" "sound_invoice d"
    and accts: "get_account_id c coa_ar db = Inr ar" "get_account_id c coa_revenue db = Inr income"
      "get_account_id c coa_vat db = Inr vat" "ar \<noteq> income" "ar \<noteq> vat"
    and rules: "list_all (\<lambda>r. pr_event r \<noteq> ''SALES_INVOICE'') (fd_rules db)"
    and ctx: "cx_company c = Some co" "cx_tenant c = Some t" "open_for db co (dc_date d)"
  shows "\<exists>j db' d'. post_sales_invoice c i db = Inr (j, db') \<and> posted_balance c ar db' = posted_balance c ar db + ci_total d
     \<and> find_doc c i (fd_invoices db') = Some d' \<and> dc_posted d' \<and> dc_journal d' = Some j \<and> dc_status d' = ''POSTED''"
proof -
  define ls where "ls = [dr ar (ci_total d) (''Invoice '' @ dc_no d),
      cr income (ci_subtotal d - ci_discount d) (''Revenue '' @ dc_no d)]
    @ (if 0 < ci_tax d then [cr vat (ci_tax d) (''VAT '' @ dc_no d)] else [])"
  define ji where "ji = \<lparr>ji_date = dc_date d, ji_type = ''SALES_INVOICE'', ji_description = ''Customer invoice '' @ dc_no d,
    ji_lines = ls, ji_ref = Some (''customer_invoices'', dc_id d, dc_no d)\<rparr>"
  have build: "sales_invoice_journal c db d = Inr ji"
    using d(3) accts by (simp add: sales_invoice_journal_def Let_def resolve_no_rule [OF rules] ji_def ls_def)
  have totals: "total_debit ls = ci_total d" "total_credit ls = ci_total d" "whole_cents ls"
    using d(4) by (auto simp: ls_def total_debit_def total_credit_def dr_def cr_def sound_invoice_def whole_cents_def)
  obtain j db1 where post: "post_journal_lines c ji db = Inr (j, db1)"
    by (rule post_journal_lines_ok [of c co db ji]) (use ctx d(4) totals in \<open>auto simp: ji_def ls_def sound_invoice_def\<close>)
  obtain e where db1: "db1 = db\<lparr>fd_next := Suc (fd_next db), fd_entries := fd_entries db @ [e]\<rparr>"
    and e: "je_lines e = ls" "je_status e = J_POSTED" "je_tenant e = cx_tenant c"
    using post totals(3) by (elim post_journal_lines_cents) (auto simp: ji_def)
  have posted: "post_sales_invoice c i db = Inr (j, sales_invoice_done c d j db1)"
    using d build post by (simp add: post_sales_invoice_def post_document_def)
  have "line_movement ar e = ci_total d"
    using accts(4,5) by (simp add: line_movement_def e ls_def dr_def cr_def)
  then have "posted_balance c ar (sales_invoice_done c d j db1) = posted_balance c ar db + ci_total d"
    using posted_balance_snoc [OF ctx(2), of "sales_invoice_done c d j db1" db e ar] e
    by (simp add: sales_invoice_done_def finance_event_def db1)
  moreover have "find_doc c i (fd_invoices (sales_invoice_done c d j db1)) =
      Some (d\<lparr>dc_posted := True, dc_journal := Some j, dc_status := ''POSTED''\<rparr>)"
    using d(1) by (simp add: sales_invoice_done_def finance_event_def db1)
  ultimately show ?thesis using posted by fastforce
qed

theorem approved_invoice_posts_witness:
  "\<exists>j db d. post_sales_invoice gl_user 5 sample_gl = Inr (j, db) \<and> posted_balance gl_user 1 db = 118
     \<and> find_doc gl_user 5 (fd_invoices db) = Some d \<and> dc_status d = ''POSTED''"
proof -
  let ?d = "hd (fd_invoices sample_gl)"
  have d: "find_doc gl_user 5 (fd_invoices sample_gl) = Some ?d" "\<not> dc_posted ?d" "dc_status ?d = ''APPROVED''"
    "sound_invoice ?d"
    by (simp_all add: find_doc_def sample_gl_defs sound_invoice_def round_eval)
  have accts: "get_account_id gl_user coa_ar sample_gl = Inr 1" "get_account_id gl_user coa_revenue sample_gl = Inr 2"
    "get_account_id gl_user coa_vat sample_gl = Inr 3"
    by code_simp+
  have opens: "open_for sample_gl 2 (dc_date ?d)"
    by (simp add: open_for_def covering_period_def limit1_def sample_gl_def)
  have rules: "list_all (\<lambda>r. pr_event r \<noteq> ''SALES_INVOICE'') (fd_rules sample_gl)" by (simp add: sample_gl_def)
  have "posted_balance gl_user 1 sample_gl = 0" "ci_total ?d = 118"
    by (simp_all add: posted_balance_def account_movement_def sample_gl_def)
  then show ?thesis
    using approved_invoice_posts [OF d accts _ _ rules _ _ opens, of 1] by (auto simp: gl_user_def)
qed

lemma render_amount_cents: "round2 (render_amount tpl vars) = render_amount tpl vars"
  by (simp add: render_amount_def Let_def split: jsnum.split)

definition known_account :: "ctx \<Rightarrow> (string \<rightharpoonup> row_id) \<Rightarrow> finance_db \<Rightarrow> row_id \<Rightarrow> bool" where
  "known_account c sub db i \<longleftrightarrow> i \<in> ran sub
     \<or> (\<exists>a\<in>set (fd_accounts db). ac_id a = i \<and> ac_active a \<and> cx_company c = Some (ac_company a))"

lemma render_lines_account:
  assumes "(case sub code of Some i \<Rightarrow> Some i | None \<Rightarrow> find_account c code db) = Some i"
  shows "known_account c sub db i"
  using assms by (auto simp: known_account_def find_account_def ran_def split: option.splits dest!: find_Some_iff_mem)

lemma render_lines_sound:
  assumes "render_lines c sub desc vars db xs = Some ls"
  shows "whole_cents ls \<and> (\<forall>l\<in>set ls. known_account c sub db (jl_account l))"
  using assms
proof (induction xs arbitrary: ls)
  case Nil
  then show ?case by (simp add: whole_cents_def)
next
  case (Cons x xs)
  let ?code = "js_trim (to_string (coalesce (jget x ''account_code'') (coalesce (jget x ''accountCode'') (JStr []))))"
  obtain i rest where i: "(case sub ?code of Some i \<Rightarrow> Some i | None \<Rightarrow> find_account c ?code db) = Some i"
    and rest: "render_lines c sub desc vars db xs = Some rest"
    and ls: "ls = rest \<or> ls = \<lparr>jl_account = i, jl_debit = render_amount (jget x ''debit'') vars,
      jl_credit = render_amount (jget x ''credit'') vars, jl_centre = None, jl_description = desc\<rparr> # rest"
    using Cons.prems unfolding render_lines.simps Let_def
    by (auto split: if_splits option.splits)
  from ls show ?case
    using Cons.IH [OF rest] render_lines_account [of c ?code db sub i, OF i] by (auto simp: whole_cents_def render_amount_cents)
qed

lemma round2_js_round: "round2 x = of_int (js_round (x * 100)) / 100"
  by (simp add: round_to_def)

lemma equal_to_the_cent:
  assumes "whole_cents ls" and "js_round (total_debit ls * 100) = js_round (total_credit ls * 100)"
  shows "total_debit ls = total_credit ls"
proof -
  have "round2 (total_debit ls) = total_debit ls" "round2 (total_credit ls) = total_credit ls"
    using assms(1) by (auto simp: whole_cents_def list_all_iff total_debit_def total_credit_def intro!: round2_sum)
  then show ?thesis using assms(2) by (metis round2_js_round)
qed

text \<open>
  A custom posting rule can only replace the standard entry of an event by lines that balance: when
  the rule is used, it has two lines or more, each on an account of the company or on the account
  the caller substitutes, and debits and credits agree to the cent; in every other case (no rule,
  an unknown account, an unbalanced or short result) the standard entry is used.
\<close>

theorem rule_lines_balance:
  assumes "resolve_event_lines c event vars sub desc db = Some ls"
  shows "2 \<le> length ls \<and> whole_cents ls \<and> total_debit ls = total_credit ls
     \<and> (\<forall>l\<in>set ls. known_account c sub db (jl_account l))"
  using assms render_lines_sound [of c sub desc "vars_map vars" db _ ls] equal_to_the_cent [of ls]
  by (auto simp: resolve_event_lines_def split: option.splits if_splits)

definition sample_rule :: posting_rule where
  "sample_rule =
     \<lparr>pr_id = 1, pr_company = 2, pr_event = ''SALES_INVOICE'', pr_active = True,
      pr_lines = JArr
        [JObj [(''account_code'', JStr coa_ar), (''debit'', JStr ''{{amount}}'')],
         JObj [(''account_code'', JStr coa_revenue), (''credit'', JStr ''{{net}}'')],
         JObj [(''account_code'', JStr coa_vat), (''credit'', JStr ''{{tax}}'')]]\<rparr>"

theorem rule_lines_balance_witness:
  "\<exists>ls. resolve_event_lines gl_user ''SALES_INVOICE'' \<lparr>rv_amount = 118, rv_net = Some 100, rv_tax = Some 18\<rparr>
       Map.empty ''Invoice'' (sample_gl\<lparr>fd_rules := [sample_rule]\<rparr>) = Some ls
     \<and> total_debit ls = total_credit ls \<and> length ls = 3"
proof -
  have "case resolve_event_lines gl_user ''SALES_INVOICE'' \<lparr>rv_amount = 118, rv_net = Some 100, rv_tax = Some 18\<rparr>
      Map.empty ''Invoice'' (sample_gl\<lparr>fd_rules := [sample_rule]\<rparr>) of None \<Rightarrow> False | Some ls \<Rightarrow> length ls = 3"
    by code_simp
  then show ?thesis using rule_lines_balance by (auto split: option.splits)
qed

end
