(* ===== verification/Payroll_Posting.thy ===== *)
theory Payroll_Posting
  imports Payroll_Calc Finance
begin

text \<open>
  Posting a payroll run: \<open>postPayroll\<close> of \<^verbatim>\<open>apps/api/src/services/finance.ts\<close>, which turns the
  payslips of a run into one balanced journal split by cost centre, and \<open>postPayrollRun\<close> of
  \<^verbatim>\<open>hr.ts\<close>, which then settles loans, advances and fines against what the payslips recovered. The
  payslip columns are read back as exact amounts; a run holding a \<open>NaN\<close> column is outside the model.
\<close>

subsection \<open>State\<close>

record gl_mapping =
  gm_id :: row_id
  gm_tenant :: row_id
  gm_company :: row_id
  gm_role :: "string option"
  gm_default :: bool
  gm_group :: "row_id option"
  gm_debit :: row_id
  gm_credit :: row_id

record status_change =
  sh_payroll :: row_id
  sh_from :: run_status
  sh_to :: run_status
  sh_user :: "row_id option"
  sh_comment :: "string option"
  sh_reason :: "string option"

text \<open>Payroll and ledger live in one database; \<open>bk_centres\<close> is \<open>employees.cost_centre_id\<close>.\<close>

record books =
  bk_payroll :: payroll_db
  bk_gl :: finance_db
  bk_mappings :: "gl_mapping list"
  bk_centres :: "row_id \<rightharpoonup> row_id"
  bk_history :: "status_change list"

subsection \<open>Accounts\<close>

definition payroll_gl_credit_roles :: "string list" where
  "payroll_gl_credit_roles = [''PAYE_PAYABLE'', ''NSSF_PAYABLE'', ''LST_PAYABLE'', ''STAFF_RECOVERIES'', ''NET_PAY'']"

definition payroll_gl_fallback :: "string \<rightharpoonup> string" where
  "payroll_gl_fallback = map_of
     [(''EARNING_EXPENSE'', coa_admin_exp), (''EMPLOYER_NSSF_EXPENSE'', coa_admin_exp),
      (''EMPLOYER_PENSION_EXPENSE'', coa_admin_exp), (''PAYE_PAYABLE'', coa_paye),
      (''NSSF_PAYABLE'', coa_accrual), (''LST_PAYABLE'', coa_accrual),
      (''STAFF_RECOVERIES'', coa_other_recv), (''NET_PAY'', coa_default_bank)]"

text \<open>
  \<open>payrollGlAccounts\<close>: the first row of each role wins, rows of the group before company-wide ones,
  then by id.
\<close>

definition payroll_gl_accounts :: "ctx \<Rightarrow> row_id option \<Rightarrow> gl_mapping list \<Rightarrow> string \<Rightarrow> gl_mapping option" where
  "payroll_gl_accounts c grp rows role =
     limit1 (\<lambda>m. (if gm_group m = None then 1 else 0 :: nat, gm_id m))
       (filter (\<lambda>m. own_company c (gm_tenant m) (gm_company m) \<and> gm_default m \<and> gm_role m = Some role
                   \<and> (gm_group m = None \<or> sql_eq (gm_group m) grp)) rows)"

definition account_for :: "ctx \<Rightarrow> row_id option \<Rightarrow> books \<Rightarrow> string \<Rightarrow> row_id result" where
  "account_for c grp bk role =
     (case payroll_gl_accounts c grp (bk_mappings bk) role of
        Some m \<Rightarrow> Inr (if role \<in> set payroll_gl_credit_roles then gm_credit m else gm_debit m)
      | None \<Rightarrow> get_account_id c (the_default [] (payroll_gl_fallback role)) (bk_gl bk))"

subsection \<open>Totals of a run\<close>

record payroll_totals =
  tt_gross :: rat
  tt_paye :: rat
  tt_nssf :: rat
  tt_employer :: rat
  tt_recoveries :: rat
  tt_lst :: rat
  tt_net :: rat

definition slip_recoveries :: "payslip \<Rightarrow> rat" where
  "slip_recoveries s = num_val (ps_loans s) + num_val (ps_advances s) + num_val (ps_fines s) + num_val (ps_other s)"

definition payroll_totals_of :: "payslip list \<Rightarrow> payroll_totals" where
  "payroll_totals_of items =
     \<lparr>tt_gross = (\<Sum>s\<leftarrow>items. num_val (ps_gross s)), tt_paye = (\<Sum>s\<leftarrow>items. num_val (ps_paye s)),
      tt_nssf = (\<Sum>s\<leftarrow>items. num_val (ps_nssf s)), tt_employer = (\<Sum>s\<leftarrow>items. num_val (ps_employer_nssf s)),
      tt_recoveries = (\<Sum>s\<leftarrow>items. num_val (ps_loans s)) + (\<Sum>s\<leftarrow>items. num_val (ps_advances s))
        + (\<Sum>s\<leftarrow>items. num_val (ps_fines s)) + (\<Sum>s\<leftarrow>items. num_val (ps_other s)),
      tt_lst = (\<Sum>s\<leftarrow>items. num_val (ps_lst s)), tt_net = (\<Sum>s\<leftarrow>items. num_val (ps_net s))\<rparr>"

text \<open>\<open>accumulate\<close>: a \<open>Map\<close> from cost centre to amount, in the order of first use.\<close>

fun accumulate :: "row_id option \<Rightarrow> rat \<Rightarrow> (row_id option \<times> rat) list \<Rightarrow> (row_id option \<times> rat) list" where
  "accumulate k q [] = [(k, q)]"
| "accumulate k q ((k', q') # rest) =
     (if k' = k then (k', q' + q) # rest else (k', q') # accumulate k q rest)"

definition by_centre :: "(row_id \<rightharpoonup> row_id) \<Rightarrow> (payslip \<Rightarrow> jsnum) \<Rightarrow> payslip list \<Rightarrow> (row_id option \<times> rat) list" where
  "by_centre centre f items =
     fold (\<lambda>s. accumulate (centre (ps_employee s)) (num_val (f s))) items []"

definition credits_before_net :: "payroll_totals \<Rightarrow> rat" where
  "credits_before_net t =
     round2 (tt_paye t) + round2 (tt_nssf t + tt_employer t) + round2 (tt_lst t) + round2 (tt_recoveries t)"

definition payroll_net :: "payroll_totals \<Rightarrow> rat" where
  "payroll_net t = round2 (round2 (tt_gross t) + round2 (tt_employer t) - credits_before_net t)"

definition payroll_variance :: "payroll_totals \<Rightarrow> rat" where
  "payroll_variance t = round2 (payroll_net t - round2 (tt_net t))"

subsection \<open>The journal\<close>

definition centre_lines :: "row_id \<Rightarrow> string \<Rightarrow> (row_id option \<times> rat) list \<Rightarrow> journal_line list" where
  "centre_lines acct desc parts =
     map (\<lambda>(centre, q). \<lparr>jl_account = acct, jl_debit = round2 q, jl_credit = 0, jl_centre = centre,
                          jl_description = desc\<rparr>)
       (filter (\<lambda>(centre, q). round2 q \<noteq> 0) parts)"

text \<open>\<open>pushCredit\<close>: the account is only looked up when there is something to credit.\<close>

definition push_credit ::
  "(string \<Rightarrow> row_id result) \<Rightarrow> string \<Rightarrow> string \<times> rat \<times> string \<Rightarrow> journal_line list \<Rightarrow> journal_line list result" where
  "push_credit acct lab = (\<lambda>(role, q, desc) ls.
     if round2 q = 0 then Inr ls
     else rbind (acct role) (\<lambda>a. Inr (ls @ [cr a (round2 q) (desc @ '' '' @ lab)])))"

fun push_credits ::
  "(string \<Rightarrow> row_id result) \<Rightarrow> string \<Rightarrow> (string \<times> rat \<times> string) list \<Rightarrow> journal_line list
     \<Rightarrow> journal_line list result" where
  "push_credits acct lab [] ls = Inr ls"
| "push_credits acct lab (x # xs) ls = rbind (push_credit acct lab x ls) (push_credits acct lab xs)"

definition payroll_credits :: "payroll_totals \<Rightarrow> (string \<times> rat \<times> string) list" where
  "payroll_credits t =
     [(''PAYE_PAYABLE'', tt_paye t, ''PAYE payable''),
      (''NSSF_PAYABLE'', tt_nssf t + tt_employer t, ''NSSF payable''),
      (''LST_PAYABLE'', tt_lst t, ''LST payable''),
      (''STAFF_RECOVERIES'', tt_recoveries t, ''Staff recoveries''),
      (''NET_PAY'', payroll_net t, ''Net pay payable'')]"

definition employer_lines ::
  "(string \<Rightarrow> row_id result) \<Rightarrow> (row_id \<rightharpoonup> row_id) \<Rightarrow> string \<Rightarrow> payslip list \<Rightarrow> journal_line list result" where
  "employer_lines acct centre lab items =
     (if round2 (tt_employer (payroll_totals_of items)) = 0 then Inr []
      else rbind (acct ''EMPLOYER_NSSF_EXPENSE'') (\<lambda>employer.
        Inr (centre_lines employer (''Employer NSSF '' @ lab) (by_centre centre ps_employer_nssf items))))"

definition payroll_lines ::
  "(string \<Rightarrow> row_id result) \<Rightarrow> (row_id \<rightharpoonup> row_id) \<Rightarrow> string \<Rightarrow> payslip list \<Rightarrow> journal_line list result" where
  "payroll_lines acct centre lab items =
     rbind (acct ''EARNING_EXPENSE'') (\<lambda>earning.
     rbind (employer_lines acct centre lab items) (\<lambda>more.
       push_credits acct lab (payroll_credits (payroll_totals_of items))
         (centre_lines earning (''Salaries '' @ lab) (by_centre centre ps_gross items) @ more)))"

definition log_history ::
  "ctx \<Rightarrow> payroll_run \<Rightarrow> run_status \<Rightarrow> string option \<Rightarrow> string option \<Rightarrow> status_change list \<Rightarrow> status_change list" where
  "log_history c r to comment reason rows =
     rows @ [\<lparr>sh_payroll = run_id r, sh_from = run_status r, sh_to = to, sh_user = cx_user c, sh_comment = comment,
              sh_reason = reason\<rparr>]"

text \<open>What \<open>postPayroll\<close> writes once the lines are built: the journal, the stamp, history and event.\<close>

definition post_payroll_lines ::
  "ctx \<Rightarrow> payroll_run \<Rightarrow> payroll_totals \<Rightarrow> journal_line list \<Rightarrow> books \<Rightarrow> (row_id \<times> books) result" where
  "post_payroll_lines c r t ls bk =
     (if 1 / 100 < \<bar>round2 (total_debit ls) - round2 (total_credit ls)\<bar>
      then Inl (BadRequest ''Refusing to post an unbalanced payroll journal'')
      else
        rbind (post_journal_lines c
          \<lparr>ji_date = run_end r, ji_type = ''PAYROLL'', ji_description = ''Payroll '' @ run_no r, ji_lines = ls,
           ji_ref = Some (''payrolls'', run_id r, run_no r)\<rparr> (bk_gl bk)) (\<lambda>(j, gl).
          Inr (j, bk
            \<lparr>bk_payroll := update_run (run_id r)
               (\<lambda>x. x\<lparr>run_gl_posted := True, run_gl_journal := Some j, run_status := R_POSTED\<rparr>) (bk_payroll bk),
             bk_gl := gl\<lparr>fd_events := emit_event c
               \<lparr>ep_type = ''finance.payroll_posted'', ep_entity_type = Some ''payrolls'',
                ep_entity = Some (run_id r), ep_code = Some (run_no r),
                ep_payload = [(''journalId'', JNum (of_nat j)), (''gross'', JNum (round2 (tt_gross t))),
                  (''employerNssf'', JNum (round2 (tt_employer t))), (''paye'', JNum (round2 (tt_paye t))),
                  (''net'', JNum (payroll_net t))],
                ep_severity = None\<rparr> (fd_events gl)\<rparr>,
             bk_history := log_history c r R_POSTED (Some ''Payroll posted to the general ledger'') None (bk_history bk)\<rparr>)))"

definition post_payroll :: "ctx \<Rightarrow> row_id \<Rightarrow> books \<Rightarrow> (row_id \<times> books) result" where
  "post_payroll c payroll bk =
     (case find_run c payroll (bk_payroll bk) of
        None \<Rightarrow> Inl (NotFound ''Payroll not found'')
      | Some r \<Rightarrow>
          if run_gl_posted r then Inr (the_default 0 (run_gl_journal r), bk)
          else if run_status r \<notin> {R_APPROVED, R_RELEASED, R_PAID, R_POSTED}
          then Inl (BadRequest ''Payroll must be approved or released before it can be posted'')
          else
            (let items = run_items payroll (bk_payroll bk); t = payroll_totals_of items in
             if items = [] then Inl (BadRequest ''Payroll has no lines'')
             else if 1 / 100 < \<bar>payroll_variance t\<bar> then Inl (BadRequest ''Payroll does not balance'')
             else rbind (payroll_lines (account_for c (run_group r) bk) (bk_centres bk) (run_no r) items)
                    (\<lambda>ls. post_payroll_lines c r t ls bk)))"

subsection \<open>Settlement\<close>

text \<open>
  One loan, advance or fine of an employee: what is taken, the new balance and the repayment row. The
  loop stops once nothing is left to settle; a loan repayment pays interest first.
\<close>

record settlement =
  se_rows :: "recovery_row list"
  se_paid :: "repayment list"
  se_left :: rat

definition interest_part :: "recovery_row \<Rightarrow> rat \<Rightarrow> rat" where
  "interest_part row q = round2 (min (max 0 (round2 (the_default 0 (rc_interest row)))) q)"

definition settle_row ::
  "string \<Rightarrow> row_id \<Rightarrow> string \<Rightarrow> recovery_row \<Rightarrow> settlement \<Rightarrow> settlement" where
  "settle_row kind payroll period row st =
     (if se_left st \<le> 0 then st
      else
        (let take = min (rc_balance row) (se_left st);
             new = round2 (rc_balance row - take);
             interest = (if kind = ''LOAN'' then interest_part row take else 0)
         in \<lparr>se_rows = update_where (\<lambda>x. rc_id x = rc_id row)
               (\<lambda>x. x\<lparr>rc_balance := new,
                      rc_interest := (if kind = ''LOAN'' then Some (max 0 (the_default 0 (rc_interest x) - interest))
                                      else rc_interest x),
                      rc_status := (if new \<le> 0 then ''PAID'' else rc_status x),
                      rc_period := (if kind = ''FINE'' then rc_period x else Some period)\<rparr>) (se_rows st),
             se_paid = se_paid st @
               [\<lparr>rp_kind = kind, rp_source = rc_id row, rp_payroll = payroll, rp_amount = take,
                 rp_principal = (if kind = ''LOAN'' then round2 (take - interest) else 0), rp_interest = interest\<rparr>],
             se_left = round2 (se_left st - take)\<rparr>))"

definition settle_slip ::
  "string \<Rightarrow> (payslip \<Rightarrow> jsnum) \<Rightarrow> string \<Rightarrow> payslip \<Rightarrow> recovery_row list \<times> repayment list
     \<Rightarrow> recovery_row list \<times> repayment list" where
  "settle_slip kind f period s = (\<lambda>(rows, reps).
     if num_val (f s) \<le> 0 then (rows, reps)
     else
       (let st = fold (settle_row kind (ps_payroll s) period) (sort_key rc_id (active_recoveries (ps_employee s) rows))
                   \<lparr>se_rows = rows, se_paid = reps, se_left = num_val (f s)\<rparr>
        in (se_rows st, se_paid st)))"

text \<open>The three passes over the payslips.\<close>

definition settle_run :: "string \<Rightarrow> payslip list \<Rightarrow> payroll_db \<Rightarrow> payroll_db" where
  "settle_run period items db =
     (let (loans, reps1) = fold (settle_slip ''LOAN'' ps_loans period) items (db_loans db, db_repayments db);
          (advances, reps2) = fold (settle_slip ''ADVANCE'' ps_advances period) items (db_advances db, reps1);
          (fines, reps3) = fold (settle_slip ''FINE'' ps_fines period) items (db_fines db, reps2)
      in db\<lparr>db_loans := loans, db_advances := advances, db_fines := fines, db_repayments := reps3\<rparr>)"

definition close_arrears :: "row_id \<Rightarrow> payroll_db \<Rightarrow> payroll_db" where
  "close_arrears payroll db = db\<lparr>db_arrears :=
     update_where (\<lambda>a. ra_payroll a = Some payroll \<and> ra_status a = ''APPROVED'')
       (\<lambda>a. a\<lparr>ra_status := ''CLOSED''\<rparr>) (db_arrears db)\<rparr>"

definition post_payroll_run :: "ctx \<Rightarrow> row_id \<Rightarrow> books \<Rightarrow> (row_id \<times> books) result" where
  "post_payroll_run c payroll bk =
     (case find_run c payroll (bk_payroll bk) of
        None \<Rightarrow> Inl (NotFound ''Payroll not found'')
      | Some r \<Rightarrow>
          if run_gl_posted r then Inr (the_default 0 (run_gl_journal r), bk)
          else
            (let items = run_items payroll (bk_payroll bk) in
             rbind (post_payroll c payroll bk) (\<lambda>(j, bk1).
               (let db2 = close_arrears payroll (settle_run (take 7 (iso_of_date (run_end r))) items (bk_payroll bk1))
                in Inr (j, bk1\<lparr>bk_payroll := db2
                     \<lparr>db_audit := log_audit c
                        \<lparr>ae_action = ''post'', ae_resource = ''payrolls'', ae_record = Some payroll,
                         ae_code = Some (run_no r), ae_old = [],
                         ae_new = [(''journalId'', JNum (of_nat j)), (''status'', JStr ''RELEASED'')]\<rparr> (db_audit db2),
                      db_events := emit_event c
                        \<lparr>ep_type = ''hr.payroll.posted'', ep_entity_type = Some ''hr.payrolls'',
                         ep_entity = Some payroll, ep_code = Some (run_no r),
                         ep_payload = [(''journalId'', JNum (of_nat j)), (''netTotal'', json_number (run_net r))],
                         ep_severity = None\<rparr> (db_events db2)\<rparr>\<rparr>)))))"

subsection \<open>What the journal of a run adds up to\<close>

abbreviation cents :: "rat \<Rightarrow> bool" where
  "cents q \<equiv> round2 q = q"

lemma cents_add: "cents x \<Longrightarrow> cents y \<Longrightarrow> cents (x + y)"
  using r2.rnd_sum_fixed [of "[x, y]" "\<lambda>x. x"] by auto

lemma cents_diff: "cents x \<Longrightarrow> cents y \<Longrightarrow> cents (x - y)"
  by (rule r2.rnd_diff_fixed)

lemma cents_sum: "list_all (\<lambda>x. cents (f x)) xs \<Longrightarrow> cents (\<Sum>x\<leftarrow>xs. f x)"
  by (rule r2.rnd_sum_fixed) (simp add: list_all_iff)

lemma cents_zero: "cents 0" by simp

lemmas cents_intros = cents_add cents_diff cents_sum cents_zero

text \<open>The payslip columns are amounts in whole cents, and the employer contribution is not negative.\<close>

definition exact_slip_columns :: "payslip \<Rightarrow> bool" where
  "exact_slip_columns s \<longleftrightarrow> list_all (\<lambda>x. cents (num_val x))
     [ps_gross s, ps_paye s, ps_nssf s, ps_employer_nssf s, ps_lst s, ps_loans s, ps_advances s, ps_fines s,
      ps_other s, ps_net s] \<and> 0 \<le> num_val (ps_employer_nssf s)"

definition part_sum :: "(row_id option \<Rightarrow> bool) \<Rightarrow> (row_id option \<times> rat) list \<Rightarrow> rat" where
  "part_sum p parts = (\<Sum>(k, q)\<leftarrow>parts. if p k then q else 0)"

lemma part_sum_accumulate: "part_sum p (accumulate k q parts) = part_sum p parts + (if p k then q else 0)"
  by (induction k q parts rule: accumulate.induct) (auto simp: part_sum_def)

lemma cents_accumulate:
  "list_all (\<lambda>(k, v). cents v) parts \<Longrightarrow> cents q \<Longrightarrow> list_all (\<lambda>(k, v). cents v) (accumulate k q parts)"
  by (induction k q parts rule: accumulate.induct) (auto intro: cents_add)

lemma by_centre_fold:
  "part_sum p (fold (\<lambda>s. accumulate (centre (ps_employee s)) (num_val (f s))) items parts) =
     part_sum p parts + (\<Sum>s\<leftarrow>items. if p (centre (ps_employee s)) then num_val (f s) else 0)"
  by (induction items arbitrary: parts) (simp_all add: part_sum_accumulate)

lemma part_sum_by_centre:
  "part_sum p (by_centre centre f items) = (\<Sum>s\<leftarrow>items. if p (centre (ps_employee s)) then num_val (f s) else 0)"
  by (simp add: by_centre_def by_centre_fold) (simp add: part_sum_def)

lemma cents_by_centre:
  assumes "list_all (\<lambda>s. cents (num_val (f s))) items"
  shows "list_all (\<lambda>(k, v). cents v) (by_centre centre f items)"
proof -
  have "list_all (\<lambda>(k, v). cents v) (fold (\<lambda>s. accumulate (centre (ps_employee s)) (num_val (f s))) items parts)"
    if "list_all (\<lambda>(k, v). cents v) parts" for parts
    using that assms by (induction items arbitrary: parts) (simp_all add: cents_accumulate)
  then show ?thesis by (simp add: by_centre_def)
qed

text \<open>Debits by cost centre.\<close>

definition centre_debit :: "(row_id option \<Rightarrow> bool) \<Rightarrow> journal_line list \<Rightarrow> rat" where
  "centre_debit p ls = (\<Sum>l\<leftarrow>ls. if p (jl_centre l) then jl_debit l else 0)"

lemma centre_debit_append [simp]: "centre_debit p (xs @ ys) = centre_debit p xs + centre_debit p ys"
  by (simp add: centre_debit_def)

lemma centre_debit_total: "centre_debit (\<lambda>_. True) ls = total_debit ls"
  by (simp add: centre_debit_def total_debit_def)

lemma total_append [simp]:
  "total_debit (xs @ ys) = total_debit xs + total_debit ys"
  "total_credit (xs @ ys) = total_credit xs + total_credit ys"
  "whole_cents (xs @ ys) \<longleftrightarrow> whole_cents xs \<and> whole_cents ys"
  by (simp_all add: total_debit_def total_credit_def whole_cents_def)

lemma total_Nil [simp]: "total_debit [] = 0" "total_credit [] = 0" "whole_cents []" "centre_debit p [] = 0"
  by (simp_all add: total_debit_def total_credit_def whole_cents_def centre_debit_def)

lemma centre_lines_sums:
  assumes "list_all (\<lambda>(k, v). cents v) parts"
  shows "centre_debit p (centre_lines acct desc parts) = part_sum p parts"
    and "total_credit (centre_lines acct desc parts) = 0" and "whole_cents (centre_lines acct desc parts)"
  using assms
  by (induction parts)
    (auto simp: centre_lines_def centre_debit_def part_sum_def total_credit_def whole_cents_def)

lemma push_credit_sums:
  assumes "push_credit acct lab (role, q, desc) ls = Inr ls'" and "cents q"
  shows "centre_debit p ls' = centre_debit p ls \<and> total_credit ls' = total_credit ls + q
     \<and> (whole_cents ls \<longrightarrow> whole_cents ls')"
  using assms
  by (auto simp: push_credit_def cr_def centre_debit_def total_credit_def whole_cents_def split: if_splits)

lemma push_credits_sums:
  assumes "push_credits acct lab xs ls = Inr ls'" and "list_all (\<lambda>(role, q, desc). cents q) xs"
  shows "centre_debit p ls' = centre_debit p ls \<and> total_credit ls' = total_credit ls + (\<Sum>(role, q, desc)\<leftarrow>xs. q)
     \<and> (whole_cents ls \<longrightarrow> whole_cents ls')"
  using assms
proof (induction xs arbitrary: ls)
  case (Cons x xs)
  obtain role q desc where x: "x = (role, q, desc)" by (cases x)
  obtain mid where one: "push_credit acct lab (role, q, desc) ls = Inr mid"
    and rest: "push_credits acct lab xs mid = Inr ls'"
    using Cons.prems(1) by (auto simp: x)
  show ?case
    using push_credit_sums [OF one, of p] Cons.IH [OF rest] Cons.prems(2) by (auto simp: x)
qed simp

lemma exact_columns_sum:
  assumes "list_all exact_slip_columns items"
    and "f \<in> {ps_gross, ps_paye, ps_nssf, ps_employer_nssf, ps_lst, ps_loans, ps_advances, ps_fines, ps_other, ps_net}"
  shows "list_all (\<lambda>s. cents (num_val (f s))) items" and "cents (\<Sum>s\<leftarrow>items. num_val (f s))"
proof -
  show "list_all (\<lambda>s. cents (num_val (f s))) items"
    using assms by (auto simp: list_all_iff exact_slip_columns_def)
  then show "cents (\<Sum>s\<leftarrow>items. num_val (f s))" by (rule cents_sum)
qed

lemma exact_totals:
  assumes "list_all exact_slip_columns items" and "t = payroll_totals_of items"
  shows "cents (tt_gross t)" "cents (tt_paye t)" "cents (tt_nssf t)" "cents (tt_employer t)" "cents (tt_lst t)"
    "cents (tt_recoveries t)" "cents (tt_net t)"
  using exact_columns_sum(2) [OF assms(1)] by (auto simp: assms(2) payroll_totals_of_def intro!: cents_add)

lemma exact_net:
  assumes "list_all exact_slip_columns items" and "t = payroll_totals_of items"
  shows "payroll_net t = tt_gross t + tt_employer t - (tt_paye t + (tt_nssf t + tt_employer t) + tt_lst t + tt_recoveries t)"
    and "cents (payroll_net t)"
proof -
  note cs = exact_totals [OF assms]
  have "credits_before_net t = tt_paye t + (tt_nssf t + tt_employer t) + tt_lst t + tt_recoveries t"
    using cs cents_add [OF cs(3,4)] by (simp add: credits_before_net_def)
  moreover have "cents (tt_gross t + tt_employer t
      - (tt_paye t + (tt_nssf t + tt_employer t) + tt_lst t + tt_recoveries t))"
    by (intro cents_add cents_diff cs)
  ultimately show "payroll_net t = tt_gross t + tt_employer t
      - (tt_paye t + (tt_nssf t + tt_employer t) + tt_lst t + tt_recoveries t)"
    using cs by (simp add: payroll_net_def)
  show "cents (payroll_net t)" by (simp add: payroll_net_def)
qed

lemma no_employer_contribution:
  assumes "list_all exact_slip_columns items" and "(\<Sum>s\<leftarrow>items. num_val (ps_employer_nssf s)) = 0"
  shows "(\<Sum>s\<leftarrow>items. if p s then num_val (ps_employer_nssf s) else 0) = 0"
proof -
  have "\<forall>s\<in>set items. num_val (ps_employer_nssf s) = 0"
    using assms sum_list_nonneg_eq_0_iff [of "map (\<lambda>s. num_val (ps_employer_nssf s)) items"]
    by (auto simp: list_all_iff exact_slip_columns_def)
  then show ?thesis by (induction items) auto
qed

lemma payroll_lines_sums:
  assumes lines: "payroll_lines acct centre lab items = Inr ls" and exact: "list_all exact_slip_columns items"
    and t: "t = payroll_totals_of items"
  shows "centre_debit p ls = (\<Sum>s\<leftarrow>items. if p (centre (ps_employee s)) then num_val (ps_gross s) else 0)
       + (\<Sum>s\<leftarrow>items. if p (centre (ps_employee s)) then num_val (ps_employer_nssf s) else 0)"
    and "total_credit ls = tt_gross t + tt_employer t" and "whole_cents ls"
proof -
  note cs = exact_totals [OF exact t]
  obtain earning more where employer: "employer_lines acct centre lab items = Inr more"
    and push: "push_credits acct lab (payroll_credits t)
      (centre_lines earning (''Salaries '' @ lab) (by_centre centre ps_gross items) @ more) = Inr ls"
    using lines unfolding payroll_lines_def t by (elim rbind_InrE)
  have more: "more = [] \<and> tt_employer t = 0 \<or>
      (\<exists>a. more = centre_lines a (''Employer NSSF '' @ lab) (by_centre centre ps_employer_nssf items))"
    using employer cs(4) by (auto simp: employer_lines_def t split: if_splits)
  have grossp: "list_all (\<lambda>(k, v). cents v) (by_centre centre ps_gross items)"
    and empp: "list_all (\<lambda>(k, v). cents v) (by_centre centre ps_employer_nssf items)"
    using exact_columns_sum(1) [OF exact] by (simp_all add: cents_by_centre)
  have "tt_employer t = 0 \<Longrightarrow> (\<Sum>s\<leftarrow>items. if p (centre (ps_employee s)) then num_val (ps_employer_nssf s) else 0) = 0"
    using no_employer_contribution [OF exact] by (simp add: t payroll_totals_of_def)
  then have more_sums: "centre_debit p more = (\<Sum>s\<leftarrow>items. if p (centre (ps_employee s)) then num_val (ps_employer_nssf s) else 0)"
    "total_credit more = 0" "whole_cents more"
    using more centre_lines_sums [OF empp] by (auto simp: part_sum_by_centre)
  have "list_all (\<lambda>(role, q, desc). cents q) (payroll_credits t)"
    using cs cents_add [OF cs(3,4)] exact_net(2) [OF exact t] by (simp add: payroll_credits_def)
  note sums = push_credits_sums [OF push this, of p]
  show "centre_debit p ls = (\<Sum>s\<leftarrow>items. if p (centre (ps_employee s)) then num_val (ps_gross s) else 0)
       + (\<Sum>s\<leftarrow>items. if p (centre (ps_employee s)) then num_val (ps_employer_nssf s) else 0)"
    using sums centre_lines_sums [OF grossp] more_sums by (simp add: part_sum_by_centre)
  show "total_credit ls = tt_gross t + tt_employer t"
    using sums centre_lines_sums [OF grossp] more_sums exact_net(1) [OF exact t]
    by (simp add: payroll_credits_def)
  show "whole_cents ls" using sums centre_lines_sums [OF grossp] more_sums by simp
qed

lemma payroll_lines_balance:
  assumes "payroll_lines acct centre lab items = Inr ls" and "list_all exact_slip_columns items"
    and "t = payroll_totals_of items"
  shows "total_debit ls = tt_gross t + tt_employer t" and "total_credit ls = total_debit ls"
  using payroll_lines_sums(1) [OF assms, of "\<lambda>_. True"] payroll_lines_sums(2) [OF assms]
  by (simp_all add: centre_debit_total assms(3) payroll_totals_of_def)

subsection \<open>What the settlement conserves\<close>

definition sound_rows :: "recovery_row list \<Rightarrow> bool" where
  "sound_rows rows \<longleftrightarrow> distinct (map rc_id rows) \<and> list_all (\<lambda>r. 0 \<le> rc_balance r \<and> cents (rc_balance r)) rows"

definition balance_total :: "recovery_row list \<Rightarrow> rat" where
  "balance_total rows = (\<Sum>r\<leftarrow>rows. rc_balance r)"

definition repaid :: "repayment list \<Rightarrow> rat" where
  "repaid reps = (\<Sum>r\<leftarrow>reps. rp_amount r)"

definition sound_repayment :: "string \<Rightarrow> repayment \<Rightarrow> bool" where
  "sound_repayment kind r \<longleftrightarrow> rp_kind r = kind \<and> 0 < rp_amount r
     \<and> (kind = ''LOAN'' \<longrightarrow> rp_principal r + rp_interest r = rp_amount r \<and> 0 \<le> rp_principal r \<and> 0 \<le> rp_interest r)"

lemma update_one:
  assumes "distinct (map key rows)" and "x \<in> set rows"
  obtains xs ys where "rows = xs @ x # ys" and "\<And>f. update_where (\<lambda>r. key r = key x) f rows = xs @ f x # ys"
proof -
  obtain xs ys where rows: "rows = xs @ x # ys" using assms(2) by (auto dest: split_list)
  have "key x \<notin> key ` (set xs \<union> set ys)" using assms(1) by (auto simp: rows)
  then have "key r \<noteq> key x" if "r \<in> set xs \<union> set ys" for r using that by (metis imageI)
  then have "update_where (\<lambda>r. key r = key x) f rows = xs @ f x # ys" for f
    by (simp add: rows update_where_def map_idI)
  with rows that show thesis by blast
qed

lemma interest_part_bounds:
  assumes "0 \<le> q" and "cents q"
  shows "0 \<le> interest_part row q" and "interest_part row q \<le> q" and "cents (interest_part row q)"
proof -
  show "0 \<le> interest_part row q" unfolding interest_part_def by (rule r2.rnd_nonneg) (use assms in simp)
  show "interest_part row q \<le> q" unfolding interest_part_def by (rule r2.rnd_le_fixed) (use assms in simp_all)
  show "cents (interest_part row q)" by (simp add: interest_part_def)
qed

text \<open>One row, with something left to settle.\<close>

lemma settle_row_step:
  assumes rows: "sound_rows (se_rows st)" and x: "x \<in> set (se_rows st)" "0 < rc_balance x"
    and left: "0 < se_left st" "cents (se_left st)"
  shows "sound_rows (se_rows (settle_row kind payroll period x st))"
    and "balance_total (se_rows (settle_row kind payroll period x st)) =
       balance_total (se_rows st) - min (rc_balance x) (se_left st)"
    and "\<exists>r. se_paid (settle_row kind payroll period x st) = se_paid st @ [r] \<and> sound_repayment kind r
       \<and> rp_amount r = min (rc_balance x) (se_left st) \<and> rp_payroll r = payroll"
    and "se_left (settle_row kind payroll period x st) = se_left st - min (rc_balance x) (se_left st)"
    and "y \<in> set (se_rows st) \<Longrightarrow> rc_id y \<noteq> rc_id x \<Longrightarrow> y \<in> set (se_rows (settle_row kind payroll period x st))"
    and "rc_employee x \<noteq> e \<Longrightarrow>
       active_recoveries e (se_rows (settle_row kind payroll period x st)) = active_recoveries e (se_rows st)"
proof -
  define part where "part = min (rc_balance x) (se_left st)"
  have cx: "cents (rc_balance x)" using rows x by (auto simp: sound_rows_def list_all_iff)
  have part: "0 < part" "cents part" "cents (rc_balance x - part)" "0 \<le> rc_balance x - part" "cents (se_left st - part)"
    using x(2) left cx by (auto simp: part_def min_def intro: cents_diff)
  obtain xs ys where split: "se_rows st = xs @ x # ys"
    and upd: "\<And>f. update_where (\<lambda>r. rc_id r = rc_id x) f (se_rows st) = xs @ f x # ys"
    using update_one [of rc_id "se_rows st" x] rows x(1) by (auto simp: sound_rows_def)
  obtain x' where x': "se_rows (settle_row kind payroll period x st) = xs @ x' # ys"
    "rc_balance x' = rc_balance x - part" "rc_id x' = rc_id x" "rc_employee x' = rc_employee x"
    using left(1) part(3) by (simp add: settle_row_def Let_def upd part_def)
  show "sound_rows (se_rows (settle_row kind payroll period x st))"
    using rows part by (auto simp: sound_rows_def x' split)
  show "balance_total (se_rows (settle_row kind payroll period x st)) =
       balance_total (se_rows st) - min (rc_balance x) (se_left st)"
    by (simp add: balance_total_def x' split part_def)
  show "\<exists>r. se_paid (settle_row kind payroll period x st) = se_paid st @ [r] \<and> sound_repayment kind r
       \<and> rp_amount r = min (rc_balance x) (se_left st) \<and> rp_payroll r = payroll"
    using left(1) part interest_part_bounds [of part x] cents_diff [of part "interest_part x part"]
    by (simp add: settle_row_def Let_def sound_repayment_def part_def)
  show "se_left (settle_row kind payroll period x st) = se_left st - min (rc_balance x) (se_left st)"
    using left(1) part(5) by (simp add: settle_row_def Let_def part_def)
  show "y \<in> set (se_rows st) \<Longrightarrow> rc_id y \<noteq> rc_id x \<Longrightarrow> y \<in> set (se_rows (settle_row kind payroll period x st))"
    by (auto simp: x' split)
  show "rc_employee x \<noteq> e \<Longrightarrow>
       active_recoveries e (se_rows (settle_row kind payroll period x st)) = active_recoveries e (se_rows st)"
    by (simp add: active_recoveries_def x' split)
qed

text \<open>All rows of one employee.\<close>

lemma settle_rows:
  assumes "sound_rows (se_rows st)" and "distinct (map rc_id xs)" and "set xs \<subseteq> set (se_rows st)"
    and "\<forall>x\<in>set xs. 0 < rc_balance x \<and> rc_employee x = e" and "0 \<le> se_left st" and "cents (se_left st)"
    and "st' = fold (settle_row kind payroll period) xs st" and "paid = min (se_left st) (balance_total xs)"
  shows "sound_rows (se_rows st') \<and> balance_total (se_rows st') = balance_total (se_rows st) - paid
     \<and> (\<exists>new. se_paid st' = se_paid st @ new \<and> repaid new = paid \<and> list_all (sound_repayment kind) new
          \<and> list_all (\<lambda>r. rp_payroll r = payroll) new)
     \<and> (\<forall>e'. e' \<noteq> e \<longrightarrow> active_recoveries e' (se_rows st') = active_recoveries e' (se_rows st))"
  using assms
proof (induction xs arbitrary: st paid)
  case Nil
  then show ?case by (simp add: balance_total_def repaid_def)
next
  case (Cons x xs)
  show ?case
  proof (cases "se_left st = 0")
    case True
    have "fold (settle_row kind payroll period) zs st = st" for zs
      using True by (induction zs) (simp_all add: settle_row_def)
    then have st': "st' = st" using Cons.prems(7) by metis
    moreover have "0 \<le> balance_total (x # xs)"
      unfolding balance_total_def using Cons.prems(4) by (intro sum_list_nonneg_rat) (auto simp: less_imp_le)
    then have "paid = 0" using Cons.prems(8) True by simp
    ultimately show ?thesis using Cons.prems(1) by (auto simp: repaid_def intro: exI [of _ "[]"])
  next
    case False
    define st1 where "st1 = settle_row kind payroll period x st"
    define part where "part = min (rc_balance x) (se_left st)"
    have left: "0 < se_left st" using Cons.prems(5) False by simp
    have x: "x \<in> set (se_rows st)" "0 < rc_balance x" "rc_employee x = e" using Cons.prems by auto
    note step = settle_row_step [OF Cons.prems(1) x(1,2) left Cons.prems(6), where kind = kind and payroll = payroll and period = period,
        folded st1_def part_def]
    have rest: "set xs \<subseteq> set (se_rows st1)"
      using Cons.prems(2,3) step(5) by (auto simp: subset_iff) (metis imageI)
    have left1: "0 \<le> se_left st1" "cents (se_left st1)"
    proof -
      have "cents (rc_balance x)" using Cons.prems(1) x by (auto simp: sound_rows_def list_all_iff)
      then show "0 \<le> se_left st1" "cents (se_left st1)"
        using step(4) Cons.prems(6) by (auto simp: part_def min_def intro: cents_diff)
    qed
    have nonneg: "0 \<le> balance_total xs"
      unfolding balance_total_def using Cons.prems(4) by (intro sum_list_nonneg_rat) (auto simp: less_imp_le)
    have paid: "paid = part + min (se_left st1) (balance_total xs)"
      using Cons.prems(8) step(4) nonneg by (auto simp: part_def balance_total_def min_def)
    note IH = Cons.IH [OF step(1) _ rest _ left1 _ refl]
    obtain r where r: "se_paid st1 = se_paid st @ [r]" "sound_repayment kind r" "rp_amount r = part" "rp_payroll r = payroll"
      using step(3) by blast
    have tail: "sound_rows (se_rows st') \<and> balance_total (se_rows st') = balance_total (se_rows st1) - min (se_left st1) (balance_total xs)
     \<and> (\<exists>new. se_paid st' = se_paid st1 @ new \<and> repaid new = min (se_left st1) (balance_total xs)
          \<and> list_all (sound_repayment kind) new \<and> list_all (\<lambda>r. rp_payroll r = payroll) new)
     \<and> (\<forall>e'. e' \<noteq> e \<longrightarrow> active_recoveries e' (se_rows st') = active_recoveries e' (se_rows st1))"
      by (rule IH) (use Cons.prems in \<open>simp_all add: st1_def\<close>)
    then obtain new where new: "se_paid st' = se_paid st1 @ new" "repaid new = min (se_left st1) (balance_total xs)"
      "list_all (sound_repayment kind) new" "list_all (\<lambda>r. rp_payroll r = payroll) new" by blast
    show ?thesis
    proof (intro conjI)
      show "\<exists>new. se_paid st' = se_paid st @ new \<and> repaid new = paid \<and> list_all (sound_repayment kind) new
          \<and> list_all (\<lambda>r. rp_payroll r = payroll) new"
        by (rule exI [of _ "r # new"]) (use new r paid in \<open>simp add: repaid_def\<close>)
    qed (use tail step(2,6) x(3) paid in auto)
  qed
qed

text \<open>A pass over the payslips of one kind of recovery.\<close>

definition recoverable :: "(payslip \<Rightarrow> jsnum) \<Rightarrow> recovery_row list \<Rightarrow> payslip \<Rightarrow> bool" where
  "recoverable f rows s \<longleftrightarrow> 0 \<le> num_val (f s) \<and> cents (num_val (f s))
     \<and> num_val (f s) \<le> balance_total (active_recoveries (ps_employee s) rows)"

lemma balance_total_sort: "balance_total (sort_key k xs) = balance_total xs"
proof -
  have "mset (map rc_balance (sort_key k xs)) = mset (map rc_balance xs)" by simp
  then show ?thesis unfolding balance_total_def by (metis sum_mset_sum_list)
qed

lemma settle_slip_sound:
  assumes "sound_rows rows" and "recoverable f rows s"
    and "settle_slip kind f period s (rows, reps) = (rows', reps')"
  shows "sound_rows rows' \<and> balance_total rows' = balance_total rows - num_val (f s)
     \<and> (\<exists>new. reps' = reps @ new \<and> repaid new = num_val (f s) \<and> list_all (sound_repayment kind) new
          \<and> list_all (\<lambda>r. rp_payroll r = ps_payroll s) new)
     \<and> (\<forall>e. e \<noteq> ps_employee s \<longrightarrow> active_recoveries e rows' = active_recoveries e rows)"
proof (cases "num_val (f s) = 0")
  case True
  then show ?thesis using assms by (auto simp: settle_slip_def repaid_def intro: exI [of _ "[]"])
next
  case False
  then have pos: "0 < num_val (f s)" using assms(2) by (simp add: recoverable_def)
  let ?xs = "sort_key rc_id (active_recoveries (ps_employee s) rows)"
  let ?st = "\<lparr>se_rows = rows, se_paid = reps, se_left = num_val (f s)\<rparr>"
  define st' where "st' = fold (settle_row kind (ps_payroll s) period) ?xs ?st"
  have out: "rows' = se_rows st'" "reps' = se_paid st'"
    using assms(3) pos by (simp_all add: settle_slip_def Let_def st'_def)
  have paid: "num_val (f s) = min (se_left ?st) (balance_total ?xs)"
    using assms(2) by (simp add: recoverable_def balance_total_sort)
  have "distinct (map rc_id (active_recoveries (ps_employee s) rows))"
    using assms(1) by (auto simp: sound_rows_def active_recoveries_def distinct_map_filter)
  then have ids: "distinct (map rc_id ?xs)" by (simp add: distinct_map)
  have owned: "\<forall>x\<in>set ?xs. 0 < rc_balance x \<and> rc_employee x = ps_employee s" "set ?xs \<subseteq> set (se_rows ?st)"
    by (auto simp: active_recoveries_def)
  have left: "0 \<le> se_left ?st" "cents (se_left ?st)" "sound_rows (se_rows ?st)"
    using assms(1,2) by (simp_all add: recoverable_def)
  show ?thesis
    using settle_rows [OF left(3) ids owned(2,1) left(1,2) st'_def paid] by (simp add: out)
qed

lemma settle_slips_sound:
  assumes "sound_rows rows" and "list_all (recoverable f rows) items" and "distinct (map ps_employee items)"
    and "list_all (\<lambda>s. ps_payroll s = payroll) items"
    and "fold (settle_slip kind f period) items (rows, reps) = (rows', reps')"
  shows "sound_rows rows' \<and> balance_total rows' = balance_total rows - (\<Sum>s\<leftarrow>items. num_val (f s))
     \<and> (\<exists>new. reps' = reps @ new \<and> repaid new = (\<Sum>s\<leftarrow>items. num_val (f s)) \<and> list_all (sound_repayment kind) new
          \<and> list_all (\<lambda>r. rp_payroll r = payroll) new)"
  using assms
proof (induction items arbitrary: rows reps)
  case Nil
  then show ?case by (simp add: repaid_def)
next
  case (Cons s items)
  obtain rows1 reps1 where one: "settle_slip kind f period s (rows, reps) = (rows1, reps1)" by force
  note step = settle_slip_sound [OF Cons.prems(1) _ one]
  have s: "recoverable f rows s" "ps_payroll s = payroll" using Cons.prems by simp_all
  have "active_recoveries (ps_employee s') rows1 = active_recoveries (ps_employee s') rows" if "s' \<in> set items" for s'
  proof -
    have "ps_employee s' \<noteq> ps_employee s" using Cons.prems(3) imageI [OF that, of ps_employee] by auto
    then show ?thesis using step s by blast
  qed
  then have rest: "list_all (recoverable f rows1) items"
    using Cons.prems(2) by (auto simp: list_all_iff recoverable_def)
  have "sound_rows rows' \<and> balance_total rows' = balance_total rows1 - (\<Sum>s\<leftarrow>items. num_val (f s))
     \<and> (\<exists>new. reps' = reps1 @ new \<and> repaid new = (\<Sum>s\<leftarrow>items. num_val (f s)) \<and> list_all (sound_repayment kind) new
          \<and> list_all (\<lambda>r. rp_payroll r = payroll) new)"
    by (rule Cons.IH) (use step s rest Cons.prems one in simp_all)
  then obtain new where new: "reps' = reps1 @ new" "repaid new = (\<Sum>s\<leftarrow>items. num_val (f s))"
    "list_all (sound_repayment kind) new" "list_all (\<lambda>r. rp_payroll r = payroll) new"
    "sound_rows rows'" "balance_total rows' = balance_total rows1 - (\<Sum>s\<leftarrow>items. num_val (f s))" by blast
  obtain new1 where new1: "reps1 = reps @ new1" "repaid new1 = num_val (f s)" "list_all (sound_repayment kind) new1"
    "list_all (\<lambda>r. rp_payroll r = payroll) new1" "balance_total rows1 = balance_total rows - num_val (f s)"
    using step s by blast
  show ?case
    by (intro conjI exI [of _ "new1 @ new"]) (use new new1 in \<open>simp_all add: repaid_def\<close>)
qed

lemma post_payroll_Inr:
  assumes "find_run c payroll (bk_payroll bk) = Some r" and "\<not> run_gl_posted r"
    and "post_payroll c payroll bk = Inr (j, bk')"
  obtains ls gl where
    "payroll_lines (account_for c (run_group r) bk) (bk_centres bk) (run_no r) (run_items payroll (bk_payroll bk)) = Inr ls"
    "\<bar>payroll_variance (payroll_totals_of (run_items payroll (bk_payroll bk)))\<bar> \<le> 1 / 100"
    "post_journal_lines c \<lparr>ji_date = run_end r, ji_type = ''PAYROLL'', ji_description = ''Payroll '' @ run_no r,
       ji_lines = ls, ji_ref = Some (''payrolls'', run_id r, run_no r)\<rparr> (bk_gl bk) = Inr (j, gl)"
    "fd_entries (bk_gl bk') = fd_entries gl"
    "bk_payroll bk' = update_run (run_id r)
       (\<lambda>x. x\<lparr>run_gl_posted := True, run_gl_journal := Some j, run_status := R_POSTED\<rparr>) (bk_payroll bk)"
  using assms
  by (auto simp: post_payroll_def post_payroll_lines_def Let_def not_less simp del: push_credits.simps split: if_splits)

subsection \<open>Sample books\<close>

definition sample_slip :: payslip where
  "sample_slip =
     \<lparr>ps_payroll = 7, ps_employee = 5, ps_basic = 1000000, ps_allowances = Num 0, ps_gross = Num 1000000,
      ps_paye = Num 187000, ps_nssf = Num 50000, ps_loans = Num 50000, ps_advances = Num 0, ps_fines = Num 0,
      ps_other = Num 0, ps_net = Num 713000, ps_taxable = Num 1000000, ps_employer_nssf = Num 100000,
      ps_lst = Num 0, ps_total_deductions = Num 287000, ps_chargeable = Num 1000000, ps_paye_config = 1,
      ps_earnings = [], ps_deductions = [],
      ps_proration = \<lparr>pr_period_days = 31, pr_work_days = 31, pr_unpaid_days = 0, pr_payable_days = 31, pr_factor = 1\<rparr>,
      ps_number = ''PS-1''\<rparr>"

definition sample_books :: books where
  "sample_books =
     \<lparr>bk_payroll = empty_payroll_db\<lparr>db_runs := [sample_run\<lparr>run_status := R_APPROVED\<rparr>], db_items := [sample_slip],
        db_loans := [sample_recovery 1 100000 80000]\<rparr>,
      bk_gl = sample_gl
        \<lparr>fd_accounts := map (\<lambda>(i, code). \<lparr>ac_id = i, ac_company = 2, ac_code = code, ac_active = True\<rparr>)
           [(1, coa_admin_exp), (2, coa_paye), (3, coa_accrual), (4, coa_other_recv), (5, coa_default_bank)],
         fd_periods := [\<lparr>fp_id = 1, fp_tenant = 1, fp_company = 2, fp_code = ''2026-01'', fp_start = 20454,
           fp_end = 20484, fp_status = ''OPEN'', fp_closed_by = None\<rparr>]\<rparr>,
      bk_mappings = [], bk_centres = [5 \<mapsto> 3], bk_history = []\<rparr>"

lemma sample_books_run: "find_run sample_ctx 7 (bk_payroll sample_books) = Some (sample_run\<lparr>run_status := R_APPROVED\<rparr>)"
  "run_items 7 (bk_payroll sample_books) = [sample_slip]"
  by (simp_all add: find_run_def run_items_def sample_books_def sample_defs sample_slip_def)

lemma sample_slip_exact: "exact_slip_columns sample_slip"
  by (simp add: exact_slip_columns_def sample_slip_def round_eval)

lemma sample_books_post:
  obtains j bk where "post_payroll sample_ctx 7 sample_books = Inr (j, bk)"
proof -
  have "case post_payroll sample_ctx 7 sample_books of Inl _ \<Rightarrow> False | Inr _ \<Rightarrow> True" by code_simp
  then show thesis using that by (auto split: sum.splits)
qed

subsection \<open>Properties\<close>

text \<open>
  C10. The payroll journal reconciles with the payslips. Posting a run writes one entry whose debits and
  credits both equal gross pay plus employer NSSF of all payslips, in which every cost centre
  carries exactly the gross pay and employer NSSF of its own employees; the run becomes posted and
  carries the journal; and posting is refused unless net pay agrees with gross pay less deductions
  within a cent.
\<close>

theorem payroll_journal_reconciles:
  assumes run: "find_run c payroll (bk_payroll bk) = Some r" "\<not> run_gl_posted r"
    and post: "post_payroll c payroll bk = Inr (j, bk')"
    and items: "items = run_items payroll (bk_payroll bk)" and exact: "list_all exact_slip_columns items"
  shows "(\<exists>e. fd_entries (bk_gl bk') = fd_entries (bk_gl bk) @ [e] \<and> je_id e = j \<and> je_status e = J_POSTED
       \<and> total_debit (je_lines e) = (\<Sum>s\<leftarrow>items. num_val (ps_gross s)) + (\<Sum>s\<leftarrow>items. num_val (ps_employer_nssf s))
       \<and> total_credit (je_lines e) = total_debit (je_lines e)
       \<and> (\<forall>k. centre_debit (\<lambda>x. x = k) (je_lines e) =
            (\<Sum>s\<leftarrow>items. if bk_centres bk (ps_employee s) = k then num_val (ps_gross s) else 0)
            + (\<Sum>s\<leftarrow>items. if bk_centres bk (ps_employee s) = k then num_val (ps_employer_nssf s) else 0)))
     \<and> (\<exists>r'. find_run c payroll (bk_payroll bk') = Some r' \<and> run_status r' = R_POSTED \<and> run_gl_posted r'
       \<and> run_gl_journal r' = Some j)
     \<and> \<bar>payroll_variance (payroll_totals_of items)\<bar> \<le> 1 / 100"
proof -
  obtain ls gl where ls: "payroll_lines (account_for c (run_group r) bk) (bk_centres bk) (run_no r) items = Inr ls"
    and var: "\<bar>payroll_variance (payroll_totals_of items)\<bar> \<le> 1 / 100"
    and gl: "post_journal_lines c \<lparr>ji_date = run_end r, ji_type = ''PAYROLL'', ji_description = ''Payroll '' @ run_no r,
       ji_lines = ls, ji_ref = Some (''payrolls'', run_id r, run_no r)\<rparr> (bk_gl bk) = Inr (j, gl)"
    and entries: "fd_entries (bk_gl bk') = fd_entries gl"
    and payroll: "bk_payroll bk' = update_run (run_id r)
       (\<lambda>x. x\<lparr>run_gl_posted := True, run_gl_journal := Some j, run_status := R_POSTED\<rparr>) (bk_payroll bk)"
    unfolding items by (rule post_payroll_Inr [OF run post])
  note sums = payroll_lines_sums [OF ls exact refl] payroll_lines_balance [OF ls exact refl]
  obtain e where e: "fd_entries gl = fd_entries (bk_gl bk) @ [e]" "je_id e = j" "je_status e = J_POSTED" "je_lines e = ls"
    using gl sums(3) by (elim post_journal_lines_cents) auto
  have entry: "\<exists>e. fd_entries (bk_gl bk') = fd_entries (bk_gl bk) @ [e] \<and> je_id e = j \<and> je_status e = J_POSTED
       \<and> total_debit (je_lines e) = (\<Sum>s\<leftarrow>items. num_val (ps_gross s)) + (\<Sum>s\<leftarrow>items. num_val (ps_employer_nssf s))
       \<and> total_credit (je_lines e) = total_debit (je_lines e)
       \<and> (\<forall>k. centre_debit (\<lambda>x. x = k) (je_lines e) =
            (\<Sum>s\<leftarrow>items. if bk_centres bk (ps_employee s) = k then num_val (ps_gross s) else 0)
            + (\<Sum>s\<leftarrow>items. if bk_centres bk (ps_employee s) = k then num_val (ps_employer_nssf s) else 0))"
    using entries e sums(4,5) payroll_lines_sums(1) [OF ls exact refl]
    by (intro exI [of _ e]) (simp add: payroll_totals_of_def)
  have stamped: "\<exists>r'. find_run c payroll (bk_payroll bk') = Some r' \<and> run_status r' = R_POSTED \<and> run_gl_posted r'
       \<and> run_gl_journal r' = Some j"
    using run(1) find_run_Some(2) [OF run(1)] by (simp add: payroll find_run_update)
  show ?thesis using entry stamped var by (intro conjI)
qed

theorem payroll_journal_reconciles_witness:
  "\<exists>j bk e. post_payroll sample_ctx 7 sample_books = Inr (j, bk) \<and> fd_entries (bk_gl bk) = [e]
     \<and> total_debit (je_lines e) = 1100000 \<and> total_credit (je_lines e) = 1100000
     \<and> centre_debit (\<lambda>x. x = Some 3) (je_lines e) = 1100000"
proof -
  obtain j bk where post: "post_payroll sample_ctx 7 sample_books = Inr (j, bk)" by (rule sample_books_post)
  have fresh: "\<not> run_gl_posted (sample_run\<lparr>run_status := R_APPROVED\<rparr>)" by (simp add: sample_run_def)
  have exact: "list_all exact_slip_columns [sample_slip]" by (simp add: sample_slip_exact)
  have "fd_entries (bk_gl sample_books) = []" "bk_centres sample_books = [5 \<mapsto> 3]"
    by (simp_all add: sample_books_def sample_gl_def)
  with conjunct1 [OF payroll_journal_reconciles [OF sample_books_run(1) fresh post sample_books_run(2) [symmetric] exact]]
  obtain e where "fd_entries (bk_gl bk) = [e]" "total_debit (je_lines e) = 1100000"
    "total_credit (je_lines e) = 1100000" "centre_debit (\<lambda>x. x = Some 3) (je_lines e) = 1100000"
    by (auto simp: sample_slip_def)
  with post show ?thesis by blast
qed

text \<open>Every line of the payroll journal is a debit or a credit, so a balanced one has two lines.\<close>

definition one_sided :: "journal_line \<Rightarrow> bool" where
  "one_sided l \<longleftrightarrow> jl_debit l = 0 \<or> jl_credit l = 0"

lemma cr_one_sided: "one_sided (cr a q d)"
  by (simp add: one_sided_def cr_def)

lemma push_credits_one_sided:
  "push_credits acct lab xs ls = Inr ls' \<Longrightarrow> list_all one_sided ls \<Longrightarrow> list_all one_sided ls'"
proof (induction xs arbitrary: ls)
  case (Cons x xs)
  then obtain mid where "push_credit acct lab x ls = Inr mid" "push_credits acct lab xs mid = Inr ls'" by auto
  moreover from this have "list_all one_sided mid"
    using Cons.prems(2) by (cases x) (auto simp: push_credit_def cr_one_sided split: if_splits)
  ultimately show ?case using Cons.IH by blast
qed simp

lemma centre_lines_one_sided: "list_all one_sided (centre_lines a d parts)"
  by (auto simp: centre_lines_def list_all_iff one_sided_def)

lemma two_lines:
  assumes "list_all one_sided ls" and "total_debit ls = total_credit ls" and "0 < total_debit ls"
  shows "2 \<le> length ls"
proof (rule ccontr)
  assume "\<not> 2 \<le> length ls"
  then have "ls = [] \<or> (\<exists>l. ls = [l])" by (cases ls; cases "tl ls") auto
  then show False using assms by (auto simp: one_sided_def total_debit_def total_credit_def)
qed

lemma push_credits_ok:
  assumes "\<forall>x\<in>set xs. \<exists>a. acct (fst x) = Inr a"
  shows "\<exists>ls'. push_credits acct lab xs ls = Inr ls'"
  using assms
proof (induction xs arbitrary: ls)
  case (Cons x xs)
  obtain role q desc where x: "x = (role, q, desc)" by (cases x)
  obtain a where "acct role = Inr a" using Cons.prems by (auto simp: x)
  then have "\<exists>mid. push_credit acct lab x ls = Inr mid" by (simp add: x push_credit_def)
  then show ?case using Cons.IH Cons.prems by fastforce
qed simp

lemma payroll_lines_ok:
  assumes "\<forall>role\<in>dom payroll_gl_fallback. \<exists>a. acct role = Inr a"
  obtains ls where "payroll_lines acct centre lab items = Inr ls" "list_all one_sided ls"
proof -
  obtain a b where a: "acct ''EARNING_EXPENSE'' = Inr a" and b: "acct ''EMPLOYER_NSSF_EXPENSE'' = Inr b"
    using assms by (auto simp: payroll_gl_fallback_def)
  have "\<exists>more. employer_lines acct centre lab items = Inr more \<and> list_all one_sided more"
    by (simp add: employer_lines_def b centre_lines_one_sided)
  then obtain more where more: "employer_lines acct centre lab items = Inr more" "list_all one_sided more" by blast
  define base where "base = centre_lines a (''Salaries '' @ lab) (by_centre centre ps_gross items) @ more"
  obtain ls where ls: "push_credits acct lab (payroll_credits (payroll_totals_of items)) base = Inr ls"
    using push_credits_ok [of "payroll_credits (payroll_totals_of items)" acct lab base] assms
    by (auto simp: payroll_credits_def payroll_gl_fallback_def)
  show thesis
  proof (rule that)
    show "payroll_lines acct centre lab items = Inr ls"
      using ls by (simp add: payroll_lines_def a more base_def)
    show "list_all one_sided ls"
      using push_credits_one_sided [OF ls] more(2) by (simp add: base_def centre_lines_one_sided)
  qed
qed

lemma balanced_variance:
  assumes "list_all exact_slip_columns items"
    and "list_all (\<lambda>s. num_val (ps_net s) = num_val (ps_gross s) - slip_deductions s) items"
  shows "payroll_variance (payroll_totals_of items) = 0"
proof -
  have "(\<Sum>s\<leftarrow>items. num_val (ps_net s)) = (\<Sum>s\<leftarrow>items. num_val (ps_gross s) - slip_deductions s)"
    using assms(2) by (intro arg_cong [where f = sum_list] map_cong) (auto simp: list_all_iff)
  then have "tt_net (payroll_totals_of items) = payroll_net (payroll_totals_of items)"
    unfolding exact_net(1) [OF assms(1) refl]
    by (simp add: payroll_totals_of_def slip_deductions_def sum_list_subtractf sum_list_addf)
  then show ?thesis using exact_net(2) [OF assms(1) refl] by (simp add: payroll_variance_def)
qed

text \<open>
  A balanced payroll posts. An approved, released or paid run whose payslips are in whole cents and
  balance (which is what a calculation leaves behind) can always be posted once its period is open,
  every role has an account and something is paid: neither the variance check nor the two
  balance checks of the ledger refuse it.
\<close>

theorem balanced_payroll_posts:
  assumes run: "find_run c payroll (bk_payroll bk) = Some r" "\<not> run_gl_posted r"
      "run_status r \<in> {R_APPROVED, R_RELEASED, R_PAID}"
    and items: "items = run_items payroll (bk_payroll bk)" "list_all exact_slip_columns items"
      "list_all (\<lambda>s. num_val (ps_net s) = num_val (ps_gross s) - slip_deductions s) items"
      "0 < (\<Sum>s\<leftarrow>items. num_val (ps_gross s)) + (\<Sum>s\<leftarrow>items. num_val (ps_employer_nssf s))"
    and accts: "\<forall>role\<in>dom payroll_gl_fallback. \<exists>a. account_for c (run_group r) bk role = Inr a"
    and ctx: "cx_company c = Some co" "open_for (bk_gl bk) co (run_end r)"
  shows "\<exists>j bk'. post_payroll c payroll bk = Inr (j, bk')"
proof -
  let ?t = "payroll_totals_of items"
  obtain ls where ls: "payroll_lines (account_for c (run_group r) bk) (bk_centres bk) (run_no r) items = Inr ls"
    "list_all one_sided ls"
    using payroll_lines_ok [OF accts] by blast
  note bal = payroll_lines_balance [OF ls(1) items(2) refl]
  have pos: "0 < total_debit ls" using items(4) bal(1) by (simp add: payroll_totals_of_def)
  have two: "2 \<le> length ls" using two_lines [OF ls(2) bal(2) [symmetric] pos] .
  let ?ji = "\<lparr>ji_date = run_end r, ji_type = ''PAYROLL'', ji_description = ''Payroll '' @ run_no r, ji_lines = ls,
           ji_ref = Some (''payrolls'', run_id r, run_no r)\<rparr>"
  obtain j gl where "post_journal_lines c ?ji (bk_gl bk) = Inr (j, gl)"
    by (rule post_journal_lines_ok [of c co "bk_gl bk" ?ji]) (use ctx two bal pos in simp_all)
  then have "\<exists>bk'. post_payroll_lines c r ?t ls bk = Inr (j, bk')"
    by (simp add: post_payroll_lines_def bal(2))
  then obtain bk' where posted: "post_payroll_lines c r ?t ls bk = Inr (j, bk')" by blast
  have "items \<noteq> []" using items(4) by auto
  then have "post_payroll c payroll bk = Inr (j, bk')"
    unfolding post_payroll_def run(1) option.case Let_def items(1) [symmetric]
    using run(2,3) ls(1) balanced_variance [OF items(2,3)] posted by auto
  then show ?thesis by blast
qed

theorem balanced_payroll_posts_witness:
  "\<exists>j bk. post_payroll sample_ctx 7 sample_books = Inr (j, bk)"
proof (rule balanced_payroll_posts [OF sample_books_run(1) _ _ sample_books_run(2) [symmetric]])
  show "open_for (bk_gl sample_books) 2 (run_end (sample_run\<lparr>run_status := R_APPROVED\<rparr>))"
    by (simp add: open_for_def covering_period_def limit1_def sample_books_def sample_run_def)
  show "\<forall>role\<in>dom payroll_gl_fallback. \<exists>a.
      account_for sample_ctx (run_group (sample_run\<lparr>run_status := R_APPROVED\<rparr>)) sample_books role = Inr a"
    by (simp add: payroll_gl_fallback_def account_for_def payroll_gl_accounts_def limit1_def get_account_id_def
        find_account_def sample_books_def sample_ctx_def coa_defs)
qed (simp_all add: sample_defs sample_slip_exact, simp_all add: sample_slip_def slip_deductions_def)

definition paid_of :: "string \<Rightarrow> repayment list \<Rightarrow> rat" where
  "paid_of kind reps = repaid (filter (\<lambda>r. rp_kind r = kind) reps)"

lemma paid_of_kind:
  assumes "list_all (sound_repayment k) reps"
  shows "paid_of kind reps = (if kind = k then repaid reps else 0)"
proof -
  have "filter (\<lambda>r. rp_kind r = kind) reps = (if kind = k then reps else [])"
    using assms by (induction reps) (auto simp: sound_repayment_def)
  then show ?thesis by (simp add: paid_of_def repaid_def)
qed

lemma paid_of_append [simp]: "paid_of kind (xs @ ys) = paid_of kind xs + paid_of kind ys"
  by (simp add: paid_of_def repaid_def)

text \<open>The specification of a settlement: what the payslips recovered leaves the balances and is recorded.\<close>

definition falls_by :: "rat \<Rightarrow> recovery_row list \<Rightarrow> recovery_row list \<Rightarrow> bool" where
  "falls_by q rows rows' \<longleftrightarrow> sound_rows rows' \<and> balance_total rows' = balance_total rows - q"

definition settled :: "row_id \<Rightarrow> payslip list \<Rightarrow> payroll_db \<Rightarrow> payroll_db \<Rightarrow> bool" where
  "settled payroll items db db' \<longleftrightarrow>
     (\<exists>new. db_repayments db' = db_repayments db @ new \<and> list_all (\<lambda>r. rp_payroll r = payroll) new
       \<and> paid_of ''LOAN'' new = (\<Sum>s\<leftarrow>items. num_val (ps_loans s))
       \<and> paid_of ''ADVANCE'' new = (\<Sum>s\<leftarrow>items. num_val (ps_advances s))
       \<and> paid_of ''FINE'' new = (\<Sum>s\<leftarrow>items. num_val (ps_fines s))
       \<and> (\<forall>r\<in>set new. rp_kind r = ''LOAN'' \<longrightarrow> rp_principal r + rp_interest r = rp_amount r))
     \<and> falls_by (\<Sum>s\<leftarrow>items. num_val (ps_loans s)) (db_loans db) (db_loans db')
     \<and> falls_by (\<Sum>s\<leftarrow>items. num_val (ps_advances s)) (db_advances db) (db_advances db')
     \<and> falls_by (\<Sum>s\<leftarrow>items. num_val (ps_fines s)) (db_fines db) (db_fines db')"

lemma settle_run_sound:
  assumes rows: "sound_rows (db_loans db)" "sound_rows (db_advances db)" "sound_rows (db_fines db)"
    and rec: "list_all (recoverable ps_loans (db_loans db)) items"
      "list_all (recoverable ps_advances (db_advances db)) items" "list_all (recoverable ps_fines (db_fines db)) items"
    and one: "distinct (map ps_employee items)" and mine: "list_all (\<lambda>s. ps_payroll s = payroll) items"
    and settled: "db' = settle_run period items db"
  shows "settled payroll items db db'"
proof -
  obtain loans reps1 where l: "fold (settle_slip ''LOAN'' ps_loans period) items (db_loans db, db_repayments db) = (loans, reps1)"
    by force
  obtain advances reps2 where a: "fold (settle_slip ''ADVANCE'' ps_advances period) items (db_advances db, reps1) = (advances, reps2)"
    by force
  obtain fines reps3 where f: "fold (settle_slip ''FINE'' ps_fines period) items (db_fines db, reps2) = (fines, reps3)"
    by force
  have db': "db' = db\<lparr>db_loans := loans, db_advances := advances, db_fines := fines, db_repayments := reps3\<rparr>"
    by (simp add: settled settle_run_def l a f)
  note L = settle_slips_sound [OF rows(1) rec(1) one mine l] and A = settle_slips_sound [OF rows(2) rec(2) one mine a]
    and F = settle_slips_sound [OF rows(3) rec(3) one mine f]
  obtain n1 n2 n3 where n: "reps1 = db_repayments db @ n1" "repaid n1 = (\<Sum>s\<leftarrow>items. num_val (ps_loans s))"
      "list_all (sound_repayment ''LOAN'') n1" "list_all (\<lambda>r. rp_payroll r = payroll) n1"
      "reps2 = reps1 @ n2" "repaid n2 = (\<Sum>s\<leftarrow>items. num_val (ps_advances s))"
      "list_all (sound_repayment ''ADVANCE'') n2" "list_all (\<lambda>r. rp_payroll r = payroll) n2"
      "reps3 = reps2 @ n3" "repaid n3 = (\<Sum>s\<leftarrow>items. num_val (ps_fines s))"
      "list_all (sound_repayment ''FINE'') n3" "list_all (\<lambda>r. rp_payroll r = payroll) n3"
    using L A F by blast
  have loans_split: "\<forall>r\<in>set (n1 @ n2 @ n3). rp_kind r = ''LOAN'' \<longrightarrow> rp_principal r + rp_interest r = rp_amount r"
    using n(3,7,11) by (auto simp: list_all_iff sound_repayment_def)
  have "db_repayments db' = db_repayments db @ n1 @ n2 @ n3" by (simp add: db' n)
  moreover have "list_all (\<lambda>r. rp_payroll r = payroll) (n1 @ n2 @ n3)" by (simp add: n)
  moreover have "paid_of ''LOAN'' (n1 @ n2 @ n3) = repaid n1" "paid_of ''ADVANCE'' (n1 @ n2 @ n3) = repaid n2"
    "paid_of ''FINE'' (n1 @ n2 @ n3) = repaid n3"
    by (simp_all add: paid_of_kind [OF n(3)] paid_of_kind [OF n(7)] paid_of_kind [OF n(11)])
  moreover have "falls_by (\<Sum>s\<leftarrow>items. num_val (ps_loans s)) (db_loans db) (db_loans db')"
    "falls_by (\<Sum>s\<leftarrow>items. num_val (ps_advances s)) (db_advances db) (db_advances db')"
    "falls_by (\<Sum>s\<leftarrow>items. num_val (ps_fines s)) (db_fines db) (db_fines db')"
    using L A F by (simp_all add: falls_by_def db')
  ultimately show ?thesis
    unfolding settled_def n(2,6,10) [symmetric] using loans_split n(2,6,10)
    by (intro conjI exI [of _ "n1 @ n2 @ n3"]) simp_all
qed

lemma post_payroll_run_Inr:
  assumes "find_run c payroll (bk_payroll bk) = Some r" and "\<not> run_gl_posted r"
    and "post_payroll_run c payroll bk = Inr (j, bk')"
  obtains bk1 db where "post_payroll c payroll bk = Inr (j, bk1)"
    "db = settle_run (take 7 (iso_of_date (run_end r))) (run_items payroll (bk_payroll bk)) (bk_payroll bk1)"
    "db_loans (bk_payroll bk') = db_loans db" "db_advances (bk_payroll bk') = db_advances db"
    "db_fines (bk_payroll bk') = db_fines db" "db_repayments (bk_payroll bk') = db_repayments db"
  using assms by (auto simp: post_payroll_run_def Let_def close_arrears_def)

text \<open>
  C6. Settlement conserves money. When a run is posted, each employee appears once, and every recovery on a
  payslip is covered by the balances of the employee's active loans, advances or fines, then the
  repayments recorded for the run add up, kind by kind, to what the payslips recovered; the
  balances of each table fall by exactly that amount and never below zero; and every loan
  repayment splits into principal and interest without remainder.
\<close>

theorem settlement_conserves:
  assumes run: "find_run c payroll (bk_payroll bk) = Some r" "\<not> run_gl_posted r"
    and post: "post_payroll_run c payroll bk = Inr (j, bk')"
    and db: "db = bk_payroll bk" "db' = bk_payroll bk'" "items = run_items payroll db" "distinct (map ps_employee items)"
    and rows: "sound_rows (db_loans db)" "sound_rows (db_advances db)" "sound_rows (db_fines db)"
    and rec: "list_all (recoverable ps_loans (db_loans db)) items"
      "list_all (recoverable ps_advances (db_advances db)) items" "list_all (recoverable ps_fines (db_fines db)) items"
  shows "settled payroll items db db'"
proof -
  obtain bk1 d2 where one: "post_payroll c payroll bk = Inr (j, bk1)"
    and d2: "d2 = settle_run (take 7 (iso_of_date (run_end r))) items (bk_payroll bk1)"
    and same: "db_loans db' = db_loans d2" "db_advances db' = db_advances d2" "db_fines db' = db_fines d2"
      "db_repayments db' = db_repayments d2"
    unfolding db by (rule post_payroll_run_Inr [OF run post])
  have frame: "db_loans (bk_payroll bk1) = db_loans db" "db_advances (bk_payroll bk1) = db_advances db"
    "db_fines (bk_payroll bk1) = db_fines db" "db_repayments (bk_payroll bk1) = db_repayments db"
    using run one by (auto elim!: post_payroll_Inr simp: update_run_def db)
  have mine: "list_all (\<lambda>s. ps_payroll s = payroll) items" by (auto simp: db run_items_def list_all_iff)
  show ?thesis
    using settle_run_sound [of "bk_payroll bk1", unfolded frame, OF rows rec db(4) mine d2]
    by (simp add: settled_def same frame)
qed

theorem settlement_conserves_witness:
  "\<exists>j bk. post_payroll_run sample_ctx 7 sample_books = Inr (j, bk)
     \<and> settled 7 [sample_slip] (bk_payroll sample_books) (bk_payroll bk)
     \<and> balance_total (db_loans (bk_payroll sample_books)) = 80000 \<and> balance_total (db_loans (bk_payroll bk)) = 30000"
proof -
  have "case post_payroll_run sample_ctx 7 sample_books of Inl _ \<Rightarrow> False | Inr _ \<Rightarrow> True" by code_simp
  then obtain j bk where post: "post_payroll_run sample_ctx 7 sample_books = Inr (j, bk)"
    by (auto split: sum.splits)
  have fresh: "\<not> run_gl_posted (sample_run\<lparr>run_status := R_APPROVED\<rparr>)" by (simp add: sample_run_def)
  have rows: "sound_rows (db_loans (bk_payroll sample_books))" "sound_rows (db_advances (bk_payroll sample_books))"
    "sound_rows (db_fines (bk_payroll sample_books))"
    "balance_total (db_loans (bk_payroll sample_books)) = 80000"
    by (simp_all add: sample_books_def sample_defs sound_rows_def balance_total_def sample_recovery_def round_eval)
  have rec: "list_all (recoverable ps_loans (db_loans (bk_payroll sample_books))) [sample_slip]"
    "list_all (recoverable ps_advances (db_advances (bk_payroll sample_books))) [sample_slip]"
    "list_all (recoverable ps_fines (db_fines (bk_payroll sample_books))) [sample_slip]"
    by (simp_all add: recoverable_def sample_books_def sample_defs sample_slip_def active_recoveries_def
        balance_total_def sample_recovery_def round_eval)
  have "settled 7 [sample_slip] (bk_payroll sample_books) (bk_payroll bk)"
    by (rule settlement_conserves [OF sample_books_run(1) fresh post refl refl sample_books_run(2) [symmetric] _ rows(1-3) rec])
      simp
  then show ?thesis using post rows(4) by (auto simp: settled_def falls_by_def sample_slip_def)
qed

end
