(* ===== verification/Payroll_Lifecycle.thy ===== *)
theory Payroll_Lifecycle
  imports Payroll_Posting
begin

text \<open>
  The life of a payroll run, \<^verbatim>\<open>apps/api/src/services/payrollLifecycle.ts\<close>: the transition that
  writes status, history, decision, lock and audit trail in one transaction, and the operations
  built on it (approval decision, release, payment, closing, reopening, voiding). Calculation,
  submission and posting come from the theories below. The time of an operation is an argument.
\<close>

subsection \<open>State\<close>

type_synonym time = int

datatype lifecycle_action =
    A_SUBMIT | A_REVIEW | A_APPROVE | A_REJECT | A_RETURN | A_LOCK | A_UNLOCK | A_POST | A_RELEASE | A_PAY
  | A_CLOSE | A_REOPEN | A_REVERSE | A_CANCEL

datatype lock_op = LOCK | UNLOCK

text \<open>The columns of \<open>payrolls\<close> that a transition may touch: \<open>.._by\<close> and \<open>.._at\<close> in pairs.\<close>

type_synonym mark = "row_id option \<times> time option"

record run_marks =
  mk_approved :: mark
  mk_reviewed :: mark
  mk_released :: mark
  mk_closed :: mark
  mk_reopened :: mark
  mk_reopens :: nat
  mk_locked :: "time option"
  mk_variance :: "string option"

record approval =
  av_payroll :: row_id
  av_user :: row_id
  av_role :: string
  av_action :: lifecycle_action
  av_comment :: "string option"
  av_stage :: string
  av_from :: run_status
  av_to :: run_status

record run_lock =
  lk_payroll :: row_id
  lk_locked :: bool
  lk_user :: row_id
  lk_reason :: string
  lk_unlocked_by :: "row_id option"
  lk_unlock_reason :: "string option"

record trail_row =
  tr_payroll :: row_id
  tr_action :: lifecycle_action
  tr_from :: run_status
  tr_to :: run_status
  tr_reason :: "string option"
  tr_user :: row_id

record payment_batch =
  pb_payroll :: row_id
  pb_tenant :: row_id
  pb_company :: row_id
  pb_status :: string

record role_grant =
  rg_user :: row_id
  rg_company :: "row_id option"
  rg_role :: row_id
  rg_code :: string

record life_db =
  lf_books :: books
  lf_marks :: "row_id \<Rightarrow> run_marks"
  lf_approvals :: "approval list"
  lf_locks :: "run_lock list"
  lf_trail :: "trail_row list"
  lf_batches :: "payment_batch list"
  lf_roles :: "role_grant list"

abbreviation lf_payroll :: "life_db \<Rightarrow> payroll_db" where
  "lf_payroll db \<equiv> bk_payroll (lf_books db)"

definition with_payroll :: "(payroll_db \<Rightarrow> payroll_db) \<Rightarrow> life_db \<Rightarrow> life_db" where
  "with_payroll f db = db\<lparr>lf_books := (lf_books db)\<lparr>bk_payroll := f (lf_payroll db)\<rparr>\<rparr>"

subsection \<open>Transitions\<close>

record transition_input =
  ti_payroll :: row_id
  ti_from :: "run_status list"
  ti_to :: run_status
  ti_action :: lifecycle_action
  ti_stage :: string
  ti_label :: string
  ti_reason :: "string option"
  ti_comment :: "string option"
  ti_set :: "run_marks \<Rightarrow> run_marks"
  ti_lock :: "lock_op option"

record transition_result =
  tx_payroll :: row_id
  tx_no :: string
  tx_from :: run_status
  tx_status :: run_status
  tx_role :: string

definition actor_role_code :: "ctx \<Rightarrow> role_grant list \<Rightarrow> string" where
  "actor_role_code c rows =
     (case cx_user c of
        None \<Rightarrow> ''UNKNOWN''
      | Some u \<Rightarrow>
          (case limit1 rg_role (filter (\<lambda>g. rg_user g = u \<and> (rg_company g = None \<or> sql_eq (rg_company g) (cx_company c))) rows) of
             None \<Rightarrow> ''UNKNOWN''
           | Some g \<Rightarrow> rg_code g))"

definition unlock_rows :: "row_id \<Rightarrow> row_id \<Rightarrow> string \<Rightarrow> run_lock list \<Rightarrow> run_lock list" where
  "unlock_rows user payroll reason rows =
     update_where (\<lambda>l. lk_payroll l = payroll \<and> lk_locked l)
       (\<lambda>l. l\<lparr>lk_locked := False, lk_unlocked_by := Some user, lk_unlock_reason := Some reason\<rparr>) rows"

definition action_name :: "lifecycle_action \<Rightarrow> string" where
  "action_name a =
     (case a of
        A_SUBMIT \<Rightarrow> ''SUBMIT'' | A_REVIEW \<Rightarrow> ''REVIEW'' | A_APPROVE \<Rightarrow> ''APPROVE'' | A_REJECT \<Rightarrow> ''REJECT''
      | A_RETURN \<Rightarrow> ''RETURN'' | A_LOCK \<Rightarrow> ''LOCK'' | A_UNLOCK \<Rightarrow> ''UNLOCK'' | A_POST \<Rightarrow> ''POST''
      | A_RELEASE \<Rightarrow> ''RELEASE'' | A_PAY \<Rightarrow> ''PAY'' | A_CLOSE \<Rightarrow> ''CLOSE'' | A_REOPEN \<Rightarrow> ''REOPEN''
      | A_REVERSE \<Rightarrow> ''REVERSE'' | A_CANCEL \<Rightarrow> ''CANCEL'')"

definition status_name :: "run_status \<Rightarrow> string" where
  "status_name s =
     (case s of
        R_DRAFT \<Rightarrow> ''DRAFT'' | R_VALIDATING \<Rightarrow> ''VALIDATING'' | R_REVIEW \<Rightarrow> ''REVIEW''
      | R_PENDING_APPROVAL \<Rightarrow> ''PENDING_APPROVAL'' | R_SUBMITTED \<Rightarrow> ''SUBMITTED'' | R_APPROVED \<Rightarrow> ''APPROVED''
      | R_RELEASED \<Rightarrow> ''RELEASED'' | R_PAID \<Rightarrow> ''PAID'' | R_POSTED \<Rightarrow> ''POSTED'' | R_CLOSED \<Rightarrow> ''CLOSED''
      | R_LOCKED \<Rightarrow> ''LOCKED'' | R_REOPENED \<Rightarrow> ''REOPENED'' | R_CANCELLED \<Rightarrow> ''CANCELLED'' | R_VOID \<Rightarrow> ''VOID'')"

definition apply_lock :: "row_id \<Rightarrow> transition_input \<Rightarrow> run_lock list \<Rightarrow> run_lock list" where
  "apply_lock user i rows =
     (case ti_lock i of
        None \<Rightarrow> rows
      | Some LOCK \<Rightarrow>
          unlock_rows user (ti_payroll i) (''Superseded by '' @ action_name (ti_action i)) rows @
            [\<lparr>lk_payroll = ti_payroll i, lk_locked = True, lk_user = user,
              lk_reason = the_default (ti_label i) (ti_reason i), lk_unlocked_by = None, lk_unlock_reason = None\<rparr>]
      | Some UNLOCK \<Rightarrow> unlock_rows user (ti_payroll i) (the_default (ti_label i) (ti_reason i)) rows)"

definition apply_transition :: "ctx \<Rightarrow> row_id \<Rightarrow> transition_input \<Rightarrow> payroll_run \<Rightarrow> life_db \<Rightarrow> life_db" where
  "apply_transition c user i r db =
     db\<lparr>lf_books := (lf_books db)
          \<lparr>bk_payroll := (update_run (ti_payroll i) (\<lambda>x. x\<lparr>run_status := ti_to i\<rparr>) (lf_payroll db))
             \<lparr>db_audit := log_audit c
                \<lparr>ae_action = ''hr.payroll.'' @ js_lower (action_name (ti_action i)), ae_resource = ''hr.payrolls'',
                 ae_record = Some (ti_payroll i), ae_code = Some (run_no r),
                 ae_old = [(''status'', JStr (status_name (run_status r)))],
                 ae_new = [(''status'', JStr (status_name (ti_to i)))]\<rparr> (db_audit (lf_payroll db))\<rparr>,
           bk_history := log_history c r (ti_to i) (ti_comment i) (ti_reason i) (bk_history (lf_books db))\<rparr>,
        lf_marks := (lf_marks db)(ti_payroll i := ti_set i (lf_marks db (ti_payroll i))),
        lf_approvals := lf_approvals db @
          [\<lparr>av_payroll = ti_payroll i, av_user = user, av_role = actor_role_code c (lf_roles db),
            av_action = ti_action i, av_comment = ti_comment i, av_stage = ti_stage i, av_from = run_status r,
            av_to = ti_to i\<rparr>],
        lf_locks := apply_lock user i (lf_locks db),
        lf_trail := lf_trail db @
          [\<lparr>tr_payroll = ti_payroll i, tr_action = ti_action i, tr_from = run_status r, tr_to = ti_to i,
            tr_reason = ti_reason i, tr_user = user\<rparr>]\<rparr>"

definition transition :: "ctx \<Rightarrow> transition_input \<Rightarrow> life_db \<Rightarrow> (transition_result \<times> life_db) result" where
  "transition c i db =
     (case cx_user c of
        None \<Rightarrow> Inl (BadRequest ''An authenticated user is required to change payroll status'')
      | Some user \<Rightarrow>
          (case find_run c (ti_payroll i) (lf_payroll db) of
             None \<Rightarrow> Inl (NotFound ''Payroll not found'')
           | Some r \<Rightarrow>
               if run_status r \<notin> set (ti_from i) then Inl (Conflict (ti_label i))
               else Inr (\<lparr>tx_payroll = ti_payroll i, tx_no = run_no r, tx_from = run_status r, tx_status = ti_to i,
                          tx_role = actor_role_code c (lf_roles db)\<rparr>, apply_transition c user i r db)))"

definition payroll_approval_statuses :: "run_status list" where
  "payroll_approval_statuses = [R_SUBMITTED, R_VALIDATING, R_REVIEW, R_PENDING_APPROVAL]"

definition stamp_mark :: "ctx \<Rightarrow> time \<Rightarrow> mark" where
  "stamp_mark c now = (cx_user c, Some now)"

definition run_event :: "ctx \<Rightarrow> string \<Rightarrow> row_id \<Rightarrow> string \<Rightarrow> (string \<times> jval) list \<Rightarrow> life_db \<Rightarrow> life_db" where
  "run_event c kind payroll code payload =
     with_payroll (\<lambda>p. p\<lparr>db_events := emit_event c
       \<lparr>ep_type = kind, ep_entity_type = Some ''hr.payrolls'', ep_entity = Some payroll, ep_code = Some code,
        ep_payload = payload, ep_severity = None\<rparr> (db_events p)\<rparr>)"

definition record_workflow_decision ::
  "ctx \<Rightarrow> time \<Rightarrow> row_id \<Rightarrow> bool \<Rightarrow> string option \<Rightarrow> life_db \<Rightarrow> (transition_result option \<times> life_db) result" where
  "record_workflow_decision c now payroll approved comment db =
     (case find_run c payroll (lf_payroll db) of
        None \<Rightarrow> Inr (None, db)
      | Some r \<Rightarrow>
          if run_status r \<notin> set payroll_approval_statuses then Inr (None, db)
          else rbind (transition c
            \<lparr>ti_payroll = payroll, ti_from = payroll_approval_statuses,
             ti_to = (if approved then R_APPROVED else R_DRAFT),
             ti_action = (if approved then A_APPROVE else A_RETURN),
             ti_stage = (if approved then ''MANAGEMENT_APPROVAL'' else ''HR_REVIEW''),
             ti_label = (if approved then ''Approve payroll'' else ''Return payroll for correction''),
             ti_reason = (if approved then None else Some (the_default ''Returned for correction'' comment)),
             ti_comment = comment,
             ti_set = (if approved then (\<lambda>m. m\<lparr>mk_approved := stamp_mark c now\<rparr>) else (\<lambda>m. m)),
             ti_lock = None\<rparr> db) (\<lambda>(x, db1). Inr (Some x, db1)))"

definition release_payroll ::
  "ctx \<Rightarrow> time \<Rightarrow> row_id \<Rightarrow> string option \<Rightarrow> life_db \<Rightarrow> (transition_result \<times> life_db) result" where
  "release_payroll c now payroll comment db =
     rbind (transition c
       \<lparr>ti_payroll = payroll, ti_from = [R_APPROVED], ti_to = R_RELEASED, ti_action = A_RELEASE,
        ti_stage = ''PAYMENT_AUTHORIZATION'', ti_label = ''Release payroll'', ti_reason = None, ti_comment = comment,
        ti_set = (\<lambda>m. m\<lparr>mk_released := stamp_mark c now, mk_locked := Some now\<rparr>), ti_lock = Some LOCK\<rparr> db) (\<lambda>(x, db1).
       Inr (x, run_event c ''hr.payroll.released'' payroll (tx_no x)
         [(''releasedBy'', (case cx_user c of None \<Rightarrow> JNull | Some u \<Rightarrow> JNum (of_nat u)))] db1))"

definition run_batches :: "ctx \<Rightarrow> row_id \<Rightarrow> life_db \<Rightarrow> payment_batch list" where
  "run_batches c payroll db =
     filter (\<lambda>b. pb_payroll b = payroll \<and> own_company c (pb_tenant b) (pb_company b)) (lf_batches db)"

definition confirmed :: "payment_batch list \<Rightarrow> bool" where
  "confirmed bs = list_ex (\<lambda>b. pb_status b \<in> {''CONFIRMED'', ''RECONCILED''}) bs"

definition mark_payroll_paid ::
  "ctx \<Rightarrow> row_id \<Rightarrow> string option \<Rightarrow> life_db \<Rightarrow> (transition_result \<times> life_db) result" where
  "mark_payroll_paid c payroll comment db =
     (if run_batches c payroll db = [] then Inl (BadRequest ''No payment batch exists for this payroll'')
      else if \<not> confirmed (run_batches c payroll db)
      then Inl (BadRequest ''The payment batch for this payroll has not been confirmed'')
      else
        rbind (transition c
          \<lparr>ti_payroll = payroll, ti_from = [R_RELEASED], ti_to = R_PAID, ti_action = A_PAY, ti_stage = ''PAYMENT'',
           ti_label = ''Mark payroll paid'', ti_reason = None, ti_comment = comment, ti_set = (\<lambda>m. m),
           ti_lock = None\<rparr> db) (\<lambda>(x, db1).
          Inr (x, run_event c ''hr.payroll.paid'' payroll (tx_no x) [] db1)))"

definition close_payroll ::
  "ctx \<Rightarrow> time \<Rightarrow> row_id \<Rightarrow> string option \<Rightarrow> string option \<Rightarrow> life_db \<Rightarrow> (transition_result \<times> life_db) result" where
  "close_payroll c now payroll comment variance db =
     rbind (transition c
       \<lparr>ti_payroll = payroll, ti_from = [R_PAID, R_POSTED], ti_to = R_CLOSED, ti_action = A_CLOSE,
        ti_stage = ''CLOSE'', ti_label = ''Close payroll'', ti_reason = None, ti_comment = comment,
        ti_set = (\<lambda>m. m\<lparr>mk_closed := stamp_mark c now, mk_variance := variance\<rparr>), ti_lock = Some LOCK\<rparr> db) (\<lambda>(x, db1).
       Inr (x, run_event c ''hr.payroll.closed'' payroll (tx_no x) [] db1))"

text \<open>
  \<open>reopenPayroll\<close> goes through \<open>REOPENED\<close> to \<open>DRAFT\<close> and recalculates unless told otherwise; the
  calculation takes the day and year.
\<close>

definition reopen_first :: "ctx \<Rightarrow> time \<Rightarrow> row_id \<Rightarrow> run_status \<Rightarrow> string \<Rightarrow> transition_input" where
  "reopen_first c now payroll from reason =
     \<lparr>ti_payroll = payroll, ti_from = [from], ti_to = R_REOPENED, ti_action = A_REOPEN, ti_stage = ''REOPEN'',
      ti_label = ''Reopen payroll'', ti_reason = Some reason, ti_comment = None,
      ti_set = (\<lambda>m. m\<lparr>mk_reopened := stamp_mark c now, mk_reopens := Suc (mk_reopens m), mk_locked := None\<rparr>),
      ti_lock = Some UNLOCK\<rparr>"

definition reopen_second :: "row_id \<Rightarrow> string \<Rightarrow> transition_input" where
  "reopen_second payroll reason =
     \<lparr>ti_payroll = payroll, ti_from = [R_REOPENED], ti_to = R_DRAFT, ti_action = A_REOPEN, ti_stage = ''REOPEN'',
      ti_label = ''Reopen payroll'', ti_reason = Some reason, ti_comment = None,
      ti_set = (\<lambda>m. m\<lparr>mk_approved := (None, None), mk_reviewed := (None, None), mk_released := (None, None),
                     mk_closed := (None, None)\<rparr>),
      ti_lock = None\<rparr>"

definition reopenable :: "run_status list" where
  "reopenable = [R_APPROVED, R_RELEASED, R_PAID, R_POSTED, R_CLOSED, R_LOCKED]"

definition reopen_payroll ::
  "ctx \<Rightarrow> time \<Rightarrow> date \<Rightarrow> int \<Rightarrow> row_id \<Rightarrow> string \<Rightarrow> bool \<Rightarrow> life_db \<Rightarrow> (transition_result \<times> life_db) result" where
  "reopen_payroll c now today year payroll raw recalculate db =
     (let reason = js_trim raw in
      if length reason < 10 then Inl (BadRequest ''Reopening payroll requires a written reason'')
      else case find_run c payroll (lf_payroll db) of
          None \<Rightarrow> Inl (NotFound ''Payroll not found'')
        | Some r \<Rightarrow>
            if run_gl_posted r then Inl (Conflict ''Payroll is posted to the general ledger'')
            else if run_status r \<notin> set reopenable then Inl (Conflict ''Payroll cannot be reopened'')
            else
              rbind (transition c (reopen_first c now payroll (run_status r) reason) db) (\<lambda>(_, db1).
              rbind (transition c (reopen_second payroll reason) db1) (\<lambda>(x, db2).
                (let db3 = run_event c ''hr.payroll.reopened'' payroll (tx_no x)
                       [(''reason'', JStr reason),
                        (''reopenCount'', JNum (of_nat (Suc (mk_reopens (lf_marks db payroll))))),
                        (''previousStatus'', JStr (status_name (run_status r)))] db2
                 in if recalculate
                    then rbind (calculate_payroll c today year payroll (lf_payroll db3)) (\<lambda>(_, p).
                           Inr (x, with_payroll (\<lambda>_. p) db3))
                    else Inr (x, db3)))))"

definition voidable :: "run_status list" where
  "voidable = [R_DRAFT, R_VALIDATING, R_SUBMITTED, R_REVIEW, R_PENDING_APPROVAL, R_APPROVED, R_RELEASED, R_LOCKED]"

definition void_payroll ::
  "ctx \<Rightarrow> time \<Rightarrow> row_id \<Rightarrow> string \<Rightarrow> life_db \<Rightarrow> (transition_result \<times> life_db) result" where
  "void_payroll c now payroll raw db =
     (let reason = js_trim raw in
      if length reason < 10 then Inl (BadRequest ''Voiding payroll requires a written reason'')
      else case find_run c payroll (lf_payroll db) of
          None \<Rightarrow> Inl (NotFound ''Payroll not found'')
        | Some r \<Rightarrow>
            if run_gl_posted r then Inl (Conflict ''Payroll is posted to the general ledger'')
            else if confirmed (run_batches c payroll db) then Inl (Conflict ''Payroll has confirmed payments'')
            else
              rbind (transition c
                \<lparr>ti_payroll = payroll, ti_from = voidable, ti_to = R_VOID, ti_action = A_CANCEL, ti_stage = ''VOID'',
                 ti_label = ''Void payroll'', ti_reason = Some reason, ti_comment = None,
                 ti_set = (\<lambda>m. m\<lparr>mk_locked := Some now\<rparr>), ti_lock = Some LOCK\<rparr> db) (\<lambda>(x, db1).
                Inr (x, run_event c ''hr.payroll.voided'' payroll (tx_no x)
                  [(''reason'', JStr reason), (''previousStatus'', JStr (status_name (tx_from x)))] db1)))"

subsection \<open>The steps of a run\<close>

inductive life_step :: "life_db \<Rightarrow> life_db \<Rightarrow> bool" where
  calculate: "calculate_payroll c today year payroll (lf_payroll db) = Inr (x, p) \<Longrightarrow> life_step db (with_payroll (\<lambda>_. p) db)"
| submit: "submit_payroll c payroll (lf_payroll db) = Inr (x, p) \<Longrightarrow> life_step db (with_payroll (\<lambda>_. p) db)"
| decide: "record_workflow_decision c now payroll approved comment db = Inr (x, db') \<Longrightarrow> life_step db db'"
| release: "release_payroll c now payroll comment db = Inr (x, db') \<Longrightarrow> life_step db db'"
| paid: "mark_payroll_paid c payroll comment db = Inr (x, db') \<Longrightarrow> life_step db db'"
| post: "post_payroll_run c payroll (lf_books db) = Inr (j, bk) \<Longrightarrow> life_step db (db\<lparr>lf_books := bk\<rparr>)"
| close: "close_payroll c now payroll comment variance db = Inr (x, db') \<Longrightarrow> life_step db db'"
| reopen: "reopen_payroll c now today year payroll raw recalculate db = Inr (x, db') \<Longrightarrow> life_step db db'"
| void: "void_payroll c now payroll raw db = Inr (x, db') \<Longrightarrow> life_step db db'"

text \<open>
  The invariant of the runs. \<open>linked\<close> follows a status history from one status to another; the
  submission of a run is the one change that writes no history.
\<close>

definition same_or_submitted :: "run_status \<Rightarrow> run_status \<Rightarrow> bool" where
  "same_or_submitted s t \<longleftrightarrow> s = t \<or> s = R_DRAFT \<and> t = R_SUBMITTED"

fun linked :: "run_status \<Rightarrow> status_change list \<Rightarrow> run_status \<Rightarrow> bool" where
  "linked s [] t = same_or_submitted s t"
| "linked s (h # hs) t = (same_or_submitted s (sh_from h) \<and> linked (sh_to h) hs t)"

definition history_of :: "row_id \<Rightarrow> status_change list \<Rightarrow> status_change list" where
  "history_of payroll rows = filter (\<lambda>h. sh_payroll h = payroll) rows"

definition active_locks :: "row_id \<Rightarrow> run_lock list \<Rightarrow> run_lock list" where
  "active_locks payroll rows = filter (\<lambda>l. lk_payroll l = payroll \<and> lk_locked l) rows"

definition approved_by :: "row_id \<Rightarrow> row_id \<Rightarrow> approval list \<Rightarrow> bool" where
  "approved_by payroll u rows = list_ex (\<lambda>a. av_payroll a = payroll \<and> av_user a = u \<and> av_action a = A_APPROVE) rows"

definition has_evidence :: "life_db \<Rightarrow> payroll_run \<Rightarrow> bool" where
  "has_evidence db r \<longleftrightarrow>
     (run_status r \<in> {R_APPROVED, R_RELEASED, R_PAID, R_POSTED, R_CLOSED} \<longrightarrow>
        (\<exists>u. fst (mk_approved (lf_marks db (run_id r))) = Some u \<and> approved_by (run_id r) u (lf_approvals db)))
     \<and> (run_status r \<in> {R_RELEASED, R_PAID} \<longrightarrow> fst (mk_released (lf_marks db (run_id r))) \<noteq> None)"

definition lock_sound :: "life_db \<Rightarrow> payroll_run \<Rightarrow> bool" where
  "lock_sound db r \<longleftrightarrow>
     length (active_locks (run_id r) (lf_locks db)) \<le> 1
     \<and> (run_status r \<in> {R_RELEASED, R_PAID, R_CLOSED, R_VOID} \<longrightarrow> length (active_locks (run_id r) (lf_locks db)) = 1)"

definition posting_sound :: "payroll_run \<Rightarrow> bool" where
  "posting_sound r \<longleftrightarrow> (run_gl_posted r \<longrightarrow> run_status r \<in> {R_POSTED, R_CLOSED} \<and> run_gl_journal r \<noteq> None)
     \<and> (run_status r = R_POSTED \<longrightarrow> run_gl_posted r)"

definition run_sound :: "life_db \<Rightarrow> payroll_run \<Rightarrow> bool" where
  "run_sound db r \<longleftrightarrow> has_evidence db r \<and> lock_sound db r \<and> posting_sound r
     \<and> linked R_DRAFT (history_of (run_id r) (bk_history (lf_books db))) (run_status r)"

definition life_ok :: "life_db \<Rightarrow> bool" where
  "life_ok db \<longleftrightarrow> distinct (map run_id (db_runs (lf_payroll db))) \<and> (\<forall>r\<in>set (db_runs (lf_payroll db)). run_sound db r)"

lemmas run_sound_defs = run_sound_def has_evidence_def lock_sound_def posting_sound_def

lemma linked_snoc:
  "linked s hs t \<Longrightarrow> sh_from h = t \<Longrightarrow> linked s (hs @ [h]) (sh_to h)"
  by (induction s hs t rule: linked.induct) (auto simp: same_or_submitted_def)

lemma linked_log:
  assumes "linked s (history_of (run_id r) rows) (run_status r)"
  shows "linked s (history_of (run_id r) (log_history c r to comment reason rows)) to"
  using linked_snoc [OF assms, of "\<lparr>sh_payroll = run_id r, sh_from = run_status r, sh_to = to, sh_user = cx_user c,
      sh_comment = comment, sh_reason = reason\<rparr>"]
  by (simp add: log_history_def history_of_def)

lemma history_of_log: "p \<noteq> run_id r \<Longrightarrow> history_of p (log_history c r to comment reason rows) = history_of p rows"
  by (simp add: log_history_def history_of_def)

lemma linked_submit: "linked s hs R_DRAFT \<Longrightarrow> linked s hs R_SUBMITTED"
  by (induction s hs R_DRAFT rule: linked.induct) (auto simp: same_or_submitted_def)

lemma active_locks_unlock:
  "active_locks p (unlock_rows u q reason rows) = (if p = q then [] else active_locks p rows)"
  by (induction rows) (auto simp: active_locks_def unlock_rows_def update_where_def)

lemma active_locks_apply:
  "length (active_locks p (apply_lock u i rows)) =
     (if p \<noteq> ti_payroll i then length (active_locks p rows)
      else case ti_lock i of None \<Rightarrow> length (active_locks p rows) | Some LOCK \<Rightarrow> 1 | Some UNLOCK \<Rightarrow> 0)"
proof -
  have "active_locks p (xs @ ys) = active_locks p xs @ active_locks p ys" for xs ys
    by (simp add: active_locks_def)
  then show ?thesis
    by (auto simp: apply_lock_def active_locks_unlock split: option.split lock_op.split)
      (auto simp: active_locks_def)
qed

text \<open>What the invariant reads of a run.\<close>

definition run_key :: "payroll_run \<Rightarrow> row_id \<times> row_id \<times> run_status \<times> bool \<times> row_id option" where
  "run_key r = (run_id r, run_tenant r, run_status r, run_gl_posted r, run_gl_journal r)"

lemma run_sound_key:
  assumes "run_key r' = run_key r" and "run_sound db r" and "lf_marks db' = lf_marks db"
    and "lf_approvals db' = lf_approvals db" and "lf_locks db' = lf_locks db"
    and "bk_history (lf_books db') = bk_history (lf_books db)"
  shows "run_sound db' r'"
  using assms by (simp add: run_sound_defs run_key_def)

lemma life_ok_keys:
  assumes "life_ok db" and "map run_key (db_runs (lf_payroll db')) = map run_key (db_runs (lf_payroll db))"
    and "lf_marks db' = lf_marks db" and "lf_approvals db' = lf_approvals db" and "lf_locks db' = lf_locks db"
    and "bk_history (lf_books db') = bk_history (lf_books db)"
  shows "life_ok db'"
proof -
  have "map fst (map run_key (db_runs (lf_payroll db'))) = map fst (map run_key (db_runs (lf_payroll db)))"
    using assms(2) by simp
  then have ids: "map run_id (db_runs (lf_payroll db')) = map run_id (db_runs (lf_payroll db))"
    by (simp add: run_key_def o_def)
  have "run_sound db' r'" if "r' \<in> set (db_runs (lf_payroll db'))" for r'
  proof -
    have "run_key r' \<in> set (map run_key (db_runs (lf_payroll db)))" using that assms(2) by (metis imageI set_map)
    then obtain r where "r \<in> set (db_runs (lf_payroll db))" "run_key r' = run_key r" by auto
    then show ?thesis using run_sound_key [of r' r db db'] assms by (auto simp: life_ok_def)
  qed
  then show ?thesis using assms(1) ids by (simp add: life_ok_def)
qed

lemma approved_by_mono: "approved_by p u rows \<Longrightarrow> set rows \<subseteq> set rows' \<Longrightarrow> approved_by p u rows'"
  by (auto simp: approved_by_def list_ex_iff)

lemma run_sound_frame:
  assumes sound: "run_sound db x" and marks: "lf_marks db' (run_id x) = lf_marks db (run_id x)"
    and locks: "length (active_locks (run_id x) (lf_locks db')) = length (active_locks (run_id x) (lf_locks db))"
    and hist: "history_of (run_id x) (bk_history (lf_books db')) = history_of (run_id x) (bk_history (lf_books db))"
    and more: "set (lf_approvals db) \<subseteq> set (lf_approvals db')"
  shows "run_sound db' x"
proof -
  have "has_evidence db' x"
    using sound approved_by_mono [OF _ more] unfolding run_sound_def has_evidence_def marks by blast
  moreover have "lock_sound db' x" using sound by (simp add: run_sound_def lock_sound_def locks)
  ultimately show ?thesis using sound by (simp add: run_sound_def hist)
qed

text \<open>Changing one run, with everything that concerns the other runs left alone.\<close>

lemma life_ok_update:
  assumes ok: "life_ok db" and r: "r \<in> set (db_runs (lf_payroll db))"
    and runs: "db_runs (lf_payroll db') = update_where (\<lambda>x. run_id x = run_id r) f (db_runs (lf_payroll db))"
    and id: "run_id (f r) = run_id r" and new: "run_sound db' (f r)"
    and other: "\<And>p. p \<noteq> run_id r \<Longrightarrow> lf_marks db' p = lf_marks db p
        \<and> length (active_locks p (lf_locks db')) = length (active_locks p (lf_locks db))
        \<and> history_of p (bk_history (lf_books db')) = history_of p (bk_history (lf_books db))"
    and more: "set (lf_approvals db) \<subseteq> set (lf_approvals db')"
  shows "life_ok db'"
proof -
  have dist: "distinct (map run_id (db_runs (lf_payroll db)))" using ok by (simp add: life_ok_def)
  obtain xs ys where split: "db_runs (lf_payroll db) = xs @ r # ys"
    and upd: "db_runs (lf_payroll db') = xs @ f r # ys"
    using update_one [OF dist r] runs by metis
  have fresh: "run_id r \<notin> run_id ` (set xs \<union> set ys)" using dist by (auto simp: split)
  have "run_sound db' x" if x: "x \<in> set xs \<union> set ys" for x
  proof -
    have ne: "run_id x \<noteq> run_id r" using fresh x by (metis imageI)
    have "run_sound db x" using ok x by (auto simp: life_ok_def split)
    then show ?thesis using other [OF ne] more by (intro run_sound_frame [of db x db']) simp_all
  qed
  then show ?thesis using new dist id by (auto simp: life_ok_def split upd)
qed

lemma transition_Inr:
  assumes "transition c i db = Inr (x, db')"
  obtains u r where "cx_user c = Some u" "find_run c (ti_payroll i) (lf_payroll db) = Some r"
    "run_status r \<in> set (ti_from i)" "db' = apply_transition c u i r db" "tx_no x = run_no r" "tx_from x = run_status r"
  using assms by (auto simp: transition_def split: option.splits if_splits)

abbreviation approved_statuses :: "run_status set" where
  "approved_statuses \<equiv> {R_APPROVED, R_RELEASED, R_PAID, R_POSTED, R_CLOSED}"

abbreviation locked_statuses :: "run_status set" where
  "locked_statuses \<equiv> {R_RELEASED, R_PAID, R_CLOSED, R_VOID}"

text \<open>What a transition must bring along for the status that it sets.\<close>

definition justified :: "row_id \<Rightarrow> transition_input \<Rightarrow> payroll_run \<Rightarrow> bool" where
  "justified u i r \<longleftrightarrow>
     (ti_to i \<in> approved_statuses \<longrightarrow>
        ti_action i = A_APPROVE \<and> (\<forall>m. fst (mk_approved (ti_set i m)) = Some u)
        \<or> run_status r \<in> approved_statuses \<and> (\<forall>m. mk_approved (ti_set i m) = mk_approved m))
   \<and> (ti_to i \<in> {R_RELEASED, R_PAID} \<longrightarrow>
        (\<forall>m. fst (mk_released (ti_set i m)) = Some u)
        \<or> run_status r \<in> {R_RELEASED, R_PAID} \<and> (\<forall>m. mk_released (ti_set i m) = mk_released m))
   \<and> (ti_to i \<in> locked_statuses \<longrightarrow> ti_lock i = Some LOCK \<or> ti_lock i = None \<and> run_status r \<in> locked_statuses)
   \<and> (run_gl_posted r \<longrightarrow> ti_to i = R_CLOSED) \<and> ti_to i \<noteq> R_POSTED"

lemma apply_transition_fields [simp]:
  "lf_marks (apply_transition c u i r db) = (lf_marks db)(ti_payroll i := ti_set i (lf_marks db (ti_payroll i)))"
  "lf_locks (apply_transition c u i r db) = apply_lock u i (lf_locks db)"
  "lf_batches (apply_transition c u i r db) = lf_batches db"
  "lf_roles (apply_transition c u i r db) = lf_roles db"
  "db_runs (lf_payroll (apply_transition c u i r db)) =
     update_where (\<lambda>x. run_id x = ti_payroll i) (\<lambda>x. x\<lparr>run_status := ti_to i\<rparr>) (db_runs (lf_payroll db))"
  "db_items (lf_payroll (apply_transition c u i r db)) = db_items (lf_payroll db)"
  "bk_history (lf_books (apply_transition c u i r db)) =
     log_history c r (ti_to i) (ti_comment i) (ti_reason i) (bk_history (lf_books db))"
  by (simp_all add: apply_transition_def update_run_def)

lemma transition_sound:
  assumes ok: "life_ok db" and r: "r \<in> set (db_runs (lf_payroll db))" "run_id r = ti_payroll i"
    and just: "justified u i r"
  shows "life_ok (apply_transition c u i r db)"
proof -
  let ?db = "apply_transition c u i r db" and ?r = "r\<lparr>run_status := ti_to i\<rparr>" and ?p = "ti_payroll i"
  have old: "run_sound db r" using ok r by (simp add: life_ok_def)
  have apps: "lf_approvals ?db = lf_approvals db @
      [\<lparr>av_payroll = ?p, av_user = u, av_role = actor_role_code c (lf_roles db), av_action = ti_action i,
        av_comment = ti_comment i, av_stage = ti_stage i, av_from = run_status r, av_to = ti_to i\<rparr>]"
    by (simp add: apply_transition_def)
  have approved: "\<exists>v. fst (mk_approved (ti_set i (lf_marks db ?p))) = Some v \<and> approved_by ?p v (lf_approvals ?db)"
    if to: "ti_to i \<in> approved_statuses"
  proof -
    from just to consider "ti_action i = A_APPROVE" "\<forall>m. fst (mk_approved (ti_set i m)) = Some u"
      | "run_status r \<in> approved_statuses" "\<forall>m. mk_approved (ti_set i m) = mk_approved m"
      unfolding justified_def by blast
    then show ?thesis
    proof cases
      case 1
      then have "approved_by ?p u (lf_approvals ?db)" by (simp add: apps approved_by_def)
      with 1 show ?thesis by blast
    next
      case 2
      then obtain v where "fst (mk_approved (lf_marks db ?p)) = Some v" "approved_by ?p v (lf_approvals db)"
        using old unfolding run_sound_def has_evidence_def r(2) by blast
      then show ?thesis using 2(2) by (auto simp: apps approved_by_def)
    qed
  qed
  have released: "fst (mk_released (ti_set i (lf_marks db ?p))) \<noteq> None" if "ti_to i \<in> {R_RELEASED, R_PAID}"
    using that just old unfolding justified_def run_sound_def has_evidence_def r(2) by (metis option.distinct(1))
  have "has_evidence ?db ?r" using approved released by (simp add: has_evidence_def r(2))
  moreover have "lock_sound ?db ?r"
  proof -
    have count: "length (active_locks ?p (lf_locks ?db)) = (case ti_lock i of
        None \<Rightarrow> length (active_locks ?p (lf_locks db)) | Some LOCK \<Rightarrow> 1 | Some UNLOCK \<Rightarrow> 0)"
      by (simp add: active_locks_apply)
    have one: "length (active_locks ?p (lf_locks db)) \<le> 1"
      and held: "run_status r \<in> locked_statuses \<longrightarrow> length (active_locks ?p (lf_locks db)) = 1"
      using old unfolding run_sound_def lock_sound_def r(2) by blast+
    have need: "ti_to i \<in> locked_statuses \<longrightarrow> ti_lock i = Some LOCK \<or> ti_lock i = None \<and> run_status r \<in> locked_statuses"
      using just unfolding justified_def by blast
    have "length (active_locks ?p (lf_locks ?db)) \<le> 1"
      unfolding count using one by (auto split: option.split lock_op.split)
    moreover have "ti_to i \<in> locked_statuses \<longrightarrow> length (active_locks ?p (lf_locks ?db)) = 1"
      unfolding count using held need by (auto split: option.split lock_op.split simp del: insert_iff)
    ultimately show ?thesis by (simp add: lock_sound_def r(2))
  qed
  moreover have "posting_sound ?r" using old just by (auto simp: posting_sound_def run_sound_def justified_def)
  moreover have "linked R_DRAFT (history_of ?p (bk_history (lf_books ?db))) (ti_to i)"
    using old linked_log [of R_DRAFT r "bk_history (lf_books db)" c "ti_to i" "ti_comment i" "ti_reason i"]
    by (simp add: run_sound_def r(2))
  ultimately have new: "run_sound ?db ?r" by (simp add: run_sound_def r(2))
  show ?thesis
  proof (rule life_ok_update [OF ok r(1), where f = "\<lambda>x. x\<lparr>run_status := ti_to i\<rparr>"])
    show "lf_marks ?db p = lf_marks db p \<and> length (active_locks p (lf_locks ?db)) = length (active_locks p (lf_locks db))
        \<and> history_of p (bk_history (lf_books ?db)) = history_of p (bk_history (lf_books db))" if "p \<noteq> run_id r" for p
      using that by (simp add: active_locks_apply history_of_log) (simp add: r(2))
    show "set (lf_approvals db) \<subseteq> set (lf_approvals ?db)" by (auto simp: apps)
  qed (use new r(2) in simp_all)
qed

lemma run_event_fields [simp]:
  "db_runs (lf_payroll (run_event c k p code pl db)) = db_runs (lf_payroll db)"
  "db_items (lf_payroll (run_event c k p code pl db)) = db_items (lf_payroll db)"
  "lf_marks (run_event c k p code pl db) = lf_marks db" "lf_approvals (run_event c k p code pl db) = lf_approvals db"
  "lf_locks (run_event c k p code pl db) = lf_locks db"
  "bk_history (lf_books (run_event c k p code pl db)) = bk_history (lf_books db)"
  by (simp_all add: run_event_def with_payroll_def)

lemma life_ok_event [simp]: "life_ok db \<Longrightarrow> life_ok (run_event c k p code pl db)"
  by (erule life_ok_keys) simp_all

text \<open>A transition followed by its event.\<close>

lemma transition_ok:
  assumes "life_ok db" and "transition c i db = Inr (x, db')"
    and "\<And>u r. cx_user c = Some u \<Longrightarrow> find_run c (ti_payroll i) (lf_payroll db) = Some r \<Longrightarrow>
      run_status r \<in> set (ti_from i) \<Longrightarrow> run_sound db r \<Longrightarrow> justified u i r"
  shows "life_ok db'"
  using assms(2)
proof (rule transition_Inr)
  fix u r
  assume u: "cx_user c = Some u" and r: "find_run c (ti_payroll i) (lf_payroll db) = Some r"
    and from_ok: "run_status r \<in> set (ti_from i)" and db': "db' = apply_transition c u i r db"
  note mem = find_run_Some(1,2) [OF r]
  have "run_sound db r" using assms(1) mem by (simp add: life_ok_def)
  then show ?thesis unfolding db' using transition_sound [OF assms(1) mem] assms(3) [OF u r from_ok] by simp
qed

subsection \<open>Every step keeps the invariant\<close>

lemma with_payroll_fields [simp]:
  "lf_payroll (with_payroll f db) = f (lf_payroll db)" "lf_marks (with_payroll f db) = lf_marks db"
  "lf_approvals (with_payroll f db) = lf_approvals db" "lf_locks (with_payroll f db) = lf_locks db"
  "bk_history (lf_books (with_payroll f db)) = bk_history (lf_books db)"
  by (simp_all add: with_payroll_def)

lemma calculate_keeps_runs:
  assumes "calculate_payroll c today year payroll db = Inr (x, db')"
  shows "map run_key (db_runs db') = map run_key (db_runs db)"
proof -
  from assms obtain r p inputs absence db2 v where r: "find_run c payroll db = Some r"
    and staff: "pay_staff c year p payroll inputs absence (eligible_staff c r db) (clear_run payroll db) = Inr db2"
    and v: "validate_payroll c payroll (store_totals c p payroll db2) = Inr (v, db')"
    by (auto simp: calculate_payroll_def Let_def rbind_Inr_iff split: option.splits if_splits)
  have runs2: "db_runs db2 = db_runs db" using pay_staff_Inr [OF staff] by (auto simp: clear_run_def)
  have "find_run c payroll db2 = Some r" using r runs2 by (simp add: find_run_def)
  then have "\<exists>r2. find_run c payroll (store_totals c p payroll db2) = Some r2"
    unfolding store_totals_def by (subst find_run_update) simp_all
  then obtain r2 where run2: "find_run c payroll (store_totals c p payroll db2) = Some r2" by blast
  have "db_runs db' = update_where (\<lambda>x. run_id x = payroll) (\<lambda>x. x\<lparr>run_score := vr_score v\<rparr>)
      (db_runs (store_totals c p payroll db2))"
    using validate_payroll_Inr [OF run2 v] by simp
  then show ?thesis
    by (simp add: store_totals_def update_run_def runs2 map_update_where_same run_key_def)
qed

lemma life_ok_calculate:
  assumes "life_ok db" and "calculate_payroll c today year payroll (lf_payroll db) = Inr (x, p)"
  shows "life_ok (with_payroll (\<lambda>_. p) db)"
  by (rule life_ok_keys [OF assms(1)]) (simp_all add: calculate_keeps_runs [OF assms(2)])

lemma life_ok_submit:
  assumes ok: "life_ok db" and sub: "submit_payroll c payroll (lf_payroll db) = Inr (x, p)"
  shows "life_ok (with_payroll (\<lambda>_. p) db)"
proof -
  obtain r where r: "find (\<lambda>r. run_id r = payroll \<and> cx_tenant c = Some (run_tenant r) \<and> run_status r = R_DRAFT)
      (db_runs (lf_payroll db)) = Some r"
    and p: "db_runs p = update_where (\<lambda>x. run_id x = payroll) (\<lambda>x. x\<lparr>run_status := R_SUBMITTED\<rparr>) (db_runs (lf_payroll db))"
    using sub by (auto simp: submit_payroll_def Let_def update_run_def split: if_splits option.splits)
  have mem: "r \<in> set (db_runs (lf_payroll db))" "run_id r = payroll" "run_status r = R_DRAFT"
    using find_Some_iff_mem [OF r] by auto
  have old: "run_sound db r" using ok mem by (simp add: life_ok_def)
  then have "linked R_DRAFT (history_of payroll (bk_history (lf_books db))) R_SUBMITTED"
    using mem linked_submit by (simp add: run_sound_def)
  then have "run_sound (with_payroll (\<lambda>_. p) db) (r\<lparr>run_status := R_SUBMITTED\<rparr>)"
    using old mem by (simp add: run_sound_defs)
  then show ?thesis
    by (intro life_ok_update [OF ok mem(1), where f = "\<lambda>x. x\<lparr>run_status := R_SUBMITTED\<rparr>"]) (simp_all add: p mem(2))
qed

lemma life_ok_decide:
  assumes "life_ok db" and "record_workflow_decision c now payroll approved comment db = Inr (x, db')"
  shows "life_ok db'"
proof (cases "db' = db")
  case False
  then obtain i y where t: "transition c i db = Inr (y, db')" and i: "i = \<lparr>ti_payroll = payroll, ti_from = payroll_approval_statuses,
             ti_to = (if approved then R_APPROVED else R_DRAFT),
             ti_action = (if approved then A_APPROVE else A_RETURN),
             ti_stage = (if approved then ''MANAGEMENT_APPROVAL'' else ''HR_REVIEW''),
             ti_label = (if approved then ''Approve payroll'' else ''Return payroll for correction''),
             ti_reason = (if approved then None else Some (the_default ''Returned for correction'' comment)),
             ti_comment = comment,
             ti_set = (if approved then (\<lambda>m. m\<lparr>mk_approved := stamp_mark c now\<rparr>) else (\<lambda>m. m)), ti_lock = None\<rparr>"
    using assms(2) unfolding record_workflow_decision_def by (force split: option.splits if_splits)
  show ?thesis
    using assms(1) t
    by (rule transition_ok)
      (auto simp: i justified_def stamp_mark_def payroll_approval_statuses_def run_sound_def posting_sound_def)
qed (use assms in simp)

lemma life_ok_release:
  "life_ok db \<Longrightarrow> release_payroll c now payroll comment db = Inr (x, db') \<Longrightarrow> life_ok db'"
  unfolding release_payroll_def
  by (auto intro!: life_ok_event elim!: transition_ok simp: justified_def stamp_mark_def run_sound_def posting_sound_def)

lemma life_ok_paid:
  "life_ok db \<Longrightarrow> mark_payroll_paid c payroll comment db = Inr (x, db') \<Longrightarrow> life_ok db'"
  unfolding mark_payroll_paid_def
  by (auto intro!: life_ok_event elim!: transition_ok simp: justified_def stamp_mark_def run_sound_def posting_sound_def split: if_splits)

lemma life_ok_close:
  "life_ok db \<Longrightarrow> close_payroll c now payroll comment variance db = Inr (x, db') \<Longrightarrow> life_ok db'"
  unfolding close_payroll_def
  by (auto intro!: life_ok_event elim!: transition_ok simp: justified_def stamp_mark_def run_sound_def posting_sound_def)

lemma life_ok_void:
  assumes "life_ok db" and "void_payroll c now payroll raw db = Inr (x, db')"
  shows "life_ok db'"
  using assms unfolding void_payroll_def Let_def
  by (auto intro!: life_ok_event elim!: transition_ok simp: justified_def voidable_def split: if_splits option.splits)

lemma reopen_payroll_Inr:
  assumes "reopen_payroll c now today year payroll raw recalculate db = Inr (x, db')"
  obtains r y db1 db2 db3 where "find_run c payroll (lf_payroll db) = Some r" "\<not> run_gl_posted r"
    "run_status r \<in> set reopenable"
    "transition c (reopen_first c now payroll (run_status r) (js_trim raw)) db = Inr (y, db1)"
    "transition c (reopen_second payroll (js_trim raw)) db1 = Inr (x, db2)"
    "db3 = run_event c ''hr.payroll.reopened'' payroll (tx_no x) [(''reason'', JStr (js_trim raw)),
       (''reopenCount'', JNum (of_nat (Suc (mk_reopens (lf_marks db payroll))))),
       (''previousStatus'', JStr (status_name (run_status r)))] db2"
    "db' = db3 \<or> (\<exists>z p. calculate_payroll c today year payroll (lf_payroll db3) = Inr (z, p) \<and> db' = with_payroll (\<lambda>_. p) db3)"
proof -
  obtain r where r: "find_run c payroll (lf_payroll db) = Some r"
    using assms by (auto simp: reopen_payroll_def Let_def split: if_splits option.splits)
  show thesis
    using assms unfolding reopen_payroll_def Let_def r option.case
    by (auto simp del: of_nat_Suc split: if_splits)
      (rule that [OF r _ _ _ _ refl], assumption+, simp del: of_nat_Suc run_event_fields)+
qed

lemma reopen_prepared:
  assumes ok: "life_ok db" and re: "reopen_payroll c now today year payroll raw recalculate db = Inr (x, db')"
  obtains y db1 db2 db3 i1 i2 where "life_ok db3" "transition c i1 db = Inr (y, db1)" "transition c i2 db1 = Inr (x, db2)"
    "\<exists>code pl. db3 = run_event c ''hr.payroll.reopened'' payroll code pl db2"
    "db' = db3 \<or> (\<exists>z p. calculate_payroll c today year payroll (lf_payroll db3) = Inr (z, p) \<and> db' = with_payroll (\<lambda>_. p) db3)"
  using re
proof (rule reopen_payroll_Inr)
  fix r y db1 db2 db3
  assume r: "find_run c payroll (lf_payroll db) = Some r" "\<not> run_gl_posted r"
    and t1: "transition c (reopen_first c now payroll (run_status r) (js_trim raw)) db = Inr (y, db1)"
    and t2: "transition c (reopen_second payroll (js_trim raw)) db1 = Inr (x, db2)"
    and db3: "db3 = run_event c ''hr.payroll.reopened'' payroll (tx_no x) [(''reason'', JStr (js_trim raw)),
       (''reopenCount'', JNum (of_nat (Suc (mk_reopens (lf_marks db payroll))))),
       (''previousStatus'', JStr (status_name (run_status r)))] db2"
    and final: "db' = db3 \<or>
      (\<exists>z p. calculate_payroll c today year payroll (lf_payroll db3) = Inr (z, p) \<and> db' = with_payroll (\<lambda>_. p) db3)"
  have "life_ok db1"
    using ok t1 by (rule transition_ok) (use r in \<open>simp add: reopen_first_def justified_def\<close>)
  then have "life_ok db2"
    using t2 by (rule transition_ok) (simp add: reopen_second_def justified_def run_sound_def posting_sound_def)
  then have "life_ok db3" by (simp add: db3)
  then show thesis using that [OF _ t1 t2 _ final] db3 by blast
qed

lemma life_ok_reopen:
  assumes "life_ok db" and "reopen_payroll c now today year payroll raw recalculate db = Inr (x, db')"
  shows "life_ok db'"
  by (rule reopen_prepared [OF assms]) (use life_ok_calculate in metis)

lemma post_run_effect:
  assumes "post_payroll_run c payroll bk = Inr (j, bk')"
  shows "bk' = bk \<or> (\<exists>r. find_run c payroll (bk_payroll bk) = Some r \<and> \<not> run_gl_posted r
     \<and> run_status r \<in> {R_APPROVED, R_RELEASED, R_PAID, R_POSTED}
     \<and> db_runs (bk_payroll bk') = update_where (\<lambda>x. run_id x = payroll)
          (\<lambda>x. x\<lparr>run_gl_posted := True, run_gl_journal := Some j, run_status := R_POSTED\<rparr>) (db_runs (bk_payroll bk))
     \<and> db_items (bk_payroll bk') = db_items (bk_payroll bk)
     \<and> bk_history bk' = log_history c r R_POSTED (Some ''Payroll posted to the general ledger'') None (bk_history bk))"
proof -
  have settle: "db_runs (close_arrears p (settle_run period items db)) = db_runs db"
    "db_items (close_arrears p (settle_run period items db)) = db_items db" for p period items db
    by (simp_all add: close_arrears_def settle_run_def split: prod.split)
  obtain r where r: "find_run c payroll (bk_payroll bk) = Some r"
    using assms by (auto simp: post_payroll_run_def split: option.splits)
  show ?thesis
  proof (cases "run_gl_posted r")
    case True
    then show ?thesis using assms r by (simp add: post_payroll_run_def)
  next
    case False
    then obtain bk1 where one: "post_payroll c payroll bk = Inr (j, bk1)"
      and runs: "db_runs (bk_payroll bk') = db_runs (bk_payroll bk1)" "db_items (bk_payroll bk') = db_items (bk_payroll bk1)"
      and hist: "bk_history bk' = bk_history bk1"
      using assms r by (auto simp: post_payroll_run_def Let_def settle)
    have "run_status r \<in> {R_APPROVED, R_RELEASED, R_PAID, R_POSTED}"
      "bk_history bk1 = log_history c r R_POSTED (Some ''Payroll posted to the general ledger'') None (bk_history bk)"
      "bk_payroll bk1 = update_run (run_id r)
         (\<lambda>x. x\<lparr>run_gl_posted := True, run_gl_journal := Some j, run_status := R_POSTED\<rparr>) (bk_payroll bk)"
      using one r False by (auto simp: post_payroll_def post_payroll_lines_def Let_def split: if_splits)
    then show ?thesis using r False runs hist find_run_Some(2) [OF r] by (simp add: update_run_def)
  qed
qed

lemma life_ok_post:
  assumes ok: "life_ok db" and post: "post_payroll_run c payroll (lf_books db) = Inr (j, bk)"
  shows "life_ok (db\<lparr>lf_books := bk\<rparr>)"
  using post_run_effect [OF post]
proof (elim disjE exE conjE)
  fix r
  let ?f = "\<lambda>x. x\<lparr>run_gl_posted := True, run_gl_journal := Some j, run_status := R_POSTED\<rparr>"
  assume r: "find_run c payroll (lf_payroll db) = Some r" and st: "run_status r \<in> {R_APPROVED, R_RELEASED, R_PAID, R_POSTED}"
    and runs: "db_runs (bk_payroll bk) = update_where (\<lambda>x. run_id x = payroll) ?f (db_runs (lf_payroll db))"
    and hist: "bk_history bk = log_history c r R_POSTED (Some ''Payroll posted to the general ledger'') None
      (bk_history (lf_books db))"
  note mem = find_run_Some(1,2) [OF r]
  have old: "run_sound db r" using ok mem by (simp add: life_ok_def)
  have "linked R_DRAFT (history_of payroll (bk_history bk)) R_POSTED"
    using old mem(2) linked_log [of R_DRAFT r "bk_history (lf_books db)" c R_POSTED] by (simp add: run_sound_def hist)
  moreover have "\<exists>u. fst (mk_approved (lf_marks db payroll)) = Some u \<and> approved_by payroll u (lf_approvals db)"
    using old st mem(2) unfolding run_sound_def has_evidence_def by blast
  moreover have "length (active_locks payroll (lf_locks db)) \<le> 1"
    using old mem(2) by (simp add: run_sound_def lock_sound_def)
  ultimately have "run_sound (db\<lparr>lf_books := bk\<rparr>) (?f r)" by (simp add: run_sound_defs mem(2))
  then show ?thesis
    by (intro life_ok_update [OF ok mem(1), where f = ?f])
      (simp_all add: runs mem(2) hist history_of_log)
qed (use ok in simp)

lemma life_ok_steps: "life_step\<^sup>*\<^sup>* db db' \<Longrightarrow> life_ok db \<Longrightarrow> life_ok db'"
proof (induction rule: rtranclp_induct)
  case (step db1 db2)
  from step.hyps(2) step.IH step.prems show ?case
    by cases (auto intro: life_ok_calculate life_ok_submit life_ok_decide life_ok_release life_ok_paid
        life_ok_post life_ok_close life_ok_reopen life_ok_void)
qed

subsection \<open>A posted run\<close>

definition posted_as :: "row_id \<Rightarrow> row_id \<Rightarrow> life_db \<Rightarrow> bool" where
  "posted_as payroll j db \<longleftrightarrow>
     (\<exists>r\<in>set (db_runs (lf_payroll db)). run_id r = payroll \<and> run_gl_posted r \<and> run_gl_journal r = Some j)"

text \<open>Steps that keep the posting columns of every run and all payslips.\<close>

definition keeps_posting :: "life_db \<Rightarrow> life_db \<Rightarrow> bool" where
  "keeps_posting db db' \<longleftrightarrow>
     map (\<lambda>r. (run_id r, run_gl_posted r, run_gl_journal r)) (db_runs (lf_payroll db')) =
       map (\<lambda>r. (run_id r, run_gl_posted r, run_gl_journal r)) (db_runs (lf_payroll db))
     \<and> db_items (lf_payroll db') = db_items (lf_payroll db)"

lemma keeps_posting_trans: "keeps_posting a b \<Longrightarrow> keeps_posting b c \<Longrightarrow> keeps_posting a c"
  by (simp add: keeps_posting_def)

lemma posted_as_key:
  assumes "map (\<lambda>r. (run_id r, run_gl_posted r, run_gl_journal r)) (db_runs (lf_payroll db')) =
       map (\<lambda>r. (run_id r, run_gl_posted r, run_gl_journal r)) (db_runs (lf_payroll db))"
  shows "posted_as payroll j db' = posted_as payroll j db"
proof -
  have "posted_as payroll j d \<longleftrightarrow>
      (payroll, True, Some j) \<in> set (map (\<lambda>r. (run_id r, run_gl_posted r, run_gl_journal r)) (db_runs (lf_payroll d)))" for d
    by (force simp: posted_as_def)
  then show ?thesis by (simp only: assms)
qed

lemma transition_keeps_posting: "transition c i db = Inr (x, db') \<Longrightarrow> keeps_posting db db'"
  by (erule transition_Inr) (simp add: keeps_posting_def map_update_where_same)

lemma event_keeps_posting: "keeps_posting db (run_event c k p code pl db)"
  by (simp add: keeps_posting_def)

definition posting_final :: "row_id \<Rightarrow> row_id \<Rightarrow> life_db \<Rightarrow> life_db \<Rightarrow> bool" where
  "posting_final payroll j db db' \<longleftrightarrow>
     posted_as payroll j db' \<and> run_items payroll (lf_payroll db') = run_items payroll (lf_payroll db)"

lemma keeps_posting_final: "keeps_posting db db' \<Longrightarrow> posted_as payroll j db \<Longrightarrow> posting_final payroll j db db'"
  using posted_as_key [of db' db payroll j] by (simp add: keeps_posting_def posting_final_def run_items_def)

lemma posted_not_editable:
  assumes "life_ok db" and "posted_as payroll j db" and "find_run c q (lf_payroll db) = Some r"
    and "run_status r \<notin> {R_POSTED, R_CLOSED} \<or> \<not> run_gl_posted r"
  shows "q \<noteq> payroll"
proof
  assume q: "q = payroll"
  obtain r0 where r0: "r0 \<in> set (db_runs (lf_payroll db))" "run_id r0 = payroll" "run_gl_posted r0"
    using assms(2) by (auto simp: posted_as_def)
  have "r = r0"
    using assms(1) r0 find_run_Some(1,2) [OF assms(3)] q by (auto simp: life_ok_def distinct_map inj_on_def)
  moreover have "run_sound db r0" using assms(1) r0 by (simp add: life_ok_def)
  ultimately show False using assms(4) r0(3) by (auto simp: run_sound_def posting_sound_def)
qed

lemma calculate_final:
  assumes "life_ok db" and "posted_as payroll j db"
    and calc: "calculate_payroll c today year q (lf_payroll db) = Inr (x, p)"
  shows "posting_final payroll j db (with_payroll (\<lambda>_. p) db)"
proof -
  obtain r where r: "find_run c q (lf_payroll db) = Some r" "run_status r \<in> {R_DRAFT, R_SUBMITTED}"
    and items: "filter (\<lambda>i. ps_payroll i \<noteq> q) (db_items p) = filter (\<lambda>i. ps_payroll i \<noteq> q) (db_items (lf_payroll db))"
    using calc by (rule calculate_payroll_Inr)
  have ne: "q \<noteq> payroll" using posted_not_editable [OF assms(1,2) r(1)] r(2) by auto
  have "map (\<lambda>(a, t, s, g, j). (a, g, j)) (map run_key (db_runs p)) =
      map (\<lambda>(a, t, s, g, j). (a, g, j)) (map run_key (db_runs (lf_payroll db)))"
    by (simp only: calculate_keeps_runs [OF calc])
  then have "posted_as payroll j (with_payroll (\<lambda>_. p) db)"
    using assms(2) posted_as_key [of "with_payroll (\<lambda>_. p) db" db] by (simp add: run_key_def o_def)
  moreover have "filter (\<lambda>i. ps_payroll i = payroll) xs = filter (\<lambda>i. ps_payroll i = payroll) (filter (\<lambda>i. ps_payroll i \<noteq> q) xs)" for xs
    using ne by (simp add: filter_filter) (metis (mono_tags, lifting) filter_cong)
  then have "run_items payroll p = run_items payroll (lf_payroll db)" unfolding run_items_def by (metis items)
  ultimately show ?thesis by (simp add: posting_final_def)
qed

lemma post_final:
  assumes "life_ok db" and "posted_as payroll j db" and post: "post_payroll_run c q (lf_books db) = Inr (k, bk)"
  shows "posting_final payroll j db (db\<lparr>lf_books := bk\<rparr>)"
  using post_run_effect [OF post]
proof (elim disjE exE conjE)
  fix r
  assume r: "find_run c q (lf_payroll db) = Some r" "\<not> run_gl_posted r"
    and runs: "db_runs (bk_payroll bk) = update_where (\<lambda>x. run_id x = q)
      (\<lambda>x. x\<lparr>run_gl_posted := True, run_gl_journal := Some k, run_status := R_POSTED\<rparr>) (db_runs (lf_payroll db))"
    and items: "db_items (bk_payroll bk) = db_items (lf_payroll db)"
  have ne: "q \<noteq> payroll" using posted_not_editable [OF assms(1,2) r(1)] r(2) by simp
  obtain r0 where "r0 \<in> set (db_runs (lf_payroll db))" "run_id r0 = payroll" "run_gl_posted r0" "run_gl_journal r0 = Some j"
    using assms(2) by (auto simp: posted_as_def)
  then have "posted_as payroll j (db\<lparr>lf_books := bk\<rparr>)"
    using ne by (auto simp: posted_as_def runs set_update_where intro!: bexI [of _ r0] image_eqI [of _ _ r0])
  then show ?thesis by (simp add: posting_final_def run_items_def items)
qed (use assms(2) in \<open>simp add: posting_final_def\<close>)

lemma step_final:
  assumes "life_step db db'" and "life_ok db" and "posted_as payroll j db"
  shows "posting_final payroll j db db'"
  using assms(1)
proof cases
  case (submit c q x p)
  then have "keeps_posting db db'"
    by (auto simp: submit_payroll_def Let_def update_run_def keeps_posting_def map_update_where_same
        split: if_splits option.splits)
  then show ?thesis using keeps_posting_final assms(3) by blast
next
  case (decide c now q approved comment x)
  then have "db' = db \<or> keeps_posting db db'"
    by (auto simp: record_workflow_decision_def split: option.splits if_splits intro: transition_keeps_posting)
  then show ?thesis using keeps_posting_final assms(3) by (auto simp: posting_final_def)
next
  case (release c now q comment x)
  then show ?thesis
    by (auto simp: release_payroll_def intro!: keeps_posting_final [OF _ assms(3)]
        intro: keeps_posting_trans [OF transition_keeps_posting event_keeps_posting])
next
  case (paid c q comment x)
  then show ?thesis
    by (auto simp: mark_payroll_paid_def split: if_splits intro!: keeps_posting_final [OF _ assms(3)]
        intro: keeps_posting_trans [OF transition_keeps_posting event_keeps_posting])
next
  case (close c now q comment variance x)
  then show ?thesis
    by (auto simp: close_payroll_def intro!: keeps_posting_final [OF _ assms(3)]
        intro: keeps_posting_trans [OF transition_keeps_posting event_keeps_posting])
next
  case (void c now q raw x)
  then show ?thesis
    by (auto simp: void_payroll_def Let_def split: if_splits option.splits intro!: keeps_posting_final [OF _ assms(3)]
        intro: keeps_posting_trans [OF transition_keeps_posting event_keeps_posting])
next
  case (reopen c now today year q raw recalculate x)
  show ?thesis
    using assms(2) reopen
  proof (rule reopen_prepared)
    fix y db1 db2 db3 i1 i2
    assume ok3: "life_ok db3" and t: "transition c i1 db = Inr (y, db1)" "transition c i2 db1 = Inr (x, db2)"
      and ev: "\<exists>code pl. db3 = run_event c ''hr.payroll.reopened'' q code pl db2"
      and final: "db' = db3 \<or>
        (\<exists>z p. calculate_payroll c today year q (lf_payroll db3) = Inr (z, p) \<and> db' = with_payroll (\<lambda>_. p) db3)"
    obtain code pl where db3: "db3 = run_event c ''hr.payroll.reopened'' q code pl db2" using ev by blast
    have "keeps_posting db db2"
      by (rule keeps_posting_trans [OF transition_keeps_posting [OF t(1)] transition_keeps_posting [OF t(2)]])
    then have "keeps_posting db db3" unfolding db3 by (rule keeps_posting_trans [OF _ event_keeps_posting])
    then have mid: "posting_final payroll j db db3" using keeps_posting_final assms(3) by blast
    then have "posted_as payroll j db3" by (simp add: posting_final_def)
    then show ?thesis using final mid calculate_final [OF ok3] by (auto simp: posting_final_def)
  qed
qed (use assms calculate_final post_final in auto)

subsection \<open>A sample life\<close>

definition blank_marks :: run_marks where
  "blank_marks = \<lparr>mk_approved = (None, None), mk_reviewed = (None, None), mk_released = (None, None),
     mk_closed = (None, None), mk_reopened = (None, None), mk_reopens = 0, mk_locked = None, mk_variance = None\<rparr>"

definition sample_life :: life_db where
  "sample_life =
     \<lparr>lf_books = sample_books
        \<lparr>bk_payroll := (bk_payroll sample_books)\<lparr>db_runs := [sample_run\<lparr>run_status := R_SUBMITTED\<rparr>]\<rparr>\<rparr>,
      lf_marks = (\<lambda>_. blank_marks), lf_approvals = [], lf_locks = [], lf_trail = [], lf_batches = [], lf_roles = []\<rparr>"

definition ok_state :: "('a \<times> life_db) result \<Rightarrow> life_db" where
  "ok_state x = (case x of Inr (_, db) \<Rightarrow> db | Inl _ \<Rightarrow> sample_life)"

definition sample_approved :: life_db where
  "sample_approved = ok_state (record_workflow_decision sample_ctx 100 7 True None sample_life)"

definition sample_released :: life_db where
  "sample_released = ok_state (release_payroll sample_ctx 101 7 None sample_approved)"

lemma sample_life_ok: "life_ok sample_life"
  by (simp add: life_ok_def sample_life_def run_sound_defs sample_run_def history_of_def active_locks_def
      same_or_submitted_def sample_books_def)

lemma sample_released_reached: "life_step\<^sup>*\<^sup>* sample_life sample_released"
proof -
  have "case record_workflow_decision sample_ctx 100 7 True None sample_life of Inl _ \<Rightarrow> False | Inr _ \<Rightarrow> True" by code_simp
  then have "life_step sample_life sample_approved"
    unfolding sample_approved_def ok_state_def by (auto split: sum.splits intro: life_step.decide)
  moreover have "case release_payroll sample_ctx 101 7 None sample_approved of Inl _ \<Rightarrow> False | Inr _ \<Rightarrow> True" by code_simp
  then have "life_step sample_approved sample_released"
    unfolding sample_released_def ok_state_def by (auto split: sum.splits intro: life_step.release)
  ultimately show ?thesis by (meson converse_rtranclp_into_rtranclp rtranclp.rtrancl_refl)
qed

lemma sample_released_run:
  "find_run sample_ctx 7 (lf_payroll sample_released) = Some (sample_run\<lparr>run_status := R_RELEASED\<rparr>)"
  by code_simp

lemma reached_sound:
  assumes "life_ok db" and "life_step\<^sup>*\<^sup>* db db'" and "find_run c payroll (lf_payroll db') = Some r"
  shows "run_sound db' r" and "run_id r = payroll"
  using life_ok_steps [OF assms(2,1)] find_run_Some(1,2) [OF assms(3)] by (simp_all add: life_ok_def)

subsection \<open>Properties\<close>

text \<open>
  C18. No approval without evidence. However calculations, submissions, decisions, releases, payments,
  postings, closings, reopenings and voids follow each other, a run that is approved, released,
  paid, posted or closed carries its approver, and the decision of exactly that user is on record;
  a released or paid run also carries who released it. A reopening withdraws the approval.
\<close>

theorem approval_evidence:
  assumes "life_ok db" and "life_step\<^sup>*\<^sup>* db db'" and "find_run c payroll (lf_payroll db') = Some r"
  shows "(run_status r \<in> {R_APPROVED, R_RELEASED, R_PAID, R_POSTED, R_CLOSED} \<longrightarrow>
       (\<exists>u a. fst (mk_approved (lf_marks db' payroll)) = Some u \<and> a \<in> set (lf_approvals db')
          \<and> av_payroll a = payroll \<and> av_user a = u \<and> av_action a = A_APPROVE))
     \<and> (run_status r \<in> {R_RELEASED, R_PAID} \<longrightarrow> fst (mk_released (lf_marks db' payroll)) \<noteq> None)"
  using reached_sound [OF assms] by (auto simp: run_sound_def has_evidence_def approved_by_def list_ex_iff)

theorem approval_evidence_witness:
  "\<exists>u a. fst (mk_approved (lf_marks sample_released 7)) = Some u \<and> a \<in> set (lf_approvals sample_released)
     \<and> av_payroll a = 7 \<and> av_user a = u \<and> av_action a = A_APPROVE"
  using approval_evidence [OF sample_life_ok sample_released_reached sample_released_run] by simp

text \<open>
  Lock discipline. A run never has two locks in force, and exactly one is in force while it is
  released, paid, closed or void.
\<close>

theorem lock_discipline:
  assumes "life_ok db" and "life_step\<^sup>*\<^sup>* db db'" and "find_run c payroll (lf_payroll db') = Some r"
  shows "length (filter (\<lambda>l. lk_payroll l = payroll \<and> lk_locked l) (lf_locks db')) \<le> 1
     \<and> (run_status r \<in> {R_RELEASED, R_PAID, R_CLOSED, R_VOID} \<longrightarrow>
          length (filter (\<lambda>l. lk_payroll l = payroll \<and> lk_locked l) (lf_locks db')) = 1)"
  using reached_sound [OF assms] by (auto simp: run_sound_def lock_sound_def active_locks_def)

theorem lock_discipline_witness:
  "length (filter (\<lambda>l. lk_payroll l = 7 \<and> lk_locked l) (lf_locks sample_released)) = 1"
  using lock_discipline [OF sample_life_ok sample_released_reached sample_released_run] by simp



lemma posted_as_reached:
  assumes "life_step\<^sup>*\<^sup>* db db'" and "life_ok db" and "posted_as payroll j db"
  shows "posting_final payroll j db db'"
  using assms(1)
proof (induction rule: rtranclp_induct)
  case base
  then show ?case using assms(3) by (simp add: posting_final_def)
next
  case (step db1 db2)
  have ok1: "life_ok db1" using life_ok_steps [OF step.hyps(1) assms(2)] .
  have "posted_as payroll j db1" using step.IH by (simp add: posting_final_def)
  then have "posting_final payroll j db1 db2" by (rule step_final [OF step.hyps(2) ok1])
  then show ?case using step.IH by (simp add: posting_final_def)
qed


definition sample_posted :: life_db where
  "sample_posted = sample_released\<lparr>lf_books :=
     (case post_payroll_run sample_ctx 7 (lf_books sample_released) of Inr (_, bk) \<Rightarrow> bk | Inl _ \<Rightarrow> lf_books sample_released)\<rparr>"

definition sample_closed :: life_db where
  "sample_closed = ok_state (close_payroll sample_ctx 102 7 None None sample_posted)"


end
