(* ===== verification/Payroll_Reports.thy ===== *)
theory Payroll_Reports
  imports Payroll_Lifecycle
begin

text \<open>
  The analysis half of \<^verbatim>\<open>apps/api/src/services/payrollLifecycle.ts\<close>: totals of a run, the simulation
  that calculates inside a savepoint and rolls it back, the comparison with the previous run, the
  department breakdown, the release pipeline and the totals of the command centre. \<open>Number(v) || 0\<close>
  of a payslip column is \<open>num_val\<close>. The alphabetical order of lines and the presentation order of the
  departments are not modelled; \<open>department\<close> gives an employee's department.
\<close>

subsection \<open>Totals\<close>

record item_totals =
  it_gross :: rat
  it_taxable :: rat
  it_paye :: rat
  it_nssf :: rat
  it_employer :: rat
  it_lst :: rat
  it_loans :: rat
  it_advances :: rat
  it_other :: rat
  it_deductions :: rat
  it_net :: rat
  it_cost :: rat

definition running :: "(payslip \<Rightarrow> jsnum) \<Rightarrow> payslip list \<Rightarrow> rat" where
  "running f rows = fold (\<lambda>s t. round2 (t + num_val (f s))) rows 0"

definition sum_items :: "payslip list \<Rightarrow> item_totals" where
  "sum_items rows =
     \<lparr>it_gross = running ps_gross rows, it_taxable = running ps_taxable rows, it_paye = running ps_paye rows,
      it_nssf = running ps_nssf rows, it_employer = running ps_employer_nssf rows, it_lst = running ps_lst rows,
      it_loans = running ps_loans rows, it_advances = running ps_advances rows, it_other = running ps_other rows,
      it_deductions = running ps_total_deductions rows, it_net = running ps_net rows,
      it_cost = round2 (running ps_gross rows + running ps_employer_nssf rows)\<rparr>"

definition previous_comparable_run :: "ctx \<Rightarrow> payroll_run \<Rightarrow> payroll_db \<Rightarrow> payroll_run option" where
  "previous_comparable_run c r db =
     limit1 (\<lambda>x. (- run_end x, - int (run_id x)))
       (filter (\<lambda>x. own_company c (run_tenant x) (run_company x) \<and> run_id x \<noteq> run_id r \<and> run_type x = run_type r
                  \<and> run_end x < run_start r \<and> run_status x \<notin> {R_VOID, R_CANCELLED}) (db_runs db))"

subsection \<open>Simulation\<close>

record run_difference =
  rd_run :: row_id
  rd_gross :: rat
  rd_deductions :: rat
  rd_net :: rat

record simulation =
  sm_headcount :: nat
  sm_totals :: item_totals
  sm_previous :: "run_difference option"
  sm_lines :: "payslip list"

definition difference :: "item_totals \<Rightarrow> payroll_run \<Rightarrow> run_difference" where
  "difference t p =
     \<lparr>rd_run = run_id p, rd_gross = round2 (it_gross t - num_val (run_gross p)),
      rd_deductions = round2 (it_deductions t - num_val (run_deductions p)),
      rd_net = round2 (it_net t - num_val (run_net p))\<rparr>"

text \<open>The savepoint is rolled back on both paths, so only the value leaves the function.\<close>

definition simulate_payroll :: "ctx \<Rightarrow> date \<Rightarrow> int \<Rightarrow> row_id \<Rightarrow> payroll_db \<Rightarrow> (simulation \<times> payroll_db) result" where
  "simulate_payroll c today year payroll db =
     (case find_run c payroll db of
        None \<Rightarrow> Inl (NotFound ''Payroll not found'')
      | Some r \<Rightarrow>
          if run_status r \<notin> {R_DRAFT, R_SUBMITTED}
          then Inl (Conflict ''Simulation is only available before approval'')
          else rbind (calculate_payroll c today year payroll db) (\<lambda>(_, p).
            (let rows = run_items payroll p; t = sum_items rows in
             Inr (\<lparr>sm_headcount = length rows, sm_totals = t,
                    sm_previous = map_option (difference t) (previous_comparable_run c r db), sm_lines = rows\<rparr>, db))))"

subsection \<open>Variance\<close>

record dept_bucket =
  bk_dept :: "row_id option"
  bk_name :: string
  bk_heads :: nat
  bk_gross :: rat
  bk_net :: rat
  bk_paye :: rat
  bk_nssf :: rat

definition empty_bucket :: "(row_id \<times> string) option \<Rightarrow> dept_bucket" where
  "empty_bucket d = \<lparr>bk_dept = map_option fst d, bk_name = (case d of None \<Rightarrow> ''Unassigned'' | Some (_, n) \<Rightarrow> n),
     bk_heads = 0, bk_gross = 0, bk_net = 0, bk_paye = 0, bk_nssf = 0\<rparr>"

definition add_slip :: "payslip \<Rightarrow> dept_bucket \<Rightarrow> dept_bucket" where
  "add_slip s b = b\<lparr>bk_heads := bk_heads b + 1, bk_gross := round2 (bk_gross b + num_val (ps_gross s)),
     bk_net := round2 (bk_net b + num_val (ps_net s)), bk_paye := round2 (bk_paye b + num_val (ps_paye s)),
     bk_nssf := round2 (bk_nssf b + num_val (ps_nssf s))\<rparr>"

text \<open>The \<open>Map\<close> in the order of first use; a bucket keeps the name of its first line.\<close>

fun put_slip :: "(row_id \<times> string) option \<Rightarrow> payslip \<Rightarrow> dept_bucket list \<Rightarrow> dept_bucket list" where
  "put_slip d s [] = [add_slip s (empty_bucket d)]"
| "put_slip d s (b # bs) = (if bk_dept b = map_option fst d then add_slip s b # bs else b # put_slip d s bs)"

definition by_department :: "(row_id \<Rightarrow> (row_id \<times> string) option) \<Rightarrow> payslip list \<Rightarrow> dept_bucket list" where
  "by_department department rows = fold (\<lambda>s. put_slip (department (ps_employee s)) s) rows []"

record change =
  cg_current :: rat
  cg_previous :: rat
  cg_change :: rat
  cg_pct :: "rat option"

definition delta :: "rat \<Rightarrow> rat \<Rightarrow> change" where
  "delta cur prev =
     \<lparr>cg_current = cur, cg_previous = prev, cg_change = round2 (cur - prev),
      cg_pct = (if prev = 0 then (if cur = 0 then Some 0 else None) else Some (round2 ((cur - prev) / prev * 100)))\<rparr>"

definition variance_measures :: "(string \<times> (item_totals \<Rightarrow> rat)) list" where
  "variance_measures =
     [(''gross'', it_gross), (''taxable'', it_taxable), (''paye'', it_paye), (''nssf'', it_nssf),
      (''employerNssf'', it_employer), (''lst'', it_lst), (''loans'', it_loans), (''advances'', it_advances),
      (''otherDeductions'', it_other), (''deductions'', it_deductions), (''net'', it_net), (''employerCost'', it_cost)]"

definition material :: "rat \<Rightarrow> change \<Rightarrow> bool" where
  "material threshold m =
     (if cg_previous m = 0 \<and> cg_current m = 0 then False
      else if cg_previous m = 0 then True
      else case cg_pct m of None \<Rightarrow> False | Some q \<Rightarrow> threshold \<le> \<bar>q\<bar>)"

record department_row =
  dr_dept :: "row_id option"
  dr_name :: string
  dr_heads :: nat
  dr_heads_before :: nat
  dr_change :: change

definition find_bucket :: "row_id option \<Rightarrow> dept_bucket list \<Rightarrow> dept_bucket option" where
  "find_bucket k bs = find (\<lambda>b. bk_dept b = k) bs"

definition department_rows :: "dept_bucket list \<Rightarrow> dept_bucket list \<Rightarrow> department_row list" where
  "department_rows cur prev =
     map (\<lambda>k.
       (let c = find_bucket k cur; p = find_bucket k prev;
            num = (\<lambda>f b. case b of None \<Rightarrow> 0 | Some x \<Rightarrow> f x)
        in \<lparr>dr_dept = k,
            dr_name = (case c of Some b \<Rightarrow> bk_name b | None \<Rightarrow> case p of Some b \<Rightarrow> bk_name b | None \<Rightarrow> ''Unassigned''),
            dr_heads = (case c of None \<Rightarrow> 0 | Some b \<Rightarrow> bk_heads b),
            dr_heads_before = (case p of None \<Rightarrow> 0 | Some b \<Rightarrow> bk_heads b),
            dr_change = delta (num bk_gross c) (num bk_gross p)\<rparr>))
       (map bk_dept cur @ filter (\<lambda>k. k \<notin> set (map bk_dept cur)) (map bk_dept prev))"

text \<open>Without a previous run the report lists the plain buckets.\<close>

record variance_report =
  vp_previous :: "row_id option"
  vp_headcount :: change
  vp_measures :: "(string \<times> change) list"
  vp_departments :: "dept_bucket list + department_row list"
  vp_material :: "(string \<times> change) list"

definition payroll_variance_report ::
  "ctx \<Rightarrow> (row_id \<Rightarrow> (row_id \<times> string) option) \<Rightarrow> rat option \<Rightarrow> row_id \<Rightarrow> payroll_db \<Rightarrow> variance_report result" where
  "payroll_variance_report c department threshold payroll db =
     (case find_run c payroll db of
        None \<Rightarrow> Inl (NotFound ''Payroll not found'')
      | Some r \<Rightarrow>
          (let rows = run_items payroll db; pct = the_default 10 threshold in
           case previous_comparable_run c r db of
             None \<Rightarrow>
               Inr \<lparr>vp_previous = None, vp_headcount = delta (of_nat (length rows)) 0, vp_measures = [],
                    vp_departments = Inl (by_department department rows), vp_material = []\<rparr>
           | Some p \<Rightarrow>
               (let before = run_items (run_id p) db;
                    cur = sum_items rows; prev = sum_items before;
                    heads = delta (of_nat (length rows)) (of_nat (length before));
                    ms = map (\<lambda>(k, f). (k, delta (f cur) (f prev))) variance_measures
                in Inr \<lparr>vp_previous = Some (run_id p), vp_headcount = heads, vp_measures = ms,
                        vp_departments = Inr (department_rows (by_department department rows) (by_department department before)),
                        vp_material = filter (\<lambda>(k, m). material pct m)
                          ((''headcount'', heads) # filter (\<lambda>(k, m). k \<noteq> ''employerCost'') ms)\<rparr>)))"

subsection \<open>Pipeline and command centre\<close>

definition payroll_workflow :: "run_status list" where
  "payroll_workflow = [R_DRAFT, R_VALIDATING, R_SUBMITTED, R_REVIEW, R_PENDING_APPROVAL, R_APPROVED, R_RELEASED,
     R_PAID, R_POSTED, R_CLOSED]"

datatype step_state = S_DONE | S_CURRENT | S_PENDING

fun find_index :: "'a \<Rightarrow> 'a list \<Rightarrow> nat option" where
  "find_index x [] = None"
| "find_index x (y # ys) = (if y = x then Some 0 else map_option Suc (find_index x ys))"

definition pipeline_for :: "run_status \<Rightarrow> (run_status \<times> step_state) list" where
  "pipeline_for st =
     map (\<lambda>i. (payroll_workflow ! i,
       case find_index st payroll_workflow of
         None \<Rightarrow> if st = R_CLOSED then S_DONE else S_PENDING
       | Some k \<Rightarrow> if i < k then S_DONE else if i = k then S_CURRENT else S_PENDING)) [0..<length payroll_workflow]"

text \<open>\<open>employerCost\<close> of the command centre.\<close>

definition command_centre_cost :: "payslip list \<Rightarrow> rat" where
  "command_centre_cost rows =
     (let num = (\<lambda>f. round2 (\<Sum>s\<leftarrow>rows. num_val (f s)))
      in round2 (num ps_gross + num ps_employer_nssf + num ps_lst))"

subsection \<open>Sums\<close>

lemma running_cents:
  assumes "list_all (\<lambda>s. cents (num_val (f s))) rows"
  shows "running f rows = (\<Sum>s\<leftarrow>rows. num_val (f s))"
proof -
  have "fold (\<lambda>s t. round2 (t + num_val (f s))) rows a = a + (\<Sum>s\<leftarrow>rows. num_val (f s))" if "cents a" for a
    using that assms by (induction rows arbitrary: a) (simp_all add: cents_add add.assoc)
  then show ?thesis by (simp add: running_def)
qed

definition bucket_total :: "(dept_bucket \<Rightarrow> rat) \<Rightarrow> dept_bucket list \<Rightarrow> rat" where
  "bucket_total g bs = (\<Sum>b\<leftarrow>bs. g b)"

definition gross_cents :: "dept_bucket list \<Rightarrow> bool" where
  "gross_cents bs = list_all (\<lambda>b. cents (bk_gross b)) bs"

lemma put_slip_sums:
  assumes "gross_cents bs" and "cents (num_val (ps_gross s))"
  shows "gross_cents (put_slip d s bs) \<and> bucket_total bk_gross (put_slip d s bs) = bucket_total bk_gross bs + num_val (ps_gross s)
     \<and> (\<Sum>b\<leftarrow>put_slip d s bs. bk_heads b) = (\<Sum>b\<leftarrow>bs. bk_heads b) + 1"
  using assms
  by (induction d s bs rule: put_slip.induct)
    (auto simp: gross_cents_def bucket_total_def add_slip_def empty_bucket_def cents_add)

lemma put_slip_keys:
  "map bk_dept (put_slip d s bs) =
     map bk_dept bs @ (if map_option fst d \<in> set (map bk_dept bs) then [] else [map_option fst d])"
  by (induction d s bs rule: put_slip.induct) (auto simp: add_slip_def empty_bucket_def)

lemma by_department_sums:
  assumes "list_all (\<lambda>s. cents (num_val (ps_gross s))) rows" and "bs = by_department department rows"
  shows "distinct (map bk_dept bs)" and "gross_cents bs"
    and "bucket_total bk_gross bs = (\<Sum>s\<leftarrow>rows. num_val (ps_gross s))" and "(\<Sum>b\<leftarrow>bs. bk_heads b) = length rows"
proof -
  have "distinct (map bk_dept (fold (\<lambda>s. put_slip (department (ps_employee s)) s) rows b0))
      \<and> gross_cents (fold (\<lambda>s. put_slip (department (ps_employee s)) s) rows b0)
      \<and> bucket_total bk_gross (fold (\<lambda>s. put_slip (department (ps_employee s)) s) rows b0) =
          bucket_total bk_gross b0 + (\<Sum>s\<leftarrow>rows. num_val (ps_gross s))
      \<and> (\<Sum>b\<leftarrow>fold (\<lambda>s. put_slip (department (ps_employee s)) s) rows b0. bk_heads b) = (\<Sum>b\<leftarrow>b0. bk_heads b) + length rows"
    if "distinct (map bk_dept b0)" "gross_cents b0" for b0
    using that assms(1)
  proof (induction rows arbitrary: b0)
    case (Cons s rows)
    have "distinct (map bk_dept (put_slip (department (ps_employee s)) s b0))"
      using Cons.prems(1) by (simp add: put_slip_keys)
    then show ?case
      using Cons.IH [of "put_slip (department (ps_employee s)) s b0"] Cons.prems put_slip_sums [of b0 s] by simp
  qed simp
  from this [of "[]"] show "distinct (map bk_dept bs)" "gross_cents bs"
    "bucket_total bk_gross bs = (\<Sum>s\<leftarrow>rows. num_val (ps_gross s))" "(\<Sum>b\<leftarrow>bs. bk_heads b) = length rows"
    by (simp_all add: assms(2) by_department_def gross_cents_def bucket_total_def)
qed

definition bucket_gross :: "row_id option \<Rightarrow> dept_bucket list \<Rightarrow> rat" where
  "bucket_gross k bs = (case find_bucket k bs of None \<Rightarrow> 0 | Some b \<Rightarrow> bk_gross b)"

lemma sum_list_point:
  assumes "distinct ks" and "x \<in> set ks"
  shows "(\<Sum>k\<leftarrow>ks. if k = x then a else h k) = a - h x + (\<Sum>k\<leftarrow>ks. h k :: rat)"
proof -
  have "(\<Sum>k\<leftarrow>ks. if k = x then a else h k) = (\<Sum>k\<leftarrow>ks. h k)" if "x \<notin> set ks" for ks
    using that by (induction ks) auto
  then show ?thesis using assms by (induction ks) auto
qed

lemma bucket_gross_total:
  assumes "distinct (map bk_dept bs)" and "distinct ks" and "set (map bk_dept bs) \<subseteq> set ks"
  shows "(\<Sum>k\<leftarrow>ks. bucket_gross k bs) = bucket_total bk_gross bs"
  using assms
proof (induction bs)
  case Nil
  then show ?case by (simp add: bucket_gross_def find_bucket_def bucket_total_def)
next
  case (Cons b bs)
  have "bucket_gross k (b # bs) = (if k = bk_dept b then bk_gross b else bucket_gross k bs)" for k
    by (simp add: bucket_gross_def find_bucket_def)
  moreover have "bucket_gross (bk_dept b) bs = 0"
  proof -
    have "find (\<lambda>x. bk_dept x = bk_dept b) bs = None"
      using Cons.prems(1) by (simp add: find_None_iff_mem) (metis imageI)
    then show ?thesis by (simp add: bucket_gross_def find_bucket_def)
  qed
  ultimately show ?case
    using Cons sum_list_point [of ks "bk_dept b" "bk_gross b" "\<lambda>k. bucket_gross k bs"]
    by (simp add: bucket_total_def)
qed

lemma bucket_gross_cents: "gross_cents bs \<Longrightarrow> cents (bucket_gross k bs)"
  by (auto simp: bucket_gross_def find_bucket_def gross_cents_def list_all_iff split: option.splits dest: find_Some_iff_mem)

lemma department_rows_sums:
  assumes cur: "distinct (map bk_dept cur)" "gross_cents cur" and prev: "distinct (map bk_dept prev)" "gross_cents prev"
    and rows: "rows = department_rows cur prev"
  shows "distinct (map dr_dept rows)"
    and "(\<Sum>d\<leftarrow>rows. cg_change (dr_change d)) = bucket_total bk_gross cur - bucket_total bk_gross prev"
proof -
  let ?ks = "map bk_dept cur @ filter (\<lambda>k. k \<notin> set (map bk_dept cur)) (map bk_dept prev)"
  have keys: "map dr_dept rows = ?ks" by (simp add: rows department_rows_def Let_def o_def)
  have dist: "distinct ?ks" using cur(1) prev(1) by (auto simp: distinct_filter)
  then show "distinct (map dr_dept rows)" by (simp only: keys)
  have change: "map (\<lambda>d. cg_change (dr_change d)) rows = map (\<lambda>k. bucket_gross k cur - bucket_gross k prev) ?ks"
    using bucket_gross_cents [OF cur(2)] bucket_gross_cents [OF prev(2)]
    by (simp add: rows department_rows_def Let_def o_def delta_def bucket_gross_def [symmetric] cents_diff)
  have "(\<Sum>k\<leftarrow>?ks. bucket_gross k cur - bucket_gross k prev) =
      (\<Sum>k\<leftarrow>?ks. bucket_gross k cur) - (\<Sum>k\<leftarrow>?ks. bucket_gross k prev)"
    by (rule sum_list_subtractf)
  also have "\<dots> = bucket_total bk_gross cur - bucket_total bk_gross prev"
  proof -
    have sub: "set (map bk_dept cur) \<subseteq> set ?ks" "set (map bk_dept prev) \<subseteq> set ?ks" by auto
    show ?thesis
      by (simp only: bucket_gross_total [OF cur(1) dist sub(1)] bucket_gross_total [OF prev(1) dist sub(2)])
  qed
  finally show "(\<Sum>d\<leftarrow>rows. cg_change (dr_change d)) = bucket_total bk_gross cur - bucket_total bk_gross prev"
    by (simp only: change)
qed

subsection \<open>Properties\<close>

text \<open>
  The department view of the variance report accounts for the whole movement: every department
  appears once, and the changes of the departments add up to the change of gross pay between the
  two runs, which is also the change that the report states for the measure.
\<close>

theorem variance_accounts_for_change:
  assumes rep: "payroll_variance_report c department threshold payroll db = Inr report" and q: "vp_previous report = Some q"
    and exact: "list_all (\<lambda>s. cents (num_val (ps_gross s))) (run_items payroll db)"
      "list_all (\<lambda>s. cents (num_val (ps_gross s))) (run_items q db)"
  shows "\<exists>rows m. vp_departments report = Inr rows \<and> distinct (map dr_dept rows)
     \<and> (\<Sum>d\<leftarrow>rows. cg_change (dr_change d)) =
         (\<Sum>s\<leftarrow>run_items payroll db. num_val (ps_gross s)) - (\<Sum>s\<leftarrow>run_items q db. num_val (ps_gross s))
     \<and> (''gross'', m) \<in> set (vp_measures report) \<and> cg_change m = (\<Sum>d\<leftarrow>rows. cg_change (dr_change d))"
proof -
  let ?rows = "department_rows (by_department department (run_items payroll db)) (by_department department (run_items q db))"
  let ?m = "delta (running ps_gross (run_items payroll db)) (running ps_gross (run_items q db))"
  note cur = by_department_sums [OF exact(1) refl, of department] and prev = by_department_sums [OF exact(2) refl, of department]
  have depts: "vp_departments report = Inr ?rows" and m: "(''gross'', ?m) \<in> set (vp_measures report)"
    using rep q
    by (auto simp: payroll_variance_report_def Let_def variance_measures_def sum_items_def split: option.splits)
  note sums = department_rows_sums [OF cur(1,2) prev(1,2) refl]
  have "cents (\<Sum>s\<leftarrow>run_items payroll db. num_val (ps_gross s))" "cents (\<Sum>s\<leftarrow>run_items q db. num_val (ps_gross s))"
    using exact by (simp_all add: cents_sum)
  then have "cg_change ?m = (\<Sum>d\<leftarrow>?rows. cg_change (dr_change d))"
    using sums(2) cur(3) prev(3) by (simp add: delta_def running_cents [OF exact(1)] running_cents [OF exact(2)] cents_diff)
  then show ?thesis using depts m sums cur(3) prev(3) by auto
qed

definition report_db :: payroll_db where
  "report_db = empty_payroll_db
     \<lparr>db_runs := [sample_run\<lparr>run_id := 6, run_start := 20423, run_end := 20453, run_status := R_CLOSED\<rparr>, sample_run],
      db_items := [sample_slip\<lparr>ps_payroll := 6, ps_gross := Num 900000\<rparr>, sample_slip]\<rparr>"

theorem variance_accounts_for_change_witness:
  "\<exists>report rows. payroll_variance_report sample_ctx (\<lambda>_. None) None 7 report_db = Inr report
     \<and> vp_departments report = Inr rows \<and> (\<Sum>d\<leftarrow>rows. cg_change (dr_change d)) = 100000"
proof -
  have "case payroll_variance_report sample_ctx (\<lambda>_. None) None 7 report_db of
      Inl _ \<Rightarrow> False | Inr report \<Rightarrow> vp_previous report = Some 6" by code_simp
  then obtain report where report: "payroll_variance_report sample_ctx (\<lambda>_. None) None 7 report_db = Inr report"
    "vp_previous report = Some 6" by (auto split: sum.splits)
  have exact: "list_all (\<lambda>s. cents (num_val (ps_gross s))) (run_items 7 report_db)"
    "list_all (\<lambda>s. cents (num_val (ps_gross s))) (run_items 6 report_db)"
    by (simp_all add: run_items_def report_db_def sample_slip_def round_eval)
  have "(\<Sum>s\<leftarrow>run_items 7 report_db. num_val (ps_gross s)) - (\<Sum>s\<leftarrow>run_items 6 report_db. num_val (ps_gross s)) = 100000"
    by (simp add: run_items_def report_db_def sample_slip_def)
  then show ?thesis using variance_accounts_for_change [OF report exact] report(1) by auto
qed

text \<open>
  C20. A simulation shows what the engine would store. It changes nothing; it fails exactly as the
  calculation would; and otherwise its lines are the payslips that a calculation of the same
  database writes and, when their figures are finite, its gross, deduction and net totals are the
  totals that the calculation stores on the run.
\<close>

theorem simulation_is_faithful:
  assumes run: "find_run c payroll db = Some r" "run_status r \<in> {R_DRAFT, R_SUBMITTED}"
  shows "case calculate_payroll c today year payroll db of
      Inl e \<Rightarrow> simulate_payroll c today year payroll db = Inl e
    | Inr (res, db') \<Rightarrow>
        (\<exists>sim r'. simulate_payroll c today year payroll db = Inr (sim, db) \<and> sm_lines sim = run_items payroll db'
          \<and> find_run c payroll db' = Some r' \<and> sm_headcount sim = length (eligible_staff c r db)
          \<and> (list_all finite_slip (run_items payroll db') \<longrightarrow>
               run_gross r' = Num (it_gross (sm_totals sim)) \<and> run_deductions r' = Num (it_deductions (sm_totals sim))
               \<and> run_net r' = Num (it_net (sm_totals sim))))"
proof (cases "calculate_payroll c today year payroll db")
  case (Inl e)
  then show ?thesis using run by (simp add: simulate_payroll_def)
next
  case (Inr x)
  obtain res db' where x: "x = (res, db')" by (cases x)
  let ?items = "run_items payroll db'"
  obtain r' where r': "find_run c payroll db' = Some r'" "run_gross r' = js_total (map ps_gross ?items)"
      "run_deductions r' = js_total (map ps_total_deductions ?items)" "run_net r' = js_total (map ps_net ?items)"
    and staff: "map ps_employee ?items = map em_id (eligible_staff c r db)" and sound: "list_all (sound_slip payroll) ?items"
    using Inr [unfolded x] by (rule calculate_payroll_Inr) (use run(1) in auto)
  have totals: "js_total (map ps_gross ?items) = Num (running ps_gross ?items)
      \<and> js_total (map ps_total_deductions ?items) = Num (running ps_total_deductions ?items)
      \<and> js_total (map ps_net ?items) = Num (running ps_net ?items)" if fin: "list_all finite_slip ?items"
  proof -
    have exact: "s \<in> set ?items \<Longrightarrow> ps_gross s = Num (num_val (ps_gross s)) \<and> cents (num_val (ps_gross s))"
      "s \<in> set ?items \<Longrightarrow> ps_total_deductions s = Num (num_val (ps_total_deductions s)) \<and> cents (num_val (ps_total_deductions s))"
      "s \<in> set ?items \<Longrightarrow> ps_net s = Num (num_val (ps_net s)) \<and> cents (num_val (ps_net s))" for s
      using exact_slip [of payroll s] sound fin by (auto simp: list_all_iff)
    show ?thesis
      using exact by (simp add: running_cents list_all_iff js_total_finite [where g = "\<lambda>s. num_val (ps_gross s)"]
          js_total_finite [where g = "\<lambda>s. num_val (ps_total_deductions s)"] js_total_finite [where g = "\<lambda>s. num_val (ps_net s)"])
  qed
  have "length ?items = length (eligible_staff c r db)" using staff by (metis length_map)
  then show ?thesis
    using run Inr r' totals by (auto simp: x simulate_payroll_def Let_def sum_items_def)
qed

theorem simulation_is_faithful_witness:
  "\<exists>sim. simulate_payroll sample_ctx 20500 2026 7 sample_calc_db = Inr (sim, sample_calc_db)
     \<and> map sample_view (sm_lines sim) = [[Num 1000000, Num 187000, Num 50000, Num 0, Num 50000, Num 713000]]"
proof -
  obtain res db' s where calc: "calculate_payroll sample_ctx 20500 2026 7 sample_calc_db = Inr (res, db')"
    "run_items 7 db' = [s]" "sample_view s = [Num 1000000, Num 187000, Num 50000, Num 0, Num 50000, Num 713000]"
    by (rule sample_calculation)
  have run: "find_run sample_ctx 7 sample_calc_db = Some sample_run" by code_simp
  have "run_status sample_run \<in> {R_DRAFT, R_SUBMITTED}" by (simp add: sample_run_def)
  from simulation_is_faithful [OF run this, of 20500 2026] show ?thesis
    using calc by auto
qed

text \<open>The command centre counts LST into the employer cost; the totals of the run do not.\<close>

lemma command_centre_cost_differs:
  assumes "list_all exact_slip_columns rows"
  shows "command_centre_cost rows = it_cost (sum_items rows) + (\<Sum>s\<leftarrow>rows. num_val (ps_lst s))"
proof -
  note c = exact_columns_sum [OF assms]
  have "cents (\<Sum>s\<leftarrow>rows. num_val (ps_gross s))" "cents (\<Sum>s\<leftarrow>rows. num_val (ps_employer_nssf s))"
    "cents (\<Sum>s\<leftarrow>rows. num_val (ps_lst s))" using c(2) by simp_all
  moreover have "running ps_gross rows = (\<Sum>s\<leftarrow>rows. num_val (ps_gross s))"
    "running ps_employer_nssf rows = (\<Sum>s\<leftarrow>rows. num_val (ps_employer_nssf s))"
    using c(1) by (simp_all add: running_cents)
  ultimately show ?thesis by (simp add: command_centre_cost_def sum_items_def cents_add)
qed

end
