(* ===== verification/Inventory.thy ===== *)
theory Inventory
  imports Audit_Trail
begin

text \<open>
  Stock, \<^verbatim>\<open>apps/api/src/services/inventory.ts\<close>, with the engine it calls, the SQL functions
  \<open>post_inventory_move\<close>, \<open>reserve_stock\<close> and \<open>release_reservation\<close> of
  \<^verbatim>\<open>packages/db/migrations/0005_inventory.sql\<close>, and the dispatch gate of
  \<^verbatim>\<open>apps/api/src/services/iso/gates.ts\<close>. Quantities and costs are \<open>NUMERIC(18,4)\<close>
  columns: a value rounds to four decimals when it is stored. Document numbers come from a database
  sequence and are arguments. Foreign keys and the queries that only list rows are not modelled.
\<close>

subsection \<open>State\<close>

record stock_row =
  so_company :: row_id
  so_tenant :: row_id
  so_product :: row_id
  so_batch :: "row_id option"
  so_warehouse :: row_id
  so_bin :: "row_id option"
  so_quantity :: rat
  so_reserved :: rat
  so_avg :: rat
  so_method :: string

record stock_layer =
  ly_id :: row_id
  ly_product :: row_id
  ly_batch :: "row_id option"
  ly_warehouse :: row_id
  ly_date :: date
  ly_in :: rat
  ly_remaining :: rat
  ly_cost :: rat
  ly_source :: string

record product_batch =
  bt_id :: row_id
  bt_quantity :: rat

text \<open>\<open>MoveInput\<close>; the absent fields are \<open>None\<close>, the defaults of cost and valuation are filled in.\<close>

record move_input =
  mi_type :: string
  mi_product :: row_id
  mi_batch :: "row_id option"
  mi_warehouse :: "row_id option"
  mi_bin :: "row_id option"
  mi_from_warehouse :: "row_id option"
  mi_from_bin :: "row_id option"
  mi_to_warehouse :: "row_id option"
  mi_to_bin :: "row_id option"
  mi_quantity :: rat
  mi_cost :: rat
  mi_ref :: "(string \<times> row_id \<times> string) option"
  mi_qr :: "row_id option"
  mi_work_order :: "row_id option"
  mi_reason :: "string option"
  mi_method :: string

text \<open>A row of \<open>inventory_movements\<close>: what was asked for, with the stored quantity and total.\<close>

record movement =
  mv_id :: row_id
  mv_company :: row_id
  mv_tenant :: row_id
  mv_user :: "row_id option"
  mv_move :: move_input
  mv_quantity :: rat
  mv_cost :: rat
  mv_total :: rat

record reservation =
  rv_id :: row_id
  rv_product :: row_id
  rv_batch :: "row_id option"
  rv_warehouse :: "row_id option"
  rv_quantity :: rat
  rv_ref :: "string \<times> row_id"
  rv_status :: string

record adjustment_item =
  at_product :: row_id
  at_batch :: "row_id option"
  at_warehouse :: row_id
  at_bin :: "row_id option"
  at_counted :: "rat option"
  at_expected :: rat
  at_variance :: rat
  at_cost :: rat
  at_reason :: "string option"

record adjustment =
  aj_id :: row_id
  aj_tenant :: row_id
  aj_no :: string
  aj_type :: string
  aj_reason :: string
  aj_status :: string
  aj_created_by :: "row_id option"
  aj_posted_by :: "row_id option"
  aj_items :: "adjustment_item list"

record transfer_item =
  ti_product :: row_id
  ti_batch :: "row_id option"
  ti_quantity :: rat
  ti_cost :: rat

record stock_transfer =
  tf_id :: row_id
  tf_tenant :: row_id
  tf_no :: string
  tf_from :: row_id
  tf_to :: row_id
  tf_notes :: "string option"
  tf_status :: string
  tf_created_by :: "row_id option"
  tf_items :: "transfer_item list"

record iso_entry =
  ie_id :: row_id
  ie_tenant :: row_id
  ie_type :: string
  ie_status :: string
  ie_table :: string
  ie_subject :: row_id
  ie_payload :: jval

record inv_db =
  iv_stock :: "stock_row list"
  iv_layers :: "stock_layer list"
  iv_batches :: "product_batch list"
  iv_movements :: "movement list"
  iv_reservations :: "reservation list"
  iv_adjustments :: "adjustment list"
  iv_transfers :: "stock_transfer list"
  iv_iso :: "iso_entry list"
  iv_next :: row_id

definition RAW_MATERIAL_TYPES :: "string list" where
  "RAW_MATERIAL_TYPES = [''JUMBO_ROLL'', ''PAPER_BOBBIN'', ''PACKAGING'']"

definition CONSUMABLE_TYPES :: "string list" where
  "CONSUMABLE_TYPES = [''CONSUMABLE'', ''SPARE_PART'']"

text \<open>Storing a value in a \<open>NUMERIC(18,4)\<close> column: halves go away from zero.\<close>

definition store4 :: "rat \<Rightarrow> rat" where
  "store4 x = (if 0 \<le> x then round4 x else - round4 (- x))"

text \<open>\<open>a ?? b\<close> and \<open>COALESCE(a, b)\<close>; \<open>x ? Number(x) : null\<close> on an id.\<close>

definition or_else :: "'a option \<Rightarrow> 'a option \<Rightarrow> 'a option" where
  "or_else a b = (case a of None \<Rightarrow> b | Some _ \<Rightarrow> a)"

definition nonzero_id :: "row_id option \<Rightarrow> row_id option" where
  "nonzero_id x = (if x = Some 0 then None else x)"

subsection \<open>The dispatch gate (iso/gates.ts)\<close>

definition OUTBOUND :: "string list" where
  "OUTBOUND = [''DISPTACH'', ''DELIVERY'']"

text \<open>\<open>ORDER BY id DESC LIMIT 1\<close> of the current entries of one kind for a product.\<close>

definition latest_entry :: "ctx \<Rightarrow> string \<Rightarrow> row_id \<Rightarrow> iso_entry list \<Rightarrow> iso_entry option" where
  "latest_entry c kind product rows =
     limit1 (\<lambda>e. - int (ie_id e))
       (filter (\<lambda>e. cx_tenant c = Some (ie_tenant e) \<and> ie_type e = kind \<and> ie_status e = ''CURRENT''
                  \<and> ie_table e = ''products'' \<and> ie_subject e = product) rows)"

definition assert_preservation :: "ctx \<Rightarrow> row_id \<Rightarrow> iso_entry list \<Rightarrow> unit result" where
  "assert_preservation c product rows =
     (case latest_entry c ''preservation_limit'' product rows of
        None \<Rightarrow> Inr ()
      | Some bound \<Rightarrow>
          (case latest_entry c ''preservation_reading'' product rows of
             None \<Rightarrow> Inl (BadRequest ''A preservation limit is in force and this product has no current reading.'')
           | Some reading \<Rightarrow>
               (let x = to_number (jget (ie_payload reading) ''value'');
                    lo = to_number (jget (ie_payload bound) ''min'');
                    hi = to_number (jget (ie_payload bound) ''max'')
                in if \<not> js_finite x \<or> js_lt x lo \<or> js_lt hi x
                   then Inl (BadRequest ''Preservation reading is outside its limits.'')
                   else Inr ())))"

definition assert_outbound_allowed :: "ctx \<Rightarrow> string \<Rightarrow> row_id \<Rightarrow> iso_entry list \<Rightarrow> unit result" where
  "assert_outbound_allowed c kind product rows =
     (if kind \<notin> set OUTBOUND then Inr () else assert_preservation c product rows)"

subsection \<open>The movement engine (0005\_inventory.sql)\<close>

definition movement_types :: "string list" where
  "movement_types =
     [''RECEIPT'', ''ISSUE'', ''TRANSFER_IN'', ''TRANSFER_OUT'', ''ADJUSTMENT'', ''SCRAP'', ''RETURN_IN'', ''RETURN_OUT'',
      ''PRODUCTION_ISSUE'', ''PRODUCTION_RETURN'', ''PRODUCTION_OUTPUT'', ''PICK'', ''PUT_AWAY'', ''DISPTACH'',
      ''DELIVERY'', ''CONSUMPTION'']"

definition inbound :: "string \<Rightarrow> bool" where
  "inbound kind \<longleftrightarrow> kind \<in> set [''RECEIPT'', ''TRANSFER_IN'', ''PRODUCTION_OUTPUT'', ''RETURN_IN'', ''PUT_AWAY'', ''ADJUSTMENT'']"

definition leg_warehouse :: "move_input \<Rightarrow> row_id option" where
  "leg_warehouse m = or_else (mi_warehouse m) (if inbound (mi_type m) then mi_to_warehouse m else mi_from_warehouse m)"

definition leg_bin :: "move_input \<Rightarrow> row_id option" where
  "leg_bin m = or_else (mi_bin m) (if inbound (mi_type m) then mi_to_bin m else mi_from_bin m)"

text \<open>A place of stock: product, batch, warehouse and bin; absent ids match absent ids.\<close>

type_synonym place = "row_id \<times> row_id option \<times> row_id \<times> row_id option"

definition row_place :: "stock_row \<Rightarrow> place" where
  "row_place r = (so_product r, so_batch r, so_warehouse r, so_bin r)"

text \<open>
  The unique key of \<open>inventory\<close> is the place, but a \<open>UNIQUE\<close> constraint of PostgreSQL holds two
  \<open>NULL\<close>s for different: only a place with batch and bin can conflict.
\<close>

definition located :: "place \<Rightarrow> bool" where
  "located = (\<lambda>(_, batch, _, bin). batch \<noteq> None \<and> bin \<noteq> None)"

definition upsert_stock :: "(stock_row \<Rightarrow> stock_row) \<Rightarrow> stock_row \<Rightarrow> stock_row list \<Rightarrow> stock_row list" where
  "upsert_stock f new rows =
     (if located (row_place new) \<and> exists_where (\<lambda>r. row_place r = row_place new) rows
      then update_where (\<lambda>r. row_place r = row_place new) f rows
      else rows @ [new])"

definition add_weighted :: "rat \<Rightarrow> rat \<Rightarrow> stock_row \<Rightarrow> stock_row" where
  "add_weighted q cost r = r
     \<lparr>so_quantity := store4 (so_quantity r + q),
      so_avg := store4 (if so_quantity r \<le> 0 then cost
                        else (so_avg r * so_quantity r + q * cost) / (so_quantity r + q))\<rparr>"

definition add_plain :: "rat \<Rightarrow> stock_row \<Rightarrow> stock_row" where
  "add_plain q r = r\<lparr>so_quantity := store4 (so_quantity r + q)\<rparr>"

definition issue_stock :: "place \<Rightarrow> rat \<Rightarrow> stock_row list \<Rightarrow> stock_row list result" where
  "issue_stock k q rows =
     (if exists_where (\<lambda>r. row_place r = k \<and> 0 \<le> so_quantity r - q) rows
      then Inr (update_where (\<lambda>r. row_place r = k \<and> 0 \<le> so_quantity r - q)
                  (\<lambda>r. r\<lparr>so_quantity := store4 (so_quantity r - q)\<rparr>) rows)
      else Inl (BadRequest ''Insufficient inventory on hand''))"

definition move_batch :: "row_id option \<Rightarrow> rat \<Rightarrow> product_batch list \<Rightarrow> product_batch list result" where
  "move_batch batch delta rows =
     (case batch of
        None \<Rightarrow> Inr rows
      | Some b \<Rightarrow>
          if exists_where (\<lambda>r. bt_id r = b \<and> 0 \<le> bt_quantity r + delta) rows
          then Inr (update_where (\<lambda>r. bt_id r = b \<and> 0 \<le> bt_quantity r + delta)
                      (\<lambda>r. r\<lparr>bt_quantity := store4 (bt_quantity r + delta)\<rparr>) rows)
          else Inl (BadRequest ''Insufficient batch quantity''))"

text \<open>The cursor over the open layers, oldest first, and the loop that empties them.\<close>

definition open_layers :: "place \<Rightarrow> stock_layer list \<Rightarrow> stock_layer list" where
  "open_layers = (\<lambda>(product, batch, warehouse, _) rows.
     sort_key (\<lambda>l. (ly_date l, ly_id l))
       (filter (\<lambda>l. ly_product l = product \<and> ly_warehouse l = warehouse \<and> ly_batch l = batch \<and> 0 < ly_remaining l) rows))"

definition set_remaining :: "row_id \<Rightarrow> rat \<Rightarrow> stock_layer list \<Rightarrow> stock_layer list" where
  "set_remaining i q rows = update_where (\<lambda>l. ly_id l = i) (\<lambda>l. l\<lparr>ly_remaining := store4 q\<rparr>) rows"

fun consume_layers :: "rat \<Rightarrow> stock_layer list \<Rightarrow> stock_layer list \<Rightarrow> rat \<times> stock_layer list" where
  "consume_layers left [] rows = (left, rows)"
| "consume_layers left (l # ls) rows =
     (if left \<le> 0 then (left, rows)
      else if left \<le> ly_remaining l
      then consume_layers 0 ls (set_remaining (ly_id l) (ly_remaining l - left) rows)
      else consume_layers (left - ly_remaining l) ls (set_remaining (ly_id l) 0 rows))"

definition new_stock :: "row_id \<Rightarrow> row_id \<Rightarrow> place \<Rightarrow> rat \<Rightarrow> rat \<Rightarrow> string \<Rightarrow> stock_row" where
  "new_stock company tenant k q cost method =
     (case k of (product, batch, warehouse, bin) \<Rightarrow>
        \<lparr>so_company = company, so_tenant = tenant, so_product = product, so_batch = batch, so_warehouse = warehouse,
         so_bin = bin, so_quantity = store4 q, so_reserved = 0, so_avg = store4 cost, so_method = method\<rparr>)"

definition move_weighted :: "row_id \<Rightarrow> row_id \<Rightarrow> place \<Rightarrow> move_input \<Rightarrow> inv_db \<Rightarrow> inv_db result" where
  "move_weighted company tenant k m db =
     (if inbound (mi_type m)
      then Inr (db\<lparr>iv_stock := upsert_stock (add_weighted (store4 (mi_quantity m)) (store4 (mi_cost m)))
                     (new_stock company tenant k (mi_quantity m) (mi_cost m) ''WEIGHTED_AVERAGE'') (iv_stock db)\<rparr>)
      else rbind (issue_stock k (mi_quantity m) (iv_stock db)) (\<lambda>rows. Inr (db\<lparr>iv_stock := rows\<rparr>)))"

definition move_fifo :: "row_id \<Rightarrow> row_id \<Rightarrow> date \<Rightarrow> place \<Rightarrow> move_input \<Rightarrow> inv_db \<Rightarrow> inv_db result" where
  "move_fifo company tenant today k m db =
     (if inbound (mi_type m)
      then Inr (db
        \<lparr>iv_layers := iv_layers db @
           [\<lparr>ly_id = iv_next db, ly_product = mi_product m, ly_batch = mi_batch m, ly_warehouse = fst (snd (snd k)),
             ly_date = today, ly_in = store4 (mi_quantity m), ly_remaining = store4 (mi_quantity m),
             ly_cost = store4 (mi_cost m), ly_source = mi_type m\<rparr>],
         iv_next := Suc (iv_next db),
         iv_stock := upsert_stock (add_plain (store4 (mi_quantity m)))
           (new_stock company tenant k (mi_quantity m) (mi_cost m) ''FIFO'') (iv_stock db)\<rparr>)
      else
        (case consume_layers (mi_quantity m) (open_layers k (iv_layers db)) (iv_layers db) of (left, layers) \<Rightarrow>
           if 0 < left then Inl (BadRequest ''Insufficient FIFO stock on hand'')
           else rbind (issue_stock k (mi_quantity m) (iv_stock db)) (\<lambda>rows.
                  Inr (db\<lparr>iv_layers := layers, iv_stock := rows\<rparr>))))"

text \<open>
  One leg of a movement. A value of \<open>valuationMethod\<close> other than the two known ones records the
  movement and moves no stock.
\<close>

definition record_movement :: "ctx \<Rightarrow> row_id \<Rightarrow> row_id \<Rightarrow> move_input \<Rightarrow> inv_db \<Rightarrow> inv_db" where
  "record_movement c company tenant m db = db
     \<lparr>iv_movements := iv_movements db @
        [\<lparr>mv_id = iv_next db, mv_company = company, mv_tenant = tenant, mv_user = cx_user c, mv_move = m,
          mv_quantity = store4 (mi_quantity m), mv_cost = store4 (mi_cost m),
          mv_total = store4 (mi_quantity m * mi_cost m)\<rparr>],
      iv_next := Suc (iv_next db)\<rparr>"

definition move_leg :: "ctx \<Rightarrow> date \<Rightarrow> move_input \<Rightarrow> inv_db \<Rightarrow> (row_id \<times> inv_db) result" where
  "move_leg c today m db =
     (if mi_quantity m \<le> 0 then Inl (BadRequest ''Quantity must be positive'')
      else case (cx_company c, cx_tenant c) of
        (Some company, Some tenant) \<Rightarrow>
          if mi_type m \<notin> set movement_types then Inl (Internal ''movement type check'')
          else (case leg_warehouse m of
              None \<Rightarrow> Inl (BadRequest ''Warehouse is required for movement'')
            | Some w \<Rightarrow>
                (let k = (mi_product m, mi_batch m, w, leg_bin m);
                     db1 = record_movement c company tenant m db;
                     delta = (if inbound (mi_type m) then mi_quantity m else - mi_quantity m)
                 in rbind (move_batch (mi_batch m) delta (iv_batches db1)) (\<lambda>batches.
                      (let db2 = db1\<lparr>iv_batches := batches\<rparr> in
                       rbind (if mi_method m = ''WEIGHTED_AVERAGE'' then move_weighted company tenant k m db2
                              else if mi_method m = ''FIFO'' then move_fifo company tenant today k m db2
                              else Inr db2) (\<lambda>db3. Inr (iv_next db, db3))))))
      | _ \<Rightarrow> Inl (Internal ''null company or tenant''))"

definition transfer_in :: "move_input \<Rightarrow> move_input" where
  "transfer_in m = m\<lparr>mi_type := ''TRANSFER_IN'', mi_warehouse := None, mi_bin := None, mi_from_warehouse := None,
                     mi_from_bin := None\<rparr>"

text \<open>The second leg of a transfer is a recursive call, as in the SQL function.\<close>

function post_inventory_move :: "ctx \<Rightarrow> date \<Rightarrow> move_input \<Rightarrow> inv_db \<Rightarrow> (row_id \<times> inv_db) result" where
  "post_inventory_move c today m db =
     rbind (move_leg c today m db) (\<lambda>(i, db1).
       if mi_type m = ''TRANSFER_OUT''
       then rbind (post_inventory_move c today (transfer_in m) db1) (\<lambda>(_, db2). Inr (i, db2))
       else Inr (i, db1))"
  by pat_completeness auto
termination
  by (relation "measure (\<lambda>(_, _, m, _). if mi_type m = ''TRANSFER_OUT'' then 1 else 0)") (simp_all add: transfer_in_def)

declare post_inventory_move.simps [simp del]

definition post_move :: "ctx \<Rightarrow> date \<Rightarrow> move_input \<Rightarrow> inv_db \<Rightarrow> (row_id \<times> inv_db) result" where
  "post_move c today m db =
     rbind (assert_outbound_allowed c (mi_type m) (mi_product m) (iv_iso db)) (\<lambda>_. post_inventory_move c today m db)"

subsection \<open>Reservations\<close>

record reserve_input =
  ri_product :: row_id
  ri_batch :: "row_id option"
  ri_warehouse :: "row_id option"
  ri_quantity :: rat
  ri_ref :: "string \<times> row_id"

text \<open>The rows a reservation touches: every bin of the warehouse.\<close>

definition reserved_at :: "row_id \<Rightarrow> row_id option \<Rightarrow> row_id option \<Rightarrow> stock_row \<Rightarrow> bool" where
  "reserved_at product batch warehouse r \<longleftrightarrow>
     so_product r = product \<and> so_batch r = batch \<and> warehouse = Some (so_warehouse r)"

definition reserve :: "reserve_input \<Rightarrow> inv_db \<Rightarrow> (row_id \<times> inv_db) result" where
  "reserve i db =
     (let here = reserved_at (ri_product i) (ri_batch i) (ri_warehouse i) in
      if \<not> exists_where (\<lambda>r. here r \<and> ri_quantity i \<le> so_quantity r - so_reserved r) (iv_stock db)
      then Inl (BadRequest ''Insufficient available stock to reserve'')
      else Inr (iv_next db, db
        \<lparr>iv_stock := update_where here (\<lambda>r. r\<lparr>so_reserved := store4 (so_reserved r + ri_quantity i)\<rparr>) (iv_stock db),
         iv_reservations := iv_reservations db @
           [\<lparr>rv_id = iv_next db, rv_product = ri_product i, rv_batch = ri_batch i, rv_warehouse = ri_warehouse i,
             rv_quantity = store4 (ri_quantity i), rv_ref = ri_ref i, rv_status = ''ACTIVE''\<rparr>],
         iv_next := Suc (iv_next db)\<rparr>))"

definition active_reservation :: "row_id \<Rightarrow> inv_db \<Rightarrow> reservation option" where
  "active_reservation i db = find (\<lambda>r. rv_id r = i \<and> rv_status r = ''ACTIVE'') (iv_reservations db)"

text \<open>\<open>release_reservation\<close> and \<open>consume\<close> differ in how they lower the reserved quantity.\<close>

definition end_reservation :: "(rat \<Rightarrow> rat \<Rightarrow> rat) \<Rightarrow> string \<Rightarrow> row_id \<Rightarrow> inv_db \<Rightarrow> inv_db" where
  "end_reservation lower status i db =
     (case active_reservation i db of
        None \<Rightarrow> db
      | Some v \<Rightarrow> db
          \<lparr>iv_stock := update_where (reserved_at (rv_product v) (rv_batch v) (rv_warehouse v))
             (\<lambda>r. r\<lparr>so_reserved := store4 (lower (so_reserved r) (rv_quantity v))\<rparr>) (iv_stock db),
           iv_reservations := update_where (\<lambda>r. rv_id r = i \<and> rv_status r = ''ACTIVE'')
             (\<lambda>r. r\<lparr>rv_status := status\<rparr>) (iv_reservations db)\<rparr>)"

definition release :: "row_id \<Rightarrow> inv_db \<Rightarrow> inv_db" where
  "release = end_reservation (\<lambda>reserved q. reserved - q) ''RELEASED''"

definition consume :: "row_id \<Rightarrow> inv_db \<Rightarrow> inv_db" where
  "consume = end_reservation (\<lambda>reserved q. max 0 (reserved - q)) ''CONSUMED''"

subsection \<open>Adjustments\<close>

record adjustment_line =
  an_product :: "row_id option"
  an_product_id :: "row_id option"
  an_warehouse :: "row_id option"
  an_warehouse_id :: "row_id option"
  an_bin :: "row_id option"
  an_bin_id :: "row_id option"
  an_counted :: "rat option"
  an_counted_qty :: "rat option"
  an_variance :: "rat option"
  an_variance_qty :: "rat option"
  an_cost :: "rat option"
  an_unit_cost :: "rat option"
  an_reason :: "string option"

definition expected_quantity :: "row_id \<Rightarrow> row_id \<Rightarrow> row_id option \<Rightarrow> stock_row list \<Rightarrow> rat" where
  "expected_quantity product warehouse bin rows =
     (\<Sum>r\<leftarrow>filter (\<lambda>r. so_product r = product \<and> so_warehouse r = warehouse \<and> so_bin r = bin) rows. so_quantity r)"

definition adjustment_line_item :: "stock_row list \<Rightarrow> adjustment_line \<Rightarrow> adjustment_item result" where
  "adjustment_line_item rows x =
     (case (nonzero_id (or_else (an_product x) (an_product_id x)),
            nonzero_id (or_else (an_warehouse x) (an_warehouse_id x))) of
        (Some product, Some warehouse) \<Rightarrow>
          (let bin = or_else (an_bin x) (an_bin_id x);
               expected = expected_quantity product warehouse bin rows;
               counted = or_else (an_counted x) (an_counted_qty x);
               variance = (case counted of Some q \<Rightarrow> Some (q - expected)
                                         | None \<Rightarrow> or_else (an_variance x) (an_variance_qty x))
           in case variance of
                None \<Rightarrow> Inl (BadRequest ''Enter a counted quantity or variance'')
              | Some v \<Rightarrow> Inr
                  \<lparr>at_product = product, at_batch = None, at_warehouse = warehouse, at_bin = bin,
                   at_counted = map_option store4 counted, at_expected = store4 expected, at_variance = store4 v,
                   at_cost = store4 (the_default 0 (or_else (an_cost x) (an_unit_cost x))), at_reason = an_reason x\<rparr>)
      | _ \<Rightarrow> Inl (BadRequest ''Each line needs a product and warehouse''))"

definition create_adjustment ::
  "ctx \<Rightarrow> string \<Rightarrow> string \<Rightarrow> string \<Rightarrow> adjustment_line list \<Rightarrow> inv_db \<Rightarrow> (row_id \<times> inv_db) result" where
  "create_adjustment c no kind reason items db =
     (case (nonzero_id (cx_company c), cx_tenant c) of
        (None, _) \<Rightarrow> Inl (BadRequest ''Company context required'')
      | (Some _, None) \<Rightarrow> Inl (Internal ''null tenant'')
      | (Some _, Some tenant) \<Rightarrow>
          if items = [] then Inl (BadRequest ''At least one adjustment line is required'')
          else rbind (traverse (adjustment_line_item (iv_stock db)) items) (\<lambda>its.
                 Inr (iv_next db, db
                   \<lparr>iv_adjustments := iv_adjustments db @
                      [\<lparr>aj_id = iv_next db, aj_tenant = tenant, aj_no = no, aj_type = kind, aj_reason = reason,
                        aj_status = ''DRAFT'', aj_created_by = cx_user c, aj_posted_by = None, aj_items = its\<rparr>],
                    iv_next := Suc (iv_next db)\<rparr>)))"

definition adjustment_move :: "adjustment \<Rightarrow> adjustment_item \<Rightarrow> move_input" where
  "adjustment_move a x =
     \<lparr>mi_type = (if 0 < at_variance x then ''ADJUSTMENT'' else ''ISSUE''), mi_product = at_product x,
      mi_batch = nonzero_id (at_batch x), mi_warehouse = Some (at_warehouse x), mi_bin = nonzero_id (at_bin x),
      mi_from_warehouse = None, mi_from_bin = None, mi_to_warehouse = None, mi_to_bin = None,
      mi_quantity = \<bar>at_variance x\<bar>, mi_cost = at_cost x, mi_ref = Some (''inventory_adjustments'', aj_id a, aj_no a),
      mi_qr = None, mi_work_order = None, mi_reason = Some (aj_reason a), mi_method = ''WEIGHTED_AVERAGE''\<rparr>"

fun post_moves :: "ctx \<Rightarrow> date \<Rightarrow> move_input list \<Rightarrow> inv_db \<Rightarrow> inv_db result" where
  "post_moves c today [] db = Inr db"
| "post_moves c today (m # ms) db = rbind (post_move c today m db) (\<lambda>(_, db1). post_moves c today ms db1)"

definition post_adjustment :: "ctx \<Rightarrow> date \<Rightarrow> row_id \<Rightarrow> inv_db \<Rightarrow> inv_db result" where
  "post_adjustment c today i db =
     (case find (\<lambda>a. aj_id a = i \<and> cx_tenant c = Some (aj_tenant a)) (iv_adjustments db) of
        None \<Rightarrow> Inl (BadRequest ''Adjustment not found'')
      | Some a \<Rightarrow>
          if aj_status a \<noteq> ''APPROVED'' then Inl (BadRequest ''Adjustment must be APPROVED before posting'')
          else rbind (post_moves c today (map (adjustment_move a) (filter (\<lambda>x. at_variance x \<noteq> 0) (aj_items a))) db) (\<lambda>db1.
                 Inr (db1\<lparr>iv_adjustments := update_where (\<lambda>x. aj_id x = i)
                            (\<lambda>x. x\<lparr>aj_status := ''POSTED'', aj_posted_by := cx_user c\<rparr>) (iv_adjustments db1)\<rparr>)))"

subsection \<open>Transfers\<close>

record transfer_line =
  tn_product :: "row_id option"
  tn_product_id :: "row_id option"
  tn_batch :: "row_id option"
  tn_batch_id :: "row_id option"
  tn_quantity :: rat
  tn_cost :: "rat option"
  tn_unit_cost :: "rat option"

definition transfer_line_item :: "transfer_line \<Rightarrow> transfer_item result" where
  "transfer_line_item x =
     (case nonzero_id (or_else (tn_product x) (tn_product_id x)) of
        Some product \<Rightarrow>
          if 0 < tn_quantity x
          then Inr \<lparr>ti_product = product, ti_batch = or_else (tn_batch x) (tn_batch_id x),
                    ti_quantity = store4 (tn_quantity x),
                    ti_cost = store4 (the_default 0 (or_else (tn_cost x) (tn_unit_cost x)))\<rparr>
          else Inl (BadRequest ''Each line needs a product and a positive quantity'')
      | None \<Rightarrow> Inl (BadRequest ''Each line needs a product and a positive quantity''))"

definition create_transfer ::
  "ctx \<Rightarrow> string \<Rightarrow> row_id \<Rightarrow> row_id \<Rightarrow> string option \<Rightarrow> transfer_line list \<Rightarrow> inv_db \<Rightarrow> (row_id \<times> inv_db) result" where
  "create_transfer c no from to notes items db =
     (case (nonzero_id (cx_company c), cx_tenant c) of
        (None, _) \<Rightarrow> Inl (BadRequest ''Company context required'')
      | (Some _, None) \<Rightarrow> Inl (Internal ''null tenant'')
      | (Some _, Some tenant) \<Rightarrow>
          if from = to then Inl (BadRequest ''From and to warehouses must differ'')
          else if items = [] then Inl (BadRequest ''At least one transfer line is required'')
          else rbind (traverse transfer_line_item items) (\<lambda>its.
                 Inr (iv_next db, db
                   \<lparr>iv_transfers := iv_transfers db @
                      [\<lparr>tf_id = iv_next db, tf_tenant = tenant, tf_no = no, tf_from = from, tf_to = to, tf_notes = notes,
                        tf_status = ''DRAFT'', tf_created_by = cx_user c, tf_items = its\<rparr>],
                    iv_next := Suc (iv_next db)\<rparr>)))"

definition transfer_move :: "stock_transfer \<Rightarrow> transfer_item \<Rightarrow> move_input" where
  "transfer_move t x =
     \<lparr>mi_type = ''TRANSFER_OUT'', mi_product = ti_product x, mi_batch = nonzero_id (ti_batch x), mi_warehouse = None,
      mi_bin = None, mi_from_warehouse = Some (tf_from t), mi_from_bin = None, mi_to_warehouse = Some (tf_to t),
      mi_to_bin = None, mi_quantity = ti_quantity x, mi_cost = ti_cost x,
      mi_ref = Some (''inventory_transfers'', tf_id t, tf_no t), mi_qr = None, mi_work_order = None,
      mi_reason = None, mi_method = ''WEIGHTED_AVERAGE''\<rparr>"

definition complete_transfer :: "ctx \<Rightarrow> date \<Rightarrow> row_id \<Rightarrow> inv_db \<Rightarrow> inv_db result" where
  "complete_transfer c today i db =
     (case find (\<lambda>t. tf_id t = i \<and> cx_tenant c = Some (tf_tenant t)) (iv_transfers db) of
        None \<Rightarrow> Inl (BadRequest ''Transfer not found'')
      | Some t \<Rightarrow>
          if tf_status t \<noteq> ''APPROVED'' then Inl (BadRequest ''Transfer must be APPROVED'')
          else rbind (post_moves c today (map (transfer_move t) (tf_items t)) db) (\<lambda>db1.
                 Inr (db1\<lparr>iv_transfers := update_where (\<lambda>x. tf_id x = i) (\<lambda>x. x\<lparr>tf_status := ''COMPLETED''\<rparr>)
                            (iv_transfers db1)\<rparr>)))"

subsection \<open>Stored quantities\<close>

text \<open>Storing rounds like the other roundings of the development, on a grid of four decimals.\<close>

lemma store4_cases: "0 \<le> x \<Longrightarrow> store4 x = round4 x" "x < 0 \<Longrightarrow> store4 x = - round4 (- x)"
  by (simp_all add: store4_def)

lemma store4_fixed_iff: "store4 x = x \<longleftrightarrow> round4 x = x"
proof -
  have "- round4 (- x) = x \<longleftrightarrow> round4 x = x"
    using r4.rnd_minus_fixed [of x] r4.rnd_minus_fixed [of "- x"] by (auto simp: equation_minus_iff minus_equation_iff)
  then show ?thesis by (simp add: store4_def)
qed

interpretation s4: rounding store4 "1 / 10000"
proof
  fix x y :: rat
  assume le: "x \<le> y"
  have "round4 (- y) \<le> round4 (- x)" using le by (intro r4.rnd_mono) simp
  moreover have "- round4 (- x) \<le> 0" if "x < 0" using r4.rnd_nonneg [of "- x"] that by simp
  moreover have "0 \<le> round4 y" if "0 \<le> y" using r4.rnd_nonneg that by simp
  moreover have "round4 x \<le> round4 y" using le by (rule r4.rnd_mono)
  ultimately show "store4 x \<le> store4 y" using le by (fastforce simp: store4_def)
next
  fix x :: rat
  have "round4 (store4 x) = store4 x" by (simp add: store4_def r4.rnd_minus_fixed)
  then show "store4 (store4 x) = store4 x" by (simp add: store4_fixed_iff)
  show "\<bar>store4 x - x\<bar> \<le> 1 / 10000 / 2"
    using r4.rnd_near [of x] r4.rnd_near [of "- x"] by (auto simp: store4_def abs_if split: if_splits)
next
  fix x y :: rat
  assume "store4 x = x" "store4 y = y"
  then show "store4 (x + y) = x + y" by (simp add: store4_fixed_iff r4.rnd_add_fixed)
next
  fix x :: rat
  assume "store4 x = x"
  then show "store4 (- x) = - x" by (simp add: store4_fixed_iff r4.rnd_minus_fixed)
qed (simp_all add: store4_def)

abbreviation places4 :: "rat \<Rightarrow> bool" where
  "places4 q \<equiv> store4 q = q"

lemmas store4_laws = s4.rnd_idem s4.rnd_zero s4.rnd_nonneg s4.rnd_add_fixed s4.rnd_diff_fixed

subsection \<open>The effect of a leg\<close>

definition rows_at :: "place \<Rightarrow> stock_row list \<Rightarrow> stock_row list" where
  "rows_at k rows = filter (\<lambda>r. row_place r = k) rows"

lemma rows_at_append: "rows_at k (xs @ ys) = rows_at k xs @ rows_at k ys"
  by (simp add: rows_at_def)

lemma rows_at_update:
  assumes "\<And>r. row_place (f r) = row_place r"
  shows "rows_at k (update_where p f rows) = update_where p f (rows_at k rows)"
  using assms by (induction rows) (auto simp: rows_at_def update_where_def)

lemma rows_at_upsert:
  assumes k: "located k" and f: "\<And>r. row_place (f r) = row_place r"
  shows "rows_at k (upsert_stock f new rows) =
    (if row_place new \<noteq> k then rows_at k rows
     else if rows_at k rows = [] then [new] else map f (rows_at k rows))"
proof (cases "row_place new = k")
  case True
  have "exists_where (\<lambda>r. row_place r = k) rows \<longleftrightarrow> rows_at k rows \<noteq> []"
    by (auto simp: rows_at_def filter_empty_conv)
  moreover have "update_where (\<lambda>r. row_place r = k) f (rows_at k rows) = map f (rows_at k rows)"
    by (simp add: update_where_def rows_at_def)
  ultimately show ?thesis
    using True k f by (auto simp: upsert_stock_def rows_at_update rows_at_append) (simp_all add: rows_at_def)
next
  case False
  have "update_where (\<lambda>r. row_place r = row_place new) f (rows_at k rows) = rows_at k rows"
    using False by (auto simp: update_where_def rows_at_def intro!: map_idI)
  moreover have "rows_at k [new] = []" using False by (simp add: rows_at_def)
  ultimately show ?thesis using False f by (simp add: upsert_stock_def rows_at_update rows_at_append)
qed

lemma rows_at_issue:
  assumes "issue_stock k' q rows = Inr rows'"
  shows "rows_at k rows' = (if k \<noteq> k' then rows_at k rows
     else map (\<lambda>r. if 0 \<le> so_quantity r - q then r\<lparr>so_quantity := store4 (so_quantity r - q)\<rparr> else r) (rows_at k rows))"
proof -
  have rows': "rows' = update_where (\<lambda>r. row_place r = k' \<and> 0 \<le> so_quantity r - q)
      (\<lambda>r. r\<lparr>so_quantity := store4 (so_quantity r - q)\<rparr>) rows"
    using assms by (simp add: issue_stock_def split: if_splits)
  have "row_place (r\<lparr>so_quantity := x\<rparr>) = row_place r" for r x by (simp add: row_place_def)
  then show ?thesis
    by (auto simp: rows' rows_at_update) (auto simp: update_where_def rows_at_def intro!: map_idI)
qed

lemma issue_some:
  assumes "issue_stock k q rows = Inr rows'"
  shows "\<exists>r\<in>set (rows_at k rows). 0 \<le> so_quantity r - q"
  using assms by (auto simp: issue_stock_def rows_at_def split: if_splits)

text \<open>What one leg does to the stock table: add to the place or take from it.\<close>

definition adds_quantity :: "rat \<Rightarrow> (stock_row \<Rightarrow> stock_row) \<Rightarrow> bool" where
  "adds_quantity q f \<longleftrightarrow> (\<forall>r. row_place (f r) = row_place r \<and> so_quantity (f r) = store4 (so_quantity r + store4 q))"

definition stock_effect :: "bool \<Rightarrow> place \<Rightarrow> rat \<Rightarrow> stock_row list \<Rightarrow> stock_row list \<Rightarrow> bool" where
  "stock_effect adds k q rows rows' \<longleftrightarrow>
     (if adds then \<exists>f new. rows' = upsert_stock f new rows \<and> row_place new = k \<and> so_quantity new = store4 q \<and> adds_quantity q f
      else issue_stock k q rows = Inr rows')"

lemma adds_weighted: "adds_quantity q (add_weighted (store4 q) cost)"
  and adds_plain: "adds_quantity q (add_plain (store4 q))"
  by (simp_all add: adds_quantity_def add_weighted_def add_plain_def row_place_def)

lemma new_stock_simps [simp]:
  "row_place (new_stock company tenant k q cost method) = k"
  "so_quantity (new_stock company tenant k q cost method) = store4 q"
  by (auto simp: new_stock_def row_place_def split: prod.splits)

lemma stock_effect_weighted:
  "move_weighted company tenant k m db = Inr db' \<Longrightarrow>
     stock_effect (inbound (mi_type m)) k (mi_quantity m) (iv_stock db) (iv_stock db')
     \<and> iv_movements db' = iv_movements db \<and> iv_batches db' = iv_batches db \<and> iv_layers db' = iv_layers db
     \<and> iv_adjustments db' = iv_adjustments db \<and> iv_transfers db' = iv_transfers db"
  using adds_weighted [of "mi_quantity m"] new_stock_simps
  by (fastforce simp: move_weighted_def stock_effect_def split: if_splits)

lemma stock_effect_fifo:
  assumes "move_fifo company tenant today k m db = Inr db'"
  shows "stock_effect (inbound (mi_type m)) k (mi_quantity m) (iv_stock db) (iv_stock db')
     \<and> iv_movements db' = iv_movements db \<and> iv_batches db' = iv_batches db
     \<and> iv_adjustments db' = iv_adjustments db \<and> iv_transfers db' = iv_transfers db"
proof (cases "inbound (mi_type m)")
  case True
  then show ?thesis using assms adds_plain [of "mi_quantity m"] new_stock_simps
    by (fastforce simp: move_fifo_def stock_effect_def)
next
  case False
  then show ?thesis using assms by (auto simp: move_fifo_def stock_effect_def split: prod.splits if_splits)
qed

text \<open>The place a movement speaks about, and the shape of every accepted leg.\<close>

definition movement_place :: "move_input \<Rightarrow> place option" where
  "movement_place m = map_option (\<lambda>w. (mi_product m, mi_batch m, w, leg_bin m)) (leg_warehouse m)"

definition moves_stock :: "move_input \<Rightarrow> bool" where
  "moves_stock m \<longleftrightarrow> mi_method m = ''WEIGHTED_AVERAGE'' \<or> mi_method m = ''FIFO''"

definition same_documents :: "inv_db \<Rightarrow> inv_db \<Rightarrow> bool" where
  "same_documents db db' \<longleftrightarrow> iv_adjustments db' = iv_adjustments db \<and> iv_transfers db' = iv_transfers db"

lemma same_documents_trans: "same_documents a b \<Longrightarrow> same_documents b c \<Longrightarrow> same_documents a c"
  by (simp add: same_documents_def)

lemma move_legE:
  assumes leg: "move_leg c today m db = Inr (i, db')"
  obtains company tenant w k batches db2 where
    "0 < mi_quantity m" "movement_place m = Some k" "k = (mi_product m, mi_batch m, w, leg_bin m)"
    "move_batch (mi_batch m) (if inbound (mi_type m) then mi_quantity m else - mi_quantity m) (iv_batches db) = Inr batches"
    "db2 = (record_movement c company tenant m db)\<lparr>iv_batches := batches\<rparr>"
    "(if mi_method m = ''WEIGHTED_AVERAGE'' then move_weighted company tenant k m db2
      else if mi_method m = ''FIFO'' then move_fifo company tenant today k m db2 else Inr db2) = Inr db'"
    "i = iv_next db"
proof -
  obtain company tenant where ids: "cx_company c = Some company" "cx_tenant c = Some tenant"
    using leg by (auto simp: move_leg_def split: if_splits option.splits)
  obtain w where w: "leg_warehouse m = Some w"
    using leg ids by (auto simp: move_leg_def split: if_splits option.splits)
  have batches: "iv_batches (record_movement c company tenant m db) = iv_batches db"
    by (simp add: record_movement_def)
  show ?thesis
    using leg ids w
    by (auto simp: move_leg_def Let_def batches movement_place_def split: if_splits elim!: that [rotated -1])
qed

lemma move_leg_frame:
  assumes "move_leg c today m db = Inr (i, db')"
  shows "same_documents db db'" and "0 < mi_quantity m"
    and "\<exists>mv. iv_movements db' = iv_movements db @ [mv] \<and> mv_move mv = m \<and> mv_quantity mv = store4 (mi_quantity m)"
    and "\<exists>k. movement_place m = Some k \<and>
           (if moves_stock m then stock_effect (inbound (mi_type m)) k (mi_quantity m) (iv_stock db) (iv_stock db')
            else iv_stock db' = iv_stock db)"
    and "move_batch (mi_batch m) (if inbound (mi_type m) then mi_quantity m else - mi_quantity m) (iv_batches db)
           = Inr (iv_batches db')"
proof -
  obtain company tenant w k batches db2 where l:
    "0 < mi_quantity m" "movement_place m = Some k"
    "move_batch (mi_batch m) (if inbound (mi_type m) then mi_quantity m else - mi_quantity m) (iv_batches db) = Inr batches"
    "db2 = (record_movement c company tenant m db)\<lparr>iv_batches := batches\<rparr>"
    "(if mi_method m = ''WEIGHTED_AVERAGE'' then move_weighted company tenant k m db2
      else if mi_method m = ''FIFO'' then move_fifo company tenant today k m db2 else Inr db2) = Inr db'"
    using move_legE [OF assms] by metis
  have step: "iv_movements db' = iv_movements db2 \<and> iv_batches db' = iv_batches db2
      \<and> iv_adjustments db' = iv_adjustments db2 \<and> iv_transfers db' = iv_transfers db2
      \<and> (if moves_stock m then stock_effect (inbound (mi_type m)) k (mi_quantity m) (iv_stock db2) (iv_stock db')
         else iv_stock db' = iv_stock db2)"
    using l(5) stock_effect_weighted stock_effect_fifo by (auto simp: moves_stock_def split: if_splits)
  have db2: "iv_stock db2 = iv_stock db" "iv_batches db2 = batches" "iv_adjustments db2 = iv_adjustments db"
    "iv_transfers db2 = iv_transfers db"
    "\<exists>mv. iv_movements db2 = iv_movements db @ [mv] \<and> mv_move mv = m \<and> mv_quantity mv = store4 (mi_quantity m)"
    by (simp_all add: l(4) record_movement_def)
  show "same_documents db db'" using step db2 by (simp add: same_documents_def)
  show "0 < mi_quantity m" by (rule l)
  show "\<exists>mv. iv_movements db' = iv_movements db @ [mv] \<and> mv_move mv = m \<and> mv_quantity mv = store4 (mi_quantity m)"
    using step db2 by simp
  show "\<exists>k. movement_place m = Some k \<and>
           (if moves_stock m then stock_effect (inbound (mi_type m)) k (mi_quantity m) (iv_stock db) (iv_stock db')
            else iv_stock db' = iv_stock db)"
    using step db2 l(2) by auto
  show "move_batch (mi_batch m) (if inbound (mi_type m) then mi_quantity m else - mi_quantity m) (iv_batches db)
      = Inr (iv_batches db')"
    using step db2 l(3) by simp
qed

subsection \<open>Legs, moves and documents preserve what a leg preserves\<close>

text \<open>
  The interface between the engine and its clients: an invariant that every leg keeps is kept by a
  whole movement (both legs of a transfer), by a list of movements, and by posting an adjustment or
  completing a transfer.
\<close>

locale leg_invariant =
  fixes Q :: "inv_db \<Rightarrow> bool" and fit :: "move_input \<Rightarrow> bool"
  assumes leg: "Q db \<Longrightarrow> fit m \<Longrightarrow> move_leg c today m db = Inr (i, db') \<Longrightarrow> Q db'"
    and fit_in: "fit m \<Longrightarrow> fit (transfer_in m)"
begin

lemma post_inventory_move_keeps:
  "Q db \<Longrightarrow> fit m \<Longrightarrow> post_inventory_move c today m db = Inr (i, db') \<Longrightarrow> Q db'"
proof (induction c today m db arbitrary: i db' rule: post_inventory_move.induct)
  case (1 c today m db)
  from "1.prems"(3) obtain j db1 where l: "move_leg c today m db = Inr (j, db1)"
    and r: "(if mi_type m = ''TRANSFER_OUT''
       then rbind (post_inventory_move c today (transfer_in m) db1) (\<lambda>(_, db2). Inr (j, db2)) else Inr (j, db1)) = Inr (i, db')"
    by (subst (asm) post_inventory_move.simps) auto
  have "Q db1" using leg [OF "1.prems"(1,2) l] .
  then show ?case
    using r "1.IH" "1.prems"(2) fit_in by (auto split: if_splits)
qed

lemma post_move_keeps: "Q db \<Longrightarrow> fit m \<Longrightarrow> post_move c today m db = Inr (i, db') \<Longrightarrow> Q db'"
  using post_inventory_move_keeps by (auto simp: post_move_def)

lemma post_moves_keep:
  "Q db \<Longrightarrow> (\<And>m. m \<in> set ms \<Longrightarrow> fit m) \<Longrightarrow> post_moves c today ms db = Inr db' \<Longrightarrow> Q db'"
  by (induction ms arbitrary: db) (auto dest: post_move_keeps)

end

text \<open>Quantities of stored documents have four decimals, so every line of a document can be posted.\<close>

definition items_stored :: "inv_db \<Rightarrow> bool" where
  "items_stored db \<longleftrightarrow>
     (\<forall>a\<in>set (iv_adjustments db). \<forall>x\<in>set (aj_items a). places4 (at_variance x)) \<and>
     (\<forall>t\<in>set (iv_transfers db). \<forall>x\<in>set (tf_items t). places4 (ti_quantity x))"

definition fit :: "move_input \<Rightarrow> bool" where
  "fit m \<longleftrightarrow> places4 (mi_quantity m) \<and> moves_stock m"

lemma fit_transfer_in: "fit m \<Longrightarrow> fit (transfer_in m)"
  by (simp add: fit_def moves_stock_def transfer_in_def)

lemma places4_abs: "places4 q \<Longrightarrow> places4 \<bar>q\<bar>"
  by (simp add: abs_if s4.rnd_minus_fixed)

lemma fit_adjustment: "places4 (at_variance x) \<Longrightarrow> fit (adjustment_move a x)"
  by (simp add: fit_def moves_stock_def adjustment_move_def places4_abs)

lemma fit_transfer: "places4 (ti_quantity x) \<Longrightarrow> fit (transfer_move t x)"
  by (simp add: fit_def moves_stock_def transfer_move_def)

lemma post_adjustmentE:
  assumes "post_adjustment c today i db = Inr db'" and "items_stored db"
  obtains ms db1 ajs where "post_moves c today ms db = Inr db1" "\<And>m. m \<in> set ms \<Longrightarrow> fit m"
    "db' = db1\<lparr>iv_adjustments := ajs\<rparr>" "map aj_items ajs = map aj_items (iv_adjustments db1)"
proof -
  obtain a db1 where a: "a \<in> set (iv_adjustments db)"
    and ms: "post_moves c today (map (adjustment_move a) (filter (\<lambda>x. at_variance x \<noteq> 0) (aj_items a))) db = Inr db1"
    and db': "db' = db1\<lparr>iv_adjustments := update_where (\<lambda>x. aj_id x = i)
       (\<lambda>x. x\<lparr>aj_status := ''POSTED'', aj_posted_by := cx_user c\<rparr>) (iv_adjustments db1)\<rparr>"
    using assms(1) by (auto simp: post_adjustment_def dest!: find_Some_iff_mem split: option.splits if_splits)
  have "fit m" if "m \<in> set (map (adjustment_move a) (filter (\<lambda>x. at_variance x \<noteq> 0) (aj_items a)))" for m
    using that a assms(2) by (auto simp: items_stored_def intro!: fit_adjustment)
  then show ?thesis using that [OF ms _ db'] by (simp add: map_update_where_same)
qed

lemma complete_transferE:
  assumes "complete_transfer c today i db = Inr db'" and "items_stored db"
  obtains ms db1 ts where "post_moves c today ms db = Inr db1" "\<And>m. m \<in> set ms \<Longrightarrow> fit m"
    "db' = db1\<lparr>iv_transfers := ts\<rparr>" "map tf_items ts = map tf_items (iv_transfers db1)"
proof -
  obtain t db1 where t: "t \<in> set (iv_transfers db)"
    and ms: "post_moves c today (map (transfer_move t) (tf_items t)) db = Inr db1"
    and db': "db' = db1\<lparr>iv_transfers := update_where (\<lambda>x. tf_id x = i) (\<lambda>x. x\<lparr>tf_status := ''COMPLETED''\<rparr>)
       (iv_transfers db1)\<rparr>"
    using assms(1) by (auto simp: complete_transfer_def dest!: find_Some_iff_mem split: option.splits if_splits)
  have "fit m" if "m \<in> set (map (transfer_move t) (tf_items t))" for m
    using that t assms(2) by (auto simp: items_stored_def intro!: fit_transfer)
  then show ?thesis using that [OF ms _ db'] by (simp add: map_update_where_same)
qed

subsection \<open>The steps of the stock service\<close>

text \<open>
  \<open>decided\<close> stands for the approval engine and the editing routes: they change the status of a
  document, not its lines.
\<close>

inductive inv_step :: "inv_db \<Rightarrow> inv_db \<Rightarrow> bool" where
  move: "fit m \<Longrightarrow> post_move c today m db = Inr (i, db') \<Longrightarrow> inv_step db db'"
| reserve: "reserve x db = Inr (i, db') \<Longrightarrow> inv_step db db'"
| release: "inv_step db (release i db)"
| consume: "inv_step db (consume i db)"
| create_adjustment: "create_adjustment c no kind reason items db = Inr (i, db') \<Longrightarrow> inv_step db db'"
| post_adjustment: "post_adjustment c today i db = Inr db' \<Longrightarrow> inv_step db db'"
| create_transfer: "create_transfer c no source target memo rows db = Inr (i, db') \<Longrightarrow> inv_step db db'"
| complete_transfer: "complete_transfer c today i db = Inr db' \<Longrightarrow> inv_step db db'"
| decided: "map aj_items ajs = map aj_items (iv_adjustments db) \<Longrightarrow> map tf_items ts = map tf_items (iv_transfers db)
    \<Longrightarrow> inv_step db (db\<lparr>iv_adjustments := ajs, iv_transfers := ts\<rparr>)"

text \<open>Invariants that speak of stock, layers, batches and movements only, and survive reservations.\<close>

locale stock_invariant = leg_invariant Q fit for Q :: "inv_db \<Rightarrow> bool" +
  assumes adjustments: "Q db \<Longrightarrow> Q (db\<lparr>iv_adjustments := ajs\<rparr>)"
    and transfers: "Q db \<Longrightarrow> Q (db\<lparr>iv_transfers := ts\<rparr>)"
    and counter: "Q db \<Longrightarrow> Q (db\<lparr>iv_next := n\<rparr>)"
    and reserving: "Q db \<Longrightarrow> Q (db\<lparr>iv_stock := update_where p (\<lambda>r. r\<lparr>so_reserved := g r\<rparr>) (iv_stock db),
       iv_reservations := vs\<rparr>)"
begin

lemma ending: "Q db \<Longrightarrow> Q (end_reservation lower status i db)"
  using reserving by (auto simp: end_reservation_def split: option.splits)

lemma step_keeps: "inv_step db db' \<Longrightarrow> items_stored db \<Longrightarrow> Q db \<Longrightarrow> Q db'"
proof (induction rule: inv_step.induct)
  case (move m c today db i db')
  then show ?case using post_move_keeps by blast
next
  case (reserve x db i db')
  then show ?case
    using counter [OF reserving [OF reserve.prems(2)]] by (auto simp: reserve_def Let_def split: if_splits)
next
  case (release db i)
  then show ?case by (simp add: release_def ending)
next
  case (consume db i)
  then show ?case by (simp add: consume_def ending)
next
  case (create_adjustment c no kind reason items db i db')
  then show ?case using counter [OF adjustments [OF create_adjustment.prems(2)]]
    by (auto simp: create_adjustment_def split: option.splits if_splits)
next
  case (post_adjustment c today i db db')
  then show ?case using post_moves_keep adjustments by (metis post_adjustmentE)
next
  case (create_transfer c no source target memo rows db i db')
  then show ?case using counter [OF transfers [OF create_transfer.prems(2)]]
    by (auto simp: create_transfer_def split: option.splits if_splits)
next
  case (complete_transfer c today i db db')
  then show ?case using post_moves_keep transfers by (metis complete_transferE)
next
  case (decided ajs db ts)
  then show ?case using transfers [OF adjustments [OF decided.prems(2)]] by simp
qed

end

subsection \<open>Stored items and signs\<close>

interpretation kept_documents: leg_invariant "same_documents db0" "\<lambda>_. True" for db0
  by unfold_locales (auto intro: same_documents_trans dest: move_leg_frame(1))

lemma same_documents_refl: "same_documents db db"
  by (simp add: same_documents_def)

lemma items_stored_iff:
  "items_stored db \<longleftrightarrow>
     (\<forall>xs\<in>set (map aj_items (iv_adjustments db)). \<forall>x\<in>set xs. places4 (at_variance x)) \<and>
     (\<forall>xs\<in>set (map tf_items (iv_transfers db)). \<forall>x\<in>set xs. places4 (ti_quantity x))"
  by (simp add: items_stored_def)

lemma items_stored_cong:
  "map aj_items (iv_adjustments db') = map aj_items (iv_adjustments db) \<Longrightarrow>
     map tf_items (iv_transfers db') = map tf_items (iv_transfers db) \<Longrightarrow> items_stored db' = items_stored db"
  by (simp only: items_stored_iff)

lemma adjustment_line_stored:
  assumes "adjustment_line_item rows x = Inr y" shows "places4 (at_variance y)"
  using assms by (auto simp: adjustment_line_item_def Let_def s4.rnd_idem split: option.splits)

lemma transfer_line_stored:
  assumes "transfer_line_item x = Inr y" shows "places4 (ti_quantity y)"
  using assms by (auto simp: transfer_line_item_def s4.rnd_idem split: option.splits if_splits)

lemma traverse_all: "traverse f xs = Inr ys \<Longrightarrow> (\<And>x y. f x = Inr y \<Longrightarrow> P y) \<Longrightarrow> \<forall>y\<in>set ys. P y"
  by (induction xs arbitrary: ys) auto

lemma items_stored_step: "inv_step db db' \<Longrightarrow> items_stored db \<Longrightarrow> items_stored db'"
proof (induction rule: inv_step.induct)
  case (move m c today db i db')
  then show ?case
    using kept_documents.post_move_keeps [OF same_documents_refl] by (auto simp: same_documents_def items_stored_def)
next
  case (reserve x db i db')
  then show ?case by (auto simp: reserve_def Let_def items_stored_def split: if_splits)
next
  case (create_adjustment c no kind reason items db i db')
  then show ?case
    by (auto simp: create_adjustment_def items_stored_def dest!: traverse_all [OF _ adjustment_line_stored] split: option.splits if_splits)
next
  case (post_adjustment c today i db db')
  obtain ms db1 ajs where p: "post_moves c today ms db = Inr db1" "db' = db1\<lparr>iv_adjustments := ajs\<rparr>"
    "map aj_items ajs = map aj_items (iv_adjustments db1)"
    using post_adjustmentE [OF post_adjustment] by metis
  have "same_documents db db1" using kept_documents.post_moves_keep [OF same_documents_refl _ p(1)] by simp
  then show ?case using p post_adjustment.prems items_stored_cong [of db' db]
    by (simp add: same_documents_def)
next
  case (create_transfer c no source target memo rows db i db')
  then show ?case
    by (auto simp: create_transfer_def items_stored_def dest!: traverse_all [OF _ transfer_line_stored] split: option.splits if_splits)
next
  case (complete_transfer c today i db db')
  obtain ms db1 ts where p: "post_moves c today ms db = Inr db1" "db' = db1\<lparr>iv_transfers := ts\<rparr>"
    "map tf_items ts = map tf_items (iv_transfers db1)"
    using complete_transferE [OF complete_transfer] by metis
  have "same_documents db db1" using kept_documents.post_moves_keep [OF same_documents_refl _ p(1)] by simp
  then show ?case using p complete_transfer.prems items_stored_cong [of db' db]
    by (simp add: same_documents_def)
next
  case (decided ajs db ts)
  have "items_stored (db\<lparr>iv_adjustments := ajs, iv_transfers := ts\<rparr>) = items_stored db"
    by (rule items_stored_cong) (use decided.hyps in simp_all)
  with decided.prems show ?case by simp
qed (simp_all add: release_def consume_def end_reservation_def items_stored_def split: option.splits)

text \<open>No quantity on hand, in a batch or left in a layer is negative.\<close>

definition nonnegative :: "inv_db \<Rightarrow> bool" where
  "nonnegative db \<longleftrightarrow> (\<forall>r\<in>set (iv_stock db). 0 \<le> so_quantity r) \<and> (\<forall>b\<in>set (iv_batches db). 0 \<le> bt_quantity b)
     \<and> (\<forall>l\<in>set (iv_layers db). 0 \<le> ly_remaining l)"

lemma nonneg_upsert:
  assumes "\<forall>r\<in>set rows. 0 \<le> so_quantity r" "adds_quantity q f" "so_quantity new = store4 q" "0 < q"
  shows "\<forall>r\<in>set (upsert_stock f new rows). 0 \<le> so_quantity r"
  using assms s4.rnd_nonneg [of q]
  by (auto simp: upsert_stock_def adds_quantity_def set_update_where intro!: s4.rnd_nonneg)

lemma nonneg_issue:
  assumes "\<forall>r\<in>set rows. 0 \<le> so_quantity r" "issue_stock k q rows = Inr rows'"
  shows "\<forall>r\<in>set rows'. 0 \<le> so_quantity r"
  using assms by (auto simp: issue_stock_def set_update_where intro!: s4.rnd_nonneg split: if_splits)

lemma nonneg_effect:
  "stock_effect adds k q rows rows' \<Longrightarrow> 0 < q \<Longrightarrow> \<forall>r\<in>set rows. 0 \<le> so_quantity r \<Longrightarrow> \<forall>r\<in>set rows'. 0 \<le> so_quantity r"
  unfolding stock_effect_def by (metis nonneg_upsert nonneg_issue)

lemma nonneg_batches:
  assumes "\<forall>b\<in>set rows. 0 \<le> bt_quantity b" "move_batch batch delta rows = Inr rows'"
  shows "\<forall>b\<in>set rows'. 0 \<le> bt_quantity b"
  using assms by (auto simp: move_batch_def set_update_where intro!: s4.rnd_nonneg split: option.splits if_splits)

lemma nonneg_set_remaining:
  "0 \<le> q \<Longrightarrow> \<forall>l\<in>set rows. 0 \<le> ly_remaining l \<Longrightarrow> \<forall>l\<in>set (set_remaining i q rows). 0 \<le> ly_remaining l"
  by (auto simp: set_remaining_def set_update_where intro!: s4.rnd_nonneg)

lemma nonneg_consume:
  "consume_layers q ls rows = (left, rows') \<Longrightarrow> \<forall>l\<in>set rows. 0 \<le> ly_remaining l \<Longrightarrow> \<forall>l\<in>set rows'. 0 \<le> ly_remaining l"
proof (induction q ls rows rule: consume_layers.induct)
  case (1 q rows)
  then show ?case by simp
next
  case (2 q l ls rows)
  then show ?case
    using nonneg_set_remaining [of "ly_remaining l - q" rows "ly_id l"] nonneg_set_remaining [of 0 rows "ly_id l"]
    by (simp split: if_splits)
qed

lemma layers_of_leg:
  assumes "move_leg c today m db = Inr (i, db')" "\<forall>l\<in>set (iv_layers db). 0 \<le> ly_remaining l"
  shows "\<forall>l\<in>set (iv_layers db'). 0 \<le> ly_remaining l"
proof -
  obtain company tenant w k batches db2 where q: "0 < mi_quantity m"
    and db2: "db2 = (record_movement c company tenant m db)\<lparr>iv_batches := batches\<rparr>"
    and l: "(if mi_method m = ''WEIGHTED_AVERAGE'' then move_weighted company tenant k m db2
      else if mi_method m = ''FIFO'' then move_fifo company tenant today k m db2 else Inr db2) = Inr db'"
    using move_legE [OF assms(1)] by metis
  have "iv_layers db2 = iv_layers db" by (simp add: db2 record_movement_def)
  then have fifo: "move_fifo company tenant today k m db2 = Inr db' \<Longrightarrow> \<forall>l\<in>set (iv_layers db'). 0 \<le> ly_remaining l"
    using q assms(2) s4.rnd_nonneg [of "mi_quantity m"]
    by (auto simp: move_fifo_def dest!: nonneg_consume split: if_splits prod.splits)
  moreover have "move_weighted company tenant k m db2 = Inr db' \<Longrightarrow> iv_layers db' = iv_layers db2"
    using stock_effect_weighted by blast
  ultimately show ?thesis using l \<open>iv_layers db2 = iv_layers db\<close> assms(2) by (auto split: if_splits)
qed

lemma nonnegative_leg: "nonnegative db \<Longrightarrow> move_leg c today m db = Inr (i, db') \<Longrightarrow> nonnegative db'"
  unfolding nonnegative_def
  using move_leg_frame(2,4,5) layers_of_leg nonneg_effect nonneg_batches by (metis (no_types, lifting))

interpretation signs: stock_invariant nonnegative
  by unfold_locales
    (auto simp: nonnegative_leg fit_transfer_in, (auto simp: nonnegative_def set_update_where)[4])

subsection \<open>Stock on hand and the movement book\<close>

text \<open>
  The abstract view of a place is one number, the sum of its movements with their signs. A located
  place has at most one row, and that row holds this number.
\<close>

definition signed_at :: "place \<Rightarrow> movement \<Rightarrow> rat" where
  "signed_at k v =
     (if movement_place (mv_move v) \<noteq> Some k then 0
      else if inbound (mi_type (mv_move v)) then mv_quantity v else - mv_quantity v)"

definition book_balance :: "place \<Rightarrow> movement list \<Rightarrow> rat" where
  "book_balance k vs = (\<Sum>v\<leftarrow>vs. signed_at k v)"

definition on_hand :: "place \<Rightarrow> stock_row list \<Rightarrow> rat" where
  "on_hand k rows = (\<Sum>r\<leftarrow>rows_at k rows. so_quantity r)"

definition row_books :: "stock_row list \<Rightarrow> rat \<Rightarrow> bool" where
  "row_books rows q \<longleftrightarrow> (case rows of [] \<Rightarrow> q = 0 | [r] \<Rightarrow> places4 (so_quantity r) \<and> so_quantity r = q | _ \<Rightarrow> False)"

definition book_ok :: "place \<Rightarrow> inv_db \<Rightarrow> bool" where
  "book_ok k db \<longleftrightarrow> row_books (rows_at k (iv_stock db)) (book_balance k (iv_movements db))"

lemma row_booksE:
  assumes "row_books rows q"
  obtains "rows = []" "q = 0" | r where "rows = [r]" "places4 (so_quantity r)" "so_quantity r = q"
  using assms by (auto simp: row_books_def split: list.splits)

lemma row_books_effect:
  assumes eff: "stock_effect adds k q rows rows'" and q: "places4 q" and k: "located k"
    and b: "row_books (rows_at k rows) x"
  shows "row_books (rows_at k rows') (if adds then x + q else x - q)"
proof (cases adds)
  case True
  then obtain f new where e: "rows' = upsert_stock f new rows" "row_place new = k" "so_quantity new = store4 q"
    "adds_quantity q f"
    using eff by (auto simp: stock_effect_def)
  have "rows_at k rows' = (if rows_at k rows = [] then [new] else map f (rows_at k rows))"
    using rows_at_upsert [OF k, of f new rows] e by (simp add: adds_quantity_def)
  with b show ?thesis
    using True e(3,4) q
    by (cases rule: row_booksE [OF b]) (simp_all add: row_books_def adds_quantity_def s4.rnd_add_fixed)
next
  case False
  then have i: "issue_stock k q rows = Inr rows'" using eff by (simp add: stock_effect_def)
  from b show ?thesis
  proof (cases rule: row_booksE)
    case 1
    then show ?thesis using issue_some [OF i] by simp
  next
    case (2 r)
    then show ?thesis
      using issue_some [OF i] rows_at_issue [OF i, of k] q False by (simp add: row_books_def s4.rnd_diff_fixed)
  qed
qed

lemma row_books_other:
  assumes eff: "stock_effect adds k' q rows rows'" and "located k" "k' \<noteq> k"
  shows "rows_at k rows' = rows_at k rows"
proof (cases adds)
  case True
  then obtain f new where e: "rows' = upsert_stock f new rows" "row_place new = k'" "adds_quantity q f"
    using eff by (auto simp: stock_effect_def)
  then show ?thesis using rows_at_upsert [OF assms(2), of f new rows] assms(3) by (simp add: adds_quantity_def)
next
  case False
  then show ?thesis using eff rows_at_issue [of k' q rows rows' k] assms(3) by (simp add: stock_effect_def)
qed

lemma book_ok_leg:
  assumes k: "located k" and b: "book_ok k db" and m: "fit m" and leg: "move_leg c today m db = Inr (i, db')"
  shows "book_ok k db'"
proof -
  obtain v where v: "iv_movements db' = iv_movements db @ [v]" "mv_move v = m" "mv_quantity v = store4 (mi_quantity m)"
    using move_leg_frame(3) [OF leg] by blast
  obtain k' where k': "movement_place m = Some k'"
    and eff: "stock_effect (inbound (mi_type m)) k' (mi_quantity m) (iv_stock db) (iv_stock db')"
    using move_leg_frame(4) [OF leg] m by (auto simp: fit_def)
  have bal: "book_balance k (iv_movements db') = book_balance k (iv_movements db) +
      (if k' \<noteq> k then 0 else if inbound (mi_type m) then mi_quantity m else - mi_quantity m)"
    using v k' m by (simp add: book_balance_def signed_at_def fit_def)
  show ?thesis
  proof (cases "k' = k")
    case True
    then show ?thesis
      using row_books_effect [OF eff [unfolded True] _ k, of "book_balance k (iv_movements db)"] b m bal
      by (simp add: book_ok_def fit_def split: if_splits)
  next
    case False
    then show ?thesis using row_books_other [OF eff k False] b bal by (simp add: book_ok_def)
  qed
qed

lemma rows_at_reserving:
  "rows_at k (update_where p (\<lambda>r. r\<lparr>so_reserved := g r\<rparr>) rows) = update_where p (\<lambda>r. r\<lparr>so_reserved := g r\<rparr>) (rows_at k rows)"
  by (rule rows_at_update) (simp add: row_place_def)

lemma row_books_reserving: "row_books (update_where p (\<lambda>r. r\<lparr>so_reserved := g r\<rparr>) rows) q = row_books rows q"
  by (auto simp: row_books_def update_where_def split: list.splits)

interpretation book: stock_invariant "book_ok (product, Some batch, warehouse, Some bin)" for product batch warehouse bin
proof unfold_locales
  fix db m c today i db'
  assume "book_ok (product, Some batch, warehouse, Some bin) db" "fit m" "move_leg c today m db = Inr (i, db')"
  then show "book_ok (product, Some batch, warehouse, Some bin) db'"
    using book_ok_leg [of "(product, Some batch, warehouse, Some bin)"] by (simp add: located_def)
qed (simp_all add: fit_transfer_in book_ok_def rows_at_reserving row_books_reserving)

lemma steps_keep:
  assumes "stock_invariant Q" "inv_step\<^sup>*\<^sup>* db db'" "items_stored db" "Q db"
  shows "items_stored db' \<and> Q db'"
  using assms(2-4)
proof (induction rule: rtranclp_induct)
  case base
  then show ?case by simp
next
  case (step y z)
  then show ?case using items_stored_step stock_invariant.step_keeps [OF assms(1)] by blast
qed

lemma row_books_sum: "row_books rows q \<Longrightarrow> (\<Sum>r\<leftarrow>rows. so_quantity r) = q"
  by (auto elim: row_booksE)

subsection \<open>First in, first out\<close>

text \<open>What an issue of \<open>q\<close> takes from each layer, given the open layers in order.\<close>

fun taken_from :: "rat \<Rightarrow> stock_layer list \<Rightarrow> row_id \<Rightarrow> rat" where
  "taken_from q [] i = 0"
| "taken_from q (l # ls) i = (if i = ly_id l then min q (ly_remaining l) else taken_from (q - min q (ly_remaining l)) ls i)"

lemma later_id: "distinct (map ly_id (l # ls)) \<Longrightarrow> x \<in> set ls \<Longrightarrow> ly_id x \<noteq> ly_id l"
  by (auto simp: image_iff)

lemma taken_none: "(\<And>l. l \<in> set ls \<Longrightarrow> 0 \<le> ly_remaining l) \<Longrightarrow> taken_from 0 ls i = 0"
  by (induction ls) auto

lemma taken_outside: "i \<notin> ly_id ` set ls \<Longrightarrow> taken_from q ls i = 0"
  by (induction ls arbitrary: q) auto

definition take_layers :: "(row_id \<Rightarrow> rat) \<Rightarrow> stock_layer list \<Rightarrow> stock_layer list" where
  "take_layers t rows = map (\<lambda>l. l\<lparr>ly_remaining := ly_remaining l - t (ly_id l)\<rparr>) rows"

lemma take_layers_zero: "(\<And>i. t i = 0) \<Longrightarrow> take_layers t rows = rows"
  by (simp add: take_layers_def)

text \<open>Layer \<open>l\<close> is the row of \<open>rows\<close> with its id.\<close>

definition is_row :: "stock_layer list \<Rightarrow> stock_layer \<Rightarrow> bool" where
  "is_row rows l \<longleftrightarrow> (\<forall>x\<in>set rows. ly_id x = ly_id l \<longrightarrow> ly_remaining x = ly_remaining l)"

lemma set_remaining_take:
  assumes "is_row rows l" "places4 q" "places4 (ly_remaining l)"
  shows "set_remaining (ly_id l) (ly_remaining l - q) rows = take_layers (\<lambda>i. if i = ly_id l then q else 0) rows"
  using assms by (auto simp: set_remaining_def update_where_def take_layers_def is_row_def s4.rnd_diff_fixed)

lemma take_layers_twice:
  "take_layers t (take_layers u rows) = take_layers (\<lambda>i. u i + t i) rows"
  by (simp add: take_layers_def algebra_simps)

lemma is_row_take: "is_row rows l \<Longrightarrow> t (ly_id l) = 0 \<Longrightarrow> is_row (take_layers t rows) l"
  by (auto simp: is_row_def take_layers_def)

lemma consume_layers_takes:
  assumes "distinct (map ly_id ls)" "\<And>l. l \<in> set ls \<Longrightarrow> is_row rows l \<and> 0 < ly_remaining l \<and> places4 (ly_remaining l)"
    and "0 \<le> q" "places4 q"
  shows "consume_layers q ls rows = (max 0 (q - (\<Sum>l\<leftarrow>ls. ly_remaining l)), take_layers (taken_from q ls) rows)"
  using assms
proof (induction ls arbitrary: q rows)
  case Nil
  then show ?case by (simp add: take_layers_zero)
next
  case (Cons l ls)
  have sum: "0 \<le> (\<Sum>x\<leftarrow>ls. ly_remaining x)"
    using Cons.prems(2) by (intro sum_list_nonneg) (auto intro: less_imp_le)
  define t where "t = min q (ly_remaining l)"
  define rows1 where "rows1 = take_layers (\<lambda>i. if i = ly_id l then t else 0) rows"
  have l: "is_row rows l" "places4 (ly_remaining l)" "0 < ly_remaining l" using Cons.prems(2) by auto
  have t: "places4 t" "0 \<le> t" using Cons.prems(3,4) l by (auto simp: t_def s4.rnd_min_fixed)
  have ids: "ly_id l \<notin> ly_id ` set ls" using Cons.prems(1) by auto
  have IH: "consume_layers (q - t) ls rows1 = (max 0 (q - t - (\<Sum>l\<leftarrow>ls. ly_remaining l)), take_layers (taken_from (q - t) ls) rows1)"
  proof (rule Cons.IH)
    show "is_row rows1 x \<and> 0 < ly_remaining x \<and> places4 (ly_remaining x)" if "x \<in> set ls" for x
      using that later_id [OF Cons.prems(1)] Cons.prems(2) unfolding rows1_def by (auto intro!: is_row_take)
  qed (use Cons.prems t in \<open>auto simp: t_def s4.rnd_diff_fixed\<close>)
  have "taken_from q (l # ls) i = (if i = ly_id l then t else 0) + taken_from (q - t) ls i" for i
    using taken_outside [OF ids] by (simp add: t_def)
  then have "taken_from q (l # ls) = (\<lambda>i. (if i = ly_id l then t else 0) + taken_from (q - t) ls i)" by (rule ext)
  then have rest: "take_layers (taken_from (q - t) ls) rows1 = take_layers (taken_from q (l # ls)) rows"
    by (simp only: rows1_def take_layers_twice)
  show ?case
  proof (cases "q = 0")
    case True
    have "max 0 (q - (\<Sum>l\<leftarrow>l # ls. ly_remaining l)) = 0" using sum l(3) True by simp
    moreover have "take_layers (taken_from q (l # ls)) rows = rows"
      unfolding True using Cons.prems(2) by (intro take_layers_zero taken_none) (auto intro: less_imp_le)
    ultimately show ?thesis using True by (simp del: taken_from.simps)
  next
    case False
    have "consume_layers q (l # ls) rows = consume_layers (q - t) ls rows1"
      using False Cons.prems(3) set_remaining_take [OF l(1) t(1) l(2)]
      by (cases "q \<le> ly_remaining l") (simp_all add: t_def rows1_def)
    moreover have "max 0 (q - t - (\<Sum>l\<leftarrow>ls. ly_remaining l)) = max 0 (q - (\<Sum>l\<leftarrow>l # ls. ly_remaining l))"
      using sum by (auto simp: t_def min_def max_def)
    ultimately show ?thesis using IH rest by (simp only:)
  qed
qed

lemma taken_sum:
  assumes "distinct (map ly_id ls)" "\<And>l. l \<in> set ls \<Longrightarrow> 0 \<le> ly_remaining l" "0 \<le> q"
  shows "(\<Sum>l\<leftarrow>ls. taken_from q ls (ly_id l)) = min q (\<Sum>l\<leftarrow>ls. ly_remaining l)"
  using assms
proof (induction ls arbitrary: q)
  case Nil
  then show ?case by simp
next
  case (Cons l ls)
  have "(\<Sum>x\<leftarrow>ls. taken_from q (l # ls) (ly_id x)) = (\<Sum>x\<leftarrow>ls. taken_from (q - min q (ly_remaining l)) ls (ly_id x))"
    using later_id [OF Cons.prems(1)] by (intro arg_cong [where f = sum_list] map_cong) simp_all
  also have "\<dots> = min (q - min q (ly_remaining l)) (\<Sum>l\<leftarrow>ls. ly_remaining l)"
    using Cons.prems by (intro Cons.IH) auto
  finally show ?case
    using Cons.prems sum_list_nonneg [of "map ly_remaining ls"] by (auto simp: min_def)
qed

lemma taken_bounds:
  assumes "distinct (map ly_id ls)" "\<And>l. l \<in> set ls \<Longrightarrow> 0 \<le> ly_remaining l" "0 \<le> q" "x \<in> set ls"
  shows "0 \<le> taken_from q ls (ly_id x) \<and> taken_from q ls (ly_id x) \<le> ly_remaining x"
  using assms
proof (induction ls arbitrary: q)
  case Nil
  then show ?case by simp
next
  case (Cons l ls)
  show ?case
  proof (cases "x = l")
    case True
    then show ?thesis using Cons.prems by (simp add: min_def)
  next
    case False
    then have "x \<in> set ls" using Cons.prems(4) by simp
    then show ?thesis
      using Cons.prems(1-3) later_id [OF Cons.prems(1)] Cons.IH [of "q - min q (ly_remaining l)"] by simp
  qed
qed

lemma taken_oldest_first:
  "distinct (map ly_id ls) \<Longrightarrow> (\<And>l. l \<in> set ls \<Longrightarrow> 0 \<le> ly_remaining l) \<Longrightarrow> 0 \<le> q \<Longrightarrow> i < j \<Longrightarrow> j < length ls
     \<Longrightarrow> taken_from q ls (ly_id (ls ! j)) \<noteq> 0 \<Longrightarrow> taken_from q ls (ly_id (ls ! i)) = ly_remaining (ls ! i)"
proof (induction ls arbitrary: q i j)
  case Nil
  then show ?case by simp
next
  case (Cons l ls)
  obtain j' where j: "j = Suc j'" using Cons.prems(4) by (cases j) auto
  have jm: "ls ! j' \<in> set ls" using Cons.prems(5) j by simp
  then have "ly_id (ls ! j') \<noteq> ly_id l" by (rule later_id [OF Cons.prems(1)])
  then have later: "taken_from (q - min q (ly_remaining l)) ls (ly_id (ls ! j')) \<noteq> 0" using Cons.prems(6) j by simp
  show ?case
  proof (cases i)
    case 0
    have "q - min q (ly_remaining l) \<noteq> 0" using later taken_none [of ls] Cons.prems(2) by auto
    then show ?thesis using 0 by (simp add: min_def split: if_splits)
  next
    case (Suc i')
    have "ly_id (ls ! i') \<noteq> ly_id l" using Cons.prems(4,5) j Suc by (intro later_id [OF Cons.prems(1)]) simp
    moreover have "taken_from (q - min q (ly_remaining l)) ls (ly_id (ls ! i')) = ly_remaining (ls ! i')"
      using Cons.prems j Suc later by (intro Cons.IH [of _ i' j']) auto
    ultimately show ?thesis using Suc by simp
  qed
qed

subsection \<open>Properties\<close>

definition stock_user :: ctx where
  "stock_user = \<lparr>cx_tenant = Some 1, cx_company = Some 1, cx_branch = None, cx_user = Some 7\<rparr>"

definition empty_stock :: inv_db where
  "empty_stock = \<lparr>iv_stock = [], iv_layers = [], iv_batches = [\<lparr>bt_id = 4, bt_quantity = 0\<rparr>], iv_movements = [],
     iv_reservations = [], iv_adjustments = [], iv_transfers = [], iv_iso = [], iv_next = 1\<rparr>"

text \<open>A movement of product 9 at warehouse 2.\<close>

definition sample_move :: "string \<Rightarrow> row_id option \<Rightarrow> row_id option \<Rightarrow> rat \<Rightarrow> rat \<Rightarrow> string \<Rightarrow> move_input" where
  "sample_move kind batch bin q cost method =
     \<lparr>mi_type = kind, mi_product = 9, mi_batch = batch, mi_warehouse = Some 2, mi_bin = bin, mi_from_warehouse = None,
      mi_from_bin = None, mi_to_warehouse = None, mi_to_bin = None, mi_quantity = q, mi_cost = cost, mi_ref = None,
      mi_qr = None, mi_work_order = None, mi_reason = None, mi_method = method\<rparr>"

definition run_moves :: "move_input list \<Rightarrow> inv_db" where
  "run_moves ms = (case post_moves stock_user 100 ms empty_stock of Inl _ \<Rightarrow> empty_stock | Inr db \<Rightarrow> db)"

lemma run_moves_steps:
  assumes "\<And>m. m \<in> set ms \<Longrightarrow> fit m"
  shows "inv_step\<^sup>*\<^sup>* empty_stock (run_moves ms)"
proof -
  have "post_moves c today ms db = Inr db' \<Longrightarrow> (\<And>m. m \<in> set ms \<Longrightarrow> fit m) \<Longrightarrow> inv_step\<^sup>*\<^sup>* db db'" for c today db db'
    by (induction ms arbitrary: db) (auto intro: converse_rtranclp_into_rtranclp inv_step.move)
  then show ?thesis using assms by (simp add: run_moves_def split: sum.splits)
qed


definition located_moves :: "move_input list" where
  "located_moves = [sample_move ''RECEIPT'' (Some 4) (Some 3) 10 100 ''WEIGHTED_AVERAGE'',
                    sample_move ''RECEIPT'' (Some 4) (Some 3) 5 130 ''WEIGHTED_AVERAGE'',
                    sample_move ''ISSUE'' (Some 4) (Some 3) 6 0 ''WEIGHTED_AVERAGE'']"

lemma located_moves_fit: "m \<in> set located_moves \<Longrightarrow> fit m"
  by (auto simp: located_moves_def sample_move_def fit_def moves_stock_def store4_def round_eval)


text \<open>
  C21. No sequence of operations makes a quantity on hand, the quantity of a batch or what is left of
  a cost layer negative.
\<close>

theorem stock_never_negative:
  assumes "inv_step\<^sup>*\<^sup>* db db'" and "items_stored db" and "nonnegative db"
  shows "(\<forall>r\<in>set (iv_stock db'). 0 \<le> so_quantity r) \<and> (\<forall>b\<in>set (iv_batches db'). 0 \<le> bt_quantity b)
    \<and> (\<forall>l\<in>set (iv_layers db'). 0 \<le> ly_remaining l)"
  using steps_keep [OF signs.stock_invariant_axioms assms] by (simp add: nonnegative_def)

lemma stock_never_negative_witness:
  "iv_stock (run_moves located_moves) \<noteq> [] \<and> filter (\<lambda>r. so_quantity r < 0) (iv_stock (run_moves located_moves)) = []"
proof -
  have start: "items_stored empty_stock" "nonnegative empty_stock"
    by (simp_all add: items_stored_def empty_stock_def nonnegative_def)
  have "iv_stock (run_moves located_moves) \<noteq> []" by code_simp
  then show ?thesis
    using stock_never_negative [OF run_moves_steps [OF located_moves_fit] start, of located_moves]
    by (auto simp: filter_empty_conv)
qed

text \<open>
  C22. An accepted issue under FIFO takes exactly its quantity out of the open layers of its place,
  oldest first: a layer is touched only when every older one is emptied, no layer gives more
  than it has, and layers of other places are left alone.
\<close>

theorem fifo_issue_takes_oldest:
  assumes move: "move_fifo company tenant today k m db = Inr db'" and out: "\<not> inbound (mi_type m)"
    and q: "0 < mi_quantity m" "places4 (mi_quantity m)"
    and rows: "distinct (map ly_id (iv_layers db))" "\<forall>l\<in>set (iv_layers db). places4 (ly_remaining l)"
  shows "\<exists>t. iv_layers db' = take_layers t (iv_layers db)
    \<and> (\<Sum>l\<leftarrow>open_layers k (iv_layers db). t (ly_id l)) = mi_quantity m
    \<and> (\<forall>l\<in>set (open_layers k (iv_layers db)). 0 \<le> t (ly_id l) \<and> t (ly_id l) \<le> ly_remaining l)
    \<and> (\<forall>i. i \<notin> ly_id ` set (open_layers k (iv_layers db)) \<longrightarrow> t i = 0)
    \<and> (\<forall>i j. i < j \<and> j < length (open_layers k (iv_layers db)) \<and> t (ly_id (open_layers k (iv_layers db) ! j)) \<noteq> 0
         \<longrightarrow> t (ly_id (open_layers k (iv_layers db) ! i)) = ly_remaining (open_layers k (iv_layers db) ! i))"
proof -
  define ls where "ls = open_layers k (iv_layers db)"
  have sub: "set ls \<subseteq> set (iv_layers db)" "\<And>l. l \<in> set ls \<Longrightarrow> 0 < ly_remaining l"
    by (auto simp: ls_def open_layers_def split: prod.splits)
  have inj: "inj_on ly_id (set (iv_layers db))" using rows(1) by (simp add: distinct_map)
  have d: "distinct (map ly_id ls)"
    using rows(1) inj_on_subset [OF inj sub(1)]
    by (auto simp: distinct_map ls_def open_layers_def split: prod.splits)
  have row: "is_row (iv_layers db) l" if "l \<in> set ls" for l
    using inj_onD [OF inj] sub(1) that by (auto simp: is_row_def)
  have c: "consume_layers (mi_quantity m) ls (iv_layers db) =
      (max 0 (mi_quantity m - (\<Sum>l\<leftarrow>ls. ly_remaining l)), take_layers (taken_from (mi_quantity m) ls) (iv_layers db))"
    using consume_layers_takes [OF d _ less_imp_le [OF q(1)] q(2)] row sub rows(2) by (auto simp: subset_iff)
  have layers: "iv_layers db' = take_layers (taken_from (mi_quantity m) ls) (iv_layers db)"
    and enough: "mi_quantity m \<le> (\<Sum>l\<leftarrow>ls. ly_remaining l)"
    using move out c by (auto simp: move_fifo_def ls_def [symmetric] split: if_splits)
  note facts = d less_imp_le [OF sub(2)] less_imp_le [OF q(1)]
  show ?thesis
    unfolding ls_def [symmetric]
    using layers enough taken_sum [OF facts] taken_bounds [OF facts] taken_oldest_first [OF facts] taken_outside [of _ ls]
    by (intro exI [of _ "taken_from (mi_quantity m) ls"]) auto
qed

definition fifo_moves :: "move_input list" where
  "fifo_moves = [sample_move ''RECEIPT'' None None 10 100 ''FIFO'', sample_move ''RECEIPT'' None None 5 130 ''FIFO'']"

lemma fifo_issue_takes_oldest_witness:
  "\<exists>db t. move_fifo 1 1 101 (9, None, 2, None) (sample_move ''ISSUE'' None None 4 0 ''FIFO'') (run_moves fifo_moves) = Inr db
     \<and> iv_layers db = take_layers t (iv_layers (run_moves fifo_moves))
     \<and> (\<Sum>l\<leftarrow>open_layers (9, None, 2, None) (iv_layers (run_moves fifo_moves)). t (ly_id l)) = 4"
proof -
  let ?m = "sample_move ''ISSUE'' None None 4 0 ''FIFO''" and ?db = "run_moves fifo_moves"
  have "case move_fifo 1 1 101 (9, None, 2, None) ?m ?db of Inl _ \<Rightarrow> False | Inr _ \<Rightarrow> True" by code_simp
  then obtain db where move: "move_fifo 1 1 101 (9, None, 2, None) ?m ?db = Inr db" by (auto split: sum.splits)
  have "distinct (map ly_id (iv_layers ?db))" "\<forall>l\<in>set (iv_layers ?db). places4 (ly_remaining l)" by code_simp+
  moreover have "\<not> inbound (mi_type ?m)" "0 < mi_quantity ?m" "places4 (mi_quantity ?m)" by code_simp+
  ultimately have "\<exists>t. iv_layers db = take_layers t (iv_layers ?db)
     \<and> (\<Sum>l\<leftarrow>open_layers (9, None, 2, None) (iv_layers ?db). t (ly_id l)) = mi_quantity ?m"
    using fifo_issue_takes_oldest [OF move] by blast
  moreover have "mi_quantity ?m = 4" by (simp add: sample_move_def)
  ultimately show ?thesis using move by auto
qed

text \<open>The value of the stock at a place, as \<open>stockSummary\<close> and \<open>warehouseBoard\<close> compute it.\<close>

definition stock_value :: "place \<Rightarrow> stock_row list \<Rightarrow> rat" where
  "stock_value k rows = (\<Sum>r\<leftarrow>rows_at k rows. so_quantity r * so_avg r)"

lemma weighted_row_value:
  assumes "0 \<le> so_quantity r" "places4 (so_quantity r)" "0 < q" "places4 q" "places4 cost"
  shows "\<bar>so_quantity (add_weighted q cost r) * so_avg (add_weighted q cost r) - (so_quantity r * so_avg r + q * cost)\<bar>
    \<le> so_quantity (add_weighted q cost r) / 20000"
proof (cases "so_quantity r = 0")
  case True
  then show ?thesis using assms by (simp add: add_weighted_def)
next
  case False
  define n where "n = so_quantity r + q"
  define x where "x = (so_avg r * so_quantity r + q * cost) / n"
  have n: "0 < n" "store4 n = n" using assms by (simp_all add: n_def s4.rnd_add_fixed)
  have "\<bar>store4 x - x\<bar> \<le> 1 / 20000" using s4.rnd_near [of x] by simp
  then have "n * \<bar>store4 x - x\<bar> \<le> n * (1 / 20000)" using n by (intro mult_left_mono) simp_all
  then have "\<bar>n * store4 x - n * x\<bar> \<le> n / 20000" using n by (simp add: abs_mult right_diff_distrib [symmetric])
  moreover have "n * x = so_quantity r * so_avg r + q * cost" using n by (simp add: x_def)
  moreover have "so_quantity (add_weighted q cost r) = n" "so_avg (add_weighted q cost r) = store4 x"
    using False assms(1) n by (simp_all add: add_weighted_def n_def x_def)
  ultimately show ?thesis by (simp only:)
qed

text \<open>
  A receipt valued at the weighted average raises the value of a place by its quantity times its
  cost, up to half of the last stored decimal of the average per unit on hand.
\<close>

theorem weighted_receipt_value:
  assumes leg: "move_leg c today m db = Inr (i, db')" and kind: "inbound (mi_type m)" "mi_method m = ''WEIGHTED_AVERAGE''"
    and k: "movement_place m = Some (product, Some batch, warehouse, Some bin)"
    and ok: "book_ok (product, Some batch, warehouse, Some bin) db" "nonnegative db"
    and q: "places4 (mi_quantity m)" "places4 (mi_cost m)"
  shows "\<bar>stock_value (product, Some batch, warehouse, Some bin) (iv_stock db')
      - (stock_value (product, Some batch, warehouse, Some bin) (iv_stock db) + mi_quantity m * mi_cost m)\<bar>
    \<le> on_hand (product, Some batch, warehouse, Some bin) (iv_stock db') / 20000"
proof -
  let ?k = "(product, Some batch, warehouse, Some bin)"
  define f where "f = add_weighted (mi_quantity m) (mi_cost m)"
  obtain company tenant w k' batches db2 where pos: "0 < mi_quantity m" and k': "movement_place m = Some k'"
    and db2: "db2 = (record_movement c company tenant m db)\<lparr>iv_batches := batches\<rparr>"
    and l: "(if mi_method m = ''WEIGHTED_AVERAGE'' then move_weighted company tenant k' m db2
      else if mi_method m = ''FIFO'' then move_fifo company tenant today k' m db2 else Inr db2) = Inr db'"
    using move_legE [OF leg] by metis
  have stock: "iv_stock db' =
      upsert_stock f (new_stock company tenant ?k (mi_quantity m) (mi_cost m) ''WEIGHTED_AVERAGE'') (iv_stock db)"
    using l k k' kind q by (auto simp: move_weighted_def f_def db2 record_movement_def)
  have at: "rows_at ?k (iv_stock db') = (if rows_at ?k (iv_stock db) = []
      then [new_stock company tenant ?k (mi_quantity m) (mi_cost m) ''WEIGHTED_AVERAGE''] else map f (rows_at ?k (iv_stock db)))"
    unfolding stock
    by (subst rows_at_upsert) (simp_all add: located_def, simp add: f_def add_weighted_def row_place_def)
  from ok(1) [unfolded book_ok_def] show ?thesis
  proof (cases rule: row_booksE)
    case 1
    then show ?thesis using at q pos by (simp add: stock_value_def on_hand_def new_stock_def)
  next
    case (2 r)
    have "r \<in> set (rows_at ?k (iv_stock db))" using 2 by simp
    then have "0 \<le> so_quantity r" using ok(2) by (auto simp: nonnegative_def rows_at_def)
    then show ?thesis
      using 2 at q pos weighted_row_value [of r "mi_quantity m" "mi_cost m"] by (simp add: stock_value_def on_hand_def f_def)
  qed
qed

lemma weighted_receipt_value_witness:
  "\<bar>stock_value (9, Some 4, 2, Some 3)
      (iv_stock (run_moves (take 2 located_moves))) - (stock_value (9, Some 4, 2, Some 3) (iv_stock (run_moves (take 1 located_moves))) + 650)\<bar>
    \<le> 15 / 20000"
proof -
  let ?m = "located_moves ! 1" and ?k = "(9, Some 4, 2, Some 3)"
  have "case move_leg stock_user 100 ?m (run_moves (take 1 located_moves)) of
      Inl _ \<Rightarrow> False | Inr (i, db) \<Rightarrow> iv_stock db = iv_stock (run_moves (take 2 located_moves))" by code_simp
  then obtain i db where leg: "move_leg stock_user 100 ?m (run_moves (take 1 located_moves)) = Inr (i, db)"
    and same: "iv_stock db = iv_stock (run_moves (take 2 located_moves))" by (auto split: sum.splits)
  have m: "inbound (mi_type ?m)" "mi_method ?m = ''WEIGHTED_AVERAGE''" "movement_place ?m = Some ?k"
    "places4 (mi_quantity ?m)" "places4 (mi_cost ?m)" "mi_quantity ?m * mi_cost ?m = 650" by code_simp+
  have ok: "book_ok ?k (run_moves (take 1 located_moves))" "nonnegative (run_moves (take 1 located_moves))"
    by code_simp+
  have "on_hand ?k (iv_stock (run_moves (take 2 located_moves))) = 15" by code_simp
  then show ?thesis using weighted_receipt_value [OF leg m(1,2,3) ok m(4,5)] m(6) same by simp
qed

lemma issued_sum:
  "\<forall>r\<in>set rows. places4 (so_quantity r) \<Longrightarrow> places4 q \<Longrightarrow>
   (\<Sum>r\<leftarrow>map (\<lambda>r. if 0 \<le> so_quantity r - q then r\<lparr>so_quantity := store4 (so_quantity r - q)\<rparr> else r) rows. so_quantity r)
      = (\<Sum>r\<leftarrow>rows. so_quantity r) - of_nat (length (filter (\<lambda>r. q \<le> so_quantity r) rows)) * q"
  by (induction rows) (auto simp: algebra_simps s4.rnd_diff_fixed)

text \<open>
  C23. An issue takes its quantity from every row of the place that can give it, not from the place
  once: the quantity on hand falls by the quantity times the number of such rows.
\<close>

theorem issue_takes_from_each_row:
  assumes leg: "move_leg c today m db = Inr (i, db')" and out: "\<not> inbound (mi_type m)" and m: "fit m"
    and k: "movement_place m = Some k" and stored: "\<forall>r\<in>set (iv_stock db). places4 (so_quantity r)"
  shows "on_hand k (iv_stock db') = on_hand k (iv_stock db)
    - of_nat (length (filter (\<lambda>r. mi_quantity m \<le> so_quantity r) (rows_at k (iv_stock db)))) * mi_quantity m"
proof -
  have issue: "issue_stock k (mi_quantity m) (iv_stock db) = Inr (iv_stock db')"
    using move_leg_frame(4) [OF leg] k m out by (auto simp: fit_def stock_effect_def)
  have "\<forall>r\<in>set (rows_at k (iv_stock db)). places4 (so_quantity r)" using stored by (simp add: rows_at_def)
  then show ?thesis
    using m rows_at_issue [OF issue, of k] issued_sum [of "rows_at k (iv_stock db)" "mi_quantity m"]
    by (simp add: on_hand_def fit_def)
qed

text \<open>Two receipts of ten without a batch or bin make two rows; an issue of five then removes ten.\<close>

definition plain_moves :: "move_input list" where
  "plain_moves = [sample_move ''RECEIPT'' None None 10 100 ''WEIGHTED_AVERAGE'',
                  sample_move ''RECEIPT'' None None 10 100 ''WEIGHTED_AVERAGE'']"

lemma issue_takes_from_each_row_witness:
  "\<exists>i db. move_leg stock_user 100 (sample_move ''ISSUE'' None None 5 0 ''WEIGHTED_AVERAGE'') (run_moves plain_moves) = Inr (i, db)
     \<and> on_hand (9, None, 2, None) (iv_stock (run_moves plain_moves)) = 20 \<and> on_hand (9, None, 2, None) (iv_stock db) = 10"
proof -
  let ?m = "sample_move ''ISSUE'' None None 5 0 ''WEIGHTED_AVERAGE''" and ?k = "(9, None, 2, None)"
  have "case move_leg stock_user 100 ?m (run_moves plain_moves) of Inl _ \<Rightarrow> False | Inr _ \<Rightarrow> True" by code_simp
  then obtain i db where leg: "move_leg stock_user 100 ?m (run_moves plain_moves) = Inr (i, db)"
    by (auto split: sum.splits)
  have m: "\<not> inbound (mi_type ?m)" "fit ?m" "movement_place ?m = Some ?k"
    "\<forall>r\<in>set (iv_stock (run_moves plain_moves)). places4 (so_quantity r)" by code_simp+
  have "on_hand ?k (iv_stock (run_moves plain_moves)) = 20"
    "length (filter (\<lambda>r. mi_quantity ?m \<le> so_quantity r) (rows_at ?k (iv_stock (run_moves plain_moves)))) = 2"
    "mi_quantity ?m = 5" by code_simp+
  then show ?thesis using issue_takes_from_each_row [OF leg m] leg by (auto simp: numeral_eq_Suc)
qed

lemma find_after_update: "(\<And>r. \<not> P (f r)) \<Longrightarrow> find P (update_where P f rows) = None"
  by (induction rows) (auto simp: update_where_def)

text \<open>
  Releasing a reservation right after it was made restores every stock row, and the released
  reservation cannot be released or consumed again.
\<close>

theorem release_undoes_reserve:
  assumes r: "reserve x db = Inr (i, db')" and q: "places4 (ri_quantity x)"
    and stored: "\<forall>r\<in>set (iv_stock db). places4 (so_reserved r)" and fresh: "\<forall>v\<in>set (iv_reservations db). rv_id v < iv_next db"
  shows "iv_stock (release i db') = iv_stock db
    \<and> release i (release i db') = release i db' \<and> consume i (release i db') = release i db'"
proof -
  let ?here = "reserved_at (ri_product x) (ri_batch x) (ri_warehouse x)"
  define v where "v = \<lparr>rv_id = iv_next db, rv_product = ri_product x, rv_batch = ri_batch x, rv_warehouse = ri_warehouse x,
      rv_quantity = ri_quantity x, rv_ref = ri_ref x, rv_status = ''ACTIVE''\<rparr>"
  have db': "i = iv_next db" "iv_reservations db' = iv_reservations db @ [v]"
    "iv_stock db' = update_where ?here (\<lambda>r. r\<lparr>so_reserved := store4 (so_reserved r + ri_quantity x)\<rparr>) (iv_stock db)"
    using r q by (auto simp: reserve_def Let_def v_def split: if_splits)
  have none: "find (\<lambda>r. rv_id r = i \<and> rv_status r = ''ACTIVE'') (iv_reservations db) = None"
    using fresh db'(1) by (auto simp: find_None_iff_mem)
  have "find P (xs @ [y]) = (case find P xs of None \<Rightarrow> if P y then Some y else None | Some z \<Rightarrow> Some z)"
    for P xs and y :: reservation
    by (induction xs) auto
  then have active: "active_reservation i db' = Some v"
    using none db'(1,2) by (simp add: active_reservation_def v_def)
  have restored: "update_where ?here (\<lambda>r. r\<lparr>so_reserved := store4 (so_reserved r - ri_quantity x)\<rparr>) (iv_stock db') = iv_stock db"
    using stored q unfolding db'(3)
    by (auto simp: update_where_def reserved_at_def s4.rnd_add_fixed intro!: map_idI)
  have "iv_reservations (release i db') = update_where (\<lambda>r. rv_id r = i \<and> rv_status r = ''ACTIVE'')
      (\<lambda>r. r\<lparr>rv_status := ''RELEASED''\<rparr>) (iv_reservations db')"
    by (simp add: release_def end_reservation_def active)
  then have gone: "active_reservation i (release i db') = None"
    unfolding active_reservation_def by (simp only:) (rule find_after_update, simp)
  have "iv_stock (release i db') = iv_stock db"
    using restored by (simp add: release_def end_reservation_def active v_def)
  moreover have "end_reservation lower status i (release i db') = release i db'" for lower status
    using gone by (simp only: end_reservation_def option.case)
  ultimately show ?thesis by (simp add: consume_def release_def)
qed

lemma release_undoes_reserve_witness:
  "\<exists>i db. reserve \<lparr>ri_product = 9, ri_batch = None, ri_warehouse = Some 2, ri_quantity = 3, ri_ref = (''sales_orders'', 1)\<rparr>
       (run_moves plain_moves) = Inr (i, db)
     \<and> iv_stock db \<noteq> iv_stock (run_moves plain_moves) \<and> iv_stock (release i db) = iv_stock (run_moves plain_moves)"
proof -
  let ?x = "\<lparr>ri_product = 9, ri_batch = None, ri_warehouse = Some 2, ri_quantity = 3, ri_ref = (''sales_orders'', 1)\<rparr>"
  have "case reserve ?x (run_moves plain_moves) of Inl _ \<Rightarrow> False | Inr (i, db) \<Rightarrow> iv_stock db \<noteq> iv_stock (run_moves plain_moves)"
    by code_simp
  then obtain i db where r: "reserve ?x (run_moves plain_moves) = Inr (i, db)" "iv_stock db \<noteq> iv_stock (run_moves plain_moves)"
    by (auto split: sum.splits)
  have "places4 (ri_quantity ?x)" "\<forall>r\<in>set (iv_stock (run_moves plain_moves)). places4 (so_reserved r)"
    "\<forall>v\<in>set (iv_reservations (run_moves plain_moves)). rv_id v < iv_next (run_moves plain_moves)" by code_simp+
  then show ?thesis using release_undoes_reserve [OF r(1)] r by blast
qed


end
