(* ===== verification/Workflow.thy ===== *)
theory Workflow
  imports Payroll_Lifecycle Inventory
begin

text \<open>
  The approval engine, \<^verbatim>\<open>apps/api/src/services/workflow.ts\<close>, with the table of entities it
  drives (\<^verbatim>\<open>apps/api/src/services/entities.ts\<close>) and the escalation job of
  \<^verbatim>\<open>apps/api/src/services/cronJobs.ts\<close>. Sales and purchase documents, stock documents and payroll
  runs are those of the theories below; every other document is a status and an owner. The
  asset and security-printing services, which the engine calls on approval, are arguments. The
  engine's notifications are not modelled. The time and the day of an operation are arguments.
\<close>

subsection \<open>Entities (entities.ts)\<close>

datatype on_approve = E_NONE | E_POST | E_AUTHORIZE | E_RELEASE

record wf_entity =
  en_table :: string
  en_approved :: string
  en_rejected :: string
  en_effect :: on_approve
  en_owner :: "string option"
  en_requires :: bool
  en_draft :: string

definition entity :: "string \<Rightarrow> on_approve \<Rightarrow> string option \<Rightarrow> wf_entity" where
  "entity table effect owner =
     \<lparr>en_table = table, en_approved = ''APPROVED'', en_rejected = ''REJECTED'', en_effect = effect, en_owner = owner,
      en_requires = True, en_draft = ''DRAFT''\<rparr>"

definition ENTITIES :: "(string \<times> wf_entity) list" where
  "ENTITIES =
   [(''sales.orders'', entity ''sales_orders'' E_NONE None),
    (''sales.quotations'', (entity ''sales_quotations'' E_NONE None)\<lparr>en_requires := False\<rparr>),
    (''sales.invoices'', entity ''customer_invoices'' E_POST (Some ''created_by'')),
    (''sales.credit_notes'', entity ''credit_notes'' E_POST (Some ''created_by'')),
    (''sales.debit_notes'', entity ''debit_notes'' E_POST (Some ''created_by'')),
    (''procurement.orders'', entity ''purchase_orders'' E_NONE (Some ''created_by'')),
    (''procurement.po_amendments'', entity ''po_amendments'' E_NONE (Some ''created_by'')),
    (''procurement.suppliers'', entity ''suppliers'' E_NONE None),
    (''procurement.requisitions'', entity ''purchase_requisitions'' E_NONE (Some ''requested_by'')),
    (''procurement.supplier_invoices'', entity ''supplier_invoices'' E_POST (Some ''created_by'')),
    (''procurement.payments'', (entity ''supplier_payments'' E_RELEASE (Some ''created_by''))\<lparr>en_draft := ''PENDING''\<rparr>),
    (''inventory.adjustments'', entity ''inventory_adjustments'' E_POST (Some ''created_by'')),
    (''inventory.transfers'', entity ''inventory_transfers'' E_POST (Some ''created_by'')),
    (''inventory.items'', entity ''products'' E_NONE (Some ''created_by'')),
    (''production.plans'', entity ''production_plans'' E_NONE (Some ''created_by'')),
    (''production.work_orders'', entity ''work_orders'' E_NONE (Some ''created_by'')),
    (''production.boms'', entity ''boms'' E_NONE None),
    (''hr.payrolls'', (entity ''payrolls'' E_NONE (Some ''created_by''))\<lparr>en_rejected := ''DRAFT''\<rparr>),
    (''hr.final_settlements'', (entity ''final_settlements'' E_NONE (Some ''prepared_by''))\<lparr>en_rejected := ''DRAFT''\<rparr>),
    (''hr.requisitions'', entity ''job_requisitions'' E_NONE (Some ''submitted_by'')),
    (''hr.workforce_plans'', entity ''workforce_plans'' E_NONE (Some ''submitted_by'')),
    (''hr.contracts'', (entity ''employment_contracts'' E_NONE (Some ''created_by''))\<lparr>en_approved := ''SENT_FOR_SIGNATURE''\<rparr>),
    (''security_printing.jobs'', entity ''security_jobs'' E_NONE None),
    (''assets.register'', (entity ''asset_register'' E_NONE (Some ''created_by''))\<lparr>en_approved := ''REGISTERED'', en_rejected := ''DRAFT''\<rparr>),
    (''assets.transfers'', entity ''asset_transfers'' E_POST (Some ''created_by'')),
    (''assets.disposals'', entity ''asset_disposals'' E_POST (Some ''created_by'')),
    (''assets.impairments'', entity ''asset_impairments'' E_POST (Some ''created_by'')),
    (''assets.maintenance'', entity ''asset_maintenance_work_orders'' E_POST (Some ''created_by'')),
    (''ops.requisitions'', entity ''requisitions'' E_NONE (Some ''requested_by'')),
    (''ops.expenses'', entity ''expense_transactions'' E_NONE (Some ''created_by'')),
    (''ops.claims'', entity ''employee_expense_claims'' E_NONE (Some ''created_by'')),
    (''ops.replenishments'', entity ''petty_cash_replenishments'' E_NONE (Some ''requested_by'')),
    (''ops.daily_closings'', entity ''daily_cash_closings'' E_NONE (Some ''submitted_by''))]"

definition entity_of :: "string \<Rightarrow> wf_entity option" where
  "entity_of = map_of ENTITIES"

subsection \<open>State\<close>

record approval_step =
  aps_seq :: int
  aps_name :: string
  aps_role :: "string option"
  aps_roles :: "string list"
  aps_user :: "row_id option"
  aps_min :: "rat option"
  aps_max :: "rat option"
  aps_sla :: "rat option"

record wf_definition =
  wk_id :: row_id
  wk_company :: row_id
  wk_tenant :: row_id
  wk_code :: string
  wk_entity :: string
  wk_active :: bool
  wk_status :: string
  wk_from :: "date option"
  wk_steps :: "approval_step list"

datatype instance_status =
  I_RUNNING | I_ESCALATED | I_EXECUTION_PENDING | I_APPROVED | I_EXECUTED | I_REJECTED | I_CANCELLED

record wf_instance =
  wi_id :: row_id
  wi_company :: row_id
  wi_tenant :: row_id
  wi_workflow :: row_id
  wi_entity :: string
  wi_doc :: row_id
  wi_code :: "string option"
  wi_status :: instance_status
  wi_step :: nat
  wi_creator :: "row_id option"
  wi_amount :: "rat option"
  wi_hash :: "string option"
  wi_submitted :: time
  wi_executor :: "row_id option"

datatype task_status = T_PENDING | T_ESCALATED | T_APPROVED | T_REJECTED | T_RETURNED | T_DELEGATED

record approval_task =
  tk_id :: row_id
  tk_instance :: row_id
  tk_seq :: int
  tk_name :: string
  tk_role :: "row_id option"
  tk_alternative :: "row_id option"
  tk_user :: "row_id option"
  tk_status :: task_status
  tk_comment :: "string option"
  tk_decider :: "row_id option"
  tk_decided :: "time option"
  tk_created :: time
  tk_due :: rat
  tk_delegated_from :: "row_id option"
  tk_delegation :: "row_id option"

record wf_role =
  ro_id :: row_id
  ro_company :: "row_id option"
  ro_code :: string

record user_role =
  ur_user :: row_id
  ur_role :: row_id
  ur_status :: string
  ur_expires :: "time option"

record delegation =
  dg_id :: row_id
  dg_tenant :: row_id
  dg_delegate :: row_id
  dg_role :: row_id
  dg_status :: string
  dg_starts :: time
  dg_expires :: time
  dg_limit :: "rat option"

record delegation_authority =
  da_delegation :: row_id
  da_type :: string
  da_approve :: bool
  da_max :: "rat option"

text \<open>
  \<open>wd_rows\<close> is a document as \<open>SELECT *\<close> returns it, for the material snapshot; \<open>wd_owner\<close> reads the
  owner column of a document; \<open>wd_status\<close> is the status of the documents that no theory models;
  \<open>wd_rest\<close> is the state of the services that are arguments.
\<close>

record 'x wf_db =
  wd_workflows :: "wf_definition list"
  wd_instances :: "wf_instance list"
  wd_tasks :: "approval_task list"
  wd_roles :: "wf_role list"
  wd_user_roles :: "user_role list"
  wd_delegations :: "delegation list"
  wd_authorities :: "delegation_authority list"
  wd_next :: row_id
  wd_rows :: "string \<Rightarrow> row_id \<Rightarrow> (string \<times> jval) list option"
  wd_owner :: "string \<Rightarrow> row_id \<Rightarrow> row_id option"
  wd_status :: "string \<Rightarrow> row_id \<Rightarrow> string"
  wd_life :: life_db
  wd_stock :: inv_db
  wd_rest :: 'x

text \<open>
  The services of other modules: the asset approvals by entity type, the two hooks of security
  printing, and the digest of a snapshot (SHA-256 of its JSON text).
\<close>

record 'x services =
  sv_assets :: "string \<Rightarrow> ctx \<Rightarrow> row_id \<Rightarrow> 'x \<Rightarrow> 'x result"
  sv_self_authorize_job :: "ctx \<Rightarrow> row_id \<Rightarrow> 'x \<Rightarrow> 'x result"
  sv_job_task_approved :: "ctx \<Rightarrow> row_id \<Rightarrow> int \<Rightarrow> 'x \<Rightarrow> 'x result"
  sv_digest :: "(string \<times> jval) list \<Rightarrow> string"

definition SELF_AUTHORIZE_ROLES :: "string list" where
  "SELF_AUTHORIZE_ROLES = [''managing_director'', ''executive_director'', ''ceo'']"

definition MATERIAL_EXCLUDED :: "string list" where
  "MATERIAL_EXCLUDED =
     [''id'', ''created_at'', ''updated_at'', ''created_by'', ''updated_by'', ''company_id'', ''tenant_id'', ''branch_id'',
      ''status'', ''approval_status'', ''approved_by'', ''approved_at'', ''rejected_by'', ''rejected_at'',
      ''submitted_by'', ''submitted_at'', ''cancelled_by'', ''cancelled_at'', ''voided_by'', ''voided_at'',
      ''posted_by'', ''posted_at'', ''closed_by'', ''closed_at'', ''completed_by'', ''completed_at'',
      ''released_by'', ''released_at'', ''gl_posted'', ''gl_journal_id'', ''amount_paid'', ''three_way_matched'']"

subsection \<open>Documents\<close>

definition with_gl :: "(finance_db \<Rightarrow> finance_db) \<Rightarrow> 'x wf_db \<Rightarrow> 'x wf_db" where
  "with_gl f db = db\<lparr>wd_life := (wd_life db)\<lparr>lf_books := (lf_books (wd_life db))\<lparr>bk_gl := f (bk_gl (lf_books (wd_life db)))\<rparr>\<rparr>\<rparr>"

definition mark_doc :: "row_id \<Rightarrow> string \<Rightarrow> 'd document_scheme list \<Rightarrow> 'd document_scheme list" where
  "mark_doc i s docs = update_where (\<lambda>d. dc_id d = i) (\<lambda>d. d\<lparr>dc_status := s\<rparr>) docs"

definition run_status_of :: "string \<Rightarrow> run_status" where
  "run_status_of s = (if s = ''APPROVED'' then R_APPROVED else R_DRAFT)"

text \<open>\<open>UPDATE table SET status = s WHERE id = i\<close>, with the table of the entity.\<close>

definition set_status :: "string \<Rightarrow> row_id \<Rightarrow> string \<Rightarrow> 'x wf_db \<Rightarrow> 'x wf_db" where
  "set_status table i s db =
     (if table = ''customer_invoices'' then with_gl (\<lambda>g. g\<lparr>fd_invoices := mark_doc i s (fd_invoices g)\<rparr>) db
      else if table = ''credit_notes'' then with_gl (\<lambda>g. g\<lparr>fd_credit_notes := mark_doc i s (fd_credit_notes g)\<rparr>) db
      else if table = ''debit_notes'' then with_gl (\<lambda>g. g\<lparr>fd_debit_notes := mark_doc i s (fd_debit_notes g)\<rparr>) db
      else if table = ''supplier_invoices'' then with_gl (\<lambda>g. g\<lparr>fd_supplier_invoices := mark_doc i s (fd_supplier_invoices g)\<rparr>) db
      else if table = ''supplier_payments'' then with_gl (\<lambda>g. g\<lparr>fd_supplier_payments := mark_doc i s (fd_supplier_payments g)\<rparr>) db
      else if table = ''inventory_adjustments''
      then db\<lparr>wd_stock := (wd_stock db)\<lparr>iv_adjustments := update_where (\<lambda>a. aj_id a = i) (\<lambda>a. a\<lparr>aj_status := s\<rparr>) (iv_adjustments (wd_stock db))\<rparr>\<rparr>
      else if table = ''inventory_transfers''
      then db\<lparr>wd_stock := (wd_stock db)\<lparr>iv_transfers := update_where (\<lambda>t. tf_id t = i) (\<lambda>t. t\<lparr>tf_status := s\<rparr>) (iv_transfers (wd_stock db))\<rparr>\<rparr>
      else if table = ''payrolls''
      then db\<lparr>wd_life := with_payroll (update_run i (\<lambda>r. r\<lparr>run_status := run_status_of s\<rparr>)) (wd_life db)\<rparr>
      else db\<lparr>wd_status := (wd_status db)(table := (wd_status db table)(i := s))\<rparr>)"

definition run_gl :: "(finance_db \<Rightarrow> (row_id \<times> finance_db) result) \<Rightarrow> 'x wf_db \<Rightarrow> 'x wf_db result" where
  "run_gl post db = rbind (post (bk_gl (lf_books (wd_life db)))) (\<lambda>(_, g). Inr (with_gl (\<lambda>_. g) db))"

definition run_stock :: "(inv_db \<Rightarrow> inv_db result) \<Rightarrow> 'x wf_db \<Rightarrow> 'x wf_db result" where
  "run_stock f db = rbind (f (wd_stock db)) (\<lambda>s. Inr (db\<lparr>wd_stock := s\<rparr>))"

definition run_rest :: "('x \<Rightarrow> 'x result) \<Rightarrow> 'x wf_db \<Rightarrow> 'x wf_db result" where
  "run_rest f db = rbind (f (wd_rest db)) (\<lambda>x. Inr (db\<lparr>wd_rest := x\<rparr>))"

definition run_approval_side_effect ::
  "'x services \<Rightarrow> ctx \<Rightarrow> date \<Rightarrow> string \<Rightarrow> row_id \<Rightarrow> 'x wf_db \<Rightarrow> 'x wf_db result" where
  "run_approval_side_effect sv c today kind i db =
     (case entity_of kind of
        None \<Rightarrow> Inr db
      | Some e \<Rightarrow>
          if en_effect e = E_POST then
            (if kind = ''sales.invoices'' then run_gl (post_sales_invoice c i) db
             else if kind = ''sales.credit_notes'' then run_gl (post_credit_note c i) db
             else if kind = ''sales.debit_notes'' then run_gl (post_debit_note c i) db
             else if kind = ''procurement.supplier_invoices'' then run_gl (post_supplier_invoice c i) db
             else if kind = ''inventory.adjustments'' then run_stock (post_adjustment c today i) db
             else if kind = ''inventory.transfers'' then run_stock (complete_transfer c today i) db
             else if kind \<in> set [''assets.transfers'', ''assets.disposals'', ''assets.impairments'', ''assets.maintenance'']
             then run_rest (sv_assets sv kind c i) db
             else Inr db)
          else if en_effect e = E_RELEASE \<and> kind = ''procurement.payments'' then run_gl (post_supplier_payment c i) db
          else Inr db)"

subsection \<open>Journals\<close>

fun dot_to_underscore :: "string \<Rightarrow> string" where
  "dot_to_underscore [] = []"
| "dot_to_underscore (ch # cs) = (if ch = CHR ''.'' then CHR ''_'' # cs else ch # dot_to_underscore cs)"

definition wf_event ::
  "ctx \<Rightarrow> string \<Rightarrow> string \<Rightarrow> row_id \<Rightarrow> string option \<Rightarrow> (string \<times> jval) list \<Rightarrow> severity_level option \<Rightarrow> 'x wf_db \<Rightarrow> 'x wf_db" where
  "wf_event c kind suffix i code payload sev db =
     db\<lparr>wd_life := with_payroll (\<lambda>p. p\<lparr>db_events := emit_event c
       \<lparr>ep_type = dot_to_underscore kind @ suffix, ep_entity_type = Some kind, ep_entity = Some i, ep_code = code,
        ep_payload = payload, ep_severity = sev\<rparr> (db_events p)\<rparr>) (wd_life db)\<rparr>"

definition wf_audit :: "ctx \<Rightarrow> string \<Rightarrow> row_id \<Rightarrow> string option \<Rightarrow> (string \<times> jval) list \<Rightarrow> 'x wf_db \<Rightarrow> 'x wf_db" where
  "wf_audit c action i code new db =
     db\<lparr>wd_life := with_payroll (\<lambda>p. p\<lparr>db_audit := log_audit c
       \<lparr>ae_action = action, ae_resource = ''approvals'', ae_record = Some i, ae_code = code, ae_old = [], ae_new = new\<rparr>
       (db_audit p)\<rparr>) (wd_life db)\<rparr>"

definition j_id :: "row_id \<Rightarrow> jval" where
  "j_id i = JNum (of_nat i)"

definition decide_payroll ::
  "ctx \<Rightarrow> time \<Rightarrow> row_id \<Rightarrow> bool \<Rightarrow> string option \<Rightarrow> 'x wf_db \<Rightarrow> (transition_result option \<times> 'x wf_db) result" where
  "decide_payroll c now i approved comment db =
     rbind (record_workflow_decision c now i approved comment (wd_life db)) (\<lambda>(x, l). Inr (x, db\<lparr>wd_life := l\<rparr>))"

subsection \<open>Material snapshots\<close>

text \<open>The columns in key order; the digest of the rest is stored with the instance.\<close>

definition material_columns :: "(string \<times> jval) list \<Rightarrow> (string \<times> jval) list" where
  "material_columns row = sort_key (\<lambda>kv. map char_code (fst kv)) (filter (\<lambda>kv. fst kv \<notin> set MATERIAL_EXCLUDED) row)"

definition compute_material_hash :: "'x services \<Rightarrow> string \<Rightarrow> row_id \<Rightarrow> 'x wf_db \<Rightarrow> string option" where
  "compute_material_hash sv kind i db =
     (case entity_of kind of
        None \<Rightarrow> None
      | Some e \<Rightarrow> map_option (\<lambda>row. sv_digest sv (material_columns row)) (wd_rows db (en_table e) i))"

definition set_instance :: "row_id \<Rightarrow> (wf_instance \<Rightarrow> wf_instance) \<Rightarrow> 'x wf_db \<Rightarrow> 'x wf_db" where
  "set_instance i f db = db\<lparr>wd_instances := update_where (\<lambda>x. wi_id x = i) f (wd_instances db)\<rparr>"

definition set_task :: "row_id \<Rightarrow> (approval_task \<Rightarrow> approval_task) \<Rightarrow> 'x wf_db \<Rightarrow> 'x wf_db" where
  "set_task i f db = db\<lparr>wd_tasks := update_where (\<lambda>x. tk_id x = i) f (wd_tasks db)\<rparr>"

definition stale :: "string \<Rightarrow> row_id \<Rightarrow> string \<Rightarrow> wf_instance \<Rightarrow> bool" where
  "stale kind i h x \<longleftrightarrow> wi_entity x = kind \<and> wi_doc x = i
     \<and> wi_status x \<in> {I_RUNNING, I_ESCALATED, I_EXECUTION_PENDING} \<and> wi_hash x \<noteq> Some h"

definition invalidate_stale_approval ::
  "ctx \<Rightarrow> string \<Rightarrow> row_id \<Rightarrow> string option \<Rightarrow> 'x wf_db \<Rightarrow> (bool \<times> 'x wf_db) result" where
  "invalidate_stale_approval c kind i hash db =
     (case hash of
        None \<Rightarrow> Inr (False, db)
      | Some h \<Rightarrow>
          if \<not> exists_where (stale kind i h) (wd_instances db) then Inr (False, db)
          else case entity_of kind of
              None \<Rightarrow> Inl (Internal ''entity is undefined'')
            | Some e \<Rightarrow>
                (let db1 = db\<lparr>wd_instances := update_where (stale kind i h) (\<lambda>x. x\<lparr>wi_status := I_CANCELLED\<rparr>) (wd_instances db)\<rparr>;
                     db2 = set_status (en_table e) i (en_draft e) db1
                 in Inr (True, wf_event c kind ''.approval_invalidated'' i None
                      [(''reason'', JStr ''Document changed after submission'')] None db2)))"

subsection \<open>Delegations\<close>

definition enforce_delegation_limits ::
  "delegation \<Rightarrow> string \<Rightarrow> rat option \<Rightarrow> delegation_authority list \<Rightarrow> unit result" where
  "enforce_delegation_limits d kind amount rows =
     (let own = filter (\<lambda>a. da_delegation a = dg_id d) rows;
          over = (\<lambda>limit. case (amount, limit) of (Some x, Some l) \<Rightarrow> l < x | _ \<Rightarrow> False)
      in if over (dg_limit d) then Inl (Forbidden ''Delegation approval limit is below the document amount'')
         else if own = [] then Inr ()
         else if list_ex (\<lambda>a. da_approve a \<and> (da_type a = kind \<or> da_type a = ''*'') \<and> \<not> over (da_max a)) own then Inr ()
         else Inl (Forbidden ''This delegation does not authorise approving this transaction type or amount''))"

subsection \<open>Roles\<close>

definition live_grant :: "time \<Rightarrow> user_role \<Rightarrow> bool" where
  "live_grant now g \<longleftrightarrow> ur_status g = ''ACTIVE'' \<and> (case ur_expires g of None \<Rightarrow> True | Some t \<Rightarrow> now < t)"

definition holds_role :: "time \<Rightarrow> row_id \<Rightarrow> (wf_role \<Rightarrow> bool) \<Rightarrow> 'x wf_db \<Rightarrow> bool" where
  "holds_role now user p db \<longleftrightarrow>
     exists_where (\<lambda>g. ur_user g = user \<and> live_grant now g \<and> exists_where (\<lambda>r. ro_id r = ur_role g \<and> p r) (wd_roles db))
       (wd_user_roles db)"

definition self_authorize_role :: "ctx \<Rightarrow> time \<Rightarrow> row_id \<Rightarrow> 'x wf_db \<Rightarrow> string option" where
  "self_authorize_role c now company db =
     (case nonzero_id (cx_user c) of
        None \<Rightarrow> None
      | Some user \<Rightarrow>
          map_option ro_code (find (\<lambda>r. ro_code r \<in> set SELF_AUTHORIZE_ROLES \<and> ro_company r = Some company
            \<and> exists_where (\<lambda>g. ur_user g = user \<and> ur_role g = ro_id r \<and> live_grant now g) (wd_user_roles db)) (wd_roles db)))"

subsection \<open>Submission\<close>

record start_input =
  sw_entity :: string
  sw_doc :: row_id
  sw_code :: "string option"
  sw_amount :: "rat option"
  sw_company :: "row_id option"

definition approve_document ::
  "'x services \<Rightarrow> ctx \<Rightarrow> date \<Rightarrow> wf_entity \<Rightarrow> string \<Rightarrow> row_id \<Rightarrow> 'x wf_db \<Rightarrow> 'x wf_db result" where
  "approve_document sv c today e kind i db =
     run_approval_side_effect sv c today kind i (set_status (en_table e) i (en_approved e) db)"

definition self_authorize ::
  "'x services \<Rightarrow> ctx \<Rightarrow> time \<Rightarrow> date \<Rightarrow> start_input \<Rightarrow> string \<Rightarrow> 'x wf_db \<Rightarrow> 'x wf_db result" where
  "self_authorize sv c now today x role db =
     (case entity_of (sw_entity x) of
        None \<Rightarrow> Inl (BadRequest (''Unknown workflow entity '' @ sw_entity x))
      | Some e \<Rightarrow>
          rbind (if sw_entity x = ''security_printing.jobs'' then run_rest (sv_self_authorize_job sv c (sw_doc x)) db
                 else if sw_entity x = ''hr.payrolls''
                 then rbind (decide_payroll c now (sw_doc x) True None db) (\<lambda>(_, db1). Inr db1)
                 else approve_document sv c today e (sw_entity x) (sw_doc x) db) (\<lambda>db1.
            Inr (wf_event c (sw_entity x) ''.self_authorized'' (sw_doc x) (sw_code x)
                  [(''role'', JStr role), (''reason'', JStr ''Self-authorized by final authority'')] None
                  (wf_audit c ''self_authorized'' (sw_doc x) (sw_code x) [] db1))))"

definition configured_workflow :: "ctx \<Rightarrow> date \<Rightarrow> row_id \<Rightarrow> string \<Rightarrow> 'x wf_db \<Rightarrow> wf_definition option" where
  "configured_workflow c today company kind db =
     find (\<lambda>w. wk_company w = company \<and> cx_tenant c = Some (wk_tenant w) \<and> wk_entity w = kind \<and> wk_active w
        \<and> wk_status w = ''PUBLISHED'' \<and> (case wk_from w of None \<Rightarrow> True | Some d \<Rightarrow> d \<le> today)) (wd_workflows db)"

definition applicable_step :: "rat \<Rightarrow> approval_step \<Rightarrow> bool" where
  "applicable_step amount s \<longleftrightarrow>
     (case aps_min s of None \<Rightarrow> True | Some lo \<Rightarrow> lo \<le> amount) \<and>
     (case aps_max s of None \<Rightarrow> True | Some hi \<Rightarrow> hi \<le> 0 \<or> amount \<le> hi)"

definition step_codes :: "approval_step \<Rightarrow> string list" where
  "step_codes s = (if aps_roles s \<noteq> [] then aps_roles s
     else case aps_role s of Some r \<Rightarrow> if r \<noteq> [] then [r] else [] | None \<Rightarrow> [])"

text \<open>The map of the company's role codes keeps the last row of a code.\<close>

definition role_id :: "row_id \<Rightarrow> wf_role list \<Rightarrow> string list \<Rightarrow> nat \<Rightarrow> row_id option" where
  "role_id company roles codes n =
     (if n < length codes \<and> codes ! n \<noteq> []
      then map_option ro_id (find (\<lambda>r. ro_company r = Some company \<and> ro_code r = codes ! n) (rev roles))
      else None)"

definition hours :: "time \<Rightarrow> rat \<Rightarrow> rat" where
  "hours now h = of_int now + h * 3600000"

definition step_task :: "time \<Rightarrow> row_id \<Rightarrow> wf_role list \<Rightarrow> rat \<Rightarrow> row_id \<Rightarrow> approval_step \<Rightarrow> approval_task result" where
  "step_task now company roles sla inst s =
     (let codes = step_codes s; r0 = role_id company roles codes 0; r1 = role_id company roles codes 1 in
      if codes \<noteq> [] \<and> r0 = None \<and> r1 = None
      then Inl (BadRequest (''Approval step '' @ aps_name s @ '' references roles that do not exist for this company''))
      else Inr \<lparr>tk_id = 0, tk_instance = inst, tk_seq = aps_seq s, tk_name = aps_name s, tk_role = r0, tk_alternative = r1,
                tk_user = aps_user s, tk_status = T_PENDING, tk_comment = None, tk_decider = None, tk_decided = None,
                tk_created = now, tk_due = hours now sla, tk_delegated_from = None, tk_delegation = None\<rparr>)"

fun number_tasks :: "row_id \<Rightarrow> approval_task list \<Rightarrow> approval_task list" where
  "number_tasks n [] = []"
| "number_tasks n (t # ts) = t\<lparr>tk_id := n\<rparr> # number_tasks (Suc n) ts"

text \<open>Creating the instance with one task per applicable step; the first step's SLA is used for all.\<close>

definition new_instance ::
  "'x services \<Rightarrow> ctx \<Rightarrow> time \<Rightarrow> row_id \<Rightarrow> row_id \<Rightarrow> start_input \<Rightarrow> wf_definition \<Rightarrow> 'x wf_db \<Rightarrow> wf_instance" where
  "new_instance sv c now tenant company x w db =
     \<lparr>wi_id = wd_next db, wi_company = company, wi_tenant = tenant, wi_workflow = wk_id w, wi_entity = sw_entity x,
      wi_doc = sw_doc x, wi_code = sw_code x, wi_status = I_RUNNING, wi_step = 1, wi_creator = cx_user c,
      wi_amount = sw_amount x, wi_hash = compute_material_hash sv (sw_entity x) (sw_doc x) db, wi_submitted = now,
      wi_executor = None\<rparr>"

definition open_instance ::
  "'x services \<Rightarrow> ctx \<Rightarrow> time \<Rightarrow> row_id \<Rightarrow> row_id \<Rightarrow> start_input \<Rightarrow> wf_definition \<Rightarrow> approval_step list \<Rightarrow> 'x wf_db
     \<Rightarrow> (row_id option \<times> 'x wf_db) result" where
  "open_instance sv c now tenant company x w steps db =
     (let inst = wd_next db; sla = the_default 48 (aps_sla (hd steps)) in
      rbind (traverse (step_task now company (wd_roles db) sla inst) steps) (\<lambda>ts.
        Inr (Some inst, wf_event c (sw_entity x) ''.submitted'' (sw_doc x) (sw_code x)
          [(''instanceId'', j_id inst), (''workflow'', JStr (wk_code w)), (''steps'', JArr (map (JStr \<circ> aps_name) steps))] None
          (db\<lparr>wd_instances := wd_instances db @ [new_instance sv c now tenant company x w db],
              wd_tasks := wd_tasks db @ number_tasks (Suc inst) ts,
              wd_next := Suc inst + length ts\<rparr>))))"

definition submit_for_approval ::
  "'x services \<Rightarrow> ctx \<Rightarrow> time \<Rightarrow> date \<Rightarrow> row_id \<Rightarrow> start_input \<Rightarrow> 'x wf_db \<Rightarrow> (row_id option \<times> 'x wf_db) result" where
  "submit_for_approval sv c now today company x db =
     (case configured_workflow c today company (sw_entity x) db of
        None \<Rightarrow> Inl (BadRequest (''No approval workflow is configured for '' @ sw_entity x))
      | Some w \<Rightarrow>
          (let steps = filter (applicable_step (the_default 0 (sw_amount x))) (wk_steps w) in
           if steps = [] then Inl (BadRequest (''No approval step covers the amount for '' @ sw_entity x))
           else open_instance sv c now (wk_tenant w) company x w steps db))"

definition approval_free :: "string \<Rightarrow> wf_entity option" where
  "approval_free kind =
     (case entity_of kind of None \<Rightarrow> None | Some e \<Rightarrow> if en_requires e then None else Some e)"

definition start_workflow ::
  "'x services \<Rightarrow> ctx \<Rightarrow> time \<Rightarrow> date \<Rightarrow> start_input \<Rightarrow> 'x wf_db \<Rightarrow> (row_id option \<times> 'x wf_db) result" where
  "start_workflow sv c now today x db =
     (case nonzero_id (or_else (sw_company x) (cx_company c)) of
        None \<Rightarrow> Inl (BadRequest ''Company is required to start a workflow'')
      | Some company \<Rightarrow>
          (case approval_free (sw_entity x) of
             Some e \<Rightarrow>
               rbind (approve_document sv c today e (sw_entity x) (sw_doc x) db) (\<lambda>db1.
                 Inr (None, wf_event c (sw_entity x) ''.auto_approved'' (sw_doc x) (sw_code x)
                              [(''reason'', JStr ''Approval-free by policy'')] None db1))
           | None \<Rightarrow>
               (case self_authorize_role c now company db of
                  Some role \<Rightarrow> rbind (self_authorize sv c now today x role db) (\<lambda>db1. Inr (None, db1))
                | None \<Rightarrow> submit_for_approval sv c now today company x db)))"

subsection \<open>Completion, execution, rejection\<close>

definition find_instance :: "row_id \<Rightarrow> 'x wf_db \<Rightarrow> wf_instance option" where
  "find_instance i db =
     find (\<lambda>x. wi_id x = i \<and> exists_where (\<lambda>w. wk_id w = wi_workflow x) (wd_workflows db)) (wd_instances db)"

definition executes :: "string \<Rightarrow> bool" where
  "executes kind \<longleftrightarrow>
     (case entity_of kind of None \<Rightarrow> False | Some e \<Rightarrow> en_effect e = E_POST \<or> en_effect e = E_RELEASE)"

definition needs_execution :: "string \<Rightarrow> bool" where
  "needs_execution kind \<longleftrightarrow> executes kind \<and> kind \<noteq> ''security_printing.jobs'' \<and> kind \<noteq> ''hr.payrolls''"

definition complete_workflow ::
  "'x services \<Rightarrow> ctx \<Rightarrow> time \<Rightarrow> date \<Rightarrow> row_id \<Rightarrow> 'x wf_db \<Rightarrow> 'x wf_db result" where
  "complete_workflow sv c now today i db =
     (case find_instance i db of
        None \<Rightarrow> Inl (NotFound ''Workflow instance not found'')
      | Some x \<Rightarrow>
          rbind (case entity_of (wi_entity x) of
              Some e \<Rightarrow>
                if needs_execution (wi_entity x)
                then Inr (set_status (en_table e) (wi_doc x) (en_approved e)
                       (set_instance i (\<lambda>y. y\<lparr>wi_status := I_EXECUTION_PENDING\<rparr>) db))
                else if wi_entity x = ''security_printing.jobs'' then Inr (set_instance i (\<lambda>y. y\<lparr>wi_status := I_APPROVED\<rparr>) db)
                else if wi_entity x = ''hr.payrolls''
                then rbind (decide_payroll c now (wi_doc x) True None (set_instance i (\<lambda>y. y\<lparr>wi_status := I_APPROVED\<rparr>) db))
                       (\<lambda>(_, db1). Inr db1)
                else approve_document sv c today e (wi_entity x) (wi_doc x)
                       (set_instance i (\<lambda>y. y\<lparr>wi_status := I_APPROVED\<rparr>) db)
            | None \<Rightarrow> Inr (set_instance i (\<lambda>y. y\<lparr>wi_status := I_APPROVED\<rparr>) db)) (\<lambda>db1.
          Inr (wf_event c (wi_entity x) ''.approved'' (wi_doc x) (wi_code x)
            [(''instanceId'', j_id i), (''executionPending'', JBool (needs_execution (wi_entity x)))] None db1)))"

definition execute_workflow ::
  "'x services \<Rightarrow> ctx \<Rightarrow> date \<Rightarrow> row_id \<Rightarrow> 'x wf_db \<Rightarrow> 'x wf_db result" where
  "execute_workflow sv c today i db =
     (case nonzero_id (cx_user c) of
        None \<Rightarrow> Inl (Forbidden ''Forbidden'')
      | Some user \<Rightarrow>
          (case find_instance i db of
             None \<Rightarrow> Inl (NotFound ''Workflow instance not found'')
           | Some x \<Rightarrow>
               if wi_status x \<noteq> I_EXECUTION_PENDING then Inl (BadRequest ''Workflow is not awaiting execution'')
               else if \<not> executes (wi_entity x) then Inl (BadRequest ''This workflow has no execution side effect'')
               else if exists_where (\<lambda>t. tk_instance t = i \<and> tk_decider t = Some user) (wd_tasks db)
               then Inl (Forbidden ''Segregation of duties: you approved this document and may not execute it'')
               else
                 rbind (run_approval_side_effect sv c today (wi_entity x) (wi_doc x) db) (\<lambda>db1.
                   Inr (wf_event c (wi_entity x) ''.executed'' (wi_doc x) (wi_code x) [(''instanceId'', j_id i)] None
                     (set_instance i (\<lambda>y. y\<lparr>wi_status := I_EXECUTED, wi_executor := Some user\<rparr>) db1)))))"

definition open_task :: "approval_task \<Rightarrow> bool" where
  "open_task t \<longleftrightarrow> tk_status t = T_PENDING \<or> tk_status t = T_ESCALATED"

definition reject_document :: "ctx \<Rightarrow> time \<Rightarrow> wf_instance \<Rightarrow> string option \<Rightarrow> 'x wf_db \<Rightarrow> 'x wf_db result" where
  "reject_document c now x comment db =
     (case entity_of (wi_entity x) of
        None \<Rightarrow> Inr db
      | Some e \<Rightarrow>
          if wi_entity x = ''hr.payrolls''
          then rbind (decide_payroll c now (wi_doc x) False comment db) (\<lambda>(recorded, db1).
                 Inr (if recorded = None then set_status (en_table e) (wi_doc x) (en_rejected e) db1 else db1))
          else Inr (set_status (en_table e) (wi_doc x) (en_rejected e) db))"

definition reject_workflow :: "ctx \<Rightarrow> time \<Rightarrow> row_id \<Rightarrow> string option \<Rightarrow> 'x wf_db \<Rightarrow> 'x wf_db result" where
  "reject_workflow c now i comment db =
     (case find_instance i db of
        None \<Rightarrow> Inl (NotFound ''Workflow instance not found'')
      | Some x \<Rightarrow>
          (let db1 = set_instance i (\<lambda>y. y\<lparr>wi_status := I_REJECTED\<rparr>) db;
               db2 = db1\<lparr>wd_tasks := update_where (\<lambda>t. tk_instance t = i \<and> open_task t)
                       (\<lambda>t. t\<lparr>tk_status := T_REJECTED, tk_comment := comment, tk_decided := Some now\<rparr>) (wd_tasks db1)\<rparr>
           in rbind (reject_document c now x comment db2) (\<lambda>db3.
                Inr (wf_event c (wi_entity x) ''.rejected'' (wi_doc x) (wi_code x) [(''instanceId'', j_id i)] (Some WARN) db3))))"

subsection \<open>Decisions\<close>

datatype decision = D_APPROVED | D_REJECTED | D_RETURNED | D_DELEGATED

definition decided_status :: "decision \<Rightarrow> task_status" where
  "decided_status d =
     (case d of D_APPROVED \<Rightarrow> T_APPROVED | D_REJECTED \<Rightarrow> T_REJECTED | D_RETURNED \<Rightarrow> T_RETURNED | D_DELEGATED \<Rightarrow> T_DELEGATED)"

definition role_code :: "'x wf_db \<Rightarrow> row_id option \<Rightarrow> string list" where
  "role_code db r =
     (case r of
        None \<Rightarrow> []
      | Some i \<Rightarrow>
          (case find (\<lambda>x. ro_id x = i) (wd_roles db) of
             None \<Rightarrow> [] | Some x \<Rightarrow> if ro_code x = [] then [] else [ro_code x]))"

definition task_codes :: "'x wf_db \<Rightarrow> approval_task \<Rightarrow> string list" where
  "task_codes db t = role_code db (tk_role t) @ role_code db (tk_alternative t)"

definition acting_delegation :: "ctx \<Rightarrow> time \<Rightarrow> row_id \<Rightarrow> string list \<Rightarrow> 'x wf_db \<Rightarrow> delegation option" where
  "acting_delegation c now user codes db =
     find (\<lambda>d. dg_delegate d = user \<and> cx_tenant c = Some (dg_tenant d) \<and> dg_status d = ''ACTIVE''
        \<and> dg_starts d \<le> now \<and> now < dg_expires d
        \<and> exists_where (\<lambda>r. ro_id r = dg_role d \<and> ro_code r \<in> set codes) (wd_roles db)) (wd_delegations db)"

text \<open>Who may decide the task: its assignee, a holder of one of its roles, or a delegate within limits.\<close>

definition authorize_decision ::
  "ctx \<Rightarrow> time \<Rightarrow> row_id \<Rightarrow> approval_task \<Rightarrow> wf_instance \<Rightarrow> 'x wf_db \<Rightarrow> row_id option result" where
  "authorize_decision c now user t x db =
     (if nonzero_id (tk_user t) \<noteq> None \<and> tk_user t \<noteq> Some user then Inl (Forbidden ''Not your approval task'')
      else if tk_user t = None \<and> tk_role t = None \<and> tk_alternative t = None
      then Inl (Forbidden ''Approval task has no assignee; an administrator must fix the workflow configuration'')
      else if task_codes db t = [] \<or> holds_role now user (\<lambda>r. ro_code r \<in> set (task_codes db t)) db then Inr None
      else (case acting_delegation c now user (task_codes db t) db of
          None \<Rightarrow> Inl (Forbidden ''Requires role'')
        | Some d \<Rightarrow>
            rbind (enforce_delegation_limits d (wi_entity x) (wi_amount x) (wd_authorities db)) (\<lambda>_. Inr (Some (dg_id d)))))"

definition document_owner :: "wf_instance \<Rightarrow> 'x wf_db \<Rightarrow> row_id option" where
  "document_owner x db =
     (case entity_of (wi_entity x) of
        None \<Rightarrow> None
      | Some e \<Rightarrow> if en_owner e = None then None else nonzero_id (wd_owner db (en_table e) (wi_doc x)))"

definition delegate_task ::
  "time \<Rightarrow> row_id \<Rightarrow> row_id \<Rightarrow> string option \<Rightarrow> approval_task \<Rightarrow> 'x wf_db \<Rightarrow> 'x wf_db" where
  "delegate_task now user delegate comment t db =
     (let db1 = set_task (tk_id t) (\<lambda>y. y\<lparr>tk_status := T_DELEGATED, tk_comment := comment, tk_decider := Some user,
                   tk_decided := Some now, tk_delegated_from := Some user\<rparr>) db
      in db1\<lparr>wd_tasks := wd_tasks db1 @
           [\<lparr>tk_id = wd_next db1, tk_instance = tk_instance t, tk_seq = tk_seq t, tk_name = tk_name t, tk_role = None,
             tk_alternative = None, tk_user = Some delegate, tk_status = T_PENDING, tk_comment = None, tk_decider = None,
             tk_decided = None, tk_created = now, tk_due = hours now 48, tk_delegated_from = Some user,
             tk_delegation = None\<rparr>],
          wd_next := Suc (wd_next db1)\<rparr>)"

definition earlier_open :: "approval_task \<Rightarrow> approval_task list \<Rightarrow> bool" where
  "earlier_open t ts \<longleftrightarrow> exists_where (\<lambda>e. tk_instance e = tk_instance t \<and> tk_seq e < tk_seq t \<and> open_task e) ts"

definition decided_earlier :: "row_id \<Rightarrow> approval_task \<Rightarrow> approval_task list \<Rightarrow> bool" where
  "decided_earlier user t ts \<longleftrightarrow>
     exists_where (\<lambda>e. tk_instance e = tk_instance t \<and> tk_decider e = Some user \<and> tk_seq e < tk_seq t
        \<and> tk_status e \<in> {T_APPROVED, T_REJECTED, T_RETURNED}) ts"

definition record_decision ::
  "'x services \<Rightarrow> ctx \<Rightarrow> time \<Rightarrow> row_id \<Rightarrow> decision \<Rightarrow> string option \<Rightarrow> row_id option \<Rightarrow> approval_task \<Rightarrow> wf_instance \<Rightarrow> 'x wf_db
     \<Rightarrow> 'x wf_db result" where
  "record_decision sv c now user d comment deleg t x db =
     (let db1 = wf_audit c (case d of D_APPROVED \<Rightarrow> ''approved'' | D_REJECTED \<Rightarrow> ''rejected'' | D_RETURNED \<Rightarrow> ''returned''
                              | D_DELEGATED \<Rightarrow> ''delegated'') (tk_id t) (wi_code x) []
                  (set_task (tk_id t) (\<lambda>y. y\<lparr>tk_status := decided_status d, tk_comment := comment, tk_decider := Some user,
                     tk_decided := Some now, tk_delegation := deleg\<rparr>) db)
      in rbind (if wi_entity x = ''security_printing.jobs'' \<and> d = D_APPROVED
                then run_rest (sv_job_task_approved sv c (wi_doc x) (tk_seq t)) db1 else Inr db1) (\<lambda>db2.
         if earlier_open t (wd_tasks db2)
         then Inl (Forbidden ''Approval out of order: an earlier step on this approval chain has not been decided'')
         else if decided_earlier user t (wd_tasks db2)
         then Inl (Forbidden ''Segregation of duties: you have already decided an earlier step on this approval chain'')
         else Inr db2))"

definition decide_open_task ::
  "'x services \<Rightarrow> ctx \<Rightarrow> time \<Rightarrow> date \<Rightarrow> row_id \<Rightarrow> decision \<Rightarrow> string option \<Rightarrow> row_id option \<Rightarrow> approval_task \<Rightarrow> wf_instance
     \<Rightarrow> 'x wf_db \<Rightarrow> ((decision \<times> bool) \<times> 'x wf_db) result" where
  "decide_open_task sv c now today user d comment deleg t x db =
     rbind (record_decision sv c now user d comment deleg t x db) (\<lambda>db1.
       if d = D_REJECTED \<or> d = D_RETURNED
       then rbind (reject_workflow c now (tk_instance t) comment db1) (\<lambda>db2. Inr ((d, False), db2))
       else if \<not> exists_where (\<lambda>y. tk_instance y = tk_instance t \<and> open_task y) (wd_tasks db1)
       then rbind (complete_workflow sv c now today (tk_instance t) db1) (\<lambda>db2. Inr ((D_APPROVED, True), db2))
       else Inr ((D_APPROVED, False), set_instance (tk_instance t) (\<lambda>y. y\<lparr>wi_step := Suc (wi_step y)\<rparr>) db1))"

definition find_task :: "ctx \<Rightarrow> row_id \<Rightarrow> 'x wf_db \<Rightarrow> (approval_task \<times> wf_instance) option" where
  "find_task c i db =
     (case find (\<lambda>t. tk_id t = i) (wd_tasks db) of
        None \<Rightarrow> None
      | Some t \<Rightarrow>
          map_option (Pair t) (find (\<lambda>x. wi_id x = tk_instance t \<and> cx_tenant c = Some (wi_tenant x)
            \<and> (cx_company c = None \<or> cx_company c = Some (wi_company x))) (wd_instances db)))"

definition blank_reason :: "string option \<Rightarrow> bool" where
  "blank_reason comment \<longleftrightarrow> (case comment of None \<Rightarrow> True | Some s \<Rightarrow> js_trim s = [])"

definition decide_task ::
  "'x services \<Rightarrow> ctx \<Rightarrow> time \<Rightarrow> date \<Rightarrow> row_id \<Rightarrow> decision \<Rightarrow> string option \<Rightarrow> row_id option \<Rightarrow> 'x wf_db
     \<Rightarrow> ((decision \<times> bool) \<times> 'x wf_db) result" where
  "decide_task sv c now today i d comment delegate db =
     (case nonzero_id (cx_user c) of
        None \<Rightarrow> Inl (Forbidden ''Forbidden'')
      | Some user \<Rightarrow>
          if (d = D_REJECTED \<or> d = D_RETURNED) \<and> blank_reason comment
          then Inl (BadRequest ''A reason is required when rejecting or returning a request'')
          else case find_task c i db of
              None \<Rightarrow> Inl (NotFound ''Approval task not found'')
            | Some (t, x) \<Rightarrow>
                if \<not> open_task t then Inl (BadRequest ''Task is already decided'')
                else rbind (authorize_decision c now user t x db) (\<lambda>deleg.
                  if d = D_DELEGATED then
                    (case nonzero_id delegate of
                       None \<Rightarrow> Inl (BadRequest ''delegateToUserId is required'')
                     | Some other \<Rightarrow> Inr ((D_DELEGATED, False), delegate_task now user other comment t db))
                  else if document_owner x db = Some user
                  then Inl (Forbidden ''Segregation of duties: you cannot decide on your own submission'')
                  else decide_open_task sv c now today user d comment deleg t x db))"

subsection \<open>The approval inbox\<close>

datatype blocked_reason = EARLIER_STEP_PENDING | ALREADY_DECIDED_EARLIER_STEP

record queue_row =
  qr_task :: approval_task
  qr_instance :: wf_instance
  qr_delegation :: "row_id option"
  qr_actionable :: bool
  qr_blocked :: "blocked_reason option"

definition task_role :: "approval_task \<Rightarrow> row_id \<Rightarrow> bool" where
  "task_role t r \<longleftrightarrow> tk_role t = Some r \<or> tk_alternative t = Some r"

definition direct_role :: "time \<Rightarrow> row_id \<Rightarrow> approval_task \<Rightarrow> 'x wf_db \<Rightarrow> bool" where
  "direct_role now user t db \<longleftrightarrow> holds_role now user (\<lambda>r. task_role t (ro_id r)) db"

definition queue_delegation :: "time \<Rightarrow> row_id \<Rightarrow> approval_task \<Rightarrow> wf_instance \<Rightarrow> 'x wf_db \<Rightarrow> delegation option" where
  "queue_delegation now user t x db =
     limit1 dg_expires (filter (\<lambda>d. dg_delegate d = user \<and> dg_tenant d = wi_tenant x \<and> dg_status d = ''ACTIVE''
        \<and> dg_starts d \<le> now \<and> now < dg_expires d \<and> exists_where (\<lambda>r. ro_id r = dg_role d) (wd_roles db)
        \<and> task_role t (dg_role d)) (wd_delegations db))"

definition blocked :: "row_id \<Rightarrow> approval_task \<Rightarrow> approval_task list \<Rightarrow> blocked_reason option" where
  "blocked user t ts =
     (if earlier_open t ts then Some EARLIER_STEP_PENDING
      else if decided_earlier user t ts then Some ALREADY_DECIDED_EARLIER_STEP else None)"

definition queue_row_of :: "time \<Rightarrow> row_id \<Rightarrow> 'x wf_db \<Rightarrow> approval_task \<times> wf_instance \<Rightarrow> queue_row option" where
  "queue_row_of now user db = (\<lambda>(t, x).
     (let direct = direct_role now user t db; deleg = queue_delegation now user t x db in
      if tk_user t = Some user \<or> direct \<or> deleg \<noteq> None
      then Some \<lparr>qr_task = t, qr_instance = x,
                 qr_delegation = (if direct \<or> tk_user t = Some user then None else map_option dg_id deleg),
                 qr_actionable = (blocked user t (wd_tasks db) = None), qr_blocked = blocked user t (wd_tasks db)\<rparr>
      else None))"

definition joined_tasks :: "'x wf_db \<Rightarrow> (approval_task \<times> wf_instance) list" where
  "joined_tasks db = concat (map (\<lambda>t.
     map (Pair t) (filter (\<lambda>x. wi_id x = tk_instance t \<and> exists_where (\<lambda>w. wk_id w = wi_workflow x) (wd_workflows db))
       (wd_instances db))) (wd_tasks db))"

definition get_approvals_queue :: "time \<Rightarrow> row_id \<Rightarrow> 'x wf_db \<Rightarrow> queue_row list" where
  "get_approvals_queue now user db =
     sort_key (wi_submitted \<circ> qr_instance)
       (List.map_filter (queue_row_of now user db) (filter (open_task \<circ> fst) (joined_tasks db)))"

text \<open>The last two hundred decisions of a user, newest first.\<close>

definition get_approval_history :: "row_id \<Rightarrow> task_status option \<Rightarrow> 'x wf_db \<Rightarrow> (approval_task \<times> wf_instance) list" where
  "get_approval_history user status db =
     take 200 (sort_key (\<lambda>(t, _). - the_default 0 (tk_decided t))
       (filter (\<lambda>(t, _). tk_decider t = Some user \<and> tk_status t \<in> {T_APPROVED, T_REJECTED, T_RETURNED, T_DELEGATED}
          \<and> (status = None \<or> status = Some (tk_status t))) (joined_tasks db)))"

subsection \<open>Escalation (cronJobs.ts)\<close>

definition grace_hours :: "jval \<Rightarrow> rat" where
  "grace_hours v = (case to_number v of Num q \<Rightarrow> if 0 < q then q else 24 | _ \<Rightarrow> 24)"

definition overdue_tasks :: "ctx \<Rightarrow> time \<Rightarrow> rat \<Rightarrow> 'x wf_db \<Rightarrow> approval_task list" where
  "overdue_tasks c now grace db =
     take 100 (sort_key tk_created (filter (\<lambda>t. tk_status t = T_PENDING \<and> of_int (tk_created t) < hours now (- grace)
       \<and> exists_where (\<lambda>x. wi_id x = tk_instance t \<and> cx_tenant c = Some (wi_tenant x)) (wd_instances db)) (wd_tasks db)))"

definition approval_escalation :: "ctx \<Rightarrow> time \<Rightarrow> string \<Rightarrow> jval \<Rightarrow> 'x wf_db \<Rightarrow> nat \<times> 'x wf_db" where
  "approval_escalation c now job grace db =
     (let due = overdue_tasks c now (grace_hours grace) db;
          ids = map tk_id due; insts = remdups (map tk_instance due);
          hit = (\<lambda>t. tk_id t \<in> set ids \<and> tk_status t = T_PENDING);
          tasks = update_where hit (\<lambda>t. t\<lparr>tk_status := T_ESCALATED,
                    tk_comment := Some (the_default [] (tk_comment t) @ '' [auto-escalated by '' @ job @ '']'')\<rparr>) (wd_tasks db)
      in (length (filter hit (wd_tasks db)),
          db\<lparr>wd_tasks := tasks,
             wd_instances := update_where (\<lambda>x. wi_id x \<in> set insts \<and> wi_status x = I_RUNNING
                 \<and> \<not> exists_where (\<lambda>t. tk_instance t = wi_id x \<and> tk_status t = T_PENDING) tasks)
               (\<lambda>x. x\<lparr>wi_status := I_ESCALATED\<rparr>) (wd_instances db)\<rparr>))"

end
