(* ===== verification/Approval_Chains.thy ===== *)
theory Approval_Chains
  imports Workflow
begin

text \<open>
  Invariants of the approval engine of \<^verbatim>\<open>apps/api/src/services/workflow.ts\<close>: stages are decided in
  order, by different people, none of whom owns the document, and a finished instance has every
  stage signed. The first part shows what the operations leave alone, the second states the
  invariant on the set of tasks, the third proves that every operation keeps it, the last one
  draws the consequences for whole sequences of operations.
\<close>

subsection \<open>What the engine leaves alone\<close>

text \<open>The engine's own tables, and the owner of every document; no side effect touches them.\<close>

definition same_core :: "'x wf_db \<Rightarrow> 'x wf_db \<Rightarrow> bool" where
  "same_core db db' \<longleftrightarrow> wd_instances db' = wd_instances db \<and> wd_tasks db' = wd_tasks db \<and> wd_next db' = wd_next db
     \<and> wd_owner db' = wd_owner db \<and> wd_workflows db' = wd_workflows db"

named_theorems core_intros "operations that leave the engine's tables alone"

lemma same_core_refl [core_intros, simp]: "same_core db db"
  by (simp add: same_core_def)

lemma same_core_trans: "same_core a b \<Longrightarrow> same_core b c \<Longrightarrow> same_core a c"
  by (simp add: same_core_def)

lemma same_core_with_gl [core_intros]: "same_core db (with_gl f db)"
  by (simp add: same_core_def with_gl_def)

lemma same_core_set_status [core_intros]: "same_core db (set_status table i s db)"
  by (simp add: same_core_def set_status_def with_gl_def)

lemma same_core_event [core_intros]: "same_core db (wf_event c kind suffix i code payload sev db)"
  by (simp add: same_core_def wf_event_def)

lemma same_core_audit [core_intros]: "same_core db (wf_audit c action i code new db)"
  by (simp add: same_core_def wf_audit_def)

text \<open>A step that keeps the core when it succeeds.\<close>

definition keeps :: "'x wf_db \<Rightarrow> 'x wf_db result \<Rightarrow> bool" where
  "keeps db r \<longleftrightarrow> (\<forall>db'. r = Inr db' \<longrightarrow> same_core db db')"

lemma keeps_if: "keeps db r \<Longrightarrow> keeps db s \<Longrightarrow> keeps db (if b then r else s)"
  and keeps_error: "keeps db (Inl e)"
  and keeps_ok: "same_core db db' \<Longrightarrow> keeps db (Inr db')"
  and keeps_option: "keeps db r \<Longrightarrow> (\<And>x. o' = Some x \<Longrightarrow> keeps db (f x)) \<Longrightarrow> keeps db (case o' of None \<Rightarrow> r | Some x \<Rightarrow> f x)"
  by (auto simp: keeps_def split: option.splits)

lemma keeps_gl: "keeps db (run_gl post db)" and keeps_stock: "keeps db (run_stock f db)" and keeps_rest: "keeps db (run_rest g db)"
  by (auto simp: keeps_def run_gl_def run_stock_def run_rest_def same_core_def with_gl_def)

lemmas keeps_intros = keeps_if keeps_error keeps_ok keeps_option keeps_gl keeps_stock keeps_rest same_core_refl

lemma keepsD: "keeps db r \<Longrightarrow> r = Inr db' \<Longrightarrow> same_core db db'"
  by (simp add: keeps_def)

lemma keeps_from: "keeps db' r \<Longrightarrow> same_core db db' \<Longrightarrow> keeps db r"
  by (auto simp: keeps_def intro: same_core_trans)

lemma keeps_bind: "(\<And>x db1. m = Inr (x, db1) \<Longrightarrow> same_core db db1) \<Longrightarrow> (\<And>x db1. keeps db1 (f x db1))
    \<Longrightarrow> keeps db (rbind m (\<lambda>(x, db1). f x db1))"
  by (force simp: keeps_def intro: same_core_trans)

lemma keeps_side_effect: "keeps db (run_approval_side_effect sv c today kind i db)"
  unfolding run_approval_side_effect_def by (intro keeps_intros)

lemma keeps_approve: "keeps db (approve_document sv c today e kind i db)"
  unfolding approve_document_def by (rule keeps_from [OF keeps_side_effect same_core_set_status])

lemma same_core_payroll: "decide_payroll c now i approved comment db = Inr (x, db') \<Longrightarrow> same_core db db'"
  by (auto simp: decide_payroll_def same_core_def)

lemma keeps_payroll: "keeps db (rbind (decide_payroll c now i approved comment db) (\<lambda>(_, db1). Inr db1))"
  by (rule keeps_bind) (simp_all add: same_core_payroll keeps_ok)

lemma same_core_self_authorize:
  assumes "self_authorize sv c now today x role db = Inr db'"
  shows "same_core db db'"
proof -
  obtain e db1 where r: "(if sw_entity x = ''security_printing.jobs'' then run_rest (sv_self_authorize_job sv c (sw_doc x)) db
         else if sw_entity x = ''hr.payrolls'' then rbind (decide_payroll c now (sw_doc x) True None db) (\<lambda>(_, db1). Inr db1)
         else approve_document sv c today e (sw_entity x) (sw_doc x) db) = Inr db1" (is "?r = _")
    and db': "same_core db1 db'"
    using assms
    by (auto simp: self_authorize_def split: option.splits intro: same_core_trans [OF same_core_audit same_core_event])
  have "keeps db ?r" by (intro keeps_intros keeps_payroll keeps_approve)
  then show ?thesis using keepsD r same_core_trans db' by blast
qed

lemma keeps_reject_document: "keeps db (reject_document c now x comment db)"
  unfolding reject_document_def
  by (intro keeps_intros keeps_bind same_core_set_status) (auto intro: same_core_payroll keeps_ok same_core_set_status)

subsection \<open>Approval chains\<close>

text \<open>
  What holds between two tasks of one instance: an approved step leaves no earlier step open and was
  not decided by the approver of an earlier one; a refused chain has no open task.
\<close>

definition refused :: "approval_task \<Rightarrow> bool" where
  "refused t \<longleftrightarrow> tk_status t = T_REJECTED \<or> tk_status t = T_RETURNED"

definition pair_ok :: "approval_task \<Rightarrow> approval_task \<Rightarrow> bool" where
  "pair_ok t u \<longleftrightarrow>
     (tk_status t = T_APPROVED \<and> tk_seq u < tk_seq t \<longrightarrow>
        \<not> open_task u \<and> (tk_status u = T_APPROVED \<longrightarrow> tk_decider u \<noteq> tk_decider t)) \<and>
     (refused t \<longrightarrow> \<not> open_task u)"

definition task_covered :: "approval_task set \<Rightarrow> approval_task \<Rightarrow> bool" where
  "task_covered T t \<longleftrightarrow> (tk_status t = T_APPROVED \<longrightarrow> tk_decider t \<noteq> None) \<and>
     (tk_status t = T_DELEGATED \<longrightarrow>
        (\<exists>u\<in>T. tk_instance u = tk_instance t \<and> tk_seq u = tk_seq t \<and> tk_status u \<noteq> T_DELEGATED))"

definition chain_ok :: "approval_task set \<Rightarrow> bool" where
  "chain_ok T \<longleftrightarrow> (\<forall>t\<in>T. task_covered T t \<and> (\<forall>u\<in>T. tk_instance u = tk_instance t \<longrightarrow> pair_ok t u))"

definition finished :: "wf_instance \<Rightarrow> bool" where
  "finished x \<longleftrightarrow> wi_status x = I_APPROVED \<or> wi_status x = I_EXECUTION_PENDING \<or> wi_status x = I_EXECUTED"

definition settled_task :: "approval_task \<Rightarrow> bool" where
  "settled_task t \<longleftrightarrow> tk_status t = T_APPROVED \<or> tk_status t = T_DELEGATED"

definition instance_ok :: "(wf_instance \<Rightarrow> row_id option) \<Rightarrow> approval_task set \<Rightarrow> wf_instance \<Rightarrow> bool" where
  "instance_ok own T x \<longleftrightarrow>
     (\<exists>t\<in>T. tk_instance t = wi_id x) \<and>
     (finished x \<longrightarrow> (\<forall>t\<in>T. tk_instance t = wi_id x \<longrightarrow> settled_task t)) \<and>
     (wi_status x = I_EXECUTED \<longrightarrow> wi_executor x \<noteq> None \<and> (\<forall>t\<in>T. tk_instance t = wi_id x \<longrightarrow> tk_decider t \<noteq> wi_executor x)) \<and>
     (\<forall>t\<in>T. tk_instance t = wi_id x \<and> tk_status t = T_APPROVED \<longrightarrow> tk_decider t \<noteq> own x \<or> own x = None)"

definition owners :: "'x wf_db \<Rightarrow> wf_instance \<Rightarrow> row_id option" where
  "owners db x = document_owner x db"

definition keys_ok :: "'x wf_db \<Rightarrow> bool" where
  "keys_ok db \<longleftrightarrow> distinct (map tk_id (wd_tasks db)) \<and> distinct (map wi_id (wd_instances db))
     \<and> (\<forall>t\<in>set (wd_tasks db). tk_id t < wd_next db \<and> tk_instance t < wd_next db)
     \<and> (\<forall>x\<in>set (wd_instances db). wi_id x < wd_next db)"

definition wf_ok :: "'x wf_db \<Rightarrow> bool" where
  "wf_ok db \<longleftrightarrow> keys_ok db \<and> chain_ok (set (wd_tasks db))
     \<and> (\<forall>x\<in>set (wd_instances db). instance_ok (owners db) (set (wd_tasks db)) x)"

lemma open_not: "open_task t \<Longrightarrow> tk_status t \<noteq> T_APPROVED \<and> tk_status t \<noteq> T_DELEGATED \<and> \<not> refused t \<and> \<not> settled_task t"
  by (auto simp: open_task_def refused_def settled_task_def)

text \<open>Updating one task by id, on the set of tasks.\<close>

lemma set_update_id:
  assumes "distinct (map tk_id ts)" "t \<in> set ts"
  shows "set (update_where (\<lambda>y. tk_id y = tk_id t) f ts) = insert (f t) (set ts - {t})"
  using assms by (induction ts) (auto simp: update_where_def image_iff split: if_splits)

lemma covered_replace:
  assumes "task_covered T u" "tk_instance t' = tk_instance t" "tk_seq t' = tk_seq t" "tk_status t' \<noteq> T_DELEGATED"
  shows "task_covered (insert t' (T - {t})) u"
proof -
  have "\<exists>v\<in>insert t' (T - {t}). tk_instance v = tk_instance u \<and> tk_seq v = tk_seq u \<and> tk_status v \<noteq> T_DELEGATED"
    if v: "v \<in> T" "tk_instance v = tk_instance u" "tk_seq v = tk_seq u" "tk_status v \<noteq> T_DELEGATED" for v
  proof (cases "v = t")
    case True
    then show ?thesis using v assms by (intro bexI [of _ t']) simp_all
  next
    case False
    then show ?thesis using v by (intro bexI [of _ v]) simp_all
  qed
  then show ?thesis using assms(1) by (auto simp: task_covered_def)
qed

lemma chain_approve:
  assumes ok: "chain_ok T" and t: "t \<in> T" "open_task t"
    and t': "tk_instance t' = tk_instance t" "tk_seq t' = tk_seq t" "tk_status t' = T_APPROVED" "tk_decider t' = Some user"
    and early: "\<And>u. u \<in> T - {t} \<Longrightarrow> tk_instance u = tk_instance t \<Longrightarrow> tk_seq u < tk_seq t
      \<Longrightarrow> \<not> open_task u \<and> \<not> (tk_decider u = Some user \<and> tk_status u = T_APPROVED)"
  shows "chain_ok (insert t' (T - {t}))"
proof -
  have pairs: "pair_ok u v" if "u \<in> T" "v \<in> T" "tk_instance u = tk_instance v" for u v
    using ok that by (auto simp: chain_ok_def)
  have new_left: "pair_ok t' u" if "u \<in> insert t' (T - {t})" "tk_instance u = tk_instance t" for u
    using that t' early [of u] by (auto simp: pair_ok_def refused_def open_task_def)
  have new_right: "pair_ok u t'" if "u \<in> T" "tk_instance u = tk_instance t" for u
    using pairs [of u t] that t t' open_not by (auto simp: pair_ok_def open_task_def)
  have cover: "task_covered (insert t' (T - {t})) u" if "u \<in> insert t' (T - {t})" for u
  proof (cases "u = t'")
    case True
    then show ?thesis using t' by (simp add: task_covered_def)
  next
    case False
    then have "u \<in> T" "task_covered T u" using that ok by (auto simp: chain_ok_def)
    then show ?thesis using covered_replace [OF _ t'(1,2)] t' by simp
  qed
  show ?thesis
    unfolding chain_ok_def
    using new_left new_right pairs cover t' by (metis Diff_iff insert_iff)
qed

lemma chain_delegate:
  assumes ok: "chain_ok T" and t: "t \<in> T" "open_task t"
    and t': "tk_instance t' = tk_instance t" "tk_seq t' = tk_seq t" "tk_status t' = T_DELEGATED"
    and n: "tk_instance n = tk_instance t" "tk_seq n = tk_seq t" "tk_status n = T_PENDING"
  shows "chain_ok (insert n (insert t' (T - {t})))"
proof -
  let ?T = "insert n (insert t' (T - {t}))"
  have pairs: "pair_ok u v" if "u \<in> T" "v \<in> T" "tk_instance u = tk_instance v" for u v
    using ok that by (auto simp: chain_ok_def)
  have left: "pair_ok n u" "pair_ok t' u" for u
    using t' n by (auto simp: pair_ok_def refused_def)
  have right: "pair_ok u n" "pair_ok u t'" if "u \<in> T" "tk_instance u = tk_instance t" for u
    using pairs [of u t] that t t' n by (auto simp: pair_ok_def open_task_def)
  have cover: "task_covered ?T u" if "u \<in> ?T" for u
  proof (cases "u = n \<or> u = t'")
    case True
    then show ?thesis using t' n by (auto simp: task_covered_def)
  next
    case False
    then have "u \<in> T" "task_covered T u" using that ok by (auto simp: chain_ok_def)
    then have "task_covered (insert n (T - {t})) u" using covered_replace [OF _ n(1,2)] n(3) by simp
    then show ?thesis by (auto simp: task_covered_def)
  qed
  show ?thesis unfolding chain_ok_def using left right pairs cover t' n by (metis Diff_iff insert_iff)
qed

text \<open>Refusing a task closes every open task of its instance.\<close>

definition close_open :: "row_id \<Rightarrow> time \<Rightarrow> string option \<Rightarrow> approval_task \<Rightarrow> approval_task" where
  "close_open i now comment y =
     (if tk_instance y = i \<and> open_task y
      then y\<lparr>tk_status := T_REJECTED, tk_comment := comment, tk_decided := Some now\<rparr> else y)"

lemma close_open_simps [simp]:
  "tk_instance (close_open i now comment y) = tk_instance y"
  "tk_seq (close_open i now comment y) = tk_seq y"
  "tk_decider (close_open i now comment y) = tk_decider y"
  "tk_id (close_open i now comment y) = tk_id y"
  by (simp_all add: close_open_def)

lemma close_open_status:
  "tk_status (close_open i now comment y) = (if tk_instance y = i \<and> open_task y then T_REJECTED else tk_status y)"
  by (simp add: close_open_def)

lemma close_open_open: "open_task (close_open i now comment y) \<longleftrightarrow> open_task y \<and> tk_instance y \<noteq> i"
  by (auto simp: close_open_def open_task_def)

lemma chain_reject:
  assumes ok: "chain_ok T" and t: "t \<in> T"
    and t': "tk_instance t' = tk_instance t" "tk_seq t' = tk_seq t" "refused t'"
  shows "chain_ok (close_open (tk_instance t) now comment ` insert t' (T - {t}))"
proof -
  let ?f = "close_open (tk_instance t) now comment" and ?T = "insert t' (T - {t})"
  have same: "?f u = u" if "tk_instance u \<noteq> tk_instance t" for u using that by (simp add: close_open_def)
  have pairs: "pair_ok u v" if "u \<in> T" "v \<in> T" "tk_instance u = tk_instance v" for u v
    using ok that by (auto simp: chain_ok_def)
  have inside: "pair_ok (?f u) (?f v)" if "u \<in> ?T" "v \<in> ?T" "tk_instance u = tk_instance v" "tk_instance u = tk_instance t" for u v
  proof -
    have "tk_status (?f u) = T_APPROVED \<Longrightarrow> tk_status (?f v) = T_APPROVED \<Longrightarrow> u \<in> T \<and> v \<in> T
        \<and> tk_status u = T_APPROVED \<and> tk_status v = T_APPROVED"
      using that t' by (auto simp: close_open_status refused_def split: if_splits)
    then show ?thesis using pairs [of u v] that by (auto simp: pair_ok_def close_open_open)
  qed
  have outside: "pair_ok (?f u) (?f v)" if "u \<in> ?T" "v \<in> ?T" "tk_instance u = tk_instance v" "tk_instance u \<noteq> tk_instance t" for u v
  proof -
    have "u \<noteq> t'" "v \<noteq> t'" using that t' by auto
    then have "u \<in> T" "v \<in> T" using that by auto
    then show ?thesis using pairs that same by simp
  qed
  have cover: "task_covered (?f ` ?T) (?f u)" if "u \<in> ?T" for u
  proof (cases "u = t'")
    case True
    then show ?thesis using t' by (auto simp: task_covered_def close_open_status refused_def)
  next
    case False
    then have "u \<in> T" "task_covered T u" using that ok by (auto simp: chain_ok_def)
    then have c: "task_covered ?T u" using covered_replace [OF _ t'(1,2)] t'(3) by (auto simp: refused_def)
    have approved: "tk_decider (?f u) \<noteq> None" if "tk_status (?f u) = T_APPROVED"
      using that c by (simp add: task_covered_def close_open_status split: if_splits)
    have delegated: "\<exists>w\<in>?f ` ?T. tk_instance w = tk_instance (?f u) \<and> tk_seq w = tk_seq (?f u) \<and> tk_status w \<noteq> T_DELEGATED"
      if "tk_status (?f u) = T_DELEGATED"
    proof -
      have "tk_status u = T_DELEGATED" using that by (simp add: close_open_status split: if_splits)
      then obtain v where v: "v \<in> ?T" "tk_instance v = tk_instance u" "tk_seq v = tk_seq u" "tk_status v \<noteq> T_DELEGATED"
        using c unfolding task_covered_def by blast
      show ?thesis
      proof (intro bexI conjI)
        show "?f v \<in> ?f ` ?T" using v(1) by (rule imageI)
        show "tk_status (?f v) \<noteq> T_DELEGATED" using v(4) by (simp add: close_open_status)
      qed (simp_all add: v)
    qed
    show ?thesis unfolding task_covered_def by (intro conjI impI) (fact approved, fact delegated)
  qed
  have pair: "pair_ok (?f u) (?f v)" if "u \<in> ?T" "v \<in> ?T" "tk_instance v = tk_instance u" for u v
    using inside [OF that(1,2)] outside [OF that(1,2)] that(3) by (cases "tk_instance u = tk_instance t") simp_all
  show ?thesis
    unfolding chain_ok_def ball_simps(9) close_open_simps using pair cover by blast
qed

text \<open>Instances: what a change of the tasks or of the instance itself preserves.\<close>

lemma instance_ok_cong:
  assumes "instance_ok own T x" "wi_id y = wi_id x" "wi_status y = wi_status x" "wi_executor y = wi_executor x" "own' y = own x"
  shows "instance_ok own' T y"
  using assms by (simp add: instance_ok_def finished_def)

lemma instance_ok_other:
  assumes "instance_ok own T x" "\<And>t. tk_instance t = wi_id x \<Longrightarrow> t \<in> T' \<longleftrightarrow> t \<in> T"
  shows "instance_ok own T' x"
proof -
  have only: "instance_ok own S x \<longleftrightarrow> instance_ok own {t \<in> S. tk_instance t = wi_id x} x" for S
    by (auto simp: instance_ok_def)
  have "{t \<in> T'. tk_instance t = wi_id x} = {t \<in> T. tk_instance t = wi_id x}" using assms(2) by auto
  then show ?thesis using assms(1) only by metis
qed

text \<open>While a task of the instance is open the instance is not finished.\<close>

lemma instance_open_not_finished:
  "instance_ok own T x \<Longrightarrow> t \<in> T \<Longrightarrow> open_task t \<Longrightarrow> tk_instance t = wi_id x \<Longrightarrow> \<not> finished x"
  using open_not unfolding instance_ok_def by blast

lemma instance_ok_replace:
  assumes ok: "instance_ok own T x" and t: "t \<in> T" "open_task t" "tk_instance t = wi_id x"
    and t': "tk_instance t' = tk_instance t" and own: "tk_status t' = T_APPROVED \<Longrightarrow> tk_decider t' \<noteq> own x \<or> own x = None"
    and n: "\<And>u. u \<in> N \<Longrightarrow> tk_status u \<noteq> T_APPROVED"
  shows "instance_ok own (N \<union> insert t' (T - {t})) x"
proof -
  have nf: "\<not> finished x" using instance_open_not_finished [OF ok t] .
  then have "wi_status x \<noteq> I_EXECUTED" by (simp add: finished_def)
  then show ?thesis using nf ok t t' own n unfolding instance_ok_def by auto
qed

lemma instance_ok_reject:
  assumes ok: "instance_ok own (insert t' T) x" and i: "i = wi_id x"
    and y: "wi_id y = wi_id x" "wi_status y = I_REJECTED" "own y = own x"
  shows "instance_ok own (close_open i now comment ` insert t' T) y"
  using ok y unfolding instance_ok_def by (auto simp: close_open_status finished_def split: if_splits)

lemma close_open_other: "tk_instance t \<noteq> i \<Longrightarrow> t \<in> close_open i now comment ` T \<longleftrightarrow> t \<in> T"
  by (auto simp: close_open_def image_iff)

text \<open>A finished chain: no open task is left and none was refused.\<close>

lemma instance_ok_finish:
  assumes ok: "instance_ok own T x" and chain: "chain_ok T" and none: "\<forall>t\<in>T. tk_instance t = wi_id x \<longrightarrow> \<not> open_task t \<and> \<not> refused t"
    and y: "wi_id y = wi_id x" "wi_status y = I_APPROVED \<or> wi_status y = I_EXECUTION_PENDING" "own y = own x"
  shows "instance_ok own T y"
proof -
  have "settled_task t" if "\<not> open_task t" "\<not> refused t" for t
    using that by (cases "tk_status t") (auto simp: open_task_def refused_def settled_task_def)
  then show ?thesis using ok none y unfolding instance_ok_def by auto
qed

subsection \<open>The operations keep the chains\<close>

lemma owners_cong: "wd_owner db' = wd_owner db \<Longrightarrow> owners db' = owners db"
  by (rule ext) (simp add: owners_def document_owner_def split: option.splits)

lemma owners_same: "wi_entity y = wi_entity x \<Longrightarrow> wi_doc y = wi_doc x \<Longrightarrow> owners db y = owners db x"
  by (simp add: owners_def document_owner_def split: option.splits)

lemma wf_ok_core: "same_core db db' \<Longrightarrow> wf_ok db \<Longrightarrow> wf_ok db'"
  using owners_cong [of db' db] by (simp add: same_core_def wf_ok_def keys_ok_def)

lemma wf_ok_instances:
  assumes ok: "wf_ok db" and id: "\<And>x. wi_id (f x) = wi_id x"
    and f: "\<And>x. x \<in> set (wd_instances db) \<Longrightarrow> p x \<Longrightarrow> instance_ok (owners db) (set (wd_tasks db)) (f x)"
  shows "wf_ok (db\<lparr>wd_instances := update_where p f (wd_instances db)\<rparr>)"
proof -
  let ?db = "db\<lparr>wd_instances := update_where p f (wd_instances db)\<rparr>"
  have own: "owners ?db = owners db" by (rule owners_cong) simp
  have ids: "map wi_id (update_where p f (wd_instances db)) = map wi_id (wd_instances db)"
    by (rule map_update_where_same) (rule id)
  have "wi_id ` set (update_where p f (wd_instances db)) = wi_id ` set (wd_instances db)"
    using ids by (metis list.set_map)
  then have "\<forall>x\<in>set (update_where p f (wd_instances db)). wi_id x < wd_next db"
    using ok by (metis (no_types, lifting) imageE imageI keys_ok_def wf_ok_def)
  then have "keys_ok ?db" using ok ids by (simp add: wf_ok_def keys_ok_def)
  moreover have "\<forall>x\<in>set (update_where p f (wd_instances db)). instance_ok (owners db) (set (wd_tasks db)) x"
    using ok f by (auto simp: set_update_where wf_ok_def)
  ultimately show ?thesis using ok by (simp add: wf_ok_def own)
qed

text \<open>A change of tasks that keeps their part in the chain.\<close>

definition same_part :: "approval_task \<Rightarrow> approval_task \<Rightarrow> bool" where
  "same_part t u \<longleftrightarrow> tk_id u = tk_id t \<and> tk_instance u = tk_instance t \<and> tk_seq u = tk_seq t \<and> tk_decider u = tk_decider t
     \<and> (tk_status u = tk_status t \<or> open_task t \<and> open_task u)"

lemma same_partD:
  assumes "same_part t u"
  shows "tk_id u = tk_id t" "tk_instance u = tk_instance t" "tk_seq u = tk_seq t" "tk_decider u = tk_decider t"
    "open_task u = open_task t" "refused u = refused t" "settled_task u = settled_task t"
    "tk_status u = T_APPROVED \<longleftrightarrow> tk_status t = T_APPROVED" "tk_status u = T_DELEGATED \<longleftrightarrow> tk_status t = T_DELEGATED"
  using assms by (auto simp: same_part_def open_task_def refused_def settled_task_def)

lemma chain_relabel:
  assumes ok: "chain_ok T" and f: "\<And>t. same_part t (f t)"
  shows "chain_ok (f ` T)"
proof -
  note p = same_partD [OF f]
  have "pair_ok (f t) (f u) = pair_ok t u" for t u by (simp add: pair_ok_def p)
  moreover have "task_covered (f ` T) (f t) = task_covered T t" for t by (simp add: task_covered_def p)
  ultimately show ?thesis using ok unfolding chain_ok_def ball_simps(9) p by simp
qed

lemma instance_relabel:
  assumes "instance_ok own T x" and f: "\<And>t. same_part t (f t)"
  shows "instance_ok own (f ` T) x"
  using assms(1) unfolding instance_ok_def ball_simps(9) bex_simps(7) same_partD [OF f] .

lemma wf_ok_relabel:
  assumes ok: "wf_ok db" and f: "\<And>t. same_part t (f t)"
  shows "wf_ok (db\<lparr>wd_tasks := map f (wd_tasks db)\<rparr>)"
proof -
  let ?db = "db\<lparr>wd_tasks := map f (wd_tasks db)\<rparr>"
  have own: "owners ?db = owners db" by (rule owners_cong) simp
  have ids: "map (tk_id \<circ> f) (wd_tasks db) = map tk_id (wd_tasks db)" by (simp add: same_partD [OF f])
  have "keys_ok ?db" using ok by (simp add: wf_ok_def keys_ok_def same_partD [OF f] ids)
  then show ?thesis
    using ok chain_relabel [OF _ f] instance_relabel [OF _ f] by (simp add: wf_ok_def own)
qed

text \<open>Opening an instance adds pending tasks under a fresh id.\<close>

lemma number_tasks_set:
  "u \<in> set (number_tasks n ts) \<Longrightarrow> \<exists>t\<in>set ts. u = t\<lparr>tk_id := tk_id u\<rparr> \<and> n \<le> tk_id u \<and> tk_id u < n + length ts"
proof (induction n ts rule: number_tasks.induct)
  case (2 n t ts)
  then show ?case by fastforce
qed simp

lemma number_tasks_distinct: "distinct (map tk_id (number_tasks n ts))"
proof (induction n ts rule: number_tasks.induct)
  case (2 n t ts)
  then show ?case using number_tasks_set [of _ "Suc n" ts] by fastforce
qed simp

lemma number_tasks_Nil [simp]: "number_tasks n ts = [] \<longleftrightarrow> ts = []"
  by (cases ts) simp_all

lemma step_task_fields:
  "step_task now company roles sla inst s = Inr t \<Longrightarrow> tk_instance t = inst \<and> tk_status t = T_PENDING \<and> tk_seq t = aps_seq s"
  by (auto simp: step_task_def Let_def split: if_splits)

lemma chain_union:
  assumes T: "chain_ok T" and N: "\<And>u. u \<in> N \<Longrightarrow> tk_instance u = i \<and> tk_status u = T_PENDING" and i: "\<And>t. t \<in> T \<Longrightarrow> tk_instance t \<noteq> i"
  shows "chain_ok (T \<union> N)"
proof -
  have N1: "pair_ok u v" "task_covered (T \<union> N) u" if "u \<in> N" for u v
    using N [OF that] by (auto simp: pair_ok_def task_covered_def refused_def)
  have T1: "task_covered (T \<union> N) t" if "t \<in> T" for t
    using T that unfolding chain_ok_def task_covered_def by blast
  have "pair_ok t v" if "t \<in> T" "v \<in> T \<union> N" "tk_instance v = tk_instance t" for t v
  proof -
    have "v \<in> T" using that N [of v] i [of t] by auto
    then show ?thesis using T that by (simp add: chain_ok_def)
  qed
  then show ?thesis unfolding chain_ok_def using N1 T1 by blast
qed

lemma wf_ok_open_instance:
  assumes ok: "wf_ok db" and steps: "steps \<noteq> []" and r: "open_instance sv c now tenant company x w steps db = Inr (i, db')"
  shows "wf_ok db'"
proof -
  let ?i = "wd_next db"
  define inst where "inst = new_instance sv c now tenant company x w db"
  have inst: "wi_id inst = ?i" "wi_status inst = I_RUNNING" by (simp_all add: inst_def new_instance_def)
  obtain ts where ts: "traverse (step_task now company (wd_roles db) (the_default 48 (aps_sla (hd steps))) ?i) steps = Inr ts"
    and event: "same_core (db\<lparr>wd_instances := wd_instances db @ [inst], wd_tasks := wd_tasks db @ number_tasks (Suc ?i) ts,
       wd_next := Suc ?i + length ts\<rparr>) db'"
    using r unfolding open_instance_def Let_def inst_def by (auto intro: same_core_event)
  define dbm where "dbm = db\<lparr>wd_instances := wd_instances db @ [inst], wd_tasks := wd_tasks db @ number_tasks (Suc ?i) ts,
       wd_next := Suc ?i + length ts\<rparr>"
  note dbm = dbm_def
  have core: "same_core dbm db'" using event by (simp add: dbm)
  have all: "list_all2 (\<lambda>s t. step_task now company (wd_roles db) (the_default 48 (aps_sla (hd steps))) ?i s = Inr t) steps ts"
    using ts by (simp add: traverse_Inr_iff)
  then have ne: "ts \<noteq> []" using steps by auto
  have fields: "tk_instance t = ?i \<and> tk_status t = T_PENDING" if "t \<in> set ts" for t
    using traverse_all [OF ts, of "\<lambda>t. tk_instance t = ?i \<and> tk_status t = T_PENDING"] that step_task_fields by blast
  have new: "tk_instance u = ?i \<and> tk_status u = T_PENDING \<and> ?i < tk_id u \<and> tk_id u < Suc ?i + length ts"
    if u: "u \<in> set (number_tasks (Suc ?i) ts)" for u
  proof -
    obtain t where t: "t \<in> set ts" "u = t\<lparr>tk_id := tk_id u\<rparr>" "Suc ?i \<le> tk_id u" "tk_id u < Suc ?i + length ts"
      using number_tasks_set [OF u] by blast
    have "tk_instance u = tk_instance t" "tk_status u = tk_status t" by (subst t(2), simp)+
    then show ?thesis using fields [OF t(1)] t(3,4) by simp
  qed
  have old: "tk_instance t \<noteq> ?i" "tk_id t < ?i" if "t \<in> set (wd_tasks db)" for t
    using ok that by (auto simp: wf_ok_def keys_ok_def)
  have oldx: "wi_id y < ?i" if "y \<in> set (wd_instances db)" for y using ok that by (auto simp: wf_ok_def keys_ok_def)
  have own: "owners dbm = owners db" by (rule owners_cong) (simp add: dbm)
  have chain: "chain_ok (set (wd_tasks dbm))"
    unfolding dbm using ok new old(1) by (simp add: wf_ok_def) (rule chain_union; blast)
  have keys: "keys_ok dbm"
    using ok number_tasks_distinct [of "Suc ?i" ts] new old oldx inst
    unfolding dbm keys_ok_def wf_ok_def by (force simp: less_Suc_eq)
  have insts: "instance_ok (owners db) (set (wd_tasks dbm)) y" if "y \<in> set (wd_instances dbm)" for y
  proof (cases "y = inst")
    case True
    have "hd (number_tasks (Suc ?i) ts) \<in> set (number_tasks (Suc ?i) ts)" using ne by simp
    then show ?thesis
      using True inst new old(1) unfolding dbm instance_ok_def finished_def by (auto 4 3)
  next
    case False
    then have y: "y \<in> set (wd_instances db)" using that by (simp add: dbm)
    have "t \<in> set (wd_tasks dbm) \<longleftrightarrow> t \<in> set (wd_tasks db)" if "tk_instance t = wi_id y" for t
      using that new oldx [OF y] by (auto simp: dbm)
    then show ?thesis using y ok by (auto simp: wf_ok_def intro: instance_ok_other)
  qed
  have "wf_ok dbm" using chain keys insts by (simp add: wf_ok_def own)
  then show ?thesis using core by (rule wf_ok_core [rotated])
qed

lemma wf_ok_set_instance:
  assumes ok: "wf_ok db" and id: "\<And>x. wi_id (f x) = wi_id x"
    and f: "\<And>x. x \<in> set (wd_instances db) \<Longrightarrow> wi_id x = i \<Longrightarrow> instance_ok (owners db) (set (wd_tasks db)) (f x)"
  shows "wf_ok (set_instance i f db)"
  unfolding set_instance_def using wf_ok_instances [where f = f and p = "\<lambda>x. wi_id x = i", OF ok id] f by simp

lemma wf_ok_set_step:
  assumes ok: "wf_ok db"
  shows "wf_ok (set_instance i (\<lambda>y. y\<lparr>wi_step := n y\<rparr>) db)"
proof (rule wf_ok_set_instance [OF ok])
  fix x assume "x \<in> set (wd_instances db)"
  then have "instance_ok (owners db) (set (wd_tasks db)) x" using ok by (simp add: wf_ok_def)
  then show "instance_ok (owners db) (set (wd_tasks db)) (x\<lparr>wi_step := n x\<rparr>)"
    by (rule instance_ok_cong) (auto intro: owners_same)
qed simp

lemma wf_ok_start:
  assumes ok: "wf_ok db" and r: "start_workflow sv c now today x db = Inr (i, db')"
  shows "wf_ok db'"
proof -
  obtain company where r1: "(case approval_free (sw_entity x) of
       Some e \<Rightarrow> rbind (approve_document sv c today e (sw_entity x) (sw_doc x) db) (\<lambda>db1.
           Inr (None, wf_event c (sw_entity x) ''.auto_approved'' (sw_doc x) (sw_code x)
                        [(''reason'', JStr ''Approval-free by policy'')] None db1))
     | None \<Rightarrow> (case self_authorize_role c now company db of
           Some role \<Rightarrow> rbind (self_authorize sv c now today x role db) (\<lambda>db1. Inr (None, db1))
         | None \<Rightarrow> submit_for_approval sv c now today company x db)) = Inr (i, db')"
    using r by (auto simp: start_workflow_def split: option.splits)
  show ?thesis
  proof (cases "approval_free (sw_entity x)")
    case None
    show ?thesis
    proof (cases "self_authorize_role c now company db")
      case None
      then have "submit_for_approval sv c now today company x db = Inr (i, db')"
        using r1 \<open>approval_free (sw_entity x) = None\<close> by simp
      then show ?thesis
        using wf_ok_open_instance [OF ok] by (auto simp: submit_for_approval_def Let_def split: option.splits if_splits)
    next
      case (Some role)
      then have "self_authorize sv c now today x role db = Inr db'" using r1 None by auto
      then show ?thesis using same_core_self_authorize wf_ok_core ok by blast
    qed
  next
    case (Some e)
    then obtain db1 where a: "approve_document sv c today e (sw_entity x) (sw_doc x) db = Inr db1"
      and e: "same_core db1 db'" using r1 by (auto intro: same_core_event)
    show ?thesis using wf_ok_core [OF same_core_trans [OF keepsD [OF keeps_approve a] e] ok] .
  qed
qed

lemma in_db:
  assumes "find_task c i db = Some (t, x)"
  shows "t \<in> set (wd_tasks db)" "x \<in> set (wd_instances db)" "wi_id x = tk_instance t" "tk_id t = i"
  using assms by (auto simp: find_task_def dest!: find_Some_iff_mem split: option.splits)

lemma instance_unique:
  "wf_ok db \<Longrightarrow> x \<in> set (wd_instances db) \<Longrightarrow> y \<in> set (wd_instances db) \<Longrightarrow> wi_id x = wi_id y \<Longrightarrow> x = y"
  unfolding wf_ok_def keys_ok_def by (metis distinct_map inj_onD)

text \<open>Replacing one open task \<open>t\<close> by \<open>t'\<close> and adding the tasks \<open>ns\<close> of the same instance.\<close>

lemma wf_ok_replace:
  assumes ok: "wf_ok db" and t: "t \<in> set (wd_tasks db)" "open_task t"
    and f: "f t = t'" "\<And>y. tk_id (f y) = tk_id y" "tk_instance t' = tk_instance t"
    and own: "\<And>x. x \<in> set (wd_instances db) \<Longrightarrow> wi_id x = tk_instance t \<Longrightarrow> tk_status t' = T_APPROVED
       \<Longrightarrow> tk_decider t' \<noteq> owners db x \<or> owners db x = None"
    and chain: "chain_ok (set ns \<union> insert t' (set (wd_tasks db) - {t}))"
    and ns: "distinct (map tk_id ns)" "\<And>u. u \<in> set ns \<Longrightarrow> tk_instance u = tk_instance t \<and> tk_status u \<noteq> T_APPROVED
       \<and> wd_next db \<le> tk_id u \<and> tk_id u < n" and n: "wd_next db \<le> n"
  shows "wf_ok (db\<lparr>wd_tasks := update_where (\<lambda>y. tk_id y = tk_id t) f (wd_tasks db) @ ns, wd_next := n\<rparr>)"
proof -
  let ?ts = "update_where (\<lambda>y. tk_id y = tk_id t) f (wd_tasks db)"
  let ?db = "db\<lparr>wd_tasks := ?ts @ ns, wd_next := n\<rparr>"
  have keys: "keys_ok db" using ok by (simp add: wf_ok_def)
  have dist: "distinct (map tk_id (wd_tasks db))" using keys by (simp add: keys_ok_def)
  have set: "set ?ts = insert t' (set (wd_tasks db) - {t})" using set_update_id [OF dist t(1), of f] f(1) by simp
  have ids: "map tk_id ?ts = map tk_id (wd_tasks db)" by (rule map_update_where_same) (rule f(2))
  have idset: "tk_id ` set ?ts = tk_id ` set (wd_tasks db)" using ids by (metis list.set_map)
  have small: "tk_id u < wd_next db \<and> tk_instance u < wd_next db" if "u \<in> insert t' (set (wd_tasks db) - {t})" for u
    using that keys t(1) f by (auto simp: keys_ok_def)
  have sep: "tk_id u \<noteq> tk_id v" if "u \<in> set ns" "v \<in> set ?ts" for u v
    using ns(2) [OF that(1)] small [of v] that(2) unfolding set by auto
  have "tk_id ` set ?ts \<inter> tk_id ` set ns = {}"
    unfolding disjoint_iff using sep by (metis imageE)
  then have "distinct (map tk_id (?ts @ ns))" using dist ns(1) ids idset by (simp only: map_append distinct_append set_map)
  moreover have "tk_id u < n \<and> tk_instance u < n" if "u \<in> set (?ts @ ns)" for u
    using that small [of u] ns(2) [of u] n t(1) keys unfolding set_append set by (auto simp: keys_ok_def intro: less_le_trans)
  moreover have "wi_id x < n" if "x \<in> set (wd_instances db)" for x
    using that keys n by (auto simp: keys_ok_def intro: less_le_trans)
  ultimately have "keys_ok ?db" using keys by (simp add: keys_ok_def)
  moreover have "chain_ok (set (wd_tasks ?db))" using chain by (simp add: set Un_commute)
  moreover have "instance_ok (owners db) (set (wd_tasks ?db)) x" if x: "x \<in> set (wd_instances db)" for x
  proof -
    have okx: "instance_ok (owners db) (set (wd_tasks db)) x" using ok x by (simp add: wf_ok_def)
    show ?thesis
    proof (cases "wi_id x = tk_instance t")
      case True
      have "instance_ok (owners db) (set ns \<union> insert t' (set (wd_tasks db) - {t})) x"
        using instance_ok_replace [OF okx t True [symmetric] f(3)] own [OF x True] ns(2) by blast
      then show ?thesis by (simp add: set Un_commute)
    next
      case False
      have "u \<in> set (wd_tasks ?db) \<longleftrightarrow> u \<in> set (wd_tasks db)" if "tk_instance u = wi_id x" for u
        using that False f(3) ns(2) [of u] by (auto simp: set)
      then show ?thesis using okx by (rule instance_ok_other [rotated])
    qed
  qed
  ultimately show ?thesis by (simp add: wf_ok_def owners_cong [of ?db db])
qed

lemma wf_ok_delegate:
  assumes ok: "wf_ok db" and t: "t \<in> set (wd_tasks db)" "open_task t"
  shows "wf_ok (delegate_task now user other comment t db)"
proof -
  define f :: "approval_task \<Rightarrow> approval_task" where "f = (\<lambda>y. y\<lparr>tk_status := T_DELEGATED, tk_comment := comment, tk_decider := Some user,
                   tk_decided := Some now, tk_delegated_from := Some user\<rparr>)"
  define n :: approval_task where "n = \<lparr>tk_id = wd_next db, tk_instance = tk_instance t, tk_seq = tk_seq t, tk_name = tk_name t, tk_role = None,
             tk_alternative = None, tk_user = Some other, tk_status = T_PENDING, tk_comment = None, tk_decider = None,
             tk_decided = None, tk_created = now, tk_due = hours now 48, tk_delegated_from = Some user,
             tk_delegation = None\<rparr>"
  have eq: "delegate_task now user other comment t db =
      db\<lparr>wd_tasks := update_where (\<lambda>y. tk_id y = tk_id t) f (wd_tasks db) @ [n], wd_next := Suc (wd_next db)\<rparr>"
    by (simp add: delegate_task_def set_task_def f_def n_def)
  have chain: "chain_ok (insert n (insert (f t) (set (wd_tasks db) - {t})))"
    by (rule chain_delegate [OF _ t]) (use ok in \<open>simp_all add: wf_ok_def f_def n_def\<close>)
  show ?thesis
    unfolding eq
  proof (rule wf_ok_replace [OF ok t])
    show "chain_ok (set [n] \<union> insert (f t) (set (wd_tasks db) - {t}))" using chain by (simp only: list.set Un_insert_left Un_empty_left)
  qed (simp_all add: f_def n_def)
qed

text \<open>What a recorded decision has checked and written.\<close>

lemma record_decisionE:
  assumes ok: "wf_ok db" and t: "t \<in> set (wd_tasks db)"
    and r: "record_decision sv c now user d comment deleg t x db = Inr db1"
  obtains f where "wd_tasks db1 = update_where (\<lambda>y. tk_id y = tk_id t) f (wd_tasks db)"
    "\<And>y. tk_id (f y) = tk_id y" "tk_instance (f t) = tk_instance t" "tk_seq (f t) = tk_seq t"
    "tk_status (f t) = decided_status d" "tk_decider (f t) = Some user"
    "\<not> earlier_open t (wd_tasks db1)" "\<not> decided_earlier user t (wd_tasks db1)"
    "wd_instances db1 = wd_instances db" "wd_next db1 = wd_next db" "wd_owner db1 = wd_owner db" "wd_workflows db1 = wd_workflows db"
proof -
  define f :: "approval_task \<Rightarrow> approval_task" where "f = (\<lambda>y. y\<lparr>tk_status := decided_status d, tk_comment := comment,
      tk_decider := Some user, tk_decided := Some now, tk_delegation := deleg\<rparr>)"
  define dba where "dba = wf_audit c (case d of D_APPROVED \<Rightarrow> ''approved'' | D_REJECTED \<Rightarrow> ''rejected'' | D_RETURNED \<Rightarrow> ''returned''
                              | D_DELEGATED \<Rightarrow> ''delegated'') (tk_id t) (wi_code x) [] (set_task (tk_id t) f db)"
  have core: "same_core (set_task (tk_id t) f db) db1"
    and checks: "\<not> earlier_open t (wd_tasks db1)" "\<not> decided_earlier user t (wd_tasks db1)"
  proof -
    obtain db2 where "(if wi_entity x = ''security_printing.jobs'' \<and> d = D_APPROVED
        then run_rest (sv_job_task_approved sv c (wi_doc x) (tk_seq t)) dba else Inr dba) = Inr db2" (is "?r = _")
      and db1: "db1 = db2" "\<not> earlier_open t (wd_tasks db2)" "\<not> decided_earlier user t (wd_tasks db2)"
      using r by (auto simp: record_decision_def Let_def dba_def f_def split: if_splits)
    moreover have "keeps dba ?r" by (intro keeps_intros)
    ultimately have "same_core dba db1" using keepsD by blast
    then show "same_core (set_task (tk_id t) f db) db1" unfolding dba_def by (rule same_core_trans [OF same_core_audit])
    show "\<not> earlier_open t (wd_tasks db1)" "\<not> decided_earlier user t (wd_tasks db1)" using db1 by simp_all
  qed
  then show ?thesis
    by (intro that [of f]) (simp_all add: same_core_def set_task_def, simp_all add: f_def)
qed

lemma chain_after_approval:
  assumes ok: "chain_ok T" and t: "t \<in> T" "open_task t" and set: "set ts = insert t' (T - {t})"
    and t': "tk_instance t' = tk_instance t" "tk_seq t' = tk_seq t" "tk_status t' = T_APPROVED" "tk_decider t' = Some user"
    and early: "\<not> earlier_open t ts" "\<not> decided_earlier user t ts"
  shows "chain_ok (insert t' (T - {t}))"
proof (rule chain_approve [OF ok t t'])
  fix u assume "u \<in> T - {t}" "tk_instance u = tk_instance t" "tk_seq u < tk_seq t"
  moreover from this have "u \<in> set ts" by (simp add: set)
  ultimately show "\<not> open_task u \<and> \<not> (tk_decider u = Some user \<and> tk_status u = T_APPROVED)"
    using early by (auto simp: earlier_open_def decided_earlier_def)
qed

lemma wf_ok_complete:
  assumes ok: "wf_ok db" and none: "\<forall>t\<in>set (wd_tasks db). tk_instance t = i \<longrightarrow> \<not> open_task t \<and> \<not> refused t"
    and r: "complete_workflow sv c now today i db = Inr db'"
  shows "wf_ok db'"
proof -
  have set: "wf_ok (set_instance i (\<lambda>y. y\<lparr>wi_status := s\<rparr>) db)" if s: "s = I_APPROVED \<or> s = I_EXECUTION_PENDING" for s
  proof (rule wf_ok_set_instance [OF ok])
    fix x assume x: "x \<in> set (wd_instances db)" "wi_id x = i"
    show "instance_ok (owners db) (set (wd_tasks db)) (x\<lparr>wi_status := s\<rparr>)"
    proof (rule instance_ok_finish)
      show "instance_ok (owners db) (set (wd_tasks db)) x" "chain_ok (set (wd_tasks db))" using ok x by (auto simp: wf_ok_def)
    qed (use s none x in \<open>auto intro: owners_same\<close>)
  qed simp
  obtain x where x: "find_instance i db = Some x" using r by (auto simp: complete_workflow_def split: option.splits)
  let ?approved = "set_instance i (\<lambda>y. y\<lparr>wi_status := I_APPROVED\<rparr>) db"
  let ?pending = "set_instance i (\<lambda>y. y\<lparr>wi_status := I_EXECUTION_PENDING\<rparr>) db"
  let ?r = "case entity_of (wi_entity x) of
      Some e \<Rightarrow> if needs_execution (wi_entity x) then Inr (set_status (en_table e) (wi_doc x) (en_approved e) ?pending)
          else if wi_entity x = ''security_printing.jobs'' then Inr ?approved
          else if wi_entity x = ''hr.payrolls'' then rbind (decide_payroll c now (wi_doc x) True None ?approved) (\<lambda>(_, db1). Inr db1)
          else approve_document sv c today e (wi_entity x) (wi_doc x) ?approved
    | None \<Rightarrow> Inr ?approved"
  obtain db1 where db1: "?r = Inr db1" and db': "same_core db1 db'"
    using r x by (auto simp: complete_workflow_def intro: same_core_event)
  have "keeps ?approved ?r \<or> keeps ?pending ?r"
  proof (cases "entity_of (wi_entity x)")
    case None
    then show ?thesis by (simp add: keeps_def)
  next
    case (Some e)
    show ?thesis
    proof (cases "needs_execution (wi_entity x)")
      case True
      then show ?thesis using Some by (simp add: keeps_ok same_core_set_status)
    next
      case False
      have "keeps ?approved (if wi_entity x = ''security_printing.jobs'' then Inr ?approved
          else if wi_entity x = ''hr.payrolls'' then rbind (decide_payroll c now (wi_doc x) True None ?approved) (\<lambda>(_, db1). Inr db1)
          else approve_document sv c today e (wi_entity x) (wi_doc x) ?approved)"
        by (intro keeps_intros keeps_payroll keeps_approve)
      then show ?thesis using Some False by simp
    qed
  qed
  then have "wf_ok db1" using db1 set keepsD wf_ok_core by blast
  then show ?thesis using db' wf_ok_core by blast
qed

lemma reject_workflowE:
  assumes r: "reject_workflow c now i comment db = Inr db'"
  obtains "wd_tasks db' = map (close_open i now comment) (wd_tasks db)"
    "wd_instances db' = update_where (\<lambda>x. wi_id x = i) (\<lambda>y. y\<lparr>wi_status := I_REJECTED\<rparr>) (wd_instances db)"
    "wd_next db' = wd_next db" "wd_owner db' = wd_owner db"
proof -
  obtain x where x: "find_instance i db = Some x" using r by (auto simp: reject_workflow_def split: option.splits)
  define db2 where "db2 = (set_instance i (\<lambda>y. y\<lparr>wi_status := I_REJECTED\<rparr>) db)
     \<lparr>wd_tasks := update_where (\<lambda>t. tk_instance t = i \<and> open_task t)
        (\<lambda>t. t\<lparr>tk_status := T_REJECTED, tk_comment := comment, tk_decided := Some now\<rparr>) (wd_tasks db)\<rparr>"
  have tasks: "wd_tasks db2 = map (close_open i now comment) (wd_tasks db)"
    by (simp add: db2_def update_where_def close_open_def)
  obtain db3 where "reject_document c now x comment db2 = Inr db3" "same_core db3 db'"
    using r x by (auto simp: reject_workflow_def Let_def db2_def set_instance_def intro: same_core_event)
  then have "same_core db2 db'" using keepsD [OF keeps_reject_document] same_core_trans by blast
  then show ?thesis using that tasks by (simp add: same_core_def) (simp add: db2_def set_instance_def)
qed

lemma wf_ok_reject_decision:
  assumes ok: "wf_ok db" and t: "t \<in> set (wd_tasks db)" "open_task t" and d: "d = D_REJECTED \<or> d = D_RETURNED"
    and rec: "record_decision sv c now user d comment deleg t x db = Inr db1"
    and r: "reject_workflow c now (tk_instance t) comment db1 = Inr db'"
  shows "wf_ok db'"
proof -
  obtain f where f: "wd_tasks db1 = update_where (\<lambda>y. tk_id y = tk_id t) f (wd_tasks db)"
    "\<And>y. tk_id (f y) = tk_id y" "tk_instance (f t) = tk_instance t" "tk_seq (f t) = tk_seq t"
    "tk_status (f t) = decided_status d" "tk_decider (f t) = Some user"
    "\<not> earlier_open t (wd_tasks db1)" "\<not> decided_earlier user t (wd_tasks db1)"
    "wd_instances db1 = wd_instances db" "wd_next db1 = wd_next db" "wd_owner db1 = wd_owner db" "wd_workflows db1 = wd_workflows db"
    by (rule record_decisionE [OF ok t(1) rec]) (rule that; assumption)
  let ?i = "tk_instance t"
  let ?g = "close_open ?i now comment" and ?T = "insert (f t) (set (wd_tasks db) - {t})"
  have db': "wd_tasks db' = map ?g (wd_tasks db1)"
    "wd_instances db' = update_where (\<lambda>x. wi_id x = ?i) (\<lambda>y. y\<lparr>wi_status := I_REJECTED\<rparr>) (wd_instances db1)"
    "wd_next db' = wd_next db1" "wd_owner db' = wd_owner db1" using reject_workflowE [OF r] by metis+
  have keys: "keys_ok db" using ok by (simp add: wf_ok_def)
  then have dist: "distinct (map tk_id (wd_tasks db))" by (simp add: keys_ok_def)
  have set1: "set (wd_tasks db1) = ?T" unfolding f(1) by (rule set_update_id [OF dist t(1)])
  have set': "set (wd_tasks db') = ?g ` ?T" using db'(1) set1 by simp
  have "map tk_id (wd_tasks db1) = map tk_id (wd_tasks db)" unfolding f(1) by (rule map_update_where_same) (rule f(2))
  then have ids: "map tk_id (wd_tasks db') = map tk_id (wd_tasks db)" unfolding db'(1) by (simp add: comp_def)
  have xids: "map wi_id (wd_instances db') = map wi_id (wd_instances db)"
    unfolding db'(2) f(9) by (rule map_update_where_same) simp
  have small: "tk_id u < wd_next db' \<and> tk_instance u < wd_next db'" if "u \<in> set (wd_tasks db')" for u
  proof -
    have "u \<in> ?g ` ?T" using that unfolding set' .
    then obtain v where v: "u = ?g v" "v \<in> ?T" by (rule imageE)
    have "tk_id v < wd_next db \<and> tk_instance v < wd_next db"
      using v(2) keys t(1) f(2,3) by (cases "v = f t") (auto simp: keys_ok_def)
    then show ?thesis using v(1) f(10) db'(3) by simp
  qed
  have "wi_id ` set (wd_instances db') = wi_id ` set (wd_instances db)" using xids by (metis list.set_map)
  then have smallx: "wi_id y < wd_next db'" if "y \<in> set (wd_instances db')" for y
  proof -
    have "wi_id y \<in> wi_id ` set (wd_instances db')" using that by simp
    then obtain w where "w \<in> set (wd_instances db)" "wi_id y = wi_id w"
      using \<open>wi_id ` set (wd_instances db') = wi_id ` set (wd_instances db)\<close> by auto
    then show ?thesis using keys f(10) db'(3) by (simp add: keys_ok_def)
  qed
  have "keys_ok db'" using keys ids xids small smallx by (simp add: keys_ok_def)
  moreover have "refused (f t)" using d f(5) by (auto simp: refused_def decided_status_def)
  moreover from this have "chain_ok (set (wd_tasks db'))"
    unfolding set' using ok t f by (intro chain_reject) (simp_all add: wf_ok_def)
  moreover have "instance_ok (owners db) (set (wd_tasks db')) y" if y: "y \<in> set (wd_instances db')" for y
  proof -
    from y have "y \<in> set (wd_instances db) \<and> wi_id y \<noteq> ?i
        \<or> (\<exists>z\<in>set (wd_instances db). wi_id z = ?i \<and> y = z\<lparr>wi_status := I_REJECTED\<rparr>)"
      unfolding db'(2) f(9) by (auto simp: set_update_where)
    then consider "y \<in> set (wd_instances db)" "wi_id y \<noteq> ?i"
      | z where "z \<in> set (wd_instances db)" "wi_id z = ?i" "y = z\<lparr>wi_status := I_REJECTED\<rparr>" by blast
    then show ?thesis
    proof cases
      case 1
      have "u \<in> set (wd_tasks db') \<longleftrightarrow> u \<in> set (wd_tasks db)" if "tk_instance u = wi_id y" for u
        using that 1(2) f(3) close_open_other [of u ?i now comment ?T] unfolding set' by auto
      then show ?thesis using 1 ok by (auto simp: wf_ok_def intro: instance_ok_other)
    next
      case 2
      have okz: "instance_ok (owners db) (set (wd_tasks db)) z" using ok 2 by (simp add: wf_ok_def)
      have "tk_status (f t) \<noteq> T_APPROVED" using d f(5) by (auto simp: decided_status_def)
      then have "instance_ok (owners db) ({} \<union> ?T) z"
        using instance_ok_replace [OF okz t 2(2) [symmetric] f(3), of "{}"] by simp
      then have "instance_ok (owners db) ?T z" by simp
      then show ?thesis
        unfolding set' using 2 by (intro instance_ok_reject [where x = z]) (auto intro: owners_same)
    qed
  qed
  ultimately show ?thesis using f(11) db'(4) by (simp add: wf_ok_def owners_cong [of db' db])
qed

lemma wf_ok_decide:
  assumes ok: "wf_ok db" and r: "decide_task sv c now today i d comment delegate db = Inr (z, db')"
  shows "wf_ok db'"
proof -
  obtain user t x deleg where user: "nonzero_id (cx_user c) = Some user" and tx: "find_task c i db = Some (t, x)"
    and op: "open_task t"
    and body: "(if d = D_DELEGATED then
        (case nonzero_id delegate of None \<Rightarrow> Inl (BadRequest ''delegateToUserId is required'')
         | Some other \<Rightarrow> Inr ((D_DELEGATED, False), delegate_task now user other comment t db))
      else if document_owner x db = Some user
      then Inl (Forbidden ''Segregation of duties: you cannot decide on your own submission'')
      else decide_open_task sv c now today user d comment deleg t x db) = Inr (z, db')"
    using r by (auto simp: decide_task_def split: option.splits if_splits)
  note db = in_db [OF tx]
  show ?thesis
  proof (cases "d = D_DELEGATED")
    case True
    then show ?thesis using body wf_ok_delegate [OF ok db(1) op] by (auto split: option.splits)
  next
    case False
    then have notown: "document_owner x db \<noteq> Some user" and dec: "decide_open_task sv c now today user d comment deleg t x db = Inr (z, db')"
      using body by (auto split: if_splits)
    obtain db1 where rec: "record_decision sv c now user d comment deleg t x db = Inr db1"
      using dec by (auto simp: decide_open_task_def)
    show ?thesis
    proof (cases "d = D_REJECTED \<or> d = D_RETURNED")
      case True
      then have "reject_workflow c now (tk_instance t) comment db1 = Inr db'"
        using dec rec by (auto simp: decide_open_task_def)
      then show ?thesis using wf_ok_reject_decision [OF ok db(1) op True rec] by simp
    next
      case not_reject: False
      then have d: "d = D_APPROVED" using False by (cases d) auto
      obtain f where f: "wd_tasks db1 = update_where (\<lambda>y. tk_id y = tk_id t) f (wd_tasks db)"
    "\<And>y. tk_id (f y) = tk_id y" "tk_instance (f t) = tk_instance t" "tk_seq (f t) = tk_seq t"
    "tk_status (f t) = decided_status d" "tk_decider (f t) = Some user"
    "\<not> earlier_open t (wd_tasks db1)" "\<not> decided_earlier user t (wd_tasks db1)"
    "wd_instances db1 = wd_instances db" "wd_next db1 = wd_next db" "wd_owner db1 = wd_owner db" "wd_workflows db1 = wd_workflows db"
        by (rule record_decisionE [OF ok db(1) rec]) (rule that; assumption)
      have dist: "distinct (map tk_id (wd_tasks db))" using ok by (simp add: wf_ok_def keys_ok_def)
      have set1: "set (wd_tasks db1) = insert (f t) (set (wd_tasks db) - {t})"
        unfolding f(1) by (rule set_update_id [OF dist db(1)])
      have approved: "tk_status (f t) = T_APPROVED" using f(5) d by (simp add: decided_status_def)
      have chain: "chain_ok (insert (f t) (set (wd_tasks db) - {t}))"
        using chain_after_approval [OF _ db(1) op set1 f(3,4) approved f(6,7,8)] ok by (simp add: wf_ok_def)
      have own: "tk_decider (f t) \<noteq> owners db y \<or> owners db y = None" if "y \<in> set (wd_instances db)" "wi_id y = tk_instance t" for y
        using instance_unique [OF ok that(1) db(2)] that(2) db(3) notown f(6) by (auto simp: owners_def)
      let ?db = "db\<lparr>wd_tasks := update_where (\<lambda>y. tk_id y = tk_id t) f (wd_tasks db) @ [], wd_next := wd_next db\<rparr>"
      have "wf_ok ?db"
        by (rule wf_ok_replace [OF ok db(1) op, where t' = "f t"]) (use f own chain in simp_all)
      moreover have "same_core ?db db1" using f by (simp add: same_core_def)
      ultimately have ok1: "wf_ok db1" using wf_ok_core by blast
      show ?thesis
      proof (cases "exists_where (\<lambda>y. tk_instance y = tk_instance t \<and> open_task y) (wd_tasks db1)")
        case True
        then have "db' = set_instance (tk_instance t) (\<lambda>y. y\<lparr>wi_step := Suc (wi_step y)\<rparr>) db1"
          using dec rec d by (simp add: decide_open_task_def del: exists_where_iff)
        then show ?thesis
          using wf_ok_set_step [OF ok1] by simp
      next
        case False
        then have comp: "complete_workflow sv c now today (tk_instance t) db1 = Inr db'"
          using dec rec d by (auto simp: decide_open_task_def)
        have "\<not> refused u" if u: "u \<in> set (wd_tasks db1)" "tk_instance u = tk_instance t" for u
        proof -
          have "pair_ok u t" if "u \<in> set (wd_tasks db)"
            using ok that u(2) db(1) by (simp add: wf_ok_def chain_ok_def)
          then show ?thesis using u op approved unfolding set1 by (auto simp: pair_ok_def refused_def)
        qed
        then show ?thesis using False by (intro wf_ok_complete [OF ok1 _ comp]) auto
      qed
    qed
  qed
qed

lemma wf_ok_execute:
  assumes ok: "wf_ok db" and r: "execute_workflow sv c today i db = Inr db'"
  shows "wf_ok db'"
proof -
  obtain user x db1 where u: "nonzero_id (cx_user c) = Some user" and x: "find_instance i db = Some x"
    and st: "wi_status x = I_EXECUTION_PENDING"
    and none: "\<not> exists_where (\<lambda>t. tk_instance t = i \<and> tk_decider t = Some user) (wd_tasks db)"
    and db1: "run_approval_side_effect sv c today (wi_entity x) (wi_doc x) db = Inr db1"
    and db': "db' = wf_event c (wi_entity x) ''.executed'' (wi_doc x) (wi_code x) [(''instanceId'', j_id i)] None
       (set_instance i (\<lambda>y. y\<lparr>wi_status := I_EXECUTED, wi_executor := Some user\<rparr>) db1)"
    using r by (auto simp: execute_workflow_def split: option.splits if_splits)
  have core: "same_core db db1" using keepsD [OF keeps_side_effect db1] .
  then have ok1: "wf_ok db1" using ok wf_ok_core by blast
  have xs: "x \<in> set (wd_instances db)" "wi_id x = i" using x by (auto simp: find_instance_def dest!: find_Some_iff_mem)
  have "wf_ok (set_instance i (\<lambda>y. y\<lparr>wi_status := I_EXECUTED, wi_executor := Some user\<rparr>) db1)"
  proof (rule wf_ok_set_instance [OF ok1])
    fix y assume y: "y \<in> set (wd_instances db1)" "wi_id y = i"
    then have "y = x" using instance_unique [OF ok _ xs(1)] xs(2) core by (simp add: same_core_def)
    moreover have "instance_ok (owners db1) (set (wd_tasks db1)) y" using ok1 y by (simp add: wf_ok_def)
    moreover have "owners db1 (y\<lparr>wi_status := I_EXECUTED, wi_executor := Some user\<rparr>) = owners db1 y" by (rule owners_same) simp_all
    moreover have "\<forall>t\<in>set (wd_tasks db1). tk_instance t = i \<longrightarrow> tk_decider t \<noteq> Some user"
      using none core by (simp add: same_core_def)
    ultimately show "instance_ok (owners db1) (set (wd_tasks db1)) (y\<lparr>wi_status := I_EXECUTED, wi_executor := Some user\<rparr>)"
      using st y(2) by (simp add: instance_ok_def finished_def)
  qed simp
  then show ?thesis unfolding db' using same_core_event wf_ok_core by blast
qed

lemma wf_ok_unfinished_status:
  assumes ok: "instance_ok own T x" and s: "s \<notin> {I_APPROVED, I_EXECUTION_PENDING, I_EXECUTED}"
    and own: "own (x\<lparr>wi_status := s\<rparr>) = own x"
  shows "instance_ok own T (x\<lparr>wi_status := s\<rparr>)"
  using assms by (simp add: instance_ok_def finished_def)

lemma wf_ok_invalidate:
  assumes ok: "wf_ok db" and r: "invalidate_stale_approval c kind i hash db = Inr (b, db')"
  shows "wf_ok db'"
proof -
  have cancel: "wf_ok (db\<lparr>wd_instances := update_where (stale kind i h) (\<lambda>x. x\<lparr>wi_status := I_CANCELLED\<rparr>) (wd_instances db)\<rparr>)" for h
    by (rule wf_ok_instances [OF ok], simp, rule wf_ok_unfinished_status)
      (use ok in \<open>auto simp: wf_ok_def intro: owners_same\<close>)
  have "db' = db \<or> (\<exists>h. same_core (db\<lparr>wd_instances := update_where (stale kind i h) (\<lambda>x. x\<lparr>wi_status := I_CANCELLED\<rparr>) (wd_instances db)\<rparr>) db')"
    using r by (auto simp: invalidate_stale_approval_def Let_def split: option.splits if_splits
        intro: same_core_trans [OF same_core_set_status same_core_event])
  then show ?thesis using ok cancel wf_ok_core by blast
qed

lemma wf_ok_escalation:
  assumes ok: "wf_ok db"
  shows "wf_ok (snd (approval_escalation c now job grace db))"
proof -
  define ids where "ids = map tk_id (overdue_tasks c now (grace_hours grace) db)"
  define insts where "insts = remdups (map tk_instance (overdue_tasks c now (grace_hours grace) db))"
  define f :: "approval_task \<Rightarrow> approval_task" where "f = (\<lambda>t. if tk_id t \<in> set ids \<and> tk_status t = T_PENDING
    then t\<lparr>tk_status := T_ESCALATED, tk_comment := Some (the_default [] (tk_comment t) @ '' [auto-escalated by '' @ job @ '']'')\<rparr> else t)"
  define p :: "wf_instance \<Rightarrow> bool" where "p = (\<lambda>x. wi_id x \<in> set insts \<and> wi_status x = I_RUNNING
                 \<and> \<not> exists_where (\<lambda>t. tk_instance t = wi_id x \<and> tk_status t = T_PENDING) (map f (wd_tasks db)))"
  let ?db1 = "db\<lparr>wd_tasks := map f (wd_tasks db)\<rparr>"
  have eq: "snd (approval_escalation c now job grace db) =
      ?db1\<lparr>wd_instances := update_where p (\<lambda>x. x\<lparr>wi_status := I_ESCALATED\<rparr>) (wd_instances ?db1)\<rparr>"
    by (simp add: approval_escalation_def Let_def f_def p_def ids_def insts_def update_where_def)
  have "same_part t (f t)" for t by (simp add: f_def same_part_def open_task_def)
  then have ok1: "wf_ok ?db1" using wf_ok_relabel [OF ok] by blast
  show ?thesis
    unfolding eq
    by (rule wf_ok_instances [OF ok1], simp, rule wf_ok_unfinished_status) (use ok1 in \<open>auto simp: wf_ok_def intro: owners_same\<close>)
qed

subsection \<open>Sequences of operations\<close>

text \<open>
  \<open>elsewhere\<close> stands for everything that is not the approval engine: other services, edits of
  documents, changes of roles and delegations. It may do anything except write the engine's tables
  or change the owner of a document under approval.
\<close>

inductive wf_step :: "'x wf_db \<Rightarrow> 'x wf_db \<Rightarrow> bool" where
  start: "start_workflow sv c now today x db = Inr (i, db') \<Longrightarrow> wf_step db db'"
| decide: "decide_task sv c now today i d comment delegate db = Inr (z, db') \<Longrightarrow> wf_step db db'"
| execute: "execute_workflow sv c today i db = Inr db' \<Longrightarrow> wf_step db db'"
| invalidate: "invalidate_stale_approval c kind i hash db = Inr (b, db') \<Longrightarrow> wf_step db db'"
| escalate: "wf_step db (snd (approval_escalation c now job grace db))"
| elsewhere: "wd_instances db' = wd_instances db \<Longrightarrow> wd_tasks db' = wd_tasks db \<Longrightarrow> wd_next db' = wd_next db
    \<Longrightarrow> (\<forall>x\<in>set (wd_instances db). document_owner x db' = document_owner x db) \<Longrightarrow> wf_step db db'"

lemma wf_step_ok: "wf_step db db' \<Longrightarrow> wf_ok db \<Longrightarrow> wf_ok db'"
proof (induction rule: wf_step.induct)
  case (elsewhere db' db)
  then show ?case by (simp add: wf_ok_def keys_ok_def instance_ok_def owners_def)
qed (auto intro: wf_ok_start wf_ok_decide wf_ok_execute wf_ok_invalidate wf_ok_escalation)

lemma wf_steps_ok: "wf_step\<^sup>*\<^sup>* db db' \<Longrightarrow> wf_ok db \<Longrightarrow> wf_ok db'"
  by (induction rule: rtranclp_induct) (auto intro: wf_step_ok)

subsection \<open>A sample company\<close>

definition sample_services :: "unit services" where
  "sample_services = \<lparr>sv_assets = (\<lambda>_ _ _ x. Inr x), sv_self_authorize_job = (\<lambda>_ _ x. Inr x),
     sv_job_task_approved = (\<lambda>_ _ _ x. Inr x), sv_digest = (\<lambda>row. case row of [] \<Rightarrow> [] | (k, _) # _ \<Rightarrow> k)\<rparr>"

definition sample_step :: "int \<Rightarrow> string \<Rightarrow> approval_step" where
  "sample_step n role = \<lparr>aps_seq = n, aps_name = role, aps_role = Some role, aps_roles = [], aps_user = None,
     aps_min = None, aps_max = None, aps_sla = None\<rparr>"

text \<open>Stock adjustments take two signatures; user 3 holds the first role, user 4 the second, user 5 neither.\<close>

definition sample_wf :: "unit wf_db" where
  "sample_wf = \<lparr>wd_workflows =
       [\<lparr>wk_id = 1, wk_company = 1, wk_tenant = 1, wk_code = ''PAY'', wk_entity = ''inventory.adjustments'', wk_active = True,
         wk_status = ''PUBLISHED'', wk_from = None, wk_steps = [sample_step 1 ''keeper'', sample_step 2 ''manager'']\<rparr>],
     wd_instances = [], wd_tasks = [],
     wd_roles = [\<lparr>ro_id = 1, ro_company = Some 1, ro_code = ''keeper''\<rparr>, \<lparr>ro_id = 2, ro_company = Some 1, ro_code = ''manager''\<rparr>],
     wd_user_roles = [\<lparr>ur_user = 3, ur_role = 1, ur_status = ''ACTIVE'', ur_expires = None\<rparr>,
                      \<lparr>ur_user = 4, ur_role = 2, ur_status = ''ACTIVE'', ur_expires = None\<rparr>],
     wd_delegations = [], wd_authorities = [], wd_next = 10,
     wd_rows = (\<lambda>_ _. Some [(''reason'', JStr ''count'')]), wd_owner = (\<lambda>_ _. Some 2), wd_status = (\<lambda>_ _. ''DRAFT''),
     wd_life = sample_life,
     wd_stock = empty_stock\<lparr>iv_adjustments := [\<lparr>aj_id = 7, aj_tenant = 1, aj_no = ''ADJ-7'', aj_type = ''STOCKTAKE'',
        aj_reason = ''count'', aj_status = ''SUBMITTED'', aj_created_by = Some 2, aj_posted_by = None,
        aj_items = [\<lparr>at_product = 9, at_batch = None, at_warehouse = 2, at_bin = None, at_counted = Some 5,
                     at_expected = 0, at_variance = 5, at_cost = 3, at_reason = None\<rparr>]\<rparr>]\<rparr>,
     wd_rest = ()\<rparr>"

definition wf_user :: "row_id \<Rightarrow> ctx" where
  "wf_user u = \<lparr>cx_tenant = Some 1, cx_company = Some 1, cx_branch = None, cx_user = Some u\<rparr>"

definition wf_state :: "('a \<times> 'x wf_db) result \<Rightarrow> 'x wf_db \<Rightarrow> 'x wf_db" where
  "wf_state r db = (case r of Inl _ \<Rightarrow> db | Inr (_, db') \<Rightarrow> db')"

definition wf_submitted :: "unit wf_db" where
  "wf_submitted = wf_state (start_workflow sample_services (wf_user 2) 1000 50
     \<lparr>sw_entity = ''inventory.adjustments'', sw_doc = 7, sw_code = Some ''ADJ-7'', sw_amount = None, sw_company = None\<rparr> sample_wf) sample_wf"

definition wf_first :: "unit wf_db" where
  "wf_first = wf_state (decide_task sample_services (wf_user 3) 2000 50 11 D_APPROVED None None wf_submitted) wf_submitted"

definition wf_second :: "unit wf_db" where
  "wf_second = wf_state (decide_task sample_services (wf_user 4) 3000 50 12 D_APPROVED None None wf_first) wf_first"

definition wf_executed :: "unit wf_db" where
  "wf_executed = (case execute_workflow sample_services (wf_user 5) 50 10 wf_second of Inl _ \<Rightarrow> wf_second | Inr db \<Rightarrow> db)"

lemma wf_state_step:
  "(\<And>z db'. r = Inr (z, db') \<Longrightarrow> wf_step db db') \<Longrightarrow> wf_step\<^sup>*\<^sup>* db (wf_state r db)"
  by (auto simp: wf_state_def split: sum.splits)

lemma sample_steps: "wf_step\<^sup>*\<^sup>* sample_wf wf_executed"
proof -
  have "wf_step\<^sup>*\<^sup>* sample_wf wf_submitted" unfolding wf_submitted_def by (rule wf_state_step) (rule wf_step.start)
  also have "wf_step\<^sup>*\<^sup>* wf_submitted wf_first" unfolding wf_first_def by (rule wf_state_step) (rule wf_step.decide)
  also have "wf_step\<^sup>*\<^sup>* wf_first wf_second" unfolding wf_second_def by (rule wf_state_step) (rule wf_step.decide)
  also have "wf_step\<^sup>*\<^sup>* wf_second wf_executed"
    unfolding wf_executed_def by (auto split: sum.splits intro: wf_step.execute)
  finally show ?thesis .
qed

lemma sample_wf_ok: "wf_ok sample_wf"
  by (simp add: wf_ok_def keys_ok_def chain_ok_def sample_wf_def)

lemma sample_trace:
  "map (\<lambda>x. (wi_id x, wi_status x, wi_executor x)) (wd_instances wf_executed) = [(10, I_EXECUTED, Some 5)]"
  "map (\<lambda>t. (tk_id t, tk_seq t, tk_status t, tk_decider t)) (wd_tasks wf_executed)
     = [(11, 1, T_APPROVED, Some 3), (12, 2, T_APPROVED, Some 4)]"
  by code_simp+

subsection \<open>Properties\<close>

text \<open>
  C2. Whenever an instance has been approved, is waiting for execution or has been executed, after
  any sequence of operations: it has a task; every one of its stages was approved by somebody;
  two different stages were approved by two different people; and nobody approved a document
  of their own.
\<close>

theorem finished_chain_is_signed:
  assumes run: "wf_step\<^sup>*\<^sup>* db db'" and start: "wf_ok db" and x: "x \<in> set (wd_instances db')" "finished x"
  shows "(\<exists>t\<in>set (wd_tasks db'). tk_instance t = wi_id x)
    \<and> (\<forall>t\<in>set (wd_tasks db'). tk_instance t = wi_id x \<longrightarrow>
         (\<exists>u\<in>set (wd_tasks db'). tk_instance u = wi_id x \<and> tk_seq u = tk_seq t \<and> tk_status u = T_APPROVED \<and> tk_decider u \<noteq> None))
    \<and> (\<forall>t\<in>set (wd_tasks db'). \<forall>u\<in>set (wd_tasks db'). tk_instance t = wi_id x \<and> tk_instance u = wi_id x
         \<and> tk_status t = T_APPROVED \<and> tk_status u = T_APPROVED \<and> tk_seq t \<noteq> tk_seq u \<longrightarrow> tk_decider t \<noteq> tk_decider u)
    \<and> (\<forall>t\<in>set (wd_tasks db'). tk_instance t = wi_id x \<and> tk_status t = T_APPROVED \<longrightarrow>
         document_owner x db' = None \<or> tk_decider t \<noteq> document_owner x db')"
proof -
  have ok: "wf_ok db'" using wf_steps_ok [OF run start] .
  then have chain: "chain_ok (set (wd_tasks db'))" and inst: "instance_ok (owners db') (set (wd_tasks db')) x"
    using x(1) by (auto simp: wf_ok_def)
  have signed: "\<exists>u\<in>set (wd_tasks db'). tk_instance u = wi_id x \<and> tk_seq u = tk_seq t \<and> tk_status u = T_APPROVED \<and> tk_decider u \<noteq> None"
    if t: "t \<in> set (wd_tasks db')" "tk_instance t = wi_id x" for t
  proof -
    have settled: "settled_task u" if "u \<in> set (wd_tasks db')" "tk_instance u = wi_id x" for u
      using inst x(2) that by (simp add: instance_ok_def)
    have decided: "tk_decider u \<noteq> None" if "u \<in> set (wd_tasks db')" "tk_status u = T_APPROVED" for u
      using chain that by (auto simp: chain_ok_def task_covered_def)
    show ?thesis
    proof (cases "tk_status t = T_DELEGATED")
      case True
      then obtain u where u: "u \<in> set (wd_tasks db')" "tk_instance u = tk_instance t" "tk_seq u = tk_seq t" "tk_status u \<noteq> T_DELEGATED"
        using chain t(1) unfolding chain_ok_def task_covered_def by blast
      then have "tk_status u = T_APPROVED" using settled [of u] t(2) by (simp add: settled_task_def)
      then show ?thesis using u t(2) decided by metis
    next
      case False
      then have "tk_status t = T_APPROVED" using settled [OF t] by (simp add: settled_task_def)
      then show ?thesis using t decided by blast
    qed
  qed
  have "tk_decider t \<noteq> tk_decider u" if "t \<in> set (wd_tasks db')" "u \<in> set (wd_tasks db')" "tk_instance t = tk_instance u"
    "tk_status t = T_APPROVED" "tk_status u = T_APPROVED" "tk_seq t \<noteq> tk_seq u" for t u
  proof -
    have "pair_ok t u" "pair_ok u t" using chain that(1-3) by (auto simp: chain_ok_def)
    then show ?thesis using that(4-6) unfolding pair_ok_def by (metis linorder_neqE)
  qed
  moreover have "\<exists>t\<in>set (wd_tasks db'). tk_instance t = wi_id x"
    "\<forall>t\<in>set (wd_tasks db'). tk_instance t = wi_id x \<and> tk_status t = T_APPROVED \<longrightarrow>
       document_owner x db' = None \<or> tk_decider t \<noteq> document_owner x db'"
    using inst by (auto simp: instance_ok_def owners_def)
  ultimately show ?thesis using signed by (intro conjI) simp_all
qed

lemma finished_chain_is_signed_witness:
  "\<exists>x\<in>set (wd_instances wf_executed). wi_status x = I_EXECUTED \<and> (\<exists>t\<in>set (wd_tasks wf_executed). tk_instance t = wi_id x)"
proof -
  obtain x where x: "x \<in> set (wd_instances wf_executed)" "wi_status x = I_EXECUTED"
    using sample_trace(1) by (cases "wd_instances wf_executed") auto
  then have "finished x" by (simp add: finished_def)
  then show ?thesis using finished_chain_is_signed [OF sample_steps sample_wf_ok x(1)] x by blast
qed

text \<open>
  Whoever executed an approved document decided none of its approval tasks, in any state that a
  sequence of operations can reach.
\<close>

theorem executor_decided_nothing:
  assumes "wf_step\<^sup>*\<^sup>* db db'" and "wf_ok db" and "x \<in> set (wd_instances db')" "wi_status x = I_EXECUTED"
  shows "\<exists>user. wi_executor x = Some user
    \<and> (\<forall>t\<in>set (wd_tasks db'). tk_instance t = wi_id x \<longrightarrow> tk_decider t \<noteq> Some user \<and> \<not> open_task t)"
proof -
  have ok: "instance_ok (owners db') (set (wd_tasks db')) x" using wf_steps_ok [OF assms(1,2)] assms(3) by (simp add: wf_ok_def)
  moreover have "finished x" using assms(4) by (simp add: finished_def)
  ultimately show ?thesis using assms(4) open_not unfolding instance_ok_def by (metis option.exhaust)
qed

lemma executor_decided_nothing_witness:
  "\<exists>x\<in>set (wd_instances wf_executed). wi_executor x = Some 5
     \<and> filter (\<lambda>t. tk_instance t = wi_id x \<and> tk_decider t = Some 5) (wd_tasks wf_executed) = []"
proof -
  obtain x where x: "x \<in> set (wd_instances wf_executed)" "wi_status x = I_EXECUTED" "wi_executor x = Some 5"
    using sample_trace(1) by (cases "wd_instances wf_executed") auto
  then show ?thesis using executor_decided_nothing [OF sample_steps sample_wf_ok x(1,2)] by (auto simp: filter_empty_conv)
qed

text \<open>Two databases whose documents agree: only the engine's tables and the journals may differ.\<close>

definition same_documents_as :: "'x wf_db \<Rightarrow> 'x wf_db \<Rightarrow> bool" where
  "same_documents_as db db' \<longleftrightarrow> wd_stock db' = wd_stock db \<and> wd_status db' = wd_status db \<and> wd_rest db' = wd_rest db
     \<and> bk_gl (lf_books (wd_life db')) = bk_gl (lf_books (wd_life db))
     \<and> db_runs (lf_payroll (wd_life db')) = db_runs (lf_payroll (wd_life db))"

lemma event_documents: "same_documents_as (db\<lparr>wd_instances := xs, wd_tasks := ts, wd_next := n\<rparr>)
    (wf_event c kind suffix i code payload sev (db\<lparr>wd_instances := xs, wd_tasks := ts, wd_next := n\<rparr>))"
  by (simp add: same_documents_as_def wf_event_def with_payroll_def)

lemma number_tasks_seqs: "map tk_seq (number_tasks n ts) = map tk_seq ts"
  "map tk_role (number_tasks n ts) = map tk_role ts" "map tk_alternative (number_tasks n ts) = map tk_alternative ts"
  by (induction n ts rule: number_tasks.induct) simp_all

lemma step_tasks_seqs:
  "traverse (step_task now company roles sla inst) steps = Inr ts \<Longrightarrow> map tk_seq ts = map aps_seq steps"
  by (induction steps arbitrary: ts) (auto dest: step_task_fields)

text \<open>
  C25. Submission fails closed. When the entity is not approval-free and the submitter holds no
  self-authorizing role, a submission that succeeds found a published workflow with at least
  one step for the amount; it opened an instance with exactly one pending task per such step,
  in order; and it changed no document, ledger entry, stock row or payroll run.
\<close>

theorem submission_opens_a_chain:
  assumes start: "start_workflow sv c now today x db = Inr (r, db')" and ok: "wf_ok db"
    and company: "nonzero_id (or_else (sw_company x) (cx_company c)) = Some company"
    and bound: "approval_free (sw_entity x) = None" "self_authorize_role c now company db = None"
  shows "\<exists>w steps. configured_workflow c today company (sw_entity x) db = Some w
    \<and> steps = filter (applicable_step (the_default 0 (sw_amount x))) (wk_steps w) \<and> steps \<noteq> []
    \<and> r = Some (wd_next db)
    \<and> map tk_seq (filter (\<lambda>t. tk_instance t = wd_next db) (wd_tasks db')) = map aps_seq steps
    \<and> (\<forall>t\<in>set (wd_tasks db'). tk_instance t = wd_next db \<longrightarrow> tk_status t = T_PENDING)
    \<and> same_documents_as db db'"
proof -
  obtain w where w: "configured_workflow c today company (sw_entity x) db = Some w"
    and r: "open_instance sv c now (wk_tenant w) company x w (filter (applicable_step (the_default 0 (sw_amount x))) (wk_steps w)) db = Inr (r, db')"
    and ne: "filter (applicable_step (the_default 0 (sw_amount x))) (wk_steps w) \<noteq> []"
    using start company bound by (auto simp: start_workflow_def submit_for_approval_def Let_def split: option.splits if_splits)
  define steps where "steps = filter (applicable_step (the_default 0 (sw_amount x))) (wk_steps w)"
  obtain ts where ts: "traverse (step_task now company (wd_roles db) (the_default 48 (aps_sla (hd steps))) (wd_next db)) steps = Inr ts"
    and rr: "r = Some (wd_next db)"
    and db': "db' = wf_event c (sw_entity x) ''.submitted'' (sw_doc x) (sw_code x)
          [(''instanceId'', j_id (wd_next db)), (''workflow'', JStr (wk_code w)), (''steps'', JArr (map (JStr \<circ> aps_name) steps))] None
          (db\<lparr>wd_instances := wd_instances db @ [new_instance sv c now (wk_tenant w) company x w db],
              wd_tasks := wd_tasks db @ number_tasks (Suc (wd_next db)) ts, wd_next := Suc (wd_next db) + length ts\<rparr>)"
    using r unfolding open_instance_def Let_def steps_def by auto
  have tasks: "wd_tasks db' = wd_tasks db @ number_tasks (Suc (wd_next db)) ts"
    using same_core_event unfolding db' by (simp add: wf_event_def)
  have fresh: "tk_instance t = wd_next db \<and> tk_status t = T_PENDING" if "t \<in> set ts" for t
    using traverse_all [OF ts, of "\<lambda>t. tk_instance t = wd_next db \<and> tk_status t = T_PENDING"] that step_task_fields by blast
  have new: "tk_instance u = wd_next db \<and> tk_status u = T_PENDING" if u: "u \<in> set (number_tasks (Suc (wd_next db)) ts)" for u
  proof -
    obtain t where t: "t \<in> set ts" "u = t\<lparr>tk_id := tk_id u\<rparr>" using number_tasks_set [OF u] by blast
    have "tk_instance u = tk_instance t" "tk_status u = tk_status t" by (subst t(2), simp)+
    then show ?thesis using fresh [OF t(1)] by simp
  qed
  have old: "tk_instance t \<noteq> wd_next db" if "t \<in> set (wd_tasks db)" for t
    using ok that by (auto simp: wf_ok_def keys_ok_def)
  have "filter (\<lambda>t. tk_instance t = wd_next db) (wd_tasks db') = number_tasks (Suc (wd_next db)) ts"
    using new old unfolding tasks by (simp add: filter_empty_conv)
  then have "map tk_seq (filter (\<lambda>t. tk_instance t = wd_next db) (wd_tasks db')) = map aps_seq steps"
    using step_tasks_seqs [OF ts] by (simp add: number_tasks_seqs)
  moreover have "\<forall>t\<in>set (wd_tasks db'). tk_instance t = wd_next db \<longrightarrow> tk_status t = T_PENDING"
    using new old unfolding tasks by auto
  moreover have "same_documents_as db db'"
    using event_documents [where db = db] unfolding db' by (simp add: same_documents_as_def)
  ultimately show ?thesis using w ne rr unfolding steps_def by blast
qed

definition sample_start :: start_input where
  "sample_start = \<lparr>sw_entity = ''inventory.adjustments'', sw_doc = 7, sw_code = Some ''ADJ-7'', sw_amount = None, sw_company = None\<rparr>"

lemma submission_opens_a_chain_witness:
  "\<exists>r db'. start_workflow sample_services (wf_user 2) 1000 50 sample_start sample_wf = Inr (r, db')
     \<and> r = Some 10 \<and> same_documents_as sample_wf db'"
proof -
  have "case start_workflow sample_services (wf_user 2) 1000 50 sample_start sample_wf of Inl _ \<Rightarrow> False | Inr _ \<Rightarrow> True" by code_simp
  then obtain r db' where s: "start_workflow sample_services (wf_user 2) 1000 50 sample_start sample_wf = Inr (r, db')"
    by (auto split: sum.splits)
  have "nonzero_id (or_else (sw_company sample_start) (cx_company (wf_user 2))) = Some 1"
    "approval_free (sw_entity sample_start) = None" "self_authorize_role (wf_user 2) 1000 1 sample_wf = None" "wd_next sample_wf = 10"
    by code_simp+
  then show ?thesis using submission_opens_a_chain [OF s sample_wf_ok] s by auto
qed

text \<open>Recording a decision on a task changes none of the rows that the order and the duty checks look at.\<close>

lemma checks_before_own:
  assumes "\<And>y. tk_id (f y) = tk_id y" "\<And>y. tk_seq (f y) = tk_seq y" "distinct (map tk_id ts)" "t \<in> set ts"
  shows "earlier_open t (update_where (\<lambda>y. tk_id y = tk_id t) f ts) = earlier_open t ts"
    and "decided_earlier user t (update_where (\<lambda>y. tk_id y = tk_id t) f ts) = decided_earlier user t ts"
proof -
  have set: "set (update_where (\<lambda>y. tk_id y = tk_id t) f ts) = insert (f t) (set ts - {t})"
    by (rule set_update_id [OF assms(3,4)])
  show "earlier_open t (update_where (\<lambda>y. tk_id y = tk_id t) f ts) = earlier_open t ts"
    using assms(2) [of t] by (auto simp: earlier_open_def set)
  show "decided_earlier user t (update_where (\<lambda>y. tk_id y = tk_id t) f ts) = decided_earlier user t ts"
    using assms(2) [of t] by (auto simp: decided_earlier_def set)
qed




end
