(* ===== verification/Staff_Loans.thy ===== *)
theory Staff_Loans
  imports Payroll_Data Finance
begin

text \<open>
  Staff loans, salary advances and fines, \<^verbatim>\<open>apps/api/src/services/loans.ts\<close>: the repayment schedule,
  the requests with their approval, payout, pausing, waiving and writing off, and the pairs of
  journal lines they post through the ledger of \<^verbatim>\<open>Finance\<close>. The three tables share most columns,
  which are the record \<open>debt\<close>. Recovery by payroll is in \<^verbatim>\<open>Payroll_Posting\<close>. The day in Kampala and
  the numbers drawn from the document series are arguments; the lists and look-ups that only
  read are not modelled.
\<close>

subsection \<open>Rows\<close>

record installment =
  im_no :: nat
  im_due :: date
  im_amount :: rat

record debt =
  sd_id :: row_id
  sd_tenant :: row_id
  sd_company :: row_id
  sd_employee :: row_id
  sd_no :: string
  sd_amount :: rat
  sd_outstanding :: rat
  sd_monthly :: rat
  sd_status :: string
  sd_raised :: "row_id option"
  sd_approved :: "row_id option"
  sd_paid_out :: "row_id option"
  sd_method :: "string option"
  sd_journal :: "row_id option"
  sd_reason :: "string option"

record loan = debt +
  ln_balance :: rat
  ln_rate :: rat
  ln_interest :: rat
  ln_tenure :: int
  ln_start :: date
  ln_end :: date
  ln_schedule :: "installment list"

record advance = debt +
  ad_start :: date
  ad_schedule :: "installment list"

record fine = debt +
  fi_case :: "row_id option"
  fi_incident :: "date option"

record app_setting =
  as_tenant :: row_id
  as_company :: "row_id option"
  as_category :: string
  as_key :: string
  as_value :: string

record staff_db =
  sf_employees :: "employee list"
  sf_settings :: "app_setting list"
  sf_loans :: "loan list"
  sf_advances :: "advance list"
  sf_fines :: "fine list"
  sf_gl :: finance_db
  sf_next :: row_id
  sf_audit :: "audit_row list"
  sf_events :: "event_row list"

subsection \<open>Amounts, dates and schedules\<close>

text \<open>The books are kept in whole shillings.\<close>

definition shilling :: "rat \<Rightarrow> rat" where
  "shilling q = of_int (js_round q)"

definition RECEIVABLE :: string where "RECEIVABLE = ''10111700''"
definition BANK :: string where "BANK = ''10111300''"
definition PETTY :: string where "PETTY = ''10111200''"
definition IMPAIRMENT :: string where "IMPAIRMENT = ''10251700''"
definition OTHER_INCOME :: string where "OTHER_INCOME = ''10242200''"

definition last_day :: "int \<Rightarrow> int \<Rightarrow> int" where
  "last_day y m = (if m = 12 then date_of_civil (y + 1) 1 1 else date_of_civil y (m + 1) 1) - date_of_civil y m 1"

definition add_months :: "date \<Rightarrow> int \<Rightarrow> date" where
  "add_months d months =
     (let v = civil_of_date d;
          whole = cv_year v * 12 + (cv_month v - 1) + months;
          ny = whole div 12;
          nm = whole mod 12 + 1
      in date_of_civil ny nm (min (cv_day v) (last_day ny nm)))"

text \<open>The loop of \<open>installments\<close>; the first argument counts the passes that are left of sixty.\<close>

fun installment_loop :: "nat \<Rightarrow> nat \<Rightarrow> rat \<Rightarrow> rat \<Rightarrow> date \<Rightarrow> installment list" where
  "installment_loop 0 i left step start = []"
| "installment_loop (Suc k) i left step start =
     (if left \<le> 0 then []
      else \<lparr>im_no = i + 1, im_due = add_months start (int i), im_amount = min step left\<rparr>
             # installment_loop k (Suc i) (left - min step left) step start)"

definition installments :: "rat \<Rightarrow> rat \<Rightarrow> date \<Rightarrow> installment list" where
  "installments owed monthly start = installment_loop 60 0 (shilling owed) (max 1 (shilling monthly)) start"

definition payout_account :: "string \<Rightarrow> string" where
  "payout_account pay_by = (if pay_by = ''BANK'' then BANK else PETTY)"

subsection \<open>Shared steps\<close>

definition get_setting :: "ctx \<Rightarrow> string \<Rightarrow> string \<Rightarrow> string \<Rightarrow> app_setting list \<Rightarrow> string" where
  "get_setting c category key fallback rows =
     (case limit1 (\<lambda>r. if as_company r \<noteq> None then 0 else 1 :: nat)
             (filter (\<lambda>r. cx_tenant c = Some (as_tenant r) \<and> as_category r = category \<and> as_key r = key
                        \<and> as_company r = cx_company c) rows) of
        None \<Rightarrow> fallback
      | Some r \<Rightarrow> as_value r)"

definition load_employee :: "ctx \<Rightarrow> row_id \<Rightarrow> staff_db \<Rightarrow> employee result" where
  "load_employee c i db =
     (case find (\<lambda>e. em_id e = i \<and> own_company c (em_tenant e) (em_company e)) (sf_employees db) of
        None \<Rightarrow> Inl (NotFound ''Employee not found'')
      | Some e \<Rightarrow> Inr e)"

definition has_company :: "ctx \<Rightarrow> bool" where
  "has_company c \<longleftrightarrow> cx_company c \<noteq> None \<and> cx_company c \<noteq> Some 0"

definition assert_other_person :: "row_id option \<Rightarrow> row_id option \<Rightarrow> string \<Rightarrow> unit result" where
  "assert_other_person actor owner_id message =
     (if actor \<noteq> None \<and> owner_id \<noteq> None \<and> owner_id = actor then Inl (BadRequest message) else Inr ())"

definition post_pair ::
  "ctx \<Rightarrow> date \<Rightarrow> string \<Rightarrow> string \<Rightarrow> rat \<Rightarrow> string \<Rightarrow> string \<times> row_id \<times> string \<Rightarrow> finance_db
     \<Rightarrow> (row_id option \<times> finance_db) result" where
  "post_pair c today debit credit q desc ref gl =
     (if shilling q \<le> 0 then Inr (None, gl)
      else rbind (get_account_id c debit gl) (\<lambda>d.
           rbind (get_account_id c credit gl) (\<lambda>k.
           rbind (post_journal_lines c
               \<lparr>ji_date = today, ji_type = ''MANUAL'', ji_description = desc,
                ji_lines = [dr d (shilling q) desc, cr k (shilling q) desc], ji_ref = Some ref\<rparr> gl) (\<lambda>(j, gl').
             Inr (Some j, gl')))))"

text \<open>A row by id and tenant in one of some statuses, as the guards of the updates have it.\<close>

definition picked :: "ctx \<Rightarrow> row_id \<Rightarrow> string list \<Rightarrow> 'd debt_scheme \<Rightarrow> bool" where
  "picked c i statuses d \<longleftrightarrow> sd_id d = i \<and> cx_tenant c = Some (sd_tenant d) \<and> sd_status d \<in> set statuses"

definition pick :: "ctx \<Rightarrow> row_id \<Rightarrow> string list \<Rightarrow> string \<Rightarrow> 'd debt_scheme list \<Rightarrow> 'd debt_scheme result" where
  "pick c i statuses message rows =
     (case find (picked c i statuses) rows of None \<Rightarrow> Inl (BadRequest message) | Some d \<Rightarrow> Inr d)"

definition staff_audit :: "ctx \<Rightarrow> string \<Rightarrow> string \<Rightarrow> row_id \<Rightarrow> string \<Rightarrow> (string \<times> jval) list \<Rightarrow> staff_db \<Rightarrow> staff_db" where
  "staff_audit c action resource i no values db =
     db\<lparr>sf_audit := log_audit c \<lparr>ae_action = action, ae_resource = resource, ae_record = Some i, ae_code = Some no,
          ae_old = [], ae_new = values\<rparr> (sf_audit db)\<rparr>"

definition staff_event :: "ctx \<Rightarrow> string \<Rightarrow> string \<Rightarrow> row_id \<Rightarrow> string \<Rightarrow> (string \<times> jval) list \<Rightarrow> staff_db \<Rightarrow> staff_db" where
  "staff_event c kind entity i no payload db =
     db\<lparr>sf_events := emit_event c \<lparr>ep_type = kind, ep_entity_type = Some entity, ep_entity = Some i, ep_code = Some no,
          ep_payload = payload, ep_severity = None\<rparr> (sf_events db)\<rparr>"

definition j_row :: "row_id \<Rightarrow> jval" where
  "j_row i = JNum (of_nat i)"

definition j_opt :: "('a \<Rightarrow> jval) \<Rightarrow> 'a option \<Rightarrow> jval" where
  "j_opt f x = (case x of None \<Rightarrow> JNull | Some y \<Rightarrow> f y)"

definition status_value :: "string \<Rightarrow> (string \<times> jval) list" where
  "status_value s = [(''status'', JStr s)]"

definition pay_methods :: "string list" where
  "pay_methods = [''BANK'', ''CASH'', ''MOBILE_MONEY'']"

definition payment_method :: "string option \<Rightarrow> string result" where
  "payment_method m =
     (let pay_by = js_upper (the_default ''BANK'' m) in
      if pay_by \<notin> set pay_methods then Inl (BadRequest ''Payment method must be bank, cash or mobile money'')
      else Inr pay_by)"

definition written_reason :: "string option \<Rightarrow> string \<Rightarrow> string result" where
  "written_reason reason message =
     (let text' = js_trim (the_default [] reason) in if text' = [] then Inl (BadRequest message) else Inr text')"

subsection \<open>Loans\<close>

record loan_input =
  li_employee :: row_id
  li_amount :: rat
  li_rate :: "rat option"
  li_tenure :: "rat option"
  li_monthly :: "rat option"
  li_start :: "date option"
  li_reason :: "string option"

definition loan_tenure :: "rat option \<Rightarrow> int" where
  "loan_tenure t = max 1 \<lfloor>if the_default 0 t = 0 then 1 else the_default 0 t\<rfloor>"

definition loan_interest :: "rat \<Rightarrow> rat \<Rightarrow> int \<Rightarrow> rat" where
  "loan_interest q rate tenure = shilling (q * (rate / 100) * (of_int tenure / 12))"

definition loan_monthly :: "rat option \<Rightarrow> rat \<Rightarrow> int \<Rightarrow> rat" where
  "loan_monthly m owed tenure =
     shilling (if 0 < the_default 0 m then the_default 0 m else max 1 (shilling (owed / of_int tenure)))"

definition create_loan :: "ctx \<Rightarrow> date \<Rightarrow> string \<Rightarrow> loan_input \<Rightarrow> staff_db \<Rightarrow> (row_id \<times> staff_db) result" where
  "create_loan c today no x db =
     (case (cx_company c, cx_tenant c) of
        (Some company, Some tenant) \<Rightarrow>
          if \<not> has_company c then Inl (BadRequest ''Company context required'')
          else rbind (load_employee c (li_employee x) db) (\<lambda>emp.
            (let q = shilling (max 0 (li_amount x)) in
             if q \<le> 0 then Inl (BadRequest ''Loan amount must be positive'')
             else
               (let tenure = loan_tenure (li_tenure x);
                    rate = max 0 (the_default 0 (li_rate x));
                    start = the_default today (li_start x);
                    interest = loan_interest q rate tenure;
                    monthly = loan_monthly (li_monthly x) (q + interest) tenure;
                    schedule = installments (q + interest) monthly start;
                    finish = (if schedule = [] then add_months start tenure else im_due (last schedule));
                    row = \<lparr>sd_id = sf_next db, sd_tenant = tenant, sd_company = company, sd_employee = em_id emp,
                           sd_no = no, sd_amount = q, sd_outstanding = q + interest, sd_monthly = monthly,
                           sd_status = ''PENDING'', sd_raised = cx_user c, sd_approved = None, sd_paid_out = None,
                           sd_method = None, sd_journal = None, sd_reason = li_reason x,
                           ln_balance = q + interest, ln_rate = sql_round2 rate, ln_interest = interest,
                           ln_tenure = tenure, ln_start = start, ln_end = finish, ln_schedule = schedule\<rparr>
                in Inr (sf_next db,
                     staff_event c ''hr.loan.created'' ''hr.loans'' (sf_next db) no
                       [(''employeeId'', j_row (em_id emp)), (''amount'', JNum q), (''monthlyDeduction'', JNum monthly)]
                       (staff_audit c ''create'' ''loans'' (sf_next db) no
                          [(''employeeId'', j_row (em_id emp)), (''amount'', JNum q), (''interestRate'', JNum rate),
                           (''tenureMonths'', JNum (of_int tenure)), (''monthlyDeduction'', JNum monthly),
                           (''startDate'', JStr (iso_of_date start)), (''endDate'', JStr (iso_of_date finish)),
                           (''reason'', j_opt JStr (li_reason x))]
                          (db\<lparr>sf_loans := sf_loans db @ [row], sf_next := Suc (sf_next db)\<rparr>))))))
      | (None, _) \<Rightarrow> Inl (BadRequest ''Company context required'')
      | (Some _, None) \<Rightarrow> Inl (NotFound ''Employee not found''))"

definition update_loans :: "ctx \<Rightarrow> row_id \<Rightarrow> string list \<Rightarrow> (loan \<Rightarrow> loan) \<Rightarrow> staff_db \<Rightarrow> staff_db" where
  "update_loans c i statuses f db = db\<lparr>sf_loans := update_where (picked c i statuses) f (sf_loans db)\<rparr>"

text \<open>The five updates of a loan that only move its status from one of some statuses to another.\<close>

definition move_loan ::
  "ctx \<Rightarrow> row_id \<Rightarrow> string list \<Rightarrow> string \<Rightarrow> string \<Rightarrow> string \<Rightarrow> (loan \<Rightarrow> loan) \<Rightarrow> staff_db \<Rightarrow> staff_db result" where
  "move_loan c i statuses status action message f db =
     rbind (pick c i statuses message (sf_loans db)) (\<lambda>d.
       Inr (staff_audit c action ''loans'' i (sd_no d) (status_value status)
              (update_loans c i statuses (\<lambda>x. f (x\<lparr>sd_status := status\<rparr>)) db)))"

definition all_statuses :: "string list" where
  "all_statuses = [''PENDING'', ''APPROVED'', ''ACTIVE'', ''PAUSED'', ''CLOSED'', ''REJECTED'', ''WRITTEN_OFF'', ''PAID'', ''WAIVED'']"

definition approve_loan :: "ctx \<Rightarrow> row_id \<Rightarrow> staff_db \<Rightarrow> staff_db result" where
  "approve_loan c i db =
     rbind (pick c i all_statuses ''Loan not found or not awaiting approval'' (sf_loans db)) (\<lambda>d.
     rbind (assert_other_person (cx_user c) (sd_raised d) ''You cannot approve a loan you raised'') (\<lambda>_.
     rbind (move_loan c i [''PENDING''] ''APPROVED'' ''approve'' ''Loan not found or not awaiting approval''
              (\<lambda>x. x\<lparr>sd_approved := cx_user c\<rparr>) db) (\<lambda>db1.
       Inr (staff_event c ''hr.loan.approved'' ''hr.loans'' i (sd_no d) [(''employeeId'', j_row (sd_employee d))] db1))))"

definition disburse_loan :: "ctx \<Rightarrow> date \<Rightarrow> row_id \<Rightarrow> string option \<Rightarrow> staff_db \<Rightarrow> (row_id option \<times> staff_db) result" where
  "disburse_loan c today i m db =
     rbind (payment_method m) (\<lambda>pay_by.
     rbind (pick c i [''APPROVED''] ''Loan must be approved before it can be paid out'' (sf_loans db)) (\<lambda>d.
     rbind (assert_other_person (cx_user c) (sd_approved d) ''The approver cannot pay out the same loan'') (\<lambda>_.
     rbind (post_pair c today RECEIVABLE (payout_account pay_by) (sd_outstanding d) (''Staff loan '' @ sd_no d)
              (''employee_loans'', i, sd_no d) (sf_gl db)) (\<lambda>(j, gl).
       Inr (j, staff_audit c ''disburse'' ''loans'' i (sd_no d)
              (status_value ''ACTIVE'' @ [(''paymentMethod'', JStr pay_by), (''journalId'', j_opt j_row j)])
              (update_loans c i [''APPROVED'']
                 (\<lambda>x. x\<lparr>sd_status := ''ACTIVE'', sd_paid_out := cx_user c, sd_method := Some pay_by, sd_journal := j\<rparr>)
                 (db\<lparr>sf_gl := gl\<rparr>)))))))"

definition resume_loan :: "ctx \<Rightarrow> row_id \<Rightarrow> staff_db \<Rightarrow> staff_db result" where
  "resume_loan c i = move_loan c i [''PAUSED''] ''ACTIVE'' ''resume'' ''Loan not found or not paused'' id"

definition reject_loan :: "ctx \<Rightarrow> row_id \<Rightarrow> staff_db \<Rightarrow> staff_db result" where
  "reject_loan c i = move_loan c i [''PENDING''] ''REJECTED'' ''reject'' ''Loan not found or not pending''
     (\<lambda>x. x\<lparr>sd_approved := cx_user c\<rparr>)"

definition pause_loan :: "ctx \<Rightarrow> row_id \<Rightarrow> staff_db \<Rightarrow> staff_db result" where
  "pause_loan c i = move_loan c i [''ACTIVE''] ''PAUSED'' ''pause'' ''Loan not found or not active'' id"

text \<open>Taking what is left of a paid-out row off the books, shared by write-off and the two waivers.\<close>

definition impair ::
  "ctx \<Rightarrow> date \<Rightarrow> string \<Rightarrow> string \<Rightarrow> row_id \<Rightarrow> 'd debt_scheme \<Rightarrow> finance_db \<Rightarrow> (row_id option \<times> finance_db) result" where
  "impair c today what table i d gl =
     (if 0 < shilling (sd_outstanding d) \<and> sd_journal d \<noteq> None
      then post_pair c today IMPAIRMENT RECEIVABLE (shilling (sd_outstanding d)) (what @ sd_no d) (table, i, sd_no d) gl
      else Inr (None, gl))"

definition impaired_values :: "string \<Rightarrow> 'd debt_scheme \<Rightarrow> string \<Rightarrow> row_id option \<Rightarrow> (string \<times> jval) list" where
  "impaired_values status d why j =
     status_value status @ [(''outstanding'', JNum (shilling (sd_outstanding d))), (''reason'', JStr why),
       (''journalId'', j_opt j_row j)]"

definition write_off_loan :: "ctx \<Rightarrow> date \<Rightarrow> row_id \<Rightarrow> string option \<Rightarrow> staff_db \<Rightarrow> (row_id option \<times> staff_db) result" where
  "write_off_loan c today i reason db =
     rbind (written_reason reason ''A write-off needs a reason'') (\<lambda>why.
     rbind (pick c i [''ACTIVE'', ''PAUSED''] ''Loan not found or not active'' (sf_loans db)) (\<lambda>d.
     rbind (impair c today ''Write off staff loan '' ''employee_loans'' i d (sf_gl db)) (\<lambda>(j, gl).
       Inr (j, staff_audit c ''write_off'' ''loans'' i (sd_no d) (impaired_values ''WRITTEN_OFF'' d why j)
              (update_loans c i [''ACTIVE'', ''PAUSED'']
                 (\<lambda>x. x\<lparr>sd_status := ''WRITTEN_OFF'', sd_outstanding := 0, ln_balance := 0, ln_interest := 0\<rparr>)
                 (db\<lparr>sf_gl := gl\<rparr>))))))"

subsection \<open>Salary advances\<close>

record advance_input =
  vi_employee :: row_id
  vi_amount :: rat
  vi_monthly :: "rat option"
  vi_start :: "date option"
  vi_reason :: "string option"

definition open_advance :: "'d debt_scheme \<Rightarrow> bool" where
  "open_advance d \<longleftrightarrow> sd_status d \<in> {''PENDING'', ''APPROVED'', ''ACTIVE''} \<and> (sd_status d \<noteq> ''ACTIVE'' \<or> 0 < sd_outstanding d)"

text \<open>\<open>amount > ceiling\<close>, with \<open>Number(..) || 0\<close> of the configured ratio.\<close>

definition over_ceiling :: "ctx \<Rightarrow> employee \<Rightarrow> rat \<Rightarrow> staff_db \<Rightarrow> bool" where
  "over_ceiling c emp q db =
     (case number_of_string (get_setting c ''payroll'' ''advance.max_ratio_of_salary'' ''1'' (sf_settings db)) of
        PosInf \<Rightarrow> False
      | Num ratio \<Rightarrow> shilling (max 0 (em_base emp) * max 0 ratio) < q
      | _ \<Rightarrow> 0 < q)"

definition create_advance :: "ctx \<Rightarrow> date \<Rightarrow> string \<Rightarrow> advance_input \<Rightarrow> staff_db \<Rightarrow> (row_id \<times> staff_db) result" where
  "create_advance c today no x db =
     (case (cx_company c, cx_tenant c) of
        (Some company, Some tenant) \<Rightarrow>
          if \<not> has_company c then Inl (BadRequest ''Company context required'')
          else rbind (load_employee c (vi_employee x) db) (\<lambda>emp.
            (let q = shilling (max 0 (vi_amount x)) in
             if q \<le> 0 then Inl (BadRequest ''Advance amount must be positive'')
             else if exists_where (\<lambda>d. sd_employee d = vi_employee x \<and> sd_tenant d = tenant \<and> open_advance d) (sf_advances db)
             then Inl (BadRequest ''Employee already has an outstanding salary advance'')
             else if 0 < max 0 (em_base emp) \<and> over_ceiling c emp q db
             then Inl (BadRequest ''Advance exceeds the configured ceiling'')
             else
               (let start = the_default today (vi_start x);
                    asked = shilling (max 0 (the_default 0 (vi_monthly x)));
                    monthly = (if asked = 0 then q else asked);
                    row = \<lparr>sd_id = sf_next db, sd_tenant = tenant, sd_company = company, sd_employee = em_id emp,
                           sd_no = no, sd_amount = q, sd_outstanding = q, sd_monthly = monthly,
                           sd_status = ''PENDING'', sd_raised = cx_user c, sd_approved = None, sd_paid_out = None,
                           sd_method = None, sd_journal = None, sd_reason = vi_reason x,
                           ad_start = start, ad_schedule = installments q monthly start\<rparr>
                in Inr (sf_next db,
                     staff_event c ''hr.advance.requested'' ''hr.advances'' (sf_next db) no
                       [(''employeeId'', j_row (em_id emp)), (''amount'', JNum q), (''monthlyDeduction'', JNum monthly)]
                       (staff_audit c ''create'' ''advances'' (sf_next db) no
                          [(''employeeId'', j_row (em_id emp)), (''amount'', JNum q), (''monthlyDeduction'', JNum monthly),
                           (''startDate'', JStr (iso_of_date start)), (''reason'', j_opt JStr (vi_reason x))]
                          (db\<lparr>sf_advances := sf_advances db @ [row], sf_next := Suc (sf_next db)\<rparr>))))))
      | (None, _) \<Rightarrow> Inl (BadRequest ''Company context required'')
      | (Some _, None) \<Rightarrow> Inl (NotFound ''Employee not found''))"

definition update_advances :: "ctx \<Rightarrow> row_id \<Rightarrow> string list \<Rightarrow> (advance \<Rightarrow> advance) \<Rightarrow> staff_db \<Rightarrow> staff_db" where
  "update_advances c i statuses f db = db\<lparr>sf_advances := update_where (picked c i statuses) f (sf_advances db)\<rparr>"

definition approve_advance :: "ctx \<Rightarrow> row_id \<Rightarrow> staff_db \<Rightarrow> staff_db result" where
  "approve_advance c i db =
     rbind (pick c i [''PENDING''] ''Advance not found or not pending'' (sf_advances db)) (\<lambda>d.
     rbind (assert_other_person (cx_user c) (sd_raised d) ''You cannot approve an advance you raised'') (\<lambda>_.
       Inr (staff_event c ''hr.advance.approved'' ''hr.advances'' i (sd_no d) [(''employeeId'', j_row (sd_employee d))]
              (staff_audit c ''approve'' ''advances'' i (sd_no d) (status_value ''APPROVED'')
                 (update_advances c i [''PENDING''] (\<lambda>x. x\<lparr>sd_status := ''APPROVED'', sd_approved := cx_user c\<rparr>) db)))))"

definition disburse_advance :: "ctx \<Rightarrow> date \<Rightarrow> row_id \<Rightarrow> string option \<Rightarrow> staff_db \<Rightarrow> (row_id option \<times> staff_db) result" where
  "disburse_advance c today i m db =
     rbind (payment_method m) (\<lambda>pay_by.
     rbind (pick c i [''APPROVED''] ''Advance must be approved before it can be paid out'' (sf_advances db)) (\<lambda>d.
     rbind (assert_other_person (cx_user c) (sd_approved d) ''The approver cannot pay out the same advance'') (\<lambda>_.
     rbind (post_pair c today RECEIVABLE (payout_account pay_by) (sd_outstanding d) (''Salary advance '' @ sd_no d)
              (''salary_advances'', i, sd_no d) (sf_gl db)) (\<lambda>(j, gl).
       Inr (j, staff_audit c ''disburse'' ''advances'' i (sd_no d)
              (status_value ''ACTIVE'' @ [(''paymentMethod'', JStr pay_by), (''journalId'', j_opt j_row j)])
              (update_advances c i [''APPROVED'']
                 (\<lambda>x. x\<lparr>sd_status := ''ACTIVE'', sd_paid_out := cx_user c, sd_method := Some pay_by, sd_journal := j\<rparr>)
                 (db\<lparr>sf_gl := gl\<rparr>)))))))"

definition reject_advance :: "ctx \<Rightarrow> row_id \<Rightarrow> staff_db \<Rightarrow> staff_db result" where
  "reject_advance c i db =
     rbind (pick c i [''PENDING''] ''Advance not found or not pending'' (sf_advances db)) (\<lambda>d.
       Inr (staff_audit c ''reject'' ''advances'' i (sd_no d) (status_value ''REJECTED'')
              (update_advances c i [''PENDING''] (\<lambda>x. x\<lparr>sd_status := ''REJECTED'', sd_approved := cx_user c\<rparr>) db)))"

definition recovered :: "ctx \<Rightarrow> row_id \<Rightarrow> 'd debt_scheme \<Rightarrow> bool" where
  "recovered c i d \<longleftrightarrow> picked c i [''ACTIVE'', ''PAID''] d \<and> sd_outstanding d \<le> 0"

definition close_advance :: "ctx \<Rightarrow> row_id \<Rightarrow> staff_db \<Rightarrow> staff_db result" where
  "close_advance c i db =
     (case find (recovered c i) (sf_advances db) of
        None \<Rightarrow> Inl (BadRequest ''Advance can be closed only after the balance is recovered'')
      | Some d \<Rightarrow> Inr (staff_audit c ''update'' ''advances'' i (sd_no d) (status_value ''CLOSED'')
          (db\<lparr>sf_advances := update_where (recovered c i) (\<lambda>x. x\<lparr>sd_status := ''CLOSED''\<rparr>) (sf_advances db)\<rparr>)))"

definition waive_advance :: "ctx \<Rightarrow> date \<Rightarrow> row_id \<Rightarrow> string option \<Rightarrow> staff_db \<Rightarrow> (row_id option \<times> staff_db) result" where
  "waive_advance c today i reason db =
     rbind (written_reason reason ''A waiver needs a reason'') (\<lambda>why.
     rbind (pick c i [''ACTIVE''] ''Advance not found or not active'' (sf_advances db)) (\<lambda>d.
     rbind (impair c today ''Waive salary advance '' ''salary_advances'' i d (sf_gl db)) (\<lambda>(j, gl).
       Inr (j, staff_audit c ''waive'' ''advances'' i (sd_no d) (impaired_values ''WAIVED'' d why j)
              (update_advances c i [''ACTIVE''] (\<lambda>x. x\<lparr>sd_status := ''WAIVED'', sd_outstanding := 0\<rparr>)
                 (db\<lparr>sf_gl := gl\<rparr>))))))"

subsection \<open>Fines\<close>

record fine_input =
  ni_employee :: row_id
  ni_amount :: rat
  ni_monthly :: "rat option"
  ni_reason :: "string option"
  ni_incident :: "date option"
  ni_case :: "row_id option"

definition create_fine :: "ctx \<Rightarrow> string \<Rightarrow> fine_input \<Rightarrow> staff_db \<Rightarrow> (row_id \<times> staff_db) result" where
  "create_fine c no x db =
     (case (cx_company c, cx_tenant c) of
        (Some company, Some tenant) \<Rightarrow>
          if \<not> has_company c then Inl (BadRequest ''Company context required'')
          else rbind (load_employee c (ni_employee x) db) (\<lambda>emp.
            (let q = shilling (max 0 (ni_amount x)) in
             if q \<le> 0 then Inl (BadRequest ''Fine amount must be positive'')
             else rbind (written_reason (ni_reason x) ''A fine needs a written reason'') (\<lambda>why.
               (let monthly = shilling (if 0 < the_default 0 (ni_monthly x) then the_default 0 (ni_monthly x) else q);
                    row = \<lparr>sd_id = sf_next db, sd_tenant = tenant, sd_company = company, sd_employee = em_id emp,
                           sd_no = no, sd_amount = q, sd_outstanding = q, sd_monthly = monthly,
                           sd_status = ''PENDING'', sd_raised = cx_user c, sd_approved = None, sd_paid_out = None,
                           sd_method = None, sd_journal = None, sd_reason = Some why,
                           fi_case = ni_case x, fi_incident = ni_incident x\<rparr>
                in Inr (sf_next db,
                     staff_audit c ''create'' ''fines'' (sf_next db) no
                       [(''employeeId'', j_row (em_id emp)), (''amount'', JNum q), (''monthlyDeduction'', JNum monthly),
                        (''reason'', JStr why), (''incidentDate'', j_opt (\<lambda>d. JStr (iso_of_date d)) (ni_incident x))]
                       (db\<lparr>sf_fines := sf_fines db @ [row], sf_next := Suc (sf_next db)\<rparr>))))))
      | (None, _) \<Rightarrow> Inl (BadRequest ''Company context required'')
      | (Some _, None) \<Rightarrow> Inl (NotFound ''Employee not found''))"

definition update_fines :: "ctx \<Rightarrow> row_id \<Rightarrow> string list \<Rightarrow> (fine \<Rightarrow> fine) \<Rightarrow> staff_db \<Rightarrow> staff_db" where
  "update_fines c i statuses f db = db\<lparr>sf_fines := update_where (picked c i statuses) f (sf_fines db)\<rparr>"

definition approve_fine :: "ctx \<Rightarrow> date \<Rightarrow> row_id \<Rightarrow> staff_db \<Rightarrow> (row_id option \<times> staff_db) result" where
  "approve_fine c today i db =
     rbind (pick c i [''PENDING''] ''Fine not found or not awaiting approval'' (sf_fines db)) (\<lambda>d.
     rbind (assert_other_person (cx_user c) (sd_raised d) ''You cannot approve a fine you raised'') (\<lambda>_.
     rbind (post_pair c today RECEIVABLE OTHER_INCOME (sd_outstanding d) (''Staff fine '' @ sd_no d)
              (''employee_fines'', i, sd_no d) (sf_gl db)) (\<lambda>(j, gl).
       Inr (j, staff_audit c ''approve'' ''fines'' i (sd_no d) (status_value ''ACTIVE'' @ [(''journalId'', j_opt j_row j)])
              (update_fines c i [''PENDING'']
                 (\<lambda>x. x\<lparr>sd_status := ''ACTIVE'', sd_approved := cx_user c, sd_journal := j\<rparr>) (db\<lparr>sf_gl := gl\<rparr>))))))"

definition reject_fine :: "ctx \<Rightarrow> row_id \<Rightarrow> staff_db \<Rightarrow> staff_db result" where
  "reject_fine c i db =
     rbind (pick c i [''PENDING''] ''Fine not found or not pending'' (sf_fines db)) (\<lambda>d.
       Inr (staff_audit c ''reject'' ''fines'' i (sd_no d) (status_value ''REJECTED'')
              (update_fines c i [''PENDING''] (\<lambda>x. x\<lparr>sd_status := ''REJECTED'', sd_approved := cx_user c\<rparr>) db)))"

definition waive_fine :: "ctx \<Rightarrow> date \<Rightarrow> row_id \<Rightarrow> string option \<Rightarrow> staff_db \<Rightarrow> (row_id option \<times> staff_db) result" where
  "waive_fine c today i reason db =
     rbind (written_reason reason ''A waiver needs a reason'') (\<lambda>why.
     rbind (pick c i [''ACTIVE''] ''Fine not found or not active'' (sf_fines db)) (\<lambda>d.
     rbind (impair c today ''Waive staff fine '' ''employee_fines'' i d (sf_gl db)) (\<lambda>(j, gl).
       Inr (j, staff_audit c ''waive'' ''fines'' i (sd_no d) (impaired_values ''WAIVED'' d why j)
              (update_fines c i [''ACTIVE''] (\<lambda>x. x\<lparr>sd_status := ''WAIVED'', sd_outstanding := 0\<rparr>)
                 (db\<lparr>sf_gl := gl\<rparr>))))))"

subsection \<open>The register of debts\<close>

text \<open>
  What the three tables promise, without audit, events and the columns of a single kind: a register of
  debts per kind. A debt is entered as a request and then moves; a move changes what the staff owe
  on the books by an amount.
\<close>

datatype debt_kind = LOAN | ADVANCE | FINE

definition debts :: "staff_db \<Rightarrow> debt_kind \<Rightarrow> debt list" where
  "debts db k =
     (case k of LOAN \<Rightarrow> map debt.truncate (sf_loans db) | ADVANCE \<Rightarrow> map debt.truncate (sf_advances db)
      | FINE \<Rightarrow> map debt.truncate (sf_fines db))"

definition other_person :: "row_id option \<Rightarrow> row_id option \<Rightarrow> bool" where
  "other_person actor v \<longleftrightarrow> (\<forall>u. \<not> (actor = Some u \<and> v = Some u))"

inductive debt_move :: "debt_kind \<Rightarrow> row_id option \<Rightarrow> debt \<Rightarrow> rat \<Rightarrow> debt \<Rightarrow> bool" where
  approve: "k \<noteq> FINE \<Longrightarrow> sd_status d = ''PENDING'' \<Longrightarrow> other_person u (sd_raised d) \<Longrightarrow>
     debt_move k u d 0 (d\<lparr>sd_status := ''APPROVED'', sd_approved := u\<rparr>)"
| reject: "sd_status d = ''PENDING'' \<Longrightarrow> debt_move k u d 0 (d\<lparr>sd_status := ''REJECTED'', sd_approved := u\<rparr>)"
| pay_out: "k \<noteq> FINE \<Longrightarrow> sd_status d = ''APPROVED'' \<Longrightarrow> other_person u (sd_approved d) \<Longrightarrow>
     j = None \<longleftrightarrow> shilling (sd_outstanding d) \<le> 0 \<Longrightarrow>
     debt_move k u d (max 0 (shilling (sd_outstanding d)))
       (d\<lparr>sd_status := ''ACTIVE'', sd_paid_out := u, sd_method := m, sd_journal := j\<rparr>)"
| impose: "sd_status d = ''PENDING'' \<Longrightarrow> other_person u (sd_raised d) \<Longrightarrow> j = None \<longleftrightarrow> shilling (sd_outstanding d) \<le> 0 \<Longrightarrow>
     debt_move FINE u d (max 0 (shilling (sd_outstanding d))) (d\<lparr>sd_status := ''ACTIVE'', sd_approved := u, sd_journal := j\<rparr>)"
| pause: "sd_status d = ''ACTIVE'' \<Longrightarrow> debt_move LOAN u d 0 (d\<lparr>sd_status := ''PAUSED''\<rparr>)"
| resume: "sd_status d = ''PAUSED'' \<Longrightarrow> debt_move LOAN u d 0 (d\<lparr>sd_status := ''ACTIVE''\<rparr>)"
| close: "sd_status d \<in> {''ACTIVE'', ''PAID''} \<Longrightarrow> sd_outstanding d \<le> 0 \<Longrightarrow>
     debt_move ADVANCE u d 0 (d\<lparr>sd_status := ''CLOSED''\<rparr>)"
| write_off: "sd_status d \<in> {''ACTIVE'', ''PAUSED''} \<Longrightarrow>
     debt_move LOAN u d (if sd_journal d = None then 0 else - max 0 (shilling (sd_outstanding d)))
       (d\<lparr>sd_status := ''WRITTEN_OFF'', sd_outstanding := 0\<rparr>)"
| waive: "k \<noteq> LOAN \<Longrightarrow> sd_status d = ''ACTIVE'' \<Longrightarrow>
     debt_move k u d (if sd_journal d = None then 0 else - max 0 (shilling (sd_outstanding d)))
       (d\<lparr>sd_status := ''WAIVED'', sd_outstanding := 0\<rparr>)"

definition request :: "debt \<Rightarrow> bool" where
  "request d \<longleftrightarrow> sd_status d = ''PENDING'' \<and> sd_approved d = None \<and> sd_paid_out d = None \<and> sd_journal d = None
     \<and> 0 < sd_outstanding d \<and> shilling (sd_outstanding d) = sd_outstanding d"

inductive register_step :: "row_id \<Rightarrow> (debt_kind \<Rightarrow> debt list) \<Rightarrow> rat \<Rightarrow> (debt_kind \<Rightarrow> debt list) \<Rightarrow> bool" where
  enter: "request d \<Longrightarrow> sd_tenant d = tn \<Longrightarrow> sd_id d \<notin> sd_id ` set (D k) \<Longrightarrow>
     k = ADVANCE \<longrightarrow> \<not> (\<exists>x\<in>set (D k). sd_employee x = sd_employee d \<and> sd_tenant x = tn \<and> open_advance x) \<Longrightarrow>
     register_step tn D 0 (D(k := D k @ [d]))"
| move: "D k = xs @ d # ys \<Longrightarrow> sd_tenant d = tn \<Longrightarrow> debt_move k u d q d' \<Longrightarrow>
     register_step tn D q (D(k := xs @ d' # ys))"

text \<open>The operations of the service, by users of one company.\<close>

definition acts :: "row_id \<Rightarrow> row_id \<Rightarrow> ctx \<Rightarrow> bool" where
  "acts tn co c \<longleftrightarrow> cx_tenant c = Some tn \<and> cx_company c = Some co"

inductive staff_step :: "row_id \<Rightarrow> row_id \<Rightarrow> staff_db \<Rightarrow> staff_db \<Rightarrow> bool" for tn co where
  create_loan: "acts tn co c \<Longrightarrow> create_loan c today no x db = Inr (i, db') \<Longrightarrow> staff_step tn co db db'"
| approve_loan: "acts tn co c \<Longrightarrow> approve_loan c i db = Inr db' \<Longrightarrow> staff_step tn co db db'"
| disburse_loan: "acts tn co c \<Longrightarrow> disburse_loan c today i m db = Inr (j, db') \<Longrightarrow> staff_step tn co db db'"
| resume_loan: "acts tn co c \<Longrightarrow> resume_loan c i db = Inr db' \<Longrightarrow> staff_step tn co db db'"
| reject_loan: "acts tn co c \<Longrightarrow> reject_loan c i db = Inr db' \<Longrightarrow> staff_step tn co db db'"
| pause_loan: "acts tn co c \<Longrightarrow> pause_loan c i db = Inr db' \<Longrightarrow> staff_step tn co db db'"
| write_off_loan: "acts tn co c \<Longrightarrow> write_off_loan c today i r db = Inr (j, db') \<Longrightarrow> staff_step tn co db db'"
| create_advance: "acts tn co c \<Longrightarrow> create_advance c today no v db = Inr (i, db') \<Longrightarrow> staff_step tn co db db'"
| approve_advance: "acts tn co c \<Longrightarrow> approve_advance c i db = Inr db' \<Longrightarrow> staff_step tn co db db'"
| disburse_advance: "acts tn co c \<Longrightarrow> disburse_advance c today i m db = Inr (j, db') \<Longrightarrow> staff_step tn co db db'"
| reject_advance: "acts tn co c \<Longrightarrow> reject_advance c i db = Inr db' \<Longrightarrow> staff_step tn co db db'"
| close_advance: "acts tn co c \<Longrightarrow> close_advance c i db = Inr db' \<Longrightarrow> staff_step tn co db db'"
| waive_advance: "acts tn co c \<Longrightarrow> waive_advance c today i r db = Inr (j, db') \<Longrightarrow> staff_step tn co db db'"
| create_fine: "acts tn co c \<Longrightarrow> create_fine c no n db = Inr (i, db') \<Longrightarrow> staff_step tn co db db'"
| approve_fine: "acts tn co c \<Longrightarrow> approve_fine c today i db = Inr (j, db') \<Longrightarrow> staff_step tn co db db'"
| reject_fine: "acts tn co c \<Longrightarrow> reject_fine c i db = Inr db' \<Longrightarrow> staff_step tn co db db'"
| waive_fine: "acts tn co c \<Longrightarrow> waive_fine c today i r db = Inr (j, db') \<Longrightarrow> staff_step tn co db db'"

subsection \<open>The schedule\<close>

lemma shilling_eq: "shilling q = round_to 1 q"
  by (simp add: shilling_def round_to_def)

interpretation s1: rounding shilling 1
  using rounding_round_to [of 1] by (simp add: shilling_eq [abs_def])

lemma shilling_idem [simp]: "shilling (shilling q) = shilling q"
  by (rule s1.rnd_idem)

lemma shilling_positive: "0 < shilling q \<Longrightarrow> 1 \<le> shilling q"
  by (simp add: shilling_def)

lemma installment_loop_sum:
  "0 < step \<Longrightarrow> 0 \<le> left \<Longrightarrow> (\<Sum>x\<leftarrow>installment_loop k i left step start. im_amount x) = min left (of_nat k * step)"
proof (induction k arbitrary: i left)
  case (Suc k)
  show ?case
  proof (cases "left \<le> step")
    case True
    then have "(\<Sum>x\<leftarrow>installment_loop k (Suc i) (left - min step left) step start. im_amount x) = 0"
      using Suc.IH [of "left - min step left" "Suc i"] Suc.prems by (simp add: min_def)
    moreover have "left \<le> of_nat (Suc k) * step"
    proof -
      have "0 \<le> of_nat k * step" using Suc.prems by (intro mult_nonneg_nonneg) simp_all
      then show ?thesis using True by (simp add: distrib_right)
    qed
    ultimately show ?thesis using True Suc.prems by (simp add: min_def)
  next
    case False
    then show ?thesis using Suc.IH [of "left - step" "Suc i"] Suc.prems by (auto simp: min_def algebra_simps)
  qed
qed simp

lemma installment_loop_nth:
  assumes "0 < step" and "n < length (installment_loop k i left step start)"
  shows "im_no (installment_loop k i left step start ! n) = i + n + 1"
    and "im_due (installment_loop k i left step start ! n) = add_months start (int (i + n))"
    and "0 < im_amount (installment_loop k i left step start ! n)"
    and "im_amount (installment_loop k i left step start ! n) \<le> step"
    and "Suc n < length (installment_loop k i left step start) \<Longrightarrow> im_amount (installment_loop k i left step start ! n) = step"
proof -
  let ?P = "\<lambda>x n i l. im_no x = i + n + 1 \<and> im_due x = add_months start (int (i + n)) \<and> 0 < im_amount x
    \<and> im_amount x \<le> step \<and> (Suc n < l \<longrightarrow> im_amount x = step)"
  have "?P (installment_loop k i left step start ! n) n i (length (installment_loop k i left step start))"
    using assms
  proof (induction k arbitrary: i left n)
    case (Suc k)
    then show ?case
    proof (cases n)
      case 0
      have "left \<le> step \<Longrightarrow> installment_loop k (Suc i) (left - min step left) step start = []"
        by (cases k) (simp_all add: min_def)
      then show ?thesis using Suc.prems 0 by (auto simp: min_def split: if_splits)
    next
      case (Suc m)
      then show ?thesis using Suc.IH [of m "Suc i" "left - min step left"] Suc.prems by (auto split: if_splits)
    qed
  qed simp
  then show "im_no (installment_loop k i left step start ! n) = i + n + 1"
    and "im_due (installment_loop k i left step start ! n) = add_months start (int (i + n))"
    and "0 < im_amount (installment_loop k i left step start ! n)"
    and "im_amount (installment_loop k i left step start ! n) \<le> step"
    and "Suc n < length (installment_loop k i left step start) \<Longrightarrow> im_amount (installment_loop k i left step start ! n) = step"
    by simp_all
qed

lemma length_installment_loop: "length (installment_loop k i left step start) \<le> k"
  by (induction k arbitrary: i left) auto

definition loan_schedule_ok :: "loan \<Rightarrow> bool" where
  "loan_schedule_ok d \<longleftrightarrow>
     (let s = ln_schedule d; step = max 1 (sd_monthly d) in
      (\<Sum>x\<leftarrow>s. im_amount x) = min (sd_outstanding d) (60 * step)
      \<and> list_all (\<lambda>n. im_no (s ! n) = n + 1 \<and> im_due (s ! n) = add_months (ln_start d) (int n)
           \<and> 0 < im_amount (s ! n) \<and> im_amount (s ! n) \<le> step
           \<and> (if Suc n < length s then im_amount (s ! n) = step else ln_end d = im_due (s ! n))) [0..<length s])"

lemma installments_nonempty: "0 < shilling owed \<Longrightarrow> installments owed monthly start \<noteq> []"
  by (simp add: installments_def numeral_eq_Suc)

text \<open>What a new loan is.\<close>

lemma create_loan_Inr:
  assumes "create_loan c today no x db = Inr (i, db')"
  obtains d :: loan where "sf_loans db' = sf_loans db @ [d]" "i = sf_next db" "sd_id d = i" "sf_next db' = Suc i"
    "cx_tenant c = Some (sd_tenant d)" "cx_company c = Some (sd_company d)" "sd_employee d = li_employee x"
    "sf_gl db' = sf_gl db" "sf_advances db' = sf_advances db" "sf_fines db' = sf_fines db"
    "request (debt.truncate d)" "sd_raised d = cx_user c"
    "sd_amount d = shilling (max 0 (li_amount x))" "0 < sd_amount d"
    "sd_outstanding d = sd_amount d + ln_interest d" "ln_balance d = sd_outstanding d"
    "ln_interest d = loan_interest (sd_amount d) (max 0 (the_default 0 (li_rate x))) (loan_tenure (li_tenure x))"
    "sd_monthly d = loan_monthly (li_monthly x) (sd_outstanding d) (loan_tenure (li_tenure x))"
    "ln_schedule d = installments (sd_outstanding d) (sd_monthly d) (ln_start d)"
    "ln_end d = im_due (last (ln_schedule d))" "ln_start d = the_default today (li_start x)"
proof -
  from assms obtain co tn where ids: "cx_company c = Some co" "cx_tenant c = Some tn"
    by (auto simp: create_loan_def split: option.splits)
  with assms obtain emp where hc: "has_company c" and emp: "load_employee c (li_employee x) db = Inr emp"
    by (auto simp: create_loan_def split: if_splits)
  define q where "q = shilling (max 0 (li_amount x))"
  have q: "0 < q" using assms ids hc emp by (auto simp: create_loan_def q_def Let_def split: if_splits)
  define tenure where "tenure = loan_tenure (li_tenure x)"
  define rate where "rate = max 0 (the_default 0 (li_rate x))"
  define interest where "interest = loan_interest q rate tenure"
  define monthly where "monthly = loan_monthly (li_monthly x) (q + interest) tenure"
  define start where "start = the_default today (li_start x)"
  define schedule where "schedule = installments (q + interest) monthly start"
  have "1 \<le> tenure" by (simp add: tenure_def loan_tenure_def)
  then have i0: "0 \<le> interest" unfolding interest_def loan_interest_def using q
    by (intro s1.rnd_nonneg mult_nonneg_nonneg divide_nonneg_nonneg) (simp_all add: rate_def)
  have fixed: "shilling (q + interest) = q + interest"
    by (intro s1.rnd_add_fixed) (simp_all add: q_def interest_def loan_interest_def)
  then have ne: "schedule \<noteq> []" using q i0 unfolding schedule_def by (intro installments_nonempty) linarith
  have emp_id: "em_id emp = li_employee x"
    using emp by (auto simp: load_employee_def split: option.splits dest: find_Some_iff_mem)
  define d where "d = \<lparr>sd_id = sf_next db, sd_tenant = tn, sd_company = co, sd_employee = em_id emp,
     sd_no = no, sd_amount = q, sd_outstanding = q + interest, sd_monthly = monthly,
     sd_status = ''PENDING'', sd_raised = cx_user c, sd_approved = None, sd_paid_out = None,
     sd_method = None, sd_journal = None, sd_reason = li_reason x,
     ln_balance = q + interest, ln_rate = sql_round2 rate, ln_interest = interest,
     ln_tenure = tenure, ln_start = start, ln_end = im_due (last schedule), ln_schedule = schedule\<rparr>"
  have "i = sf_next db \<and> sf_loans db' = sf_loans db @ [d] \<and> sf_next db' = Suc (sf_next db) \<and> sf_gl db' = sf_gl db
      \<and> sf_advances db' = sf_advances db \<and> sf_fines db' = sf_fines db"
    using assms ids hc emp q ne
    unfolding create_loan_def Let_def q_def [symmetric] tenure_def [symmetric] rate_def [symmetric] interest_def [symmetric]
      start_def [symmetric]
    by (auto simp: staff_audit_def staff_event_def d_def schedule_def monthly_def)
  then show thesis
    using q i0 fixed ids emp_id
    by (intro that [of d])
      (simp_all add: d_def request_def debt.defs q_def rate_def tenure_def interest_def monthly_def schedule_def start_def)
qed

text \<open>
  A new loan owes its principal and its simple interest in whole shillings, and its schedule has
  numbered installments, one month apart from the start date, all equal to the monthly
  deduction but the last; together they pay back exactly what is owed, or sixty installments of it
  when the deduction is too small; the loan ends with the last of them.
\<close>

theorem new_loan_has_a_schedule:
  assumes "create_loan c today no x db = Inr (i, db')"
  shows "\<exists>d. sf_loans db' = sf_loans db @ [d] \<and> sd_id d = i \<and> sd_status d = ''PENDING''
    \<and> sd_outstanding d = sd_amount d + ln_interest d \<and> shilling (sd_outstanding d) = sd_outstanding d
    \<and> \<bar>ln_interest d - sd_amount d * (max 0 (the_default 0 (li_rate x)) / 100) * (of_int (loan_tenure (li_tenure x)) / 12)\<bar> \<le> 1 / 2
    \<and> loan_schedule_ok d"
  using assms
proof (rule create_loan_Inr)
  fix d :: loan
  let ?s = "ln_schedule d" and ?step = "max 1 (sd_monthly d)"
  assume row: "sf_loans db' = sf_loans db @ [d]" "sd_id d = i" and req: "request (debt.truncate d)"
    and q: "sd_outstanding d = sd_amount d + ln_interest d"
    and interest: "ln_interest d = loan_interest (sd_amount d) (max 0 (the_default 0 (li_rate x))) (loan_tenure (li_tenure x))"
    and monthly: "sd_monthly d = loan_monthly (li_monthly x) (sd_outstanding d) (loan_tenure (li_tenure x))"
    and s: "?s = installments (sd_outstanding d) (sd_monthly d) (ln_start d)" and finish: "ln_end d = im_due (last ?s)"
  have whole: "shilling (sd_outstanding d) = sd_outstanding d" "0 < sd_outstanding d" "sd_status d = ''PENDING''"
    using req by (simp_all add: request_def debt.defs)
  have step: "0 < ?step" "shilling (sd_monthly d) = sd_monthly d" by (simp_all add: monthly loan_monthly_def)
  note loop = s [unfolded installments_def step(2) whole(1)]
  have "(\<Sum>y\<leftarrow>?s. im_amount y) = min (sd_outstanding d) (60 * ?step)"
    using installment_loop_sum [OF step(1), of "sd_outstanding d" 60 0] whole(2) by (simp add: loop)
  moreover have "im_no (?s ! n) = n + 1 \<and> im_due (?s ! n) = add_months (ln_start d) (int n)
      \<and> 0 < im_amount (?s ! n) \<and> im_amount (?s ! n) \<le> ?step
      \<and> (if Suc n < length ?s then im_amount (?s ! n) = ?step else ln_end d = im_due (?s ! n))" if n: "n < length ?s" for n
  proof -
    have "Suc n = length ?s \<Longrightarrow> last ?s = ?s ! n" by (cases ?s rule: rev_cases) auto
    then show ?thesis
      using installment_loop_nth [OF step(1) n [unfolded loop]] n by (auto simp: loop [symmetric] finish)
  qed
  ultimately have "loan_schedule_ok d" by (simp add: loan_schedule_ok_def Let_def list_all_iff)
  then show ?thesis
    using row q whole s1.rnd_near by (intro exI [of _ d]) (auto simp: interest loan_interest_def)
qed

subsection \<open>Pairs of lines\<close>

lemma round2_shilling [simp]: "round2 (shilling q) = shilling q"
proof -
  have "shilling q * 100 = of_int (js_round q * 100)" by (simp add: shilling_def)
  then have "js_round (shilling q * 100) = js_round q * 100" using js_round_of_int by metis
  then show ?thesis by (simp add: round_to_def) (simp add: shilling_def)
qed

lemma find_account_apart:
  assumes "distinct (map ac_id (fd_accounts gl))" and "find_account c x gl = Some a" "find_account c y gl = Some a"
  shows "x = y"
proof -
  obtain r s where "r \<in> set (fd_accounts gl)" "ac_code r = x" "ac_id r = a" "s \<in> set (fd_accounts gl)" "ac_code s = y" "ac_id s = a"
    using assms(2,3) by (auto simp: find_account_def dest!: find_Some_iff_mem)
  then show ?thesis using assms(1) by (auto simp: distinct_map inj_on_def)
qed

text \<open>The books move by an amount on the staff receivable of a company, with its accounts unchanged.\<close>

definition books_move :: "row_id \<Rightarrow> row_id \<Rightarrow> rat \<Rightarrow> finance_db \<Rightarrow> finance_db \<Rightarrow> bool" where
  "books_move tn co q gl gl' \<longleftrightarrow> fd_accounts gl' = fd_accounts gl
     \<and> (distinct (map ac_id (fd_accounts gl)) \<longrightarrow>
          (\<forall>c a. acts tn co c \<longrightarrow> find_account c RECEIVABLE gl = Some a \<longrightarrow>
             posted_balance c a gl' = posted_balance c a gl + q))"

lemma books_same [simp]: "books_move tn co 0 gl gl"
  by (simp add: books_move_def)

lemma acts_same: "acts tn co c \<Longrightarrow> acts tn co c' \<Longrightarrow> find_account c code gl = find_account c' code gl"
  by (simp add: acts_def find_account_def)

lemma post_pair_Inr:
  assumes "post_pair c today debit credit q desc ref gl = Inr (j, gl')"
  obtains "j = None" "gl' = gl" "shilling q \<le> 0"
  | e d k where "0 < shilling q" "j \<noteq> None" "find_account c debit gl = Some d" "find_account c credit gl = Some k"
      "fd_entries gl' = fd_entries gl @ [e]" "fd_accounts gl' = fd_accounts gl" "je_status e = J_POSTED" "je_tenant e = cx_tenant c"
      "je_lines e = [dr d (shilling q) desc, cr k (shilling q) desc]"
proof (cases "shilling q \<le> 0")
  case True
  then show ?thesis using assms that(1) by (simp add: post_pair_def)
next
  case False
  let ?ji = "\<lambda>d k. \<lparr>ji_date = today, ji_type = ''MANUAL'', ji_description = desc,
     ji_lines = [dr d (shilling q) desc, cr k (shilling q) desc], ji_ref = Some ref\<rparr>"
  obtain d k i where dk: "find_account c debit gl = Some d" "find_account c credit gl = Some k"
    and post: "post_journal_lines c (?ji d k) gl = Inr (i, gl')" and j: "j = Some i"
    using assms False by (auto simp: post_pair_def get_account_id_def split: option.splits)
  have "whole_cents (ji_lines (?ji d k))" by (simp add: whole_cents_def dr_def cr_def)
  with post show ?thesis
    by (rule post_journal_lines_cents) (use False dk j in \<open>auto intro!: that(2)\<close>)
qed

lemma books_pair:
  assumes post: "post_pair c today debit credit q desc ref gl = Inr (j, gl')" and c: "acts tn co c" and ne: "debit \<noteq> credit"
  shows "debit = RECEIVABLE \<Longrightarrow> books_move tn co (max 0 (shilling q)) gl gl'"
    and "credit = RECEIVABLE \<Longrightarrow> books_move tn co (- max 0 (shilling q)) gl gl'"
    and "j = None \<longleftrightarrow> shilling q \<le> 0"
proof -
  let ?m = "(if debit = RECEIVABLE then max 0 (shilling q) else 0) - (if credit = RECEIVABLE then max 0 (shilling q) else 0)"
  have "books_move tn co ?m gl gl' \<and> (j = None \<longleftrightarrow> shilling q \<le> 0)"
    using post
  proof (cases rule: post_pair_Inr)
    case (2 e d k)
    have "posted_balance c' a gl' = posted_balance c' a gl + ?m"
      if apart: "distinct (map ac_id (fd_accounts gl))" and c': "acts tn co c'" and a: "find_account c' RECEIVABLE gl = Some a" for c' a
    proof -
      have a': "find_account c RECEIVABLE gl = Some a" using a acts_same [OF c c'] by simp
      have "line_movement a e = ?m"
        using 2 find_account_apart [OF apart a'] ne a' by (auto simp: line_movement_def dr_def cr_def)
      moreover have "cx_tenant c' = Some tn" "je_tenant e = cx_tenant c'" using c c' 2(8) by (simp_all add: acts_def)
      ultimately show ?thesis using posted_balance_snoc [OF _ 2(5,7), of c' tn a] by simp
    qed
    then show ?thesis using 2 by (simp add: books_move_def)
  qed simp
  then show "debit = RECEIVABLE \<Longrightarrow> books_move tn co (max 0 (shilling q)) gl gl'"
    and "credit = RECEIVABLE \<Longrightarrow> books_move tn co (- max 0 (shilling q)) gl gl'"
    and "j = None \<longleftrightarrow> shilling q \<le> 0"
    using ne by (auto split: if_splits)
qed

lemma codes_apart [simp]: "RECEIVABLE \<noteq> payout_account m" "RECEIVABLE \<noteq> OTHER_INCOME" "IMPAIRMENT \<noteq> RECEIVABLE"
  by (simp_all add: RECEIVABLE_def payout_account_def BANK_def PETTY_def OTHER_INCOME_def IMPAIRMENT_def)

lemma books_impair:
  assumes "impair c today what table i d gl = Inr (j, gl')" and "acts tn co c"
  shows "books_move tn co (if sd_journal d = None then 0 else - max 0 (shilling (sd_outstanding d))) gl gl'"
proof (cases "0 < shilling (sd_outstanding d) \<and> sd_journal d \<noteq> None")
  case True
  then show ?thesis using assms books_pair(2) [of c today IMPAIRMENT RECEIVABLE "shilling (sd_outstanding d)"]
    by (cases "sd_journal d") (auto simp: impair_def)
next
  case False
  then show ?thesis using assms by (auto simp: impair_def max_def)
qed

subsection \<open>The service keeps the register\<close>

definition fresh_ids :: "staff_db \<Rightarrow> bool" where
  "fresh_ids db \<longleftrightarrow> (\<forall>k. distinct (map sd_id (debts db k)) \<and> (\<forall>d\<in>set (debts db k). sd_id d < sf_next db))"

lemma fresh_ids_ids:
  "fresh_ids db \<longleftrightarrow> (\<forall>k. distinct (map sd_id (debts db k)) \<and> (\<forall>i\<in>set (map sd_id (debts db k)). i < sf_next db))"
  by (simp add: fresh_ids_def)

definition simulated :: "row_id \<Rightarrow> row_id \<Rightarrow> staff_db \<Rightarrow> staff_db \<Rightarrow> bool" where
  "simulated tn co db db' \<longleftrightarrow> fresh_ids db'
     \<and> (\<exists>q. register_step tn (debts db) q (debts db') \<and> books_move tn co q (sf_gl db) (sf_gl db'))"

lemma sd_truncate [simp]:
  "sd_id (debt.truncate d) = sd_id d" "sd_tenant (debt.truncate d) = sd_tenant d" "sd_status (debt.truncate d) = sd_status d"
  "sd_employee (debt.truncate d) = sd_employee d" "sd_outstanding (debt.truncate d) = sd_outstanding d"
  "sd_raised (debt.truncate d) = sd_raised d" "sd_approved (debt.truncate d) = sd_approved d"
  "sd_journal (debt.truncate d) = sd_journal d" "open_advance (debt.truncate d) = open_advance d"
  by (simp_all add: debt.defs open_advance_def)

lemma truncate_updates [simp]:
  "debt.truncate (d\<lparr>sd_status := s\<rparr>) = (debt.truncate d)\<lparr>sd_status := s\<rparr>"
  "debt.truncate (d\<lparr>sd_approved := u\<rparr>) = (debt.truncate d)\<lparr>sd_approved := u\<rparr>"
  "debt.truncate (d\<lparr>sd_paid_out := u\<rparr>) = (debt.truncate d)\<lparr>sd_paid_out := u\<rparr>"
  "debt.truncate (d\<lparr>sd_method := m\<rparr>) = (debt.truncate d)\<lparr>sd_method := m\<rparr>"
  "debt.truncate (d\<lparr>sd_journal := j\<rparr>) = (debt.truncate d)\<lparr>sd_journal := j\<rparr>"
  "debt.truncate (d\<lparr>sd_outstanding := q\<rparr>) = (debt.truncate d)\<lparr>sd_outstanding := q\<rparr>"
  "debt.truncate (l\<lparr>ln_balance := q\<rparr>) = debt.truncate l" "debt.truncate (l\<lparr>ln_interest := q\<rparr>) = debt.truncate l"
  by (simp_all add: debt.defs)

lemma update_found:
  assumes "find p rows = Some d" and "distinct (map sd_id rows)" and "\<And>x. p x \<Longrightarrow> sd_id x = i"
  obtains xs ys where "rows = xs @ d # ys" and "update_where p f rows = xs @ f d # ys"
proof -
  obtain xs ys where rows: "rows = xs @ d # ys" using find_Some_iff_mem [OF assms(1)] by (auto dest: split_list)
  moreover have "p d" using find_Some_iff_mem [OF assms(1)] by simp
  moreover have "\<not> p x" if "x \<in> set xs \<union> set ys" for x
    using assms(2) assms(3) [of x] assms(3) [OF \<open>p d\<close>] that by (auto simp: rows rev_image_eqI)
  ultimately show thesis using that [of xs ys] by (simp add: update_where_def map_idI)
qed

lemma simulated_move:
  assumes ok: "fresh_ids db" and pre: "debts db k = xs @ d # ys" and post: "debts db' = (debts db)(k := xs @ d' # ys)"
    and tn: "sd_tenant d = tn" and mv: "debt_move k u d q d'" and n: "sf_next db' = sf_next db"
    and books: "books_move tn co q (sf_gl db) (sf_gl db')"
  shows "simulated tn co db db'"
proof -
  have "sd_id d' = sd_id d" using mv by cases simp_all
  then have "map sd_id (debts db' h) = map sd_id (debts db h)" for h using pre by (simp add: post)
  then have "fresh_ids db'" using ok by (simp add: fresh_ids_ids n)
  then show ?thesis
    using register_step.move [where D = "debts db", OF pre tn mv] books unfolding simulated_def post by blast
qed

lemma simulated_loan:
  assumes ok: "fresh_ids db" and find: "find p (sf_loans db) = Some d" and p: "\<And>x. p x \<Longrightarrow> sd_id x = i \<and> sd_tenant x = tn"
    and rows: "sf_loans db' = update_where p f (sf_loans db)"
    and frame: "sf_advances db' = sf_advances db" "sf_fines db' = sf_fines db" "sf_next db' = sf_next db"
    and mv: "debt_move LOAN u (debt.truncate d) q (debt.truncate (f d))" and books: "books_move tn co q (sf_gl db) (sf_gl db')"
  shows "simulated tn co db db'"
proof -
  have "distinct (map sd_id (sf_loans db))" using ok by (auto simp: fresh_ids_def debts_def comp_def dest: spec [of _ LOAN])
  then obtain xs ys where "sf_loans db = xs @ d # ys" "update_where p f (sf_loans db) = xs @ f d # ys"
    using update_found [OF find, of i f] p by blast
  then show ?thesis
    using find_Some_iff_mem [OF find] p [of d]
    by (intro simulated_move [OF ok _ _ _ mv frame(3) books, of "map debt.truncate xs" "map debt.truncate ys"])
      (auto simp: debts_def rows frame fun_eq_iff split: debt_kind.splits)
qed

lemma simulated_advance:
  assumes ok: "fresh_ids db" and find: "find p (sf_advances db) = Some d" and p: "\<And>x. p x \<Longrightarrow> sd_id x = i \<and> sd_tenant x = tn"
    and rows: "sf_advances db' = update_where p f (sf_advances db)"
    and frame: "sf_loans db' = sf_loans db" "sf_fines db' = sf_fines db" "sf_next db' = sf_next db"
    and mv: "debt_move ADVANCE u (debt.truncate d) q (debt.truncate (f d))" and books: "books_move tn co q (sf_gl db) (sf_gl db')"
  shows "simulated tn co db db'"
proof -
  have "distinct (map sd_id (sf_advances db))" using ok by (auto simp: fresh_ids_def debts_def comp_def dest: spec [of _ ADVANCE])
  then obtain xs ys where "sf_advances db = xs @ d # ys" "update_where p f (sf_advances db) = xs @ f d # ys"
    using update_found [OF find, of i f] p by blast
  then show ?thesis
    using find_Some_iff_mem [OF find] p [of d]
    by (intro simulated_move [OF ok _ _ _ mv frame(3) books, of "map debt.truncate xs" "map debt.truncate ys"])
      (auto simp: debts_def rows frame fun_eq_iff split: debt_kind.splits)
qed

lemma simulated_fine:
  assumes ok: "fresh_ids db" and find: "find p (sf_fines db) = Some d" and p: "\<And>x. p x \<Longrightarrow> sd_id x = i \<and> sd_tenant x = tn"
    and rows: "sf_fines db' = update_where p f (sf_fines db)"
    and frame: "sf_loans db' = sf_loans db" "sf_advances db' = sf_advances db" "sf_next db' = sf_next db"
    and mv: "debt_move FINE u (debt.truncate d) q (debt.truncate (f d))" and books: "books_move tn co q (sf_gl db) (sf_gl db')"
  shows "simulated tn co db db'"
proof -
  have "distinct (map sd_id (sf_fines db))" using ok by (auto simp: fresh_ids_def debts_def comp_def dest: spec [of _ FINE])
  then obtain xs ys where "sf_fines db = xs @ d # ys" "update_where p f (sf_fines db) = xs @ f d # ys"
    using update_found [OF find, of i f] p by blast
  then show ?thesis
    using find_Some_iff_mem [OF find] p [of d]
    by (intro simulated_move [OF ok _ _ _ mv frame(3) books, of "map debt.truncate xs" "map debt.truncate ys"])
      (auto simp: debts_def rows frame fun_eq_iff split: debt_kind.splits)
qed

lemma simulated_enter:
  assumes ok: "fresh_ids db" and post: "debts db' = (debts db)(k := debts db k @ [d])" and d: "request d" "sd_tenant d = tn"
    and new: "sd_id d = sf_next db" "sf_next db' = Suc (sf_next db)" and gl: "sf_gl db' = sf_gl db"
    and one: "k = ADVANCE \<longrightarrow> \<not> (\<exists>x\<in>set (debts db k). sd_employee x = sd_employee d \<and> sd_tenant x = tn \<and> open_advance x)"
  shows "simulated tn co db db'"
proof -
  have "sd_id x < sf_next db" if "x \<in> set (debts db k)" for x using ok that by (simp add: fresh_ids_def)
  then have out: "sd_id d \<notin> sd_id ` set (debts db k)" using new by fastforce
  then have "register_step tn (debts db) 0 (debts db')" unfolding post using d one by (intro register_step.enter)
  moreover have "fresh_ids db'" using ok new out by (auto simp: fresh_ids_def post less_SucI)
  ultimately show ?thesis unfolding simulated_def gl using books_same by blast
qed

lemma picked_simp: "acts tn co c \<Longrightarrow> picked c i sts d \<longleftrightarrow> sd_id d = i \<and> sd_tenant d = tn \<and> sd_status d \<in> set sts"
  by (auto simp: picked_def acts_def)

lemma pick_Inr [simp]: "pick c i sts msg rows = Inr d \<longleftrightarrow> find (picked c i sts) rows = Some d"
  by (auto simp: pick_def split: option.splits)

lemma assert_other_person_Inr [simp]: "assert_other_person a v msg = Inr u \<longleftrightarrow> other_person a v"
  by (auto simp: assert_other_person_def other_person_def)

lemma found_status: "find (picked c i sts) rows = Some d \<Longrightarrow> sd_status d \<in> set sts"
  using find_Some_iff_mem by (fastforce simp: picked_def)

lemma find_in_all:
  assumes "find (picked c i sts) rows = Some d" and "find (picked c i all) rows = Some d'" and "set sts \<subseteq> set all"
    and "distinct (map sd_id rows)"
  shows "d' = d"
proof -
  have "d \<in> set rows" "d' \<in> set rows" "sd_id d = i" "sd_id d' = i"
    using find_Some_iff_mem [OF assms(1)] find_Some_iff_mem [OF assms(2)] by (auto simp: picked_def)
  then show ?thesis using assms(4) by (auto simp: distinct_map inj_on_def)
qed

lemmas staff_frame = staff_audit_def staff_event_def update_loans_def update_advances_def update_fines_def

lemma simulated_create_loan:
  assumes "create_loan c today no x db = Inr (i, db')" and "acts tn co c" and "fresh_ids db"
  shows "simulated tn co db db'"
  using assms(1)
proof (rule create_loan_Inr)
  fix d :: loan
  assume "sf_loans db' = sf_loans db @ [d]" "i = sf_next db" "sd_id d = i" "sf_next db' = Suc i"
    "cx_tenant c = Some (sd_tenant d)" "sf_gl db' = sf_gl db" "sf_advances db' = sf_advances db" "sf_fines db' = sf_fines db"
    "request (debt.truncate d)"
  then show ?thesis using assms(2,3)
    by (intro simulated_enter [of db db' LOAN "debt.truncate d"]) (auto simp: debts_def acts_def fun_eq_iff split: debt_kind.splits)
qed

lemma simulated_create_advance:
  assumes create: "create_advance c today no v db = Inr (i, db')" and c: "acts tn co c" and ok: "fresh_ids db"
  shows "simulated tn co db db'"
proof -
  obtain emp where emp: "load_employee c (vi_employee v) db = Inr emp"
    using create c by (auto simp: create_advance_def acts_def split: if_splits)
  then have emp_id: "em_id emp = vi_employee v"
    by (auto simp: load_employee_def split: option.splits dest: find_Some_iff_mem)
  obtain d :: advance where d: "sf_advances db' = sf_advances db @ [d]" "sd_id d = sf_next db" "sd_tenant d = tn"
      "sd_employee d = vi_employee v" "request (debt.truncate d)" "sf_next db' = Suc (sf_next db)" "sf_gl db' = sf_gl db"
      "sf_loans db' = sf_loans db" "sf_fines db' = sf_fines db"
    and none: "\<not> (\<exists>x\<in>set (sf_advances db). sd_employee x = vi_employee v \<and> sd_tenant x = tn \<and> open_advance x)"
    using create c emp
    by (auto simp: create_advance_def acts_def staff_frame request_def debt.defs Let_def emp_id split: if_splits)
  then show ?thesis
    by (intro simulated_enter [OF ok, of db' ADVANCE "debt.truncate d"]) (auto simp: debts_def fun_eq_iff split: debt_kind.splits)
qed

lemma simulated_create_fine:
  assumes create: "create_fine c no n db = Inr (i, db')" and c: "acts tn co c" and ok: "fresh_ids db"
  shows "simulated tn co db db'"
proof -
  obtain d :: fine where "sf_fines db' = sf_fines db @ [d]" "sd_id d = sf_next db" "sd_tenant d = tn"
      "request (debt.truncate d)" "sf_next db' = Suc (sf_next db)" "sf_gl db' = sf_gl db"
      "sf_loans db' = sf_loans db" "sf_advances db' = sf_advances db"
    using create c
    by (auto simp: create_fine_def acts_def staff_frame request_def debt.defs Let_def split: if_splits)
  then show ?thesis
    by (intro simulated_enter [OF ok, of db' FINE "debt.truncate d"]) (auto simp: debts_def fun_eq_iff split: debt_kind.splits)
qed

lemma simulated_approve_loan:
  assumes "approve_loan c i db = Inr db'" and c: "acts tn co c" and ok: "fresh_ids db"
  shows "simulated tn co db db'"
proof -
  have ids: "distinct (map sd_id (sf_loans db))" using ok by (auto simp: fresh_ids_def debts_def comp_def dest: spec [of _ LOAN])
  obtain d d' where d: "find (picked c i [''PENDING'']) (sf_loans db) = Some d"
      "find (picked c i all_statuses) (sf_loans db) = Some d'" "other_person (cx_user c) (sd_raised d')"
    and db': "sf_loans db' = update_where (picked c i [''PENDING'']) (\<lambda>x. x\<lparr>sd_status := ''APPROVED'', sd_approved := cx_user c\<rparr>) (sf_loans db)"
      "sf_advances db' = sf_advances db" "sf_fines db' = sf_fines db" "sf_next db' = sf_next db" "sf_gl db' = sf_gl db"
    using assms(1) by (auto simp: approve_loan_def move_loan_def staff_frame)
  have "d' = d" using find_in_all [OF d(1,2) _ ids] by (simp add: all_statuses_def)
  then have "debt_move LOAN (cx_user c) (debt.truncate d) 0 ((debt.truncate d)\<lparr>sd_status := ''APPROVED'', sd_approved := cx_user c\<rparr>)"
    using d(3) found_status [OF d(1)] by (intro debt_move.approve) simp_all
  then show ?thesis
    using simulated_loan [OF ok d(1) _ db'(1-4), of i tn "cx_user c" 0 co] c db'(5) by (simp add: picked_simp)
qed

text \<open>The updates of a loan that only move its status.\<close>

lemma simulated_move_loan:
  assumes "move_loan c i sts st action msg f db = Inr db'" and c: "acts tn co c" and ok: "fresh_ids db"
    and mv: "\<And>d. sd_status d \<in> set sts \<Longrightarrow>
      debt_move LOAN (cx_user c) (debt.truncate d) 0 (debt.truncate (f (d\<lparr>sd_status := st\<rparr>)))"
  shows "simulated tn co db db'"
proof -
  obtain d where d: "find (picked c i sts) (sf_loans db) = Some d"
    and db': "sf_loans db' = update_where (picked c i sts) (\<lambda>x. f (x\<lparr>sd_status := st\<rparr>)) (sf_loans db)"
      "sf_advances db' = sf_advances db" "sf_fines db' = sf_fines db" "sf_next db' = sf_next db" "sf_gl db' = sf_gl db"
    using assms(1) by (auto simp: move_loan_def staff_frame)
  then show ?thesis
    using simulated_loan [OF ok d _ db'(1-4), of i tn "cx_user c" 0 co] c mv [OF found_status [OF d]]
    by (simp add: picked_simp)
qed

lemma simulated_resume_loan: "resume_loan c i db = Inr db' \<Longrightarrow> acts tn co c \<Longrightarrow> fresh_ids db \<Longrightarrow> simulated tn co db db'"
  unfolding resume_loan_def
  by (erule simulated_move_loan) (auto intro!: debt_move.resume)

lemma simulated_pause_loan: "pause_loan c i db = Inr db' \<Longrightarrow> acts tn co c \<Longrightarrow> fresh_ids db \<Longrightarrow> simulated tn co db db'"
  unfolding pause_loan_def
  by (erule simulated_move_loan) (auto intro!: debt_move.pause)

lemma simulated_reject_loan: "reject_loan c i db = Inr db' \<Longrightarrow> acts tn co c \<Longrightarrow> fresh_ids db \<Longrightarrow> simulated tn co db db'"
  unfolding reject_loan_def
  by (erule simulated_move_loan) (auto intro!: debt_move.reject)

lemma simulated_disburse_loan:
  assumes "disburse_loan c today i m db = Inr (j, db')" and c: "acts tn co c" and ok: "fresh_ids db"
  shows "simulated tn co db db'"
proof -
  obtain d pay_by desc ref where d: "find (picked c i [''APPROVED'']) (sf_loans db) = Some d" "other_person (cx_user c) (sd_approved d)"
    and post: "post_pair c today RECEIVABLE (payout_account pay_by) (sd_outstanding d) desc ref (sf_gl db) = Inr (j, sf_gl db')"
    and db': "sf_loans db' = update_where (picked c i [''APPROVED''])
        (\<lambda>x. x\<lparr>sd_status := ''ACTIVE'', sd_paid_out := cx_user c, sd_method := Some pay_by, sd_journal := j\<rparr>) (sf_loans db)"
      "sf_advances db' = sf_advances db" "sf_fines db' = sf_fines db" "sf_next db' = sf_next db"
    using assms(1) by (auto simp: disburse_loan_def staff_frame)
  have "debt_move LOAN (cx_user c) (debt.truncate d) (max 0 (shilling (sd_outstanding d)))
      ((debt.truncate d)\<lparr>sd_status := ''ACTIVE'', sd_paid_out := cx_user c, sd_method := Some pay_by, sd_journal := j\<rparr>)"
    using debt_move.pay_out [of LOAN "debt.truncate d" "cx_user c" j] d found_status [OF d(1)] books_pair(3) [OF post c] by simp
  then show ?thesis
    using simulated_loan [OF ok d(1) _ db'(1-4), of i tn "cx_user c" _ co] c books_pair(1) [OF post c]
    by (simp add: picked_simp)
qed

lemma simulated_write_off_loan:
  assumes "write_off_loan c today i r db = Inr (j, db')" and c: "acts tn co c" and ok: "fresh_ids db"
  shows "simulated tn co db db'"
proof -
  obtain d what where d: "find (picked c i [''ACTIVE'', ''PAUSED'']) (sf_loans db) = Some d"
    and post: "impair c today what ''employee_loans'' i d (sf_gl db) = Inr (j, sf_gl db')"
    and db': "sf_loans db' = update_where (picked c i [''ACTIVE'', ''PAUSED''])
        (\<lambda>x. x\<lparr>sd_status := ''WRITTEN_OFF'', sd_outstanding := 0, ln_balance := 0, ln_interest := 0\<rparr>) (sf_loans db)"
      "sf_advances db' = sf_advances db" "sf_fines db' = sf_fines db" "sf_next db' = sf_next db"
    using assms(1) by (auto simp: write_off_loan_def staff_frame)
  show ?thesis
    using simulated_loan [OF ok d(1) _ db'(1-4), of i tn "cx_user c" _ co] c books_impair [OF post c]
      debt_move.write_off [of "debt.truncate d" "cx_user c"] found_status [OF d(1)]
    by (cases "sd_journal d") (simp_all add: picked_simp)
qed

lemma simulated_approve_advance:
  assumes "approve_advance c i db = Inr db'" and c: "acts tn co c" and ok: "fresh_ids db"
  shows "simulated tn co db db'"
proof -
  obtain d where d: "find (picked c i [''PENDING'']) (sf_advances db) = Some d" "other_person (cx_user c) (sd_raised d)"
    and db': "sf_advances db' = update_where (picked c i [''PENDING'']) (\<lambda>x. x\<lparr>sd_status := ''APPROVED'', sd_approved := cx_user c\<rparr>) (sf_advances db)"
      "sf_loans db' = sf_loans db" "sf_fines db' = sf_fines db" "sf_next db' = sf_next db" "sf_gl db' = sf_gl db"
    using assms(1) by (auto simp: approve_advance_def staff_frame)
  show ?thesis
    using simulated_advance [OF ok d(1) _ db'(1-4), of i tn "cx_user c" 0 co] c db'(5)
      debt_move.approve [of ADVANCE "debt.truncate d" "cx_user c"] d(2) found_status [OF d(1)]
    by (simp add: picked_simp)
qed

lemma simulated_reject_advance:
  assumes "reject_advance c i db = Inr db'" and c: "acts tn co c" and ok: "fresh_ids db"
  shows "simulated tn co db db'"
proof -
  obtain d where d: "find (picked c i [''PENDING'']) (sf_advances db) = Some d"
    and db': "sf_advances db' = update_where (picked c i [''PENDING'']) (\<lambda>x. x\<lparr>sd_status := ''REJECTED'', sd_approved := cx_user c\<rparr>) (sf_advances db)"
      "sf_loans db' = sf_loans db" "sf_fines db' = sf_fines db" "sf_next db' = sf_next db" "sf_gl db' = sf_gl db"
    using assms(1) by (auto simp: reject_advance_def staff_frame)
  show ?thesis
    using simulated_advance [OF ok d(1) _ db'(1-4), of i tn "cx_user c" 0 co] c db'(5)
      debt_move.reject [of "debt.truncate d" ADVANCE "cx_user c"] found_status [OF d(1)]
    by (simp add: picked_simp)
qed

lemma simulated_disburse_advance:
  assumes "disburse_advance c today i m db = Inr (j, db')" and c: "acts tn co c" and ok: "fresh_ids db"
  shows "simulated tn co db db'"
proof -
  obtain d pay_by desc ref where d: "find (picked c i [''APPROVED'']) (sf_advances db) = Some d" "other_person (cx_user c) (sd_approved d)"
    and post: "post_pair c today RECEIVABLE (payout_account pay_by) (sd_outstanding d) desc ref (sf_gl db) = Inr (j, sf_gl db')"
    and db': "sf_advances db' = update_where (picked c i [''APPROVED''])
        (\<lambda>x. x\<lparr>sd_status := ''ACTIVE'', sd_paid_out := cx_user c, sd_method := Some pay_by, sd_journal := j\<rparr>) (sf_advances db)"
      "sf_loans db' = sf_loans db" "sf_fines db' = sf_fines db" "sf_next db' = sf_next db"
    using assms(1) by (auto simp: disburse_advance_def staff_frame)
  have "debt_move ADVANCE (cx_user c) (debt.truncate d) (max 0 (shilling (sd_outstanding d)))
      ((debt.truncate d)\<lparr>sd_status := ''ACTIVE'', sd_paid_out := cx_user c, sd_method := Some pay_by, sd_journal := j\<rparr>)"
    using debt_move.pay_out [of ADVANCE "debt.truncate d" "cx_user c" j] d found_status [OF d(1)] books_pair(3) [OF post c] by simp
  then show ?thesis
    using simulated_advance [OF ok d(1) _ db'(1-4), of i tn "cx_user c" _ co] c books_pair(1) [OF post c]
    by (simp add: picked_simp)
qed

lemma simulated_close_advance:
  assumes "close_advance c i db = Inr db'" and c: "acts tn co c" and ok: "fresh_ids db"
  shows "simulated tn co db db'"
proof -
  obtain d where d: "find (recovered c i) (sf_advances db) = Some d"
    and db': "sf_advances db' = update_where (recovered c i) (\<lambda>x. x\<lparr>sd_status := ''CLOSED''\<rparr>) (sf_advances db)"
      "sf_loans db' = sf_loans db" "sf_fines db' = sf_fines db" "sf_next db' = sf_next db" "sf_gl db' = sf_gl db"
    using assms(1) by (auto simp: close_advance_def staff_frame split: option.splits)
  have "debt_move ADVANCE (cx_user c) (debt.truncate d) 0 ((debt.truncate d)\<lparr>sd_status := ''CLOSED''\<rparr>)"
    using find_Some_iff_mem [OF d] by (intro debt_move.close) (auto simp: recovered_def picked_def)
  then show ?thesis
    using simulated_advance [OF ok d _ db'(1-4), of i tn "cx_user c" 0 co] c db'(5)
    by (simp add: recovered_def picked_simp)
qed

lemma simulated_waive_advance:
  assumes "waive_advance c today i r db = Inr (j, db')" and c: "acts tn co c" and ok: "fresh_ids db"
  shows "simulated tn co db db'"
proof -
  obtain d what where d: "find (picked c i [''ACTIVE'']) (sf_advances db) = Some d"
    and post: "impair c today what ''salary_advances'' i d (sf_gl db) = Inr (j, sf_gl db')"
    and db': "sf_advances db' = update_where (picked c i [''ACTIVE'']) (\<lambda>x. x\<lparr>sd_status := ''WAIVED'', sd_outstanding := 0\<rparr>) (sf_advances db)"
      "sf_loans db' = sf_loans db" "sf_fines db' = sf_fines db" "sf_next db' = sf_next db"
    using assms(1) by (auto simp: waive_advance_def staff_frame)
  show ?thesis
    using simulated_advance [OF ok d(1) _ db'(1-4), of i tn "cx_user c" _ co] c books_impair [OF post c]
      debt_move.waive [of ADVANCE "debt.truncate d" "cx_user c"] found_status [OF d(1)]
    by (cases "sd_journal d") (simp_all add: picked_simp)
qed

lemma simulated_approve_fine:
  assumes "approve_fine c today i db = Inr (j, db')" and c: "acts tn co c" and ok: "fresh_ids db"
  shows "simulated tn co db db'"
proof -
  obtain d desc ref where d: "find (picked c i [''PENDING'']) (sf_fines db) = Some d" "other_person (cx_user c) (sd_raised d)"
    and post: "post_pair c today RECEIVABLE OTHER_INCOME (sd_outstanding d) desc ref (sf_gl db) = Inr (j, sf_gl db')"
    and db': "sf_fines db' = update_where (picked c i [''PENDING''])
        (\<lambda>x. x\<lparr>sd_status := ''ACTIVE'', sd_approved := cx_user c, sd_journal := j\<rparr>) (sf_fines db)"
      "sf_loans db' = sf_loans db" "sf_advances db' = sf_advances db" "sf_next db' = sf_next db"
    using assms(1) by (auto simp: approve_fine_def staff_frame)
  have "debt_move FINE (cx_user c) (debt.truncate d) (max 0 (shilling (sd_outstanding d)))
      ((debt.truncate d)\<lparr>sd_status := ''ACTIVE'', sd_approved := cx_user c, sd_journal := j\<rparr>)"
    using debt_move.impose [of "debt.truncate d" "cx_user c" j] d found_status [OF d(1)] books_pair(3) [OF post c] by simp
  then show ?thesis
    using simulated_fine [OF ok d(1) _ db'(1-4), of i tn "cx_user c" _ co] c books_pair(1) [OF post c]
    by (simp add: picked_simp)
qed

lemma simulated_reject_fine:
  assumes "reject_fine c i db = Inr db'" and c: "acts tn co c" and ok: "fresh_ids db"
  shows "simulated tn co db db'"
proof -
  obtain d where d: "find (picked c i [''PENDING'']) (sf_fines db) = Some d"
    and db': "sf_fines db' = update_where (picked c i [''PENDING'']) (\<lambda>x. x\<lparr>sd_status := ''REJECTED'', sd_approved := cx_user c\<rparr>) (sf_fines db)"
      "sf_loans db' = sf_loans db" "sf_advances db' = sf_advances db" "sf_next db' = sf_next db" "sf_gl db' = sf_gl db"
    using assms(1) by (auto simp: reject_fine_def staff_frame)
  show ?thesis
    using simulated_fine [OF ok d(1) _ db'(1-4), of i tn "cx_user c" 0 co] c db'(5)
      debt_move.reject [of "debt.truncate d" FINE "cx_user c"] found_status [OF d(1)]
    by (simp add: picked_simp)
qed

lemma simulated_waive_fine:
  assumes "waive_fine c today i r db = Inr (j, db')" and c: "acts tn co c" and ok: "fresh_ids db"
  shows "simulated tn co db db'"
proof -
  obtain d what where d: "find (picked c i [''ACTIVE'']) (sf_fines db) = Some d"
    and post: "impair c today what ''employee_fines'' i d (sf_gl db) = Inr (j, sf_gl db')"
    and db': "sf_fines db' = update_where (picked c i [''ACTIVE'']) (\<lambda>x. x\<lparr>sd_status := ''WAIVED'', sd_outstanding := 0\<rparr>) (sf_fines db)"
      "sf_loans db' = sf_loans db" "sf_advances db' = sf_advances db" "sf_next db' = sf_next db"
    using assms(1) by (auto simp: waive_fine_def staff_frame)
  show ?thesis
    using simulated_fine [OF ok d(1) _ db'(1-4), of i tn "cx_user c" _ co] c books_impair [OF post c]
      debt_move.waive [of FINE "debt.truncate d" "cx_user c"] found_status [OF d(1)]
    by (cases "sd_journal d") (simp_all add: picked_simp)
qed

lemmas simulated_operations = simulated_create_loan simulated_approve_loan simulated_disburse_loan simulated_resume_loan
  simulated_reject_loan simulated_pause_loan simulated_write_off_loan simulated_create_advance simulated_approve_advance
  simulated_disburse_advance simulated_reject_advance simulated_close_advance simulated_waive_advance
  simulated_create_fine simulated_approve_fine simulated_reject_fine simulated_waive_fine

lemma staff_step_simulated:
  assumes "staff_step tn co db db'" and "fresh_ids db"
  shows "simulated tn co db db'"
  using assms(1) by cases (erule (1) simulated_operations [OF _ _ assms(2)])+

subsection \<open>Sequences of operations\<close>

inductive register_steps :: "row_id \<Rightarrow> (debt_kind \<Rightarrow> debt list) \<Rightarrow> rat \<Rightarrow> (debt_kind \<Rightarrow> debt list) \<Rightarrow> bool" where
  none: "register_steps tn D 0 D"
| more: "register_steps tn D q D1 \<Longrightarrow> register_step tn D1 q1 D2 \<Longrightarrow> register_steps tn D (q + q1) D2"

lemma books_move_trans: "books_move tn co p gl gl1 \<Longrightarrow> books_move tn co q gl1 gl2 \<Longrightarrow> books_move tn co (p + q) gl gl2"
  by (auto simp: books_move_def find_account_def)

theorem staff_service_refines_register:
  assumes "(staff_step tn co)\<^sup>*\<^sup>* db db'" and "fresh_ids db"
  shows "fresh_ids db' \<and> (\<exists>q. register_steps tn (debts db) q (debts db') \<and> books_move tn co q (sf_gl db) (sf_gl db'))"
  using assms(1)
proof induction
  case base
  show ?case using assms(2) register_steps.none books_same by blast
next
  case (step db1 db2)
  then obtain q q1 where q: "register_steps tn (debts db) q (debts db1)" "books_move tn co q (sf_gl db) (sf_gl db1)"
    and q1: "fresh_ids db2" "register_step tn (debts db1) q1 (debts db2)" "books_move tn co q1 (sf_gl db1) (sf_gl db2)"
    using staff_step_simulated [OF step.hyps(2)] by (auto simp: simulated_def)
  show ?case
    using register_steps.more [OF q(1) q1(2)] books_move_trans [OF q(2) q1(3)] q1(1) by blast
qed

text \<open>
  A property of single debts that requests have and moves keep holds of every debt of the register.
\<close>

locale debt_law =
  fixes P :: "debt_kind \<Rightarrow> debt \<Rightarrow> bool"
  assumes at_entry: "request d \<Longrightarrow> P k d"
    and at_move: "debt_move k u d q d' \<Longrightarrow> P k d \<Longrightarrow> P k d'"
begin

lemma move_keeps:
  assumes "register_step tn D q D'" and "\<forall>k. \<forall>d\<in>set (D k). P k d"
  shows "\<forall>k. \<forall>d\<in>set (D' k). P k d"
  using assms
proof cases
  case (move k xs d ys u d')
  then have "P k d" using assms(2) by (auto dest: spec [of _ k])
  then have "P k d'" using at_move move by blast
  moreover have "\<forall>x\<in>set xs \<union> set ys. P k x" using assms(2) move(2) by (auto dest: spec [of _ k])
  ultimately show ?thesis using assms(2) move(1) by auto
qed (auto intro: at_entry)

lemma run_keeps:
  "register_steps tn D q D' \<Longrightarrow> \<forall>k. \<forall>d\<in>set (D k). P k d \<Longrightarrow> \<forall>k. \<forall>d\<in>set (D' k). P k d"
  by (induction rule: register_steps.induct) (auto dest: move_keeps)

lemma operation_keeps:
  assumes "(staff_step tn co)\<^sup>*\<^sup>* db db'" and "fresh_ids db" and "\<forall>k. \<forall>d\<in>set (debts db k). P k d"
  shows "\<forall>k. \<forall>d\<in>set (debts db' k). P k d"
  using staff_service_refines_register [OF assms(1,2)] run_keeps assms(3) by blast

end

text \<open>The statuses that the check constraints of the three tables allow, and whole amounts.\<close>

definition kind_statuses :: "debt_kind \<Rightarrow> string list" where
  "kind_statuses k =
     (case k of
        LOAN \<Rightarrow> [''PENDING'', ''APPROVED'', ''ACTIVE'', ''PAUSED'', ''CLOSED'', ''REJECTED'', ''WRITTEN_OFF'', ''PAID'']
      | ADVANCE \<Rightarrow> [''PENDING'', ''APPROVED'', ''ACTIVE'', ''PAID'', ''CLOSED'', ''REJECTED'', ''WAIVED'']
      | FINE \<Rightarrow> [''PENDING'', ''APPROVED'', ''ACTIVE'', ''PAID'', ''REJECTED'', ''WAIVED''])"

definition on_books :: "debt_kind \<Rightarrow> debt \<Rightarrow> bool" where
  "on_books k d \<longleftrightarrow> sd_status d = ''ACTIVE'' \<or> k = LOAN \<and> sd_status d = ''PAUSED''"

definition well_formed :: "debt_kind \<Rightarrow> debt \<Rightarrow> bool" where
  "well_formed k d \<longleftrightarrow> sd_status d \<in> set (kind_statuses k) \<and> shilling (sd_outstanding d) = sd_outstanding d
     \<and> 0 \<le> sd_outstanding d \<and> (on_books k d \<and> sd_journal d = None \<longrightarrow> sd_outstanding d = 0)"

lemma debt_move_well_formed:
  assumes "debt_move k u d q d'" and "well_formed k d"
  shows "well_formed k d' \<and> q = (if on_books k d' then sd_outstanding d' else 0) - (if on_books k d then sd_outstanding d else 0)"
  using assms
  by cases (auto simp: well_formed_def on_books_def kind_statuses_def s1.rnd_zero split: debt_kind.splits)

interpretation forms: debt_law well_formed
proof
  fix d k
  assume "request d"
  then show "well_formed k d"
    by (cases k) (auto simp: request_def well_formed_def kind_statuses_def on_books_def)
qed (use debt_move_well_formed in blast)

text \<open>
  C30. Whatever the staff service does, every row of the three tables keeps a status that its table allows,
  a balance in whole shillings that is not negative, and, while it is on the books with no journal
  behind it, a balance of zero; ids stay unique per table.
\<close>

theorem staff_rows_stay_well_formed:
  assumes "(staff_step tn co)\<^sup>*\<^sup>* db db'" and "fresh_ids db" and "\<forall>k. \<forall>d\<in>set (debts db k). well_formed k d"
  shows "fresh_ids db' \<and> (\<forall>k. \<forall>d\<in>set (debts db' k). well_formed k d)"
  using forms.operation_keeps [OF assms] staff_service_refines_register [OF assms(1,2)] by blast

text \<open>Who acted on a debt: nobody approves what they raised, and the approver does not pay out.\<close>

definition separated :: "debt_kind \<Rightarrow> debt \<Rightarrow> bool" where
  "separated k d \<longleftrightarrow>
     (sd_status d \<notin> {''PENDING'', ''REJECTED''} \<longrightarrow> other_person (sd_approved d) (sd_raised d))
     \<and> (sd_status d \<in> {''PENDING'', ''APPROVED'', ''REJECTED''} \<longrightarrow> sd_paid_out d = None)
     \<and> other_person (sd_paid_out d) (sd_approved d)"

interpretation duties: debt_law separated
proof
  fix d k
  assume "request d"
  then show "separated k d" by (auto simp: request_def separated_def other_person_def)
next
  fix k u d q d'
  assume "debt_move k u d q d'" "separated k d"
  then show "separated k d'" by cases (auto simp: separated_def other_person_def)
qed

text \<open>
  C29. No debt of the staff is approved by the person who raised it, and no loan or advance is paid out by
  the person who approved it, in any state that a sequence of operations can reach. (A user
  that the request does not know is nobody in this sense, as in the code.)
\<close>

theorem staff_duties_are_separated:
  assumes "(staff_step tn co)\<^sup>*\<^sup>* db db'" and "fresh_ids db" and "\<forall>k. \<forall>d\<in>set (debts db k). separated k d"
    and d: "d \<in> set (debts db' k)" "sd_status d \<noteq> ''PENDING''" "sd_status d \<noteq> ''REJECTED''"
  shows "\<not> (sd_raised d = Some u \<and> sd_approved d = Some u) \<and> \<not> (sd_approved d = Some u \<and> sd_paid_out d = Some u)"
proof -
  have "separated k d" using duties.operation_keeps [OF assms(1-3)] d(1) by blast
  then show ?thesis using d by (auto simp: separated_def other_person_def)
qed

subsection \<open>The receivable\<close>

definition owed_on :: "row_id \<Rightarrow> debt_kind \<Rightarrow> debt list \<Rightarrow> rat" where
  "owed_on tn k ds = (\<Sum>d\<leftarrow>ds. if sd_tenant d = tn \<and> on_books k d then sd_outstanding d else 0)"

definition staff_owe :: "row_id \<Rightarrow> staff_db \<Rightarrow> rat" where
  "staff_owe tn db = owed_on tn LOAN (debts db LOAN) + owed_on tn ADVANCE (debts db ADVANCE) + owed_on tn FINE (debts db FINE)"

definition register_owes :: "row_id \<Rightarrow> (debt_kind \<Rightarrow> debt list) \<Rightarrow> rat" where
  "register_owes tn D = owed_on tn LOAN (D LOAN) + owed_on tn ADVANCE (D ADVANCE) + owed_on tn FINE (D FINE)"

lemma register_owes_update: "register_owes tn (D(k := ds)) = register_owes tn D - owed_on tn k (D k) + owed_on tn k ds"
  by (cases k) (simp_all add: register_owes_def)

lemma register_step_owes:
  assumes "register_step tn D q D'" and "\<forall>k. \<forall>d\<in>set (D k). well_formed k d"
  shows "register_owes tn D' = register_owes tn D + q"
  using assms(1)
proof cases
  case (enter d k)
  have "\<not> on_books k d" using enter(3) by (auto simp: request_def on_books_def)
  then show ?thesis using enter by (simp add: register_owes_update owed_on_def)
next
  case (move k xs d ys u d')
  have "well_formed k d" using assms(2) move(2) by (auto dest: spec [of _ k])
  moreover have "sd_tenant d' = sd_tenant d" using move(4) by cases simp_all
  ultimately show ?thesis
    using debt_move_well_formed [OF move(4)] move by (simp add: register_owes_update owed_on_def)
qed

lemma register_steps_owe:
  "register_steps tn D q D' \<Longrightarrow> \<forall>k. \<forall>d\<in>set (D k). well_formed k d \<Longrightarrow> register_owes tn D' = register_owes tn D + q"
proof (induction rule: register_steps.induct)
  case (more tn D q D1 q1 D2)
  then show ?case using register_step_owes [OF more.hyps(2)] forms.run_keeps [OF more.hyps(1)] by simp
qed simp

text \<open>
  C28. The ledger carries what the staff owe: over any sequence of operations of the users of a company, the
  posted balance of its staff receivable moves by exactly as much as the sum of the balances of
  the loans, advances and fines that are on the books.
\<close>

theorem receivable_follows_the_debts:
  assumes run: "(staff_step tn co)\<^sup>*\<^sup>* db db'" and ok: "fresh_ids db" "\<forall>k. \<forall>d\<in>set (debts db k). well_formed k d"
    and c: "acts tn co c" and a: "find_account c RECEIVABLE (sf_gl db) = Some a"
    and apart: "distinct (map ac_id (fd_accounts (sf_gl db)))"
  shows "posted_balance c a (sf_gl db') - posted_balance c a (sf_gl db) = staff_owe tn db' - staff_owe tn db"
proof -
  obtain q where "register_steps tn (debts db) q (debts db')" "books_move tn co q (sf_gl db) (sf_gl db')"
    using staff_service_refines_register [OF run ok(1)] by blast
  then show ?thesis
    using register_steps_owe ok(2) c a apart by (simp add: staff_owe_def register_owes_def books_move_def)
qed

subsection \<open>One advance at a time\<close>

definition open_advances :: "row_id \<Rightarrow> row_id \<Rightarrow> debt list \<Rightarrow> debt list" where
  "open_advances tn e ds = filter (\<lambda>d. sd_employee d = e \<and> sd_tenant d = tn \<and> open_advance d) ds"

lemma register_step_one_advance:
  assumes "register_step tn D q D'" and "\<forall>e. length (open_advances tn e (D ADVANCE)) \<le> 1"
  shows "\<forall>e. length (open_advances tn e (D' ADVANCE)) \<le> 1"
  using assms(1)
proof cases
  case (enter d k)
  have "open_advances tn (sd_employee d) (D ADVANCE) = []" if "k = ADVANCE"
    using enter that by (auto simp: open_advances_def filter_empty_conv)
  then show ?thesis using assms(2) by (auto simp: open_advances_def enter(2))
next
  case (move k xs d ys u d')
  have "sd_employee d' = sd_employee d \<and> sd_tenant d' = sd_tenant d \<and> (open_advance d' \<longrightarrow> open_advance d)" if "k = ADVANCE"
    using move(4) that by cases (auto simp: open_advance_def)
  then have "length (open_advances tn e (xs @ d' # ys)) \<le> length (open_advances tn e (xs @ d # ys))" if "k = ADVANCE" for e
    using that by (auto simp: open_advances_def)
  then show ?thesis using assms(2) move(1,2) le_trans by (cases "k = ADVANCE") fastforce+
qed

text \<open>
  An employee never has two advances that are requested, approved or still being recovered: if that
  holds at the start it holds after every sequence of operations.
\<close>

theorem one_open_advance_each:
  assumes "(staff_step tn co)\<^sup>*\<^sup>* db db'" and "fresh_ids db" and "\<forall>e. length (open_advances tn e (debts db ADVANCE)) \<le> 1"
  shows "length (open_advances tn e (debts db' ADVANCE)) \<le> 1"
proof -
  have "register_steps tn D q D' \<Longrightarrow> \<forall>e. length (open_advances tn e (D ADVANCE)) \<le> 1 \<Longrightarrow>
      \<forall>e. length (open_advances tn e (D' ADVANCE)) \<le> 1" for D q D'
    by (induction rule: register_steps.induct) (auto dest: register_step_one_advance)
  then show ?thesis using staff_service_refines_register [OF assms(1,2)] assms(3) by blast
qed

subsection \<open>What a payout takes from the bank\<close>

text \<open>
  C31. Paying out a loan credits the payout account with the balance of the loan, its interest included:
  the bank is lowered by more than the principal that the employee receives.
\<close>

theorem payout_takes_interest_too:
  assumes pay: "disburse_loan c today i (Some ''BANK'') db = Inr (j, db')" and c: "acts tn co c"
    and d: "find (picked c i [''APPROVED'']) (sf_loans db) = Some d" "sd_outstanding d = sd_amount d + ln_interest d"
      "shilling (sd_outstanding d) = sd_outstanding d" "0 < sd_outstanding d"
    and b: "find_account c BANK (sf_gl db) = Some b" and apart: "distinct (map ac_id (fd_accounts (sf_gl db)))"
  shows "posted_balance c b (sf_gl db') = posted_balance c b (sf_gl db) - sd_amount d - ln_interest d"
proof -
  have "payment_method (Some ''BANK'') = Inr ''BANK''" by code_simp
  then obtain desc ref where post: "post_pair c today RECEIVABLE BANK (sd_outstanding d) desc ref (sf_gl db) = Inr (j, sf_gl db')"
    using pay d(1) by (auto simp: disburse_loan_def staff_frame payout_account_def)
  from post show ?thesis
  proof (cases rule: post_pair_Inr)
    case (2 e r k)
    have "r \<noteq> b" using find_account_apart [OF apart 2(3), of BANK] b by (auto simp: RECEIVABLE_def BANK_def)
    then have "line_movement b e = - sd_outstanding d" using 2 b d(3) by (simp add: line_movement_def dr_def cr_def)
    then show ?thesis
      using posted_balance_snoc [OF _ 2(5,7,8), of tn b] c d(2) by (simp add: acts_def)
  qed (use d in simp)
qed

subsection \<open>A loan, an advance and a fine\<close>

definition staff_user :: "row_id \<Rightarrow> ctx" where
  "staff_user u = \<lparr>cx_tenant = Some 1, cx_company = Some 2, cx_branch = None, cx_user = Some u\<rparr>"

definition staff_accounts :: "account list" where
  "staff_accounts = map (\<lambda>(i, code). \<lparr>ac_id = i, ac_company = 2, ac_code = code, ac_active = True\<rparr>)
     [(1, RECEIVABLE), (2, BANK), (3, PETTY), (4, IMPAIRMENT), (5, OTHER_INCOME)]"

definition staff_gl :: finance_db where
  "staff_gl =
     \<lparr>fd_accounts = staff_accounts, fd_periods = [\<lparr>fp_id = 1, fp_tenant = 1, fp_company = 2, fp_code = ''P1'', fp_start = 20454,
        fp_end = 20484, fp_status = ''OPEN'', fp_closed_by = None\<rparr>],
      fd_rules = [], fd_budgets = [], fd_commitments = [], fd_entries = [], fd_invoices = [], fd_receipts = [],
      fd_allocations = [], fd_credit_notes = [], fd_debit_notes = [], fd_supplier_invoices = [],
      fd_supplier_payments = [], fd_settings = [], fd_next = 1, fd_events = [], fd_audit = []\<rparr>"

definition staff_start :: staff_db where
  "staff_start =
     \<lparr>sf_employees = [sample_employee 5 900000], sf_settings = [], sf_loans = [], sf_advances = [], sf_fines = [],
      sf_gl = staff_gl, sf_next = 1, sf_audit = [], sf_events = []\<rparr>"

definition sample_loan :: loan_input where
  "sample_loan = \<lparr>li_employee = 5, li_amount = 1200000, li_rate = Some 12, li_tenure = Some 6, li_monthly = None,
     li_start = Some 20454, li_reason = None\<rparr>"

text \<open>A loan and an advance that user 7 raised.\<close>

definition pending_debt :: "row_id \<Rightarrow> string \<Rightarrow> rat \<Rightarrow> rat \<Rightarrow> debt" where
  "pending_debt i no q owed =
     \<lparr>sd_id = i, sd_tenant = 1, sd_company = 2, sd_employee = 5, sd_no = no, sd_amount = q, sd_outstanding = owed, sd_monthly = owed,
      sd_status = ''PENDING'', sd_raised = Some 7, sd_approved = None, sd_paid_out = None, sd_method = None,
      sd_journal = None, sd_reason = None\<rparr>"

definition staff_raised :: staff_db where
  "staff_raised = staff_start
     \<lparr>sf_loans := [debt.extend (pending_debt 1 ''LN-1'' 1200000 1272000)
        (loan.fields 1272000 12 72000 6 20454 20605 [])],
      sf_advances := [debt.extend (pending_debt 2 ''ADV-1'' 300000 300000) (advance.fields 20460 [])],
      sf_next := 3\<rparr>"

definition staff_state :: "('a \<times> staff_db) result \<Rightarrow> staff_db \<Rightarrow> staff_db" where
  "staff_state r db = (case r of Inl _ \<Rightarrow> db | Inr (_, db') \<Rightarrow> db')"

definition staff_state' :: "staff_db result \<Rightarrow> staff_db \<Rightarrow> staff_db" where
  "staff_state' r db = (case r of Inl _ \<Rightarrow> db | Inr db' \<Rightarrow> db')"

definition staff_approved :: staff_db where
  "staff_approved = staff_state' (approve_loan (staff_user 8) 1 staff_raised) staff_raised"

definition staff_paid :: staff_db where
  "staff_paid = staff_state (disburse_loan (staff_user 9) 20461 1 (Some ''BANK'') staff_approved) staff_approved"

lemma staff_step_state:
  "acts tn co c \<Longrightarrow> (staff_step tn co)\<^sup>*\<^sup>* db (staff_state' (approve_loan c i db) db)"
  "acts tn co c \<Longrightarrow> (staff_step tn co)\<^sup>*\<^sup>* db (staff_state (disburse_loan c today i m db) db)"
  by (auto simp: staff_state_def staff_state'_def split: sum.splits intro: staff_step.intros)

lemma staff_user_acts [simp]: "acts 1 2 (staff_user u)"
  by (simp add: acts_def staff_user_def)

lemma staff_trace: "(staff_step 1 2)\<^sup>*\<^sup>* staff_raised staff_paid"
  unfolding staff_paid_def staff_approved_def
  by (rule rtranclp_trans [OF staff_step_state(1) staff_step_state(2)]) (rule staff_user_acts)+

lemma staff_raised_ok: "fresh_ids staff_raised" "\<forall>k. \<forall>d\<in>set (debts staff_raised k). well_formed k d"
    "\<forall>k. \<forall>d\<in>set (debts staff_raised k). separated k d"
proof -
  have "shilling 1272000 = 1272000" "shilling 300000 = 300000" by code_simp+
  then show "fresh_ids staff_raised" "\<forall>k. \<forall>d\<in>set (debts staff_raised k). well_formed k d"
      "\<forall>k. \<forall>d\<in>set (debts staff_raised k). separated k d"
    by (auto simp: staff_raised_def staff_start_def pending_debt_def fresh_ids_def debts_def debt.defs loan.defs advance.defs
        well_formed_def separated_def other_person_def kind_statuses_def on_books_def split: debt_kind.splits)
qed

lemma staff_accounts_apart: "distinct (map ac_id (fd_accounts staff_gl))"
  by (simp add: staff_gl_def staff_accounts_def)

lemma new_loan_has_a_schedule_witness:
  "\<exists>i db d. create_loan (staff_user 7) 20460 ''LN-1'' sample_loan staff_start = Inr (i, db) \<and> sf_loans db = [d]
     \<and> sd_outstanding d = 1272000 \<and> length (ln_schedule d) = 6 \<and> loan_schedule_ok d"
proof -
  let ?create = "create_loan (staff_user 7) 20460 ''LN-1'' sample_loan staff_start"
  have "case ?create of Inl _ \<Rightarrow> False
      | Inr (_, db) \<Rightarrow> map sd_outstanding (sf_loans db) = [1272000] \<and> map (\<lambda>d. length (ln_schedule d)) (sf_loans db) = [6]"
    by code_simp
  then obtain i db where create: "?create = Inr (i, db)"
    and shape: "map sd_outstanding (sf_loans db) = [1272000]" "map (\<lambda>d. length (ln_schedule d)) (sf_loans db) = [6]"
    by (auto split: sum.splits)
  obtain d where "sf_loans db = sf_loans staff_start @ [d]" "loan_schedule_ok d"
    using new_loan_has_a_schedule [OF create] by blast
  then show ?thesis using create shape by (intro exI [of _ i] exI [of _ db] exI [of _ d]) (simp add: staff_start_def)
qed

lemma staff_rows_stay_well_formed_witness:
  "map sd_status (debts staff_paid LOAN) = [''ACTIVE'']
     \<and> filter (\<lambda>d. \<not> well_formed LOAN d) (debts staff_paid LOAN) = []"
proof -
  have "map sd_status (debts staff_paid LOAN) = [''ACTIVE'']" by code_simp
  then show ?thesis
    using staff_rows_stay_well_formed [OF staff_trace staff_raised_ok(1,2)] by (auto simp: filter_empty_conv)
qed

lemma staff_duties_are_separated_witness:
  "\<exists>d\<in>set (debts staff_paid LOAN). sd_approved d = Some 8 \<and> sd_raised d \<noteq> Some 8 \<and> sd_paid_out d \<noteq> Some 8"
proof -
  have "map sd_status (debts staff_paid LOAN) = [''ACTIVE'']" "map sd_approved (debts staff_paid LOAN) = [Some 8]"
    by code_simp+
  then obtain d where d: "d \<in> set (debts staff_paid LOAN)" "sd_status d = ''ACTIVE''" "sd_approved d = Some 8"
    by (cases "debts staff_paid LOAN") auto
  have "\<not> (sd_raised d = Some 8 \<and> sd_approved d = Some 8) \<and> \<not> (sd_approved d = Some 8 \<and> sd_paid_out d = Some 8)"
    by (rule staff_duties_are_separated [OF staff_trace staff_raised_ok(1,3) d(1)]) (simp_all add: d)
  then show ?thesis using d by auto
qed

lemma receivable_follows_the_debts_witness:
  "staff_owe 1 staff_paid = 1272000 \<and> posted_balance (staff_user 9) 1 (sf_gl staff_paid) = 1272000"
proof -
  have owe: "staff_owe 1 staff_paid = 1272000" "staff_owe 1 staff_raised = 0" "posted_balance (staff_user 9) 1 (sf_gl staff_raised) = 0"
    by code_simp+
  have a: "find_account (staff_user 9) RECEIVABLE (sf_gl staff_raised) = Some 1" by code_simp
  have "posted_balance (staff_user 9) 1 (sf_gl staff_paid) - posted_balance (staff_user 9) 1 (sf_gl staff_raised)
      = staff_owe 1 staff_paid - staff_owe 1 staff_raised"
    by (rule receivable_follows_the_debts [OF staff_trace staff_raised_ok(1,2) staff_user_acts a])
      (simp add: staff_raised_def staff_start_def staff_accounts_apart)
  then show ?thesis using owe by simp
qed

lemma one_open_advance_each_witness:
  "open_advances 1 5 (debts staff_paid ADVANCE) \<noteq> [] \<and> length (open_advances 1 5 (debts staff_paid ADVANCE)) \<le> 1"
proof -
  have "open_advances 1 5 (debts staff_paid ADVANCE) \<noteq> []" by code_simp
  moreover have "length (open_advances 1 e (debts staff_raised ADVANCE)) \<le> 1" for e
    by (simp add: debts_def staff_raised_def open_advances_def)
  ultimately show ?thesis using one_open_advance_each [OF staff_trace staff_raised_ok(1)] by blast
qed

lemma payout_takes_interest_too_witness:
  "\<exists>j db. disburse_loan (staff_user 9) 20461 1 (Some ''BANK'') staff_approved = Inr (j, db)
     \<and> posted_balance (staff_user 9) 2 (sf_gl db) = - 1272000 \<and> map sd_amount (sf_loans db) = [1200000]"
proof -
  let ?pay = "disburse_loan (staff_user 9) 20461 1 (Some ''BANK'') staff_approved"
  have "case ?pay of Inl _ \<Rightarrow> False | Inr (_, db) \<Rightarrow> map sd_amount (sf_loans db) = [1200000]" by code_simp
  then obtain j db where pay: "?pay = Inr (j, db)" and amounts: "map sd_amount (sf_loans db) = [1200000]"
    by (auto split: sum.splits)
  have "case find (picked (staff_user 9) 1 [''APPROVED'']) (sf_loans staff_approved) of None \<Rightarrow> False
      | Some d \<Rightarrow> sd_outstanding d = 1272000 \<and> sd_amount d = 1200000 \<and> ln_interest d = 72000"
    by code_simp
  then obtain d where d: "find (picked (staff_user 9) 1 [''APPROVED'']) (sf_loans staff_approved) = Some d"
    and owes: "sd_outstanding d = 1272000" "sd_amount d = 1200000" "ln_interest d = 72000"
    by (auto split: option.splits)
  have gl: "find_account (staff_user 9) BANK (sf_gl staff_approved) = Some 2" "posted_balance (staff_user 9) 2 (sf_gl staff_approved) = 0"
    "map ac_id (fd_accounts (sf_gl staff_approved)) = [1, 2, 3, 4, 5]" by code_simp+
  have "shilling 1272000 = 1272000" by code_simp
  then have "posted_balance (staff_user 9) 2 (sf_gl db) = posted_balance (staff_user 9) 2 (sf_gl staff_approved) - sd_amount d - ln_interest d"
    by (intro payout_takes_interest_too [OF pay staff_user_acts d]) (simp_all add: owes gl)
  then show ?thesis using pay amounts gl owes by (intro exI [of _ j] exI [of _ db]) simp
qed

text \<open>A loan with no stated installment need not clear over its term: rounding down leaves one more month.\<close>

lemma loan_outlasts_its_term:
  "case create_loan (staff_user 7) 20460 ''LN-1''
       \<lparr>li_employee = 5, li_amount = 100000, li_rate = None, li_tenure = Some 3, li_monthly = None, li_start = Some 20454,
        li_reason = None\<rparr> staff_start of
     Inl _ \<Rightarrow> False | Inr (_, db) \<Rightarrow> map (\<lambda>d. map im_amount (ln_schedule d)) (sf_loans db) = [[33333, 33333, 33333, 1]]"
  by code_simp

end
