(* ===== verification/Business_Time.thy ===== *)
theory Business_Time
  imports Calendar
begin

text \<open>
  The business-hours arithmetic of the service desk, the SQL functions of
  \<^verbatim>\<open>packages/db/migrations/0153_service_desk_sla_engine.sql\<close> that \<open>computeSlaWindow\<close> of
  \<^verbatim>\<open>apps/api/src/services/serviceDeskSla.ts\<close> calls. Instants and local timestamps are milliseconds,
  a time of day is milliseconds since midnight. The time-zone database is an argument: a
  function from instants to local timestamps and one back, per zone. Minutes are computed without
  the rounding of a numeric division. The columns of a calendar are \<open>NOT NULL\<close>, so the defaults
  of the functions never apply. The lemmas show that a deadline found by the walk lies in the opening
  hours of a working day and that the counting function gives the minutes of the deadline back, and
  when the walk finds one at all.
\<close>

abbreviation minute_ms :: int where "minute_ms \<equiv> 60000"
abbreviation day_ms :: int where "day_ms \<equiv> 86400000"

record zones =
  zn_local :: "string \<Rightarrow> int \<Rightarrow> int"
  zn_instant :: "string \<Rightarrow> int \<Rightarrow> int"

text \<open>The working time of a calendar, as the functions take it.\<close>

record business_calendar =
  bc_zone :: string
  bc_days :: "int list"
  bc_start :: int
  bc_end :: int
  bc_holidays :: "date list"

text \<open>\<open>EXTRACT(ISODOW ..)\<close>: Monday is 1, Sunday is 7.\<close>

definition isodow :: "date \<Rightarrow> int" where
  "isodow d = (d + 3) mod 7 + 1"

definition working_day :: "business_calendar \<Rightarrow> date \<Rightarrow> bool" where
  "working_day k d \<longleftrightarrow> isodow d \<in> set (bc_days k) \<and> d \<notin> set (bc_holidays k)"

text \<open>\<open>v_date + 1 + v_start\<close>, and the snap to the start of the window.\<close>

definition next_opening :: "business_calendar \<Rightarrow> int \<Rightarrow> int" where
  "next_opening k cur = (cur div day_ms + 1) * day_ms + bc_start k"

definition snap :: "business_calendar \<Rightarrow> int \<Rightarrow> int" where
  "snap k cur = (if cur mod day_ms < bc_start k then cur div day_ms * day_ms + bc_start k else cur)"

text \<open>
  The loop of \<open>service_add_business_minutes\<close>; the first number counts the passes that the guard still
  allows, \<open>None\<close> is the tripped guard. What remains stays positive, so the loop condition holds on
  every pass.
\<close>

primrec walk :: "business_calendar \<Rightarrow> nat \<Rightarrow> int \<Rightarrow> int \<Rightarrow> int option" where
  "walk k 0 remaining cur = None"
| "walk k (Suc guard) remaining cur =
     (if \<not> working_day k (cur div day_ms) then walk k guard remaining (next_opening k cur)
      else if bc_end k \<le> snap k cur mod day_ms then walk k guard remaining (next_opening k cur)
      else
        (let avail = bc_end k - snap k cur mod day_ms in
         if remaining * minute_ms \<le> avail then Some (snap k cur + remaining * minute_ms)
         else walk k guard (remaining - avail div minute_ms) (next_opening k cur)))"

definition add_business_minutes :: "zones \<Rightarrow> business_calendar \<Rightarrow> int \<Rightarrow> int \<Rightarrow> int" where
  "add_business_minutes z k start minutes =
     (if minutes \<le> 0 then start
      else case walk k 4000 minutes (zn_local z (bc_zone k) start) of
          Some x \<Rightarrow> zn_instant z (bc_zone k) x
        | None \<Rightarrow> start + minutes * minute_ms)"

primrec burn :: "business_calendar \<Rightarrow> nat \<Rightarrow> int \<Rightarrow> int \<Rightarrow> int \<Rightarrow> int" where
  "burn k 0 cur fin acc = acc"
| "burn k (Suc guard) cur fin acc =
     (if fin \<le> cur then acc
      else
        (let from_time = max (cur mod day_ms) (bc_start k);
             to_time = (if fin div day_ms > cur div day_ms then bc_end k else min (fin mod day_ms) (bc_end k))
         in burn k guard (next_opening k cur) fin
              (if working_day k (cur div day_ms) \<and> from_time < to_time then acc + (to_time - from_time) else acc)))"

definition business_minutes_between :: "zones \<Rightarrow> business_calendar \<Rightarrow> int \<Rightarrow> int \<Rightarrow> int" where
  "business_minutes_between z k a b =
     (if b \<le> a then 0
      else burn k 4000 (zn_local z (bc_zone k) a) (zn_local z (bc_zone k) b) 0 div minute_ms)"

text \<open>The tables \<open>service_business_calendars\<close> and \<open>service_holidays\<close>.\<close>

record calendar_row =
  cr_id :: row_id
  cr_tenant :: row_id
  cr_company :: row_id
  cr_branch :: "row_id option"
  cr_code :: string
  cr_name :: string
  cr_zone :: string
  cr_days :: "int list"
  cr_start :: int
  cr_end :: int
  cr_24x7 :: bool
  cr_default :: bool
  cr_active :: bool

record holiday =
  hd_id :: row_id
  hd_tenant :: row_id
  hd_company :: row_id
  hd_calendar :: row_id
  hd_date :: date
  hd_name :: string
  hd_active :: bool

definition working_time :: "calendar_row \<Rightarrow> holiday list \<Rightarrow> business_calendar" where
  "working_time c holidays =
     \<lparr>bc_zone = cr_zone c, bc_days = cr_days c, bc_start = cr_start c, bc_end = cr_end c,
      bc_holidays = map hd_date (filter (\<lambda>h. hd_calendar h = cr_id c \<and> hd_active h) holidays)\<rparr>"

definition service_sla_due ::
  "zones \<Rightarrow> calendar_row list \<Rightarrow> holiday list \<Rightarrow> string \<Rightarrow> int \<Rightarrow> int \<Rightarrow> row_id option \<Rightarrow> int" where
  "service_sla_due z calendars holidays basis start minutes calendar =
     (case calendar of
        Some i \<Rightarrow>
          (case find (\<lambda>c. cr_id c = i) calendars of
             Some c \<Rightarrow> if js_upper basis = ''BUSINESS'' \<and> \<not> cr_24x7 c
                       then add_business_minutes z (working_time c holidays) start minutes
                       else start + minutes * minute_ms
           | None \<Rightarrow> start + minutes * minute_ms)
      | None \<Rightarrow> start + minutes * minute_ms)"

subsection \<open>The walk\<close>

definition sound_window :: "business_calendar \<Rightarrow> bool" where
  "sound_window k \<longleftrightarrow> 0 \<le> bc_start k \<and> bc_start k < bc_end k \<and> bc_end k < day_ms \<and> minute_ms dvd bc_end k - bc_start k"

lemma next_opening_parts:
  assumes "sound_window k"
  shows "next_opening k cur div day_ms = cur div day_ms + 1" and "next_opening k cur mod day_ms = bc_start k"
    and "snap k (next_opening k cur) = next_opening k cur" and "cur < next_opening k cur"
proof -
  have s: "0 \<le> bc_start k" "bc_start k < day_ms" using assms by (simp_all add: sound_window_def)
  have n: "next_opening k cur = bc_start k + (cur div day_ms + 1) * day_ms" by (simp add: next_opening_def)
  show d: "next_opening k cur div day_ms = cur div day_ms + 1"
    using s unfolding n by (simp only: div_mult_self1)
  show m: "next_opening k cur mod day_ms = bc_start k"
    using s unfolding n by (simp only: mod_mult_self1 mod_pos_pos_trivial)
  show "snap k (next_opening k cur) = next_opening k cur" by (simp add: snap_def m)
  have "cur = cur div day_ms * day_ms + cur mod day_ms" by simp
  moreover have "cur mod day_ms < day_ms" by simp
  ultimately show "cur < next_opening k cur" using s by (simp add: next_opening_def algebra_simps)
qed

lemma snap_parts:
  assumes "sound_window k"
  shows "snap k cur div day_ms = cur div day_ms" and "snap k cur mod day_ms = max (cur mod day_ms) (bc_start k)" and "cur \<le> snap k cur"
proof -
  have s: "0 \<le> bc_start k" "bc_start k < day_ms" using assms by (simp_all add: sound_window_def)
  show "snap k cur div day_ms = cur div day_ms" "snap k cur mod day_ms = max (cur mod day_ms) (bc_start k)"
    using s by (simp_all add: snap_def)
  show "cur \<le> snap k cur"
  proof (cases "cur mod day_ms < bc_start k")
    case True
    then have "snap k cur = cur div day_ms * day_ms + bc_start k" by (simp add: snap_def)
    then show ?thesis using div_mult_mod_eq [of cur day_ms] True by linarith
  qed (simp add: snap_def)
qed

lemma walk_lands:
  assumes "sound_window k" and "0 < remaining" and "walk k guard remaining cur = Some x"
  shows "cur < x \<and> working_day k (x div day_ms) \<and> bc_start k < x mod day_ms \<and> x mod day_ms \<le> bc_end k"
  using assms(2,3)
proof (induction guard arbitrary: remaining cur)
  case (Suc guard)
  let ?d = "cur div day_ms" and ?t = "snap k cur mod day_ms"
  note s = snap_parts [OF assms(1), of cur] and nx = next_opening_parts [OF assms(1), of cur]
  have on: ?case if "walk k guard r (next_opening k cur) = Some x" "0 < r" for r
    using Suc.IH [OF that(2,1)] nx(4) by linarith
  show ?case
  proof (cases "working_day k ?d \<and> ?t < bc_end k")
    case False
    then have "walk k guard remaining (next_opening k cur) = Some x" using Suc.prems(2) by (auto split: if_splits)
    then show ?thesis using on Suc.prems(1) by blast
  next
    case True
    show ?thesis
    proof (cases "remaining * minute_ms \<le> bc_end k - ?t")
      case fits: True
      then have x: "x = snap k cur + remaining * minute_ms" using Suc.prems(2) True by (simp add: Let_def)
      have t: "0 \<le> ?t" "?t + remaining * minute_ms \<le> bc_end k" "bc_end k < day_ms"
        using fits assms(1) by (simp_all add: sound_window_def)
      have "snap k cur = ?d * day_ms + ?t" using s(1) by (metis div_mult_mod_eq)
      then have "x = ?d * day_ms + (?t + remaining * minute_ms)" using x by simp
      then have "x div day_ms = ?d" "x mod day_ms = ?t + remaining * minute_ms"
        using t Suc.prems(1) by simp_all
      moreover have "0 < remaining * minute_ms" using Suc.prems(1) by simp
      moreover have "bc_start k \<le> ?t" using s(2) by simp
      ultimately show ?thesis using True t s(3) x by (intro conjI; (linarith | simp))
    next
      case more: False
      have "(bc_end k - ?t) div minute_ms < remaining" using more by (simp add: div_less_iff_less_mult)
      moreover have "walk k guard (remaining - (bc_end k - ?t) div minute_ms) (next_opening k cur) = Some x"
        using Suc.prems(2) True more by (simp add: Let_def)
      ultimately show ?thesis using on by simp
    qed
  qed
qed simp


text \<open>Working time of the walk: counting between the start and the deadline gives the minutes back.\<close>

lemma burn_walk:
  assumes "sound_window k" and "0 < remaining" and "walk k guard remaining cur = Some x"
  shows "\<exists>e. burn k guard cur x acc = acc + remaining * minute_ms + e \<and> 0 \<le> e \<and> e < minute_ms
             \<and> (cur mod day_ms = bc_start k \<longrightarrow> e = 0)"
  using assms(2,3)
proof (induction guard arbitrary: remaining cur acc)
  case (Suc guard)
  let ?d = "cur div day_ms" and ?t = "snap k cur mod day_ms"
  note s = snap_parts [OF assms(1), of cur] and nx = next_opening_parts [OF assms(1), of cur]
  have later: "cur < x" using walk_lands [OF assms(1) Suc.prems] by simp
  have on: "burn k guard (next_opening k cur) x a = a + r * minute_ms \<and> ?d < x div day_ms"
    if "walk k guard r (next_opening k cur) = Some x" "0 < r" for r a
  proof -
    have "next_opening k cur < x" using walk_lands [OF assms(1) that(2,1)] by simp
    then have "next_opening k cur div day_ms \<le> x div day_ms" by (simp add: zdiv_mono1)
    then show ?thesis using Suc.IH [OF that(2,1), of a] nx(1,2) by auto
  qed
  show ?case
  proof (cases "working_day k ?d \<and> ?t < bc_end k")
    case False
    then have w: "walk k guard remaining (next_opening k cur) = Some x" using Suc.prems(2) by (auto split: if_splits)
    have "burn k (Suc guard) cur x acc = burn k guard (next_opening k cur) x acc"
      using False later on [OF w Suc.prems(1)] s(2) by (auto simp: Let_def)
    then show ?thesis using on [OF w Suc.prems(1), of acc] by (intro exI [of _ 0]) simp
  next
    case True
    show ?thesis
    proof (cases "remaining * minute_ms \<le> bc_end k - ?t")
      case fits: True
      then have x: "x = snap k cur + remaining * minute_ms" using Suc.prems(2) True by (simp add: Let_def)
      have t: "0 \<le> ?t" "?t + remaining * minute_ms \<le> bc_end k" "bc_end k < day_ms"
        using fits assms(1) by (simp_all add: sound_window_def)
      have "snap k cur = ?d * day_ms + ?t" using s(1) by (metis div_mult_mod_eq)
      then have "x = ?d * day_ms + (?t + remaining * minute_ms)" using x by simp
      then have xd: "x div day_ms = ?d" "x mod day_ms = ?t + remaining * minute_ms"
        using t Suc.prems(1) by simp_all
      have "?d < next_opening k cur div day_ms" using nx(1) by simp
      then have "x < next_opening k cur" using xd(1) by (smt (verit) zdiv_mono1)
      then have stop: "burn k guard (next_opening k cur) x a = a" for a by (cases guard) simp_all
      show ?thesis
        using True later stop xd t(2) s(2) Suc.prems(1) by (intro exI [of _ 0]) (simp add: Let_def)
    next
      case more: False
      let ?avail = "bc_end k - ?t"
      have r: "0 < remaining - ?avail div minute_ms" using more by (simp add: div_less_iff_less_mult)
      have w: "walk k guard (remaining - ?avail div minute_ms) (next_opening k cur) = Some x"
        using Suc.prems(2) True more by (simp add: Let_def)
      have "burn k (Suc guard) cur x acc = burn k guard (next_opening k cur) x (acc + ?avail)"
        using True later on [OF w r] s(2) by (simp add: Let_def)
      also have "\<dots> = acc + ?avail + (remaining - ?avail div minute_ms) * minute_ms" using on [OF w r] by simp
      also have "\<dots> = acc + remaining * minute_ms + ?avail mod minute_ms"
        using div_mult_mod_eq [of ?avail minute_ms] by (simp add: algebra_simps)
      finally show ?thesis
        using assms(1) s(2) by (intro exI [of _ "?avail mod minute_ms"]) (auto simp: sound_window_def max_def)
    qed
  qed
qed simp

text \<open>Enough working days among those the guard allows, and the walk ends with a deadline.\<close>

definition working_days_ahead :: "business_calendar \<Rightarrow> date \<Rightarrow> nat \<Rightarrow> nat" where
  "working_days_ahead k d n = length (filter (\<lambda>i. working_day k (d + int i)) [0..<n])"

lemma working_days_ahead_Suc:
  "working_days_ahead k d (Suc n) = (if working_day k d then 1 else 0) + working_days_ahead k (d + 1) n"
proof -
  have "[0..<Suc n] = 0 # map Suc [0..<n]" by (metis map_Suc_upt upt_conv_Cons zero_less_Suc)
  then show ?thesis by (simp add: working_days_ahead_def filter_map o_def algebra_simps)
qed

lemma walk_ends_from_opening:
  assumes "sound_window k" and "cur mod day_ms = bc_start k" and "0 < remaining"
    and "remaining * minute_ms \<le> int (working_days_ahead k (cur div day_ms) guard) * (bc_end k - bc_start k)"
  shows "\<exists>x. walk k guard remaining cur = Some x"
  using assms(2-4)
proof (induction guard arbitrary: remaining cur)
  case 0
  then show ?case by (simp add: working_days_ahead_def)
next
  case (Suc guard)
  let ?w = "bc_end k - bc_start k"
  note s = snap_parts [OF assms(1), of cur] and nx = next_opening_parts [OF assms(1), of cur]
  have t: "snap k cur mod day_ms = bc_start k" and w: "0 < ?w" "minute_ms dvd ?w"
    using s(2) Suc.prems(1) assms(1) by (simp_all add: sound_window_def)
  show ?case
  proof (cases "working_day k (cur div day_ms)")
    case False
    then have "remaining * minute_ms \<le> int (working_days_ahead k (next_opening k cur div day_ms) guard) * ?w"
      using Suc.prems(3) nx(1) by (simp add: working_days_ahead_Suc)
    then show ?thesis using Suc.IH [OF nx(2) Suc.prems(2)] False by simp
  next
    case True
    show ?thesis
    proof (cases "remaining * minute_ms \<le> ?w")
      case True
      then show ?thesis using \<open>working_day k (cur div day_ms)\<close> t w(1) by (simp add: Let_def)
    next
      case more: False
      have r: "0 < remaining - ?w div minute_ms" using more by (simp add: div_less_iff_less_mult)
      have "(remaining - ?w div minute_ms) * minute_ms = remaining * minute_ms - ?w"
        using w(2) by (simp add: left_diff_distrib)
      then have "(remaining - ?w div minute_ms) * minute_ms
          \<le> int (working_days_ahead k (next_opening k cur div day_ms) guard) * ?w"
        using Suc.prems(3) nx(1) True by (simp add: working_days_ahead_Suc algebra_simps)
      then show ?thesis using Suc.IH [OF nx(2) r] True t w(1) more by (simp add: Let_def)
    qed
  qed
qed

lemma walk_ends:
  assumes "sound_window k" and "0 < remaining"
    and "remaining * minute_ms \<le> int (working_days_ahead k (cur div day_ms + 1) guard) * (bc_end k - bc_start k)"
  shows "\<exists>x. walk k (Suc guard) remaining cur = Some x"
proof -
  note s = snap_parts [OF assms(1), of cur] and nx = next_opening_parts [OF assms(1), of cur]
  let ?avail = "bc_end k - snap k cur mod day_ms"
  have on: "\<exists>x. walk k guard r (next_opening k cur) = Some x" if "0 < r" "r \<le> remaining" for r
  proof -
    have "r * minute_ms \<le> int (working_days_ahead k (next_opening k cur div day_ms) guard) * (bc_end k - bc_start k)"
      using assms(3) that(2) nx(1) by simp
    then show ?thesis using walk_ends_from_opening [OF assms(1) nx(2) that(1)] by blast
  qed
  show ?thesis
  proof (cases "working_day k (cur div day_ms) \<and> 0 < ?avail \<and> \<not> remaining * minute_ms \<le> ?avail")
    case True
    then have "?avail < remaining * minute_ms" and "0 \<le> ?avail" by auto
    then have "0 < remaining - ?avail div minute_ms" "remaining - ?avail div minute_ms \<le> remaining"
      by (simp_all add: div_less_iff_less_mult pos_imp_zdiv_nonneg_iff)
    then show ?thesis using on True by (simp add: Let_def)
  next
    case False
    then show ?thesis using on [OF assms(2)] by (auto simp: Let_def)
  qed
qed


text \<open>A calendar that lists none of the seven days runs into the guard.\<close>

lemma isodow_range: "1 \<le> isodow d \<and> isodow d \<le> 7"
proof -
  have "0 \<le> (d + 3) mod 7" "(d + 3) mod 7 < 7" by simp_all
  then show ?thesis unfolding isodow_def by linarith
qed

lemma walk_without_days:
  assumes "filter (\<lambda>n. 1 \<le> n \<and> n \<le> 7) (bc_days k) = []"
  shows "walk k guard remaining cur = None"
proof -
  have "\<not> working_day k d" for d
    using assms isodow_range [of d] by (auto simp: working_day_def filter_empty_conv)
  then show ?thesis by (induction guard arbitrary: cur) simp_all
qed

text \<open>A zone whose local time never runs backwards and in which every local time exists.\<close>

definition steady_zone :: "zones \<Rightarrow> string \<Rightarrow> bool" where
  "steady_zone z n \<longleftrightarrow> (\<forall>x. zn_local z n (zn_instant z n x) = x) \<and> mono (zn_local z n)"

lemma deadline_from_walk:
  assumes "sound_window k" and "0 < n" and "steady_zone z (bc_zone k)"
    and "walk k 4000 n (zn_local z (bc_zone k) start) = Some x"
  shows "add_business_minutes z k start n = zn_instant z (bc_zone k) x"
    and "zn_local z (bc_zone k) (add_business_minutes z k start n) = x"
    and "start < add_business_minutes z k start n"
    and "business_minutes_between z k start (add_business_minutes z k start n) = n"
proof -
  show a: "add_business_minutes z k start n = zn_instant z (bc_zone k) x"
    using assms(2,4) by (simp add: add_business_minutes_def)
  show l: "zn_local z (bc_zone k) (add_business_minutes z k start n) = x"
    using assms(3) a by (simp add: steady_zone_def)
  have "zn_local z (bc_zone k) start < x" using walk_lands [OF assms(1,2,4)] by simp
  then show later: "start < add_business_minutes z k start n"
    using assms(3) l by (metis linorder_not_less monoD steady_zone_def)
  obtain e where e: "burn k 4000 (zn_local z (bc_zone k) start) x 0 = n * minute_ms + e" "0 \<le> e" "e < minute_ms"
    using burn_walk [OF assms(1,2,4), of 0] by auto
  have "(n * minute_ms + e) div minute_ms = n" using e(2,3) by simp
  then show "business_minutes_between z k start (add_business_minutes z k start n) = n"
    using later l e(1) by (simp add: business_minutes_between_def)
qed


subsection \<open>Deadlines\<close>

text \<open>
  C40. With a window of whole minutes inside the day, a zone whose clock never runs back, and enough
  working days among the 3999 days that follow the start, the deadline that
  \<open>service_add_business_minutes\<close> computes lies on a working day, after opening and not after
  closing, and \<open>service_business_minutes_between\<close> counts from the start to the deadline exactly the
  minutes of the target: the two functions agree, whatever weekends and holidays lie between.
\<close>

theorem deadline_consumes_its_minutes:
  assumes "sound_window k" and "0 < n" and "steady_zone z (bc_zone k)"
    and "n * minute_ms \<le>
           int (working_days_ahead k (zn_local z (bc_zone k) start div day_ms + 1) 3999) * (bc_end k - bc_start k)"
  shows "let due = add_business_minutes z k start n; there = zn_local z (bc_zone k) due
         in start < due \<and> business_minutes_between z k start due = n
            \<and> working_day k (there div day_ms) \<and> bc_start k < there mod day_ms \<and> there mod day_ms \<le> bc_end k"
proof -
  obtain x where x: "walk k 4000 n (zn_local z (bc_zone k) start) = Some x"
    using walk_ends [OF assms(1,2,4)] by auto
  then show ?thesis
    using deadline_from_walk [OF assms(1-3) x] walk_lands [OF assms(1,2) x] by (simp add: Let_def)
qed

text \<open>The desk of a company in Kampala (three hours ahead of UTC, no daylight saving time).\<close>

definition kampala :: zones where
  "kampala = \<lparr>zn_local = \<lambda>_ x. x + 10800000, zn_instant = \<lambda>_ x. x - 10800000\<rparr>"

definition office_hours :: business_calendar where
  "office_hours = \<lparr>bc_zone = ''Africa/Kampala'', bc_days = [1, 2, 3, 4, 5], bc_start = 28800000, bc_end = 61200000,
     bc_holidays = [20706]\<rparr>"

lemma office_hours_friday:
  "walk office_hours (Suc (Suc (Suc (Suc g)))) 60 (20707 * day_ms + 59400000) = Some (20710 * day_ms + 30600000)"
  by (simp add: office_hours_def working_day_def isodow_def snap_def next_opening_def Let_def)

lemma office_hours_days: "1 \<le> working_days_ahead office_hours 20708 (Suc (Suc (Suc g)))"
  by (simp add: working_days_ahead_Suc working_day_def isodow_def office_hours_def)

text \<open>
  One hour from Friday 11 September 2026 at 16:30, with Monday (day 20710) open: the deadline is Monday
  at 8:30.
\<close>

lemma deadline_consumes_its_minutes_witness:
  "add_business_minutes kampala office_hours (20707 * day_ms + 48600000) 60 = 20710 * day_ms + 19800000
     \<and> business_minutes_between kampala office_hours (20707 * day_ms + 48600000) (20710 * day_ms + 19800000) = 60"
proof -
  let ?s = "20707 * day_ms + 48600000"
  have local_start: "zn_local kampala (bc_zone office_hours) ?s = 20707 * day_ms + 59400000" by (simp add: kampala_def)
  have z: "steady_zone kampala (bc_zone office_hours)"
    by (simp add: steady_zone_def kampala_def mono_def)
  have w: "sound_window office_hours" by (simp add: sound_window_def office_hours_def)
  have "1 \<le> working_days_ahead office_hours 20708 3999" using office_hours_days [of 3996] by simp
  then have d: "60 * minute_ms \<le>
      int (working_days_ahead office_hours (zn_local kampala (bc_zone office_hours) ?s div day_ms + 1) 3999)
        * (bc_end office_hours - bc_start office_hours)"
    unfolding local_start by (simp add: office_hours_def)
  have "walk office_hours 4000 60 (20707 * day_ms + 59400000) = Some (20710 * day_ms + 30600000)"
    using office_hours_friday [of 3996] by simp
  then have due: "add_business_minutes kampala office_hours ?s 60 = 20710 * day_ms + 19800000"
    unfolding add_business_minutes_def local_start by (simp add: kampala_def)
  then show ?thesis
    using deadline_consumes_its_minutes [OF w _ z d] by (simp add: Let_def)
qed

end
