(* ===== verification/Service_Config.thy ===== *)
theory Service_Config
  imports Business_Time Audit_Trail
begin

text \<open>
  The configuration of the service desk (\<^verbatim>\<open>apps/api/src/services/serviceDeskConfig.ts\<close>, with the
  conversions of \<^verbatim>\<open>serviceDeskCommon.ts\<close>): SLA policies, business calendars and holidays. The caller's
  reach (\<open>resolveScope\<close>) is an argument, the pair of permissions and administrator flag; identifiers of
  a request body are typed arguments, all other fields are the JSON values that the code converts. A
  time of day is milliseconds since midnight; the code compares and stores the padded text, whose order
  is the order of the times. The lists of the configuration and the teams, skills and routing tables are
  not modelled.
\<close>

subsection \<open>Conversions (serviceDeskCommon.ts)\<close>

record desk_scope =
  ds_perms :: "string list"
  ds_admin :: bool

definition has_perm :: "string list \<Rightarrow> string \<Rightarrow> bool" where
  "has_perm perms code \<longleftrightarrow> ''*'' \<in> set perms \<or> code \<in> set perms \<or> (code @ ''.*'') \<in> set perms"

definition is_admin_scope :: "desk_scope \<Rightarrow> bool" where
  "is_admin_scope sc \<longleftrightarrow> ds_admin sc \<or> has_perm (ds_perms sc) ''service_desk.admin''"

definition str_of :: "jval \<Rightarrow> string option" where
  "str_of v = (if is_nullish v \<or> js_trim (to_string v) = [] then None else Some (js_trim (to_string v)))"

definition num_of :: "jval \<Rightarrow> rat option" where
  "num_of v =
     (if is_nullish v \<or> v = JStr [] then None
      else case to_number v of Num q \<Rightarrow> Some q | _ \<Rightarrow> None)"

definition flag_of :: "jval \<Rightarrow> bool" where
  "flag_of v \<longleftrightarrow> v = JBool True \<or> v = JStr ''true'' \<or> v = JNum 1 \<or> v = JStr ''1''"

definition one_of :: "jval \<Rightarrow> string list \<Rightarrow> string option" where
  "one_of v allowed =
     (case str_of v of None \<Rightarrow> None
      | Some t \<Rightarrow> if js_upper t \<in> set allowed then Some (js_upper t) else None)"

fun uniq :: "'a list \<Rightarrow> 'a list" where
  "uniq [] = []"
| "uniq (x # xs) = x # filter (\<lambda>y. y \<noteq> x) (uniq xs)"

definition str_list :: "jval \<Rightarrow> string list" where
  "str_list v =
     (if v = JNull then []
      else uniq (filter (\<lambda>t. t \<noteq> [])
        (map js_trim (if is_array v then map to_string (arr_elems v) else js_split (CHR '','') (js_trim (to_string v))))))"

subsection \<open>The configuration tables\<close>

record sla_policy =
  sp_id :: row_id
  sp_tenant :: row_id
  sp_company :: row_id
  sp_branch :: "row_id option"
  sp_code :: string
  sp_name :: string
  sp_category :: "row_id option"
  sp_priority :: "string option"
  sp_department :: "row_id option"
  sp_type :: "string option"
  sp_calendar :: "row_id option"
  sp_response :: int
  sp_resolution :: int
  sp_pause :: bool
  sp_warning :: int
  sp_escalation :: bool
  sp_basis :: string
  sp_active :: bool

record category_row =
  cg_id :: row_id
  cg_tenant :: row_id
  cg_company :: row_id

record config_db =
  cf_policies :: "sla_policy list"
  cf_calendars :: "calendar_row list"
  cf_holidays :: "holiday list"
  cf_categories :: "category_row list"
  cf_audit :: "audit_row list"
  cf_next :: row_id

definition sla_time_bases :: "string list" where
  "sla_time_bases = [''CALENDAR'', ''BUSINESS'']"

definition sla_priorities :: "string list" where
  "sla_priorities = [''P1'', ''P2'', ''P3'', ''P4'']"

definition weekdays :: "int list" where
  "weekdays = [0, 1, 2, 3, 4, 5, 6]"

definition may_manage_sla :: "desk_scope \<Rightarrow> bool" where
  "may_manage_sla sc \<longleftrightarrow> has_perm (ds_perms sc) ''service_desk.sla.manage'' \<or> is_admin_scope sc"

definition config_audit :: "ctx \<Rightarrow> string \<Rightarrow> row_id \<Rightarrow> string \<Rightarrow> config_db \<Rightarrow> config_db" where
  "config_audit c action i code db = db\<lparr>cf_audit := log_audit c
     \<lparr>ae_action = action, ae_resource = ''service_desk.sla'', ae_record = Some i, ae_code = Some code, ae_old = [], ae_new = []\<rparr>
     (cf_audit db)\<rparr>"

text \<open>A context of a signed-in request names its tenant and company.\<close>

definition own_row :: "ctx \<Rightarrow> row_id \<Rightarrow> row_id \<Rightarrow> bool" where
  "own_row c tenant company \<longleftrightarrow> cx_tenant c = Some tenant \<and> cx_company c = Some company"

subsection \<open>SLA policies\<close>

definition sla_minutes :: "jval \<Rightarrow> string \<Rightarrow> int result" where
  "sla_minutes v label =
     (case num_of v of
        None \<Rightarrow> Inl (BadRequest (label @ '' must be a positive number of minutes''))
      | Some q \<Rightarrow> if q \<le> 0 then Inl (BadRequest (label @ '' must be a positive number of minutes'')) else Inr (js_round q))"

definition warning_of :: "jval \<Rightarrow> int" where
  "warning_of v = (case num_of v of None \<Rightarrow> 30 | Some q \<Rightarrow> max 0 (js_round q))"

definition blank :: "jval \<Rightarrow> bool" where
  "blank v \<longleftrightarrow> is_nullish v \<or> v = JStr []"

record policy_body =
  pb_code :: jval
  pb_name :: jval
  pb_priority :: jval
  pb_basis :: jval
  pb_branch :: "row_id option"
  pb_category :: "row_id option"
  pb_department :: "row_id option"
  pb_type :: jval
  pb_calendar :: "row_id option"
  pb_response :: jval
  pb_resolution :: jval
  pb_pause :: jval
  pb_warning :: jval
  pb_escalation :: jval
  pb_active :: jval

definition flag_or :: "bool \<Rightarrow> jval \<Rightarrow> bool" where
  "flag_or d v = (if v = JUndef then d else flag_of v)"

text \<open>
  The insert is rejected by the table's checks where rounding gives 0 minutes, and by its foreign keys
  where the branch, department or calendar does not exist; the second is not modelled.
\<close>

definition minutes_stored :: "int \<Rightarrow> int \<Rightarrow> unit result" where
  "minutes_stored response resolution =
     (if 0 < response \<and> 0 < resolution then Inr () else Inl (Internal ''sla_policies check constraint''))"

definition create_sla_policy :: "desk_scope \<Rightarrow> ctx \<Rightarrow> policy_body \<Rightarrow> config_db \<Rightarrow> (sla_policy \<times> config_db) result" where
  "create_sla_policy sc c b db =
     (if \<not> may_manage_sla sc then Inl (Forbidden ''You cannot manage SLA policies'')
      else case (str_of (pb_code b), str_of (pb_name b), cx_tenant c, cx_company c) of
          (None, _) \<Rightarrow> Inl (BadRequest ''SLA policy code is required'')
        | (_, None, _) \<Rightarrow> Inl (BadRequest ''SLA policy name is required'')
        | (Some code, Some name, Some tenant, Some company) \<Rightarrow>
            if \<not> blank (pb_priority b) \<and> one_of (pb_priority b) sla_priorities = None
            then Inl (BadRequest ''priority must be one of P1, P2, P3, P4'')
            else (case if pb_basis b = JUndef then Some ''CALENDAR'' else one_of (pb_basis b) sla_time_bases of
                None \<Rightarrow> Inl (BadRequest ''timeBasis must be CALENDAR or BUSINESS'')
              | Some basis \<Rightarrow>
                  if exists_where (\<lambda>p. sp_company p = company \<and> sp_code p = code) (cf_policies db)
                  then Inl (Conflict ''An SLA policy with that code already exists'')
                  else if (case pb_category b of None \<Rightarrow> False
                           | Some i \<Rightarrow> i \<noteq> 0 \<and> \<not> exists_where (\<lambda>g. cg_id g = i \<and> cg_tenant g = tenant \<and> cg_company g = company) (cf_categories db))
                  then Inl (BadRequest ''Category not found'')
                  else rbind (sla_minutes (pb_response b) ''responseMinutes'') (\<lambda>response.
                       rbind (sla_minutes (pb_resolution b) ''resolutionMinutes'') (\<lambda>resolution.
                       rbind (minutes_stored response resolution) (\<lambda>_.
                         let p = \<lparr>sp_id = cf_next db, sp_tenant = tenant, sp_company = company, sp_branch = pb_branch b,
                               sp_code = code, sp_name = name, sp_category = pb_category b,
                               sp_priority = (if blank (pb_priority b) then None else one_of (pb_priority b) sla_priorities),
                               sp_department = pb_department b, sp_type = str_of (pb_type b), sp_calendar = pb_calendar b,
                               sp_response = response, sp_resolution = resolution, sp_pause = flag_or True (pb_pause b),
                               sp_warning = warning_of (pb_warning b), sp_escalation = flag_or True (pb_escalation b),
                               sp_basis = basis, sp_active = flag_or True (pb_active b)\<rparr>
                         in Inr (p, config_audit c ''create'' (sp_id p) code
                              (db\<lparr>cf_policies := cf_policies db @ [p], cf_next := Suc (cf_next db)\<rparr>))))))
        | _ \<Rightarrow> Inl (Internal ''tenant_id may not be null''))"

text \<open>
  An update sets the fields the body names. The body's identifiers are an option of an option: not
  named, or named with a value or \<open>null\<close>.
\<close>

record policy_patch =
  pp_name :: jval
  pp_priority :: jval
  pp_basis :: jval
  pp_branch :: "row_id option option"
  pp_category :: "row_id option option"
  pp_department :: "row_id option option"
  pp_type :: jval
  pp_calendar :: "row_id option option"
  pp_response :: jval
  pp_resolution :: jval
  pp_pause :: jval
  pp_warning :: jval
  pp_escalation :: jval
  pp_active :: jval

definition empty_patch :: "policy_patch \<Rightarrow> bool" where
  "empty_patch b \<longleftrightarrow>
     list_all (\<lambda>v. v = JUndef) [pp_name b, pp_priority b, pp_basis b, pp_type b, pp_response b, pp_resolution b,
       pp_pause b, pp_warning b, pp_escalation b, pp_active b]
     \<and> list_all (\<lambda>v. v = None) [pp_branch b, pp_category b, pp_department b, pp_calendar b]"

definition patched_minutes :: "jval \<Rightarrow> string \<Rightarrow> int \<Rightarrow> int result" where
  "patched_minutes v label old = (if v = JUndef then Inr old else sla_minutes v label)"

definition update_sla_policy :: "desk_scope \<Rightarrow> ctx \<Rightarrow> row_id \<Rightarrow> policy_patch \<Rightarrow> config_db \<Rightarrow> (sla_policy \<times> config_db) result" where
  "update_sla_policy sc c i b db =
     (if \<not> may_manage_sla sc then Inl (Forbidden ''You cannot manage SLA policies'')
      else case find (\<lambda>p. sp_id p = i \<and> own_row c (sp_tenant p) (sp_company p)) (cf_policies db) of
          None \<Rightarrow> Inl (NotFound ''SLA policy not found'')
        | Some old \<Rightarrow>
            if pp_priority b \<noteq> JUndef \<and> pp_priority b \<noteq> JNull \<and> pp_priority b \<noteq> JStr [] \<and> one_of (pp_priority b) sla_priorities = None
            then Inl (BadRequest ''priority must be one of P1, P2, P3, P4'')
            else rbind (patched_minutes (pp_response b) ''responseMinutes'' (sp_response old)) (\<lambda>response.
                 rbind (patched_minutes (pp_resolution b) ''resolutionMinutes'' (sp_resolution old)) (\<lambda>resolution.
                 if pp_basis b \<noteq> JUndef \<and> one_of (pp_basis b) sla_time_bases = None
                 then Inl (BadRequest ''timeBasis must be CALENDAR or BUSINESS'')
                 else if empty_patch b then Inl (BadRequest ''No supported fields were supplied'')
                 else rbind (minutes_stored response resolution) (\<lambda>_.
                   let p = old\<lparr>sp_name := (if pp_name b = JUndef then sp_name old else the_default (sp_name old) (str_of (pp_name b))),
                         sp_priority := (if pp_priority b = JUndef then sp_priority old
                                         else if blank (pp_priority b) then None else one_of (pp_priority b) sla_priorities),
                         sp_category := the_default (sp_category old) (pp_category b),
                         sp_department := the_default (sp_department old) (pp_department b),
                         sp_branch := the_default (sp_branch old) (pp_branch b),
                         sp_calendar := the_default (sp_calendar old) (pp_calendar b),
                         sp_type := (if pp_type b = JUndef then sp_type old else str_of (pp_type b)),
                         sp_response := response, sp_resolution := resolution,
                         sp_pause := flag_or (sp_pause old) (pp_pause b),
                         sp_escalation := flag_or (sp_escalation old) (pp_escalation b),
                         sp_warning := (if pp_warning b = JUndef then sp_warning old else warning_of (pp_warning b)),
                         sp_basis := (if pp_basis b = JUndef then sp_basis old
                                      else the_default (sp_basis old) (one_of (pp_basis b) sla_time_bases)),
                         sp_active := flag_or (sp_active old) (pp_active b)\<rparr>
                   in Inr (p, config_audit c ''update'' i (sp_code old)
                        (db\<lparr>cf_policies := update_where (\<lambda>q. sp_id q = i) (\<lambda>_. p) (cf_policies db)\<rparr>))))))"

subsection \<open>Business calendars\<close>

text \<open>\<open>normaliseWorkingDays\<close>: the whole numbers 0 to 6 of the list, once each, in order.\<close>

definition day_number :: "jval \<Rightarrow> int list" where
  "day_number v =
     (case to_number v of
        Num q \<Rightarrow> if of_int \<lfloor>q\<rfloor> = q \<and> \<lfloor>q\<rfloor> \<in> set weekdays then [\<lfloor>q\<rfloor>] else []
      | _ \<Rightarrow> [])"

definition normalise_working_days :: "jval \<Rightarrow> int list option" where
  "normalise_working_days v =
     (if v = JUndef then None
      else Some (sort (uniq (concat (map day_number (if is_array v then arr_elems v else map JStr (str_list v)))))))"

text \<open>\<open>timeOf\<close>: the regular expression, then the ranges of hours and minutes. Seconds are dropped.\<close>

definition digits_between :: "nat \<Rightarrow> nat \<Rightarrow> string \<Rightarrow> bool" where
  "digits_between lo hi t \<longleftrightarrow> lo \<le> length t \<and> length t \<le> hi \<and> list_all is_digit t"

definition clock_text :: "string list \<Rightarrow> bool" where
  "clock_text parts \<longleftrightarrow>
     (case parts of
        [h, n] \<Rightarrow> digits_between 1 2 h \<and> digits_between 2 2 n
      | [h, n, x] \<Rightarrow> digits_between 1 2 h \<and> digits_between 2 2 n \<and> digits_between 2 2 x
      | _ \<Rightarrow> False)"

definition time_of :: "jval \<Rightarrow> string \<Rightarrow> int result" where
  "time_of v label =
     (case str_of v of
        None \<Rightarrow> Inl (BadRequest (label @ '' is required (HH:MM)''))
      | Some t \<Rightarrow>
          (let parts = js_split (CHR '':'') t in
           if \<not> clock_text parts then Inl (BadRequest (label @ '' must be a time such as 08:00''))
           else (let h = digits_value (parts ! 0); n = digits_value (parts ! 1) in
                 if h \<le> 23 \<and> n \<le> 59 then Inr ((int h * 60 + int n) * minute_ms)
                 else Inl (BadRequest (label @ '' is not a valid time'')))))"

record calendar_body =
  cb_code :: jval
  cb_name :: jval
  cb_branch :: "row_id option"
  cb_zone :: jval
  cb_days :: jval
  cb_start :: jval
  cb_end :: jval
  cb_24x7 :: jval
  cb_default :: jval
  cb_active :: jval

definition stored_days :: "bool \<Rightarrow> jval \<Rightarrow> int list" where
  "stored_days round_the_clock v =
     (case normalise_working_days v of
        Some (d # ds) \<Rightarrow> d # ds
      | _ \<Rightarrow> if round_the_clock then weekdays else [1, 2, 3, 4, 5])"

definition clear_default :: "row_id \<Rightarrow> calendar_row list \<Rightarrow> calendar_row list" where
  "clear_default company = update_where (\<lambda>k. cr_company k = company \<and> cr_default k) (\<lambda>k. k\<lparr>cr_default := False\<rparr>)"

definition create_business_calendar ::
  "desk_scope \<Rightarrow> ctx \<Rightarrow> calendar_body \<Rightarrow> config_db \<Rightarrow> (calendar_row \<times> config_db) result" where
  "create_business_calendar sc c b db =
     (if \<not> may_manage_sla sc then Inl (Forbidden ''You cannot manage business calendars'')
      else case (str_of (cb_code b), str_of (cb_name b), cx_tenant c, cx_company c) of
          (None, _) \<Rightarrow> Inl (BadRequest ''Calendar code is required'')
        | (_, None, _) \<Rightarrow> Inl (BadRequest ''Calendar name is required'')
        | (Some code, Some name, Some tenant, Some company) \<Rightarrow>
            if exists_where (\<lambda>k. cr_company k = company \<and> cr_code k = code) (cf_calendars db)
            then Inl (Conflict ''A business calendar with that code already exists'')
            else (let open_always = flag_of (cb_24x7 b); days = stored_days open_always (cb_days b) in
              if \<not> open_always \<and> days = [] then Inl (BadRequest ''At least one working day is required'')
              else rbind (time_of (coalesce (cb_start b) (JStr (if open_always then ''00:00'' else ''08:00''))) ''workStart'') (\<lambda>start.
                   rbind (time_of (coalesce (cb_end b) (JStr (if open_always then ''23:59'' else ''17:00''))) ''workEnd'') (\<lambda>close.
                   if \<not> open_always \<and> close \<le> start then Inl (BadRequest ''workEnd must be after workStart'')
                   else
                     let k = \<lparr>cr_id = cf_next db, cr_tenant = tenant, cr_company = company, cr_branch = cb_branch b,
                           cr_code = code, cr_name = name, cr_zone = the_default ''Africa/Kampala'' (str_of (cb_zone b)),
                           cr_days = days, cr_start = start, cr_end = close, cr_24x7 = open_always,
                           cr_default = flag_of (cb_default b), cr_active = flag_or True (cb_active b)\<rparr>;
                         rows = (if flag_of (cb_default b) then clear_default company (cf_calendars db) else cf_calendars db)
                     in Inr (k, config_audit c ''create'' (cr_id k) code
                          (db\<lparr>cf_calendars := rows @ [k], cf_next := Suc (cf_next db)\<rparr>)))))
        | _ \<Rightarrow> Inl (Internal ''tenant_id may not be null''))"

definition calendar_time :: "jval \<Rightarrow> string \<Rightarrow> int \<Rightarrow> int result" where
  "calendar_time v label old = (if v = JUndef then Inr old else time_of v label)"

record calendar_patch =
  cq_name :: jval
  cq_zone :: jval
  cq_branch :: "row_id option option"
  cq_days :: jval
  cq_start :: jval
  cq_end :: jval
  cq_24x7 :: jval
  cq_active :: jval
  cq_default :: jval

definition empty_calendar_patch :: "calendar_patch \<Rightarrow> bool" where
  "empty_calendar_patch b \<longleftrightarrow>
     list_all (\<lambda>v. v = JUndef) [cq_name b, cq_zone b, cq_days b, cq_start b, cq_end b, cq_24x7 b, cq_active b, cq_default b]
     \<and> cq_branch b = None"

text \<open>
  The update repeats neither the check for a working day nor the one that closing follows opening.
\<close>

definition update_business_calendar ::
  "desk_scope \<Rightarrow> ctx \<Rightarrow> row_id \<Rightarrow> calendar_patch \<Rightarrow> config_db \<Rightarrow> (calendar_row \<times> config_db) result" where
  "update_business_calendar sc c i b db =
     (if \<not> may_manage_sla sc then Inl (Forbidden ''You cannot manage business calendars'')
      else case find (\<lambda>k. cr_id k = i \<and> own_row c (cr_tenant k) (cr_company k)) (cf_calendars db) of
          None \<Rightarrow> Inl (NotFound ''Business calendar not found'')
        | Some old \<Rightarrow>
            rbind (calendar_time (cq_start b) ''workStart'' (cr_start old)) (\<lambda>start.
            rbind (calendar_time (cq_end b) ''workEnd'' (cr_end old)) (\<lambda>close.
            if empty_calendar_patch b then Inl (BadRequest ''No supported fields were supplied'')
            else
              let k = old\<lparr>cr_name := the_default (cr_name old) (str_of (cq_name b)),
                    cr_zone := the_default (cr_zone old) (str_of (cq_zone b)),
                    cr_branch := the_default (cr_branch old) (cq_branch b),
                    cr_days := the_default (cr_days old) (normalise_working_days (cq_days b)),
                    cr_start := start, cr_end := close, cr_24x7 := flag_or (cr_24x7 old) (cq_24x7 b),
                    cr_active := flag_or (cr_active old) (cq_active b), cr_default := flag_or (cr_default old) (cq_default b)\<rparr>;
                  rows = (if flag_of (cq_default b)
                          then update_where (\<lambda>q. cr_company q = cr_company old \<and> cr_default q \<and> cr_id q \<noteq> i)
                                 (\<lambda>q. q\<lparr>cr_default := False\<rparr>) (cf_calendars db)
                          else cf_calendars db)
              in Inr (k, config_audit c ''update'' i (cr_code old)
                   (db\<lparr>cf_calendars := update_where (\<lambda>q. cr_id q = i) (\<lambda>_. k) rows\<rparr>)))))"

subsection \<open>What the tables hold\<close>

inductive config_step :: "config_db \<Rightarrow> config_db \<Rightarrow> bool" where
  new_policy: "create_sla_policy sc c b db = Inr (p, db') \<Longrightarrow> config_step db db'"
| patched_policy: "update_sla_policy sc c i q db = Inr (p, db') \<Longrightarrow> config_step db db'"
| new_calendar: "create_business_calendar sc c kb db = Inr (k, db') \<Longrightarrow> config_step db db'"
| patched_calendar: "update_business_calendar sc c i kq db = Inr (k, db') \<Longrightarrow> config_step db db'"

inductive config_steps :: "config_db \<Rightarrow> config_db \<Rightarrow> bool" where
  config_start: "config_steps db db"
| config_more: "config_steps db db1 \<Longrightarrow> config_step db1 db2 \<Longrightarrow> config_steps db db2"

definition policy_sound :: "sla_policy \<Rightarrow> bool" where
  "policy_sound p \<longleftrightarrow> 0 < sp_response p \<and> 0 < sp_resolution p \<and> sp_basis p \<in> set sla_time_bases
     \<and> (case sp_priority p of None \<Rightarrow> True | Some q \<Rightarrow> q \<in> set sla_priorities)"

definition clock_time :: "int \<Rightarrow> bool" where
  "clock_time t \<longleftrightarrow> 0 \<le> t \<and> t < day_ms \<and> minute_ms dvd t"

definition calendar_sound :: "calendar_row \<Rightarrow> bool" where
  "calendar_sound k \<longleftrightarrow> set (cr_days k) \<subseteq> set weekdays \<and> clock_time (cr_start k) \<and> clock_time (cr_end k)"

definition defaults_of :: "row_id \<Rightarrow> calendar_row list \<Rightarrow> row_id list" where
  "defaults_of company ks = map cr_id (filter (\<lambda>k. cr_company k = company \<and> cr_default k) ks)"

definition config_sound :: "config_db \<Rightarrow> bool" where
  "config_sound db \<longleftrightarrow>
     (\<forall>p\<in>set (cf_policies db). policy_sound p) \<and> (\<forall>k\<in>set (cf_calendars db). calendar_sound k)
     \<and> distinct (map cr_id (cf_calendars db)) \<and> (\<forall>k\<in>set (cf_calendars db). cr_id k < cf_next db)
     \<and> (\<forall>company. length (defaults_of company (cf_calendars db)) \<le> 1)"

lemma set_uniq [simp]: "set (uniq xs) = set xs"
  by (induction xs) auto

lemma one_of_allowed: "one_of v allowed = Some x \<Longrightarrow> x \<in> set allowed"
  by (auto simp: one_of_def split: option.splits if_splits)

lemma day_number_in_week: "set (day_number v) \<subseteq> set weekdays"
  by (auto simp: day_number_def split: jsnum.splits)

lemma normalised_days: "normalise_working_days v = Some ds \<Longrightarrow> set ds \<subseteq> set weekdays"
  using day_number_in_week by (fastforce simp: normalise_working_days_def split: if_splits)

lemma stored_days_in_week: "set (stored_days open_always v) \<subseteq> set weekdays"
proof (cases "normalise_working_days v")
  case None
  then show ?thesis by (simp add: stored_days_def weekdays_def)
next
  case (Some ds)
  then show ?thesis using normalised_days [OF Some] by (cases ds) (auto simp: stored_days_def weekdays_def)
qed

lemma time_of_clock:
  assumes "time_of v label = Inr t"
  shows "clock_time t"
proof -
  obtain h n :: nat where t: "t = (int h * 60 + int n) * minute_ms" and r: "h \<le> 23" "n \<le> 59"
    using assms by (auto simp: time_of_def Let_def split: option.splits if_splits)
  have "int h * 60 + int n \<le> 1439" using r by simp
  then have "t \<le> 1439 * minute_ms" unfolding t by simp
  then show ?thesis unfolding t by (simp add: clock_time_def)
qed

lemma calendar_time_clock: "calendar_time v label old = Inr t \<Longrightarrow> clock_time old \<Longrightarrow> clock_time t"
  by (auto simp: calendar_time_def dest: time_of_clock split: if_splits)

lemma created_policy:
  assumes "create_sla_policy sc c b db = Inr (p, db')"
  shows "policy_sound p \<and> cf_policies db' = cf_policies db @ [p] \<and> cf_calendars db' = cf_calendars db
    \<and> cf_next db' = Suc (cf_next db)"
  using assms
  by (auto simp: create_sla_policy_def rbind_def Let_def policy_sound_def minutes_stored_def config_audit_def sla_time_bases_def
      dest: one_of_allowed split: if_splits option.splits sum.splits prod.splits)

lemma patched_minutes_kept: "patched_minutes v label old = Inr n \<Longrightarrow> v = JUndef \<Longrightarrow> n = old"
  by (simp add: patched_minutes_def)

lemma patched_policy_sound:
  assumes "update_sla_policy sc c i b db = Inr (p, db')" and "\<forall>q\<in>set (cf_policies db). policy_sound q"
  shows "policy_sound p \<and> cf_policies db' = update_where (\<lambda>q. sp_id q = i) (\<lambda>_. p) (cf_policies db)
    \<and> cf_calendars db' = cf_calendars db \<and> cf_next db' = cf_next db"
proof -
  obtain old where f: "find (\<lambda>p. sp_id p = i \<and> own_row c (sp_tenant p) (sp_company p)) (cf_policies db) = Some old"
    using assms(1) by (auto simp: update_sla_policy_def split: if_splits option.splits)
  have o: "policy_sound old" using find_Some_iff_mem [OF f] assms(2) by blast
  obtain response resolution where n: "0 < response" "0 < resolution"
    and p: "sp_response p = response" "sp_resolution p = resolution"
      "sp_basis p = (if pp_basis b = JUndef then sp_basis old else the_default (sp_basis old) (one_of (pp_basis b) sla_time_bases))"
      "sp_priority p = (if pp_priority b = JUndef then sp_priority old
                        else if blank (pp_priority b) then None else one_of (pp_priority b) sla_priorities)"
    and d: "cf_policies db' = update_where (\<lambda>q. sp_id q = i) (\<lambda>_. p) (cf_policies db)"
      "cf_calendars db' = cf_calendars db" "cf_next db' = cf_next db"
    using assms(1) f
    by (auto simp: update_sla_policy_def rbind_def Let_def minutes_stored_def config_audit_def split: if_splits sum.splits)
  have "sp_basis p \<in> set sla_time_bases"
    using o one_of_allowed unfolding p(3) policy_sound_def by (cases "one_of (pp_basis b) sla_time_bases") auto
  moreover have "case sp_priority p of None \<Rightarrow> True | Some q \<Rightarrow> q \<in> set sla_priorities"
    using o one_of_allowed unfolding p(4) policy_sound_def by (auto split: option.splits)
  ultimately show ?thesis using n p(1,2) d by (simp add: policy_sound_def)
qed

lemma calendar_sound_default [simp]: "calendar_sound (k\<lparr>cr_default := x\<rparr>) \<longleftrightarrow> calendar_sound k"
  by (simp add: calendar_sound_def)

lemma created_calendar:
  assumes "create_business_calendar sc c b db = Inr (k, db')"
  shows "calendar_sound k \<and> cr_id k = cf_next db \<and> cf_policies db' = cf_policies db \<and> cf_next db' = Suc (cf_next db)
    \<and> cf_calendars db' = (if cr_default k then clear_default (cr_company k) (cf_calendars db) else cf_calendars db) @ [k]"
  using assms
  by (auto simp: create_business_calendar_def rbind_def Let_def calendar_sound_def config_audit_def
      dest: time_of_clock subsetD [OF stored_days_in_week] split: if_splits option.splits sum.splits prod.splits)

lemma patched_calendar_sound:
  assumes "update_business_calendar sc c i b db = Inr (k, db')" and "\<forall>q\<in>set (cf_calendars db). calendar_sound q"
  shows "calendar_sound k \<and> cr_id k = i \<and> cf_policies db' = cf_policies db \<and> cf_next db' = cf_next db
    \<and> (\<exists>old. old \<in> set (cf_calendars db) \<and> cr_id old = i \<and> cr_company k = cr_company old
        \<and> cr_default k = flag_or (cr_default old) (cq_default b)
        \<and> cr_days k = the_default (cr_days old) (normalise_working_days (cq_days b)) \<and> cr_24x7 k = flag_or (cr_24x7 old) (cq_24x7 b))
    \<and> cf_calendars db' = update_where (\<lambda>q. cr_id q = i) (\<lambda>_. k)
        (if flag_of (cq_default b)
         then update_where (\<lambda>q. cr_company q = cr_company k \<and> cr_default q \<and> cr_id q \<noteq> i) (\<lambda>q. q\<lparr>cr_default := False\<rparr>) (cf_calendars db)
         else cf_calendars db)"
proof -
  obtain old where f: "find (\<lambda>k. cr_id k = i \<and> own_row c (cr_tenant k) (cr_company k)) (cf_calendars db) = Some old"
    using assms(1) by (auto simp: update_business_calendar_def split: if_splits option.splits)
  have o: "calendar_sound old" "old \<in> set (cf_calendars db)" "cr_id old = i"
    using find_Some_iff_mem [OF f] assms(2) by auto
  have d: "set (the_default (cr_days old) (normalise_working_days v)) \<subseteq> set weekdays" for v
    using o(1) normalised_days by (cases "normalise_working_days v") (auto simp: calendar_sound_def)
  obtain s e where s: "calendar_time (cq_start b) ''workStart'' (cr_start old) = Inr s"
      "calendar_time (cq_end b) ''workEnd'' (cr_end old) = Inr e"
    using assms(1) f by (auto simp: update_business_calendar_def rbind_def split: sum.splits if_splits)
  have t: "clock_time s" "clock_time e"
    using s o(1) calendar_time_clock by (auto simp: calendar_sound_def)
  show ?thesis
    using assms(1) f o s t d [of "cq_days b"]
    by (auto simp: update_business_calendar_def Let_def calendar_sound_def config_audit_def intro!: exI [of _ old] split: if_splits)
qed

text \<open>At most one default calendar per company survives both writes.\<close>

lemma defaults_clear: "defaults_of company (clear_default company ks) = []"
  by (induction ks) (auto simp: defaults_of_def clear_default_def update_where_def)

lemma defaults_clear_other:
  "other \<noteq> company \<Longrightarrow> defaults_of other (clear_default company ks) = defaults_of other ks"
  by (induction ks) (auto simp: defaults_of_def clear_default_def update_where_def)

lemma ids_clear [simp]: "map cr_id (clear_default company ks) = map cr_id ks"
  unfolding clear_default_def by (rule map_update_where_same) simp

lemma defaults_update:
  assumes "distinct (map cr_id ks)" and "old \<in> set ks" and "cr_id old = i" and "cr_id k = i"
    and "cr_company k = cr_company old"
  shows "length (defaults_of company (update_where (\<lambda>q. cr_id q = i) (\<lambda>_. k) ks))
      = length (filter (\<lambda>q. cr_company q = company \<and> cr_default q \<and> cr_id q \<noteq> i) ks)
        + (if cr_company k = company \<and> cr_default k then 1 else 0)"
  using assms
proof (induction ks)
  case (Cons q ks)
  show ?case
  proof (cases "cr_id q = i")
    case True
    moreover have "cr_id q \<notin> cr_id ` set ks" using Cons.prems(1) by simp
    ultimately have "\<forall>r\<in>set ks. cr_id r \<noteq> i" by (metis imageI)
    then have "update_where (\<lambda>q. cr_id q = i) (\<lambda>_. k) ks = ks"
      and "filter (\<lambda>q. cr_company q = company \<and> cr_default q \<and> cr_id q \<noteq> i) ks
             = filter (\<lambda>q. cr_company q = company \<and> cr_default q) ks"
      by (auto simp: update_where_def intro!: map_idI filter_cong)
    then show ?thesis using True by (simp add: defaults_of_def update_where_def)
  next
    case False
    then show ?thesis using Cons by (auto simp: defaults_of_def update_where_def)
  qed
qed simp

lemma defaults_others:
  "length (filter (\<lambda>q. cr_company q = company \<and> cr_default q \<and> cr_id q \<noteq> i) ks) \<le> length (defaults_of company ks)"
  by (induction ks) (auto simp: defaults_of_def)

lemma defaults_of_old:
  assumes "old \<in> set ks" and "cr_default old" and "cr_company old = company"
  shows "length (filter (\<lambda>q. cr_company q = company \<and> cr_default q \<and> cr_id q \<noteq> cr_id old) ks) < length (defaults_of company ks)"
  using assms
proof (induction ks)
  case (Cons q ks)
  have "length (filter (\<lambda>q. cr_company q = company \<and> cr_default q \<and> cr_id q \<noteq> cr_id old) ks) \<le> length (defaults_of company ks)"
    by (rule defaults_others)
  then show ?case using Cons by (auto simp: defaults_of_def)
qed simp

lemma new_calendar_keeps:
  assumes "config_sound db" and "create_business_calendar sc c b db = Inr (k, db')"
  shows "config_sound db'"
proof -
  note k = created_calendar [OF assms(2)]
  define rows where "rows = (if cr_default k then clear_default (cr_company k) (cf_calendars db) else cf_calendars db)"
  have ids: "map cr_id rows = map cr_id (cf_calendars db)" by (simp add: rows_def)
  have sound: "\<forall>q\<in>set rows. calendar_sound q"
    using assms(1) by (auto simp: rows_def config_sound_def clear_default_def elim!: in_update_whereE)
  have small: "\<forall>q\<in>set rows. cr_id q < cf_next db"
    using assms(1) by (auto simp: rows_def config_sound_def clear_default_def elim!: in_update_whereE)
  then have fresh: "cr_id k \<notin> cr_id ` set rows" using k by (metis imageE order_less_irrefl)
  have "distinct (map cr_id rows)" using assms(1) by (simp add: ids config_sound_def)
  then have dist: "distinct (map cr_id (rows @ [k]))" using fresh by simp
  have old: "length (defaults_of company (cf_calendars db)) \<le> 1" for company
    using assms(1) by (simp add: config_sound_def)
  have one: "length (defaults_of company (rows @ [k])) \<le> 1" for company
  proof (cases "cr_default k")
    case True
    then have r: "rows = clear_default (cr_company k) (cf_calendars db)" by (simp add: rows_def)
    show ?thesis
      using old [of company] defaults_clear [of company "cf_calendars db"] defaults_clear_other [of company "cr_company k" "cf_calendars db"]
      unfolding r by (cases "cr_company k = company") (auto simp: defaults_of_def)
  next
    case False
    then show ?thesis using old [of company] by (simp add: rows_def defaults_of_def)
  qed
  have "cf_calendars db' = rows @ [k]" "cf_policies db' = cf_policies db" "cf_next db' = Suc (cf_next db)"
    "calendar_sound k" "cr_id k = cf_next db"
    using k by (simp_all add: rows_def)
  then show ?thesis
    using assms(1) sound small dist one unfolding config_sound_def by (auto simp: less_Suc_eq)
qed

lemma filter_map_same:
  assumes "\<And>q. g q = q \<or> \<not> P (g q) \<and> \<not> P q"
  shows "filter P (map g ks) = filter P ks"
proof (induction ks)
  case (Cons q ks)
  then show ?case using assms [of q] by (elim disjE) simp_all
qed simp

lemma others_after_clear:
  "length (filter (\<lambda>q. cr_company q = company \<and> cr_default q \<and> cr_id q \<noteq> i)
      (update_where (\<lambda>q. cr_company q = mine \<and> cr_default q \<and> cr_id q \<noteq> i) (\<lambda>q. q\<lparr>cr_default := False\<rparr>) ks))
    = (if mine = company then 0 else length (filter (\<lambda>q. cr_company q = company \<and> cr_default q \<and> cr_id q \<noteq> i) ks))"
proof (cases "mine = company")
  case True
  then show ?thesis by (simp add: filter_empty_conv set_update_where ball_Un)
next
  case False
  then have "filter (\<lambda>q. cr_company q = company \<and> cr_default q \<and> cr_id q \<noteq> i)
      (update_where (\<lambda>q. cr_company q = mine \<and> cr_default q \<and> cr_id q \<noteq> i) (\<lambda>q. q\<lparr>cr_default := False\<rparr>) ks)
    = filter (\<lambda>q. cr_company q = company \<and> cr_default q \<and> cr_id q \<noteq> i) ks"
    unfolding update_where_def by (intro filter_map_same) (simp split: if_splits)
  then show ?thesis using False by (simp only: if_False)
qed

lemma patched_defaults:
  assumes "distinct (map cr_id ks)" and "\<forall>company. length (defaults_of company ks) \<le> 1"
    and old: "old \<in> set ks" "cr_id old = i" and k: "cr_id k = i" "cr_company k = cr_company old"
      "cr_default k = flag_or (cr_default old) v"
    and rows: "rows = (if flag_of v then update_where (\<lambda>q. cr_company q = cr_company k \<and> cr_default q \<and> cr_id q \<noteq> i)
        (\<lambda>q. q\<lparr>cr_default := False\<rparr>) ks else ks)"
  shows "length (defaults_of company (update_where (\<lambda>q. cr_id q = i) (\<lambda>_. k) rows)) \<le> 1"
proof -
  let ?rest = "\<lambda>rs. length (filter (\<lambda>q. cr_company q = company \<and> cr_default q \<and> cr_id q \<noteq> i) rs)"
  have ids: "map cr_id rows = map cr_id ks" unfolding rows by (simp add: map_update_where_same)
  obtain old' where o: "old' \<in> set rows" "cr_id old' = i" "cr_company old' = cr_company old"
  proof (cases "flag_of v")
    case True
    then have "old \<in> set rows" unfolding rows using old by (auto simp: set_update_where image_iff intro!: bexI [of _ old])
    then show ?thesis using that old(2) by blast
  qed (use that old rows in auto)
  have sum: "length (defaults_of company (update_where (\<lambda>q. cr_id q = i) (\<lambda>_. k) rows))
      = ?rest rows + (if cr_company k = company \<and> cr_default k then 1 else 0)"
    using defaults_update [OF _ o(1,2) k(1)] ids assms(1) o(3) k(2) by simp
  have le: "?rest ks \<le> 1" using defaults_others [of company i ks] assms(2) le_trans by blast
  show ?thesis
  proof (cases "flag_of v")
    case True
    then have "?rest rows = (if cr_company k = company then 0 else ?rest ks)"
      unfolding rows using others_after_clear [of company i "cr_company k" ks] by simp
    then show ?thesis using sum le by simp
  next
    case False
    then have rest: "?rest rows = ?rest ks" by (simp add: rows)
    have off: "cr_default k \<Longrightarrow> cr_default old" using k(3) False by (auto simp: flag_or_def split: if_splits)
    have "?rest ks = 0" if "cr_company k = company \<and> cr_default k"
    proof -
      have "?rest ks < length (defaults_of company ks)" using defaults_of_old [OF old(1), of company] old(2) k(2) off that by simp
      then show ?thesis using assms(2) [rule_format, of company] by linarith
    qed
    then show ?thesis using sum rest le by auto
  qed
qed

lemma patched_calendar_keeps:
  assumes "config_sound db" and "update_business_calendar sc c i b db = Inr (k, db')"
  shows "config_sound db'"
proof -
  have s: "\<forall>q\<in>set (cf_calendars db). calendar_sound q" using assms(1) by (simp add: config_sound_def)
  note k = patched_calendar_sound [OF assms(2) s]
  define rows where "rows = (if flag_of (cq_default b)
      then update_where (\<lambda>q. cr_company q = cr_company k \<and> cr_default q \<and> cr_id q \<noteq> i) (\<lambda>q. q\<lparr>cr_default := False\<rparr>) (cf_calendars db)
      else cf_calendars db)"
  have ids: "map cr_id rows = map cr_id (cf_calendars db)" by (simp add: rows_def map_update_where_same)
  have set: "set (cf_calendars db') \<subseteq> insert k (set rows)" and ids': "map cr_id (cf_calendars db') = map cr_id rows"
    using k by (auto simp: rows_def [symmetric] set_update_where intro: map_update_where_same)
  have rs: "\<forall>q\<in>set rows. calendar_sound q" using s by (auto simp: rows_def elim!: in_update_whereE)
  obtain old where old: "old \<in> set (cf_calendars db)" "cr_id old = i" "cr_company k = cr_company old"
      "cr_default k = flag_or (cr_default old) (cq_default b)"
    using k by blast
  have rows': "cf_calendars db' = update_where (\<lambda>q. cr_id q = i) (\<lambda>_. k) rows" and ki: "cr_id k = i"
    using k by (simp_all add: rows_def)
  have a: "distinct (map cr_id (cf_calendars db))" "\<forall>company. length (defaults_of company (cf_calendars db)) \<le> 1"
    using assms(1) by (simp_all add: config_sound_def)
  have "length (defaults_of company (cf_calendars db')) \<le> 1" for company
    unfolding rows' by (rule patched_defaults [OF a old(1,2) ki old(3,4) rows_def])
  moreover have "\<forall>q\<in>set (cf_calendars db'). cr_id q < cf_next db"
  proof -
    have "set (map cr_id (cf_calendars db')) = set (map cr_id (cf_calendars db))" unfolding ids' ids ..
    then show ?thesis using assms(1) unfolding config_sound_def by (metis imageE imageI list.set_map)
  qed
  ultimately show ?thesis using assms(1) k set rs ids ids' unfolding config_sound_def by auto
qed

lemma config_step_keeps: "config_step db db' \<Longrightarrow> config_sound db \<Longrightarrow> config_sound db'"
proof (induction rule: config_step.induct)
  case (new_policy sc c b db p db')
  then show ?case using created_policy [OF new_policy.hyps] by (auto simp: config_sound_def less_Suc_eq)
next
  case (patched_policy sc c i q db p db')
  then have "\<forall>q\<in>set (cf_policies db). policy_sound q" by (simp add: config_sound_def)
  then show ?case using patched_policy_sound [OF patched_policy.hyps] patched_policy.prems
    by (auto simp: config_sound_def elim!: in_update_whereE)
qed (blast intro: new_calendar_keeps patched_calendar_keeps)+

lemma config_steps_keep: "config_steps db db' \<Longrightarrow> config_sound db \<Longrightarrow> config_sound db'"
  by (induction rule: config_steps.induct) (auto intro: config_step_keeps)

lemma find_replaced:
  "i \<in> set (map cr_id rows) \<Longrightarrow> cr_id k = i
     \<Longrightarrow> find (\<lambda>q. cr_id q = i) (update_where (\<lambda>q. cr_id q = i) (\<lambda>_. k) rows) = Some k"
  by (induction rows) (auto simp: update_where_def)

subsection \<open>Properties\<close>


text \<open>A desk that wants to staff all seven days, and an administrator who configures it.\<close>

definition desk_admin :: desk_scope where
  "desk_admin = \<lparr>ds_perms = [''service_desk.sla.manage''], ds_admin = False\<rparr>"

definition admin_ctx :: ctx where
  "admin_ctx = \<lparr>cx_tenant = Some 1, cx_company = Some 2, cx_branch = None, cx_user = Some 3\<rparr>"

definition empty_config :: config_db where
  "empty_config = \<lparr>cf_policies = [], cf_calendars = [], cf_holidays = [], cf_categories = [], cf_audit = [], cf_next = 1\<rparr>"

definition every_day :: calendar_body where
  "every_day = \<lparr>cb_code = JStr ''ALL'', cb_name = JStr ''Every day'', cb_branch = None, cb_zone = JUndef,
     cb_days = JArr [JNum 0, JNum 1, JNum 2, JNum 3, JNum 4, JNum 5, JNum 6, JNum 7], cb_start = JStr ''8:00'', cb_end = JStr ''17:00'',
     cb_24x7 = JUndef, cb_default = JBool True, cb_active = JUndef\<rparr>"

definition every_day_row :: calendar_row where
  "every_day_row = \<lparr>cr_id = 1, cr_tenant = 1, cr_company = 2, cr_branch = None, cr_code = ''ALL'', cr_name = ''Every day'',
     cr_zone = ''Africa/Kampala'', cr_days = [0, 1, 2, 3, 4, 5, 6], cr_start = 28800000, cr_end = 61200000, cr_24x7 = False,
     cr_default = True, cr_active = True\<rparr>"

definition every_day_config :: config_db where
  "every_day_config = config_audit admin_ctx ''create'' 1 ''ALL'' (empty_config\<lparr>cf_calendars := [every_day_row], cf_next := 2\<rparr>)"

lemma every_day_created: "create_business_calendar desk_admin admin_ctx every_day empty_config = Inr (every_day_row, every_day_config)"
  by code_simp


text \<open>
  An update that leaves a calendar with no day but Sunday (an empty list is accepted too) makes every
  business deadline on it a wall-clock deadline: the search for a working day runs into its guard of 4000
  days, and the target is added to the start as if nights and weekends were open.
\<close>

theorem unstaffed_calendar_runs_on_wall_clock:
  assumes "update_business_calendar sc c i b db = Inr (k, db')" and "config_sound db"
    and "normalise_working_days (cq_days b) = Some ds" and "filter (\<lambda>d. d \<noteq> 0) ds = []" and "\<not> cr_24x7 k"
  shows "service_sla_due z (cf_calendars db') holidays ''BUSINESS'' start n (Some i)
           = (if n \<le> 0 then start else start + n * minute_ms)"
proof -
  have s: "\<forall>q\<in>set (cf_calendars db). calendar_sound q" using assms(2) by (simp add: config_sound_def)
  note k = patched_calendar_sound [OF assms(1) s]
  then have days: "cr_days k = ds" using assms(3) by auto
  define rows where "rows = (if flag_of (cq_default b)
      then update_where (\<lambda>q. cr_company q = cr_company k \<and> cr_default q \<and> cr_id q \<noteq> i) (\<lambda>q. q\<lparr>cr_default := False\<rparr>) (cf_calendars db)
      else cf_calendars db)"
  have "map cr_id rows = map cr_id (cf_calendars db)" by (simp add: rows_def map_update_where_same)
  then have "i \<in> set (map cr_id rows)" using k by (metis imageI list.set_map)
  then have "find (\<lambda>q. cr_id q = i) (cf_calendars db') = Some k"
    using k find_replaced [of i rows k] by (simp add: rows_def)
  moreover have "filter (\<lambda>m. 1 \<le> m \<and> m \<le> 7) (bc_days (working_time k holidays)) = []"
    using assms(4) by (auto simp: working_time_def days filter_empty_conv)
  ultimately show ?thesis
    using assms(5) by (simp add: service_sla_due_def add_business_minutes_def walk_without_days js_upper_def
        to_upper_def is_lower_def char_code_def)
qed

text \<open>The same calendar, updated to Sundays only: the 90 minutes run through the night.\<close>

definition sundays_only :: calendar_patch where
  "sundays_only = \<lparr>cq_name = JUndef, cq_zone = JUndef, cq_branch = None, cq_days = JArr [JNum 0], cq_start = JUndef,
     cq_end = JUndef, cq_24x7 = JUndef, cq_active = JUndef, cq_default = JUndef\<rparr>"

lemma unstaffed_calendar_runs_on_wall_clock_witness:
  "case update_business_calendar desk_admin admin_ctx 1 sundays_only every_day_config of
     Inl _ \<Rightarrow> False
   | Inr (k, db') \<Rightarrow> service_sla_due kampala (cf_calendars db') [] ''BUSINESS'' (20707 * day_ms) 90 (Some 1)
                      = 20707 * day_ms + 90 * minute_ms"
proof -
  let ?k = "every_day_row\<lparr>cr_days := [0]\<rparr>"
  let ?db = "config_audit admin_ctx ''update'' 1 ''ALL'' (every_day_config\<lparr>cf_calendars := [?k]\<rparr>)"
  have u: "update_business_calendar desk_admin admin_ctx 1 sundays_only every_day_config = Inr (?k, ?db)" by code_simp
  have s: "config_sound every_day_config" using config_steps_keep [OF config_more [OF config_start new_calendar [OF every_day_created]]]
    by (simp add: config_sound_def empty_config_def defaults_of_def)
  have d: "normalise_working_days (cq_days sundays_only) = Some [0]" by code_simp
  show ?thesis
    unfolding u sum.case prod.case
    using unstaffed_calendar_runs_on_wall_clock [OF u s d, of kampala "[]" "20707 * day_ms" 90] by (simp add: every_day_row_def)
qed

end
