(* ===== verification/Service_Sla.thy ===== *)
theory Service_Sla
  imports Service_Config
begin

text \<open>
  The SLA and escalation engine of the service desk (\<^verbatim>\<open>apps/api/src/services/serviceDeskSla.ts\<close>): the
  choice of a policy, the deadlines of a ticket, the clock that is paused, resumed, stopped and cancelled,
  the breaches, the escalation rules and the sweep of the background worker. \<open>Service_Tickets\<close> models the
  ticket actions that call it.

  One instant stands for the time of an operation: \<open>now()\<close> of the database and \<open>new Date()\<close> of the
  server. The guard of \<^verbatim>\<open>0150_service_desk.sql\<close> on status changes is part of every status update.
  Notifications are not modelled, neither are the payloads of events and audit rows; texts made for
  display are abbreviated. The queries
  of the sweep are limited to 200 rows without an order that the code relies on; the table order
  stands for it.
\<close>

subsection \<open>Tickets and their lifecycle\<close>

datatype ticket_status =
    S_NEW | S_OPEN | S_ASSIGNED | S_IN_PROGRESS | S_PENDING_REQUESTER | S_PENDING_VENDOR
  | S_RESOLVED | S_CLOSED | S_CANCELLED | S_REOPENED | S_ESCALATED

fun transition_ok :: "ticket_status \<Rightarrow> ticket_status \<Rightarrow> bool" where
  "transition_ok S_NEW b = (b \<in> {S_NEW, S_OPEN, S_ASSIGNED, S_CANCELLED, S_ESCALATED})"
| "transition_ok S_OPEN b = (b \<in> {S_OPEN, S_ASSIGNED, S_IN_PROGRESS, S_PENDING_REQUESTER, S_PENDING_VENDOR, S_RESOLVED,
     S_CANCELLED, S_ESCALATED})"
| "transition_ok S_REOPENED b = (b \<in> {S_REOPENED, S_OPEN, S_ASSIGNED, S_IN_PROGRESS, S_CANCELLED})"
| "transition_ok S_ASSIGNED b = (b \<in> {S_ASSIGNED, S_OPEN, S_IN_PROGRESS, S_PENDING_REQUESTER, S_PENDING_VENDOR, S_RESOLVED,
     S_CANCELLED, S_ESCALATED})"
| "transition_ok S_IN_PROGRESS b = (b \<in> {S_IN_PROGRESS, S_ASSIGNED, S_OPEN, S_PENDING_REQUESTER, S_PENDING_VENDOR, S_RESOLVED,
     S_CANCELLED, S_ESCALATED})"
| "transition_ok S_ESCALATED b = (b \<in> {S_ESCALATED, S_OPEN, S_ASSIGNED, S_IN_PROGRESS, S_PENDING_REQUESTER, S_PENDING_VENDOR,
     S_RESOLVED, S_CANCELLED})"
| "transition_ok S_PENDING_REQUESTER b = (b \<in> {S_PENDING_REQUESTER, S_OPEN, S_IN_PROGRESS, S_RESOLVED, S_CLOSED, S_CANCELLED,
     S_ESCALATED})"
| "transition_ok S_PENDING_VENDOR b = (b \<in> {S_PENDING_VENDOR, S_OPEN, S_IN_PROGRESS, S_RESOLVED, S_CANCELLED, S_ESCALATED})"
| "transition_ok S_RESOLVED b = (b \<in> {S_RESOLVED, S_CLOSED, S_REOPENED, S_IN_PROGRESS})"
| "transition_ok S_CLOSED b = (b \<in> {S_CLOSED, S_REOPENED})"
| "transition_ok S_CANCELLED b = (b \<in> {S_CANCELLED, S_REOPENED})"

record ticket =
  tk_id :: row_id
  tk_tenant :: row_id
  tk_company :: row_id
  tk_branch :: "row_id option"
  tk_category :: "row_id option"
  tk_department :: "row_id option"
  tk_requester :: "row_id option"
  tk_type :: "string option"
  tk_impact :: "string option"
  tk_urgency :: "string option"
  tk_overridden :: bool
  tk_priority :: "string option"
  tk_status :: ticket_status
  tk_reason :: "string option"
  tk_assignee :: "row_id option"
  tk_opened :: instant
  tk_first_response :: "instant option"
  tk_resolved :: "instant option"
  tk_closed :: "instant option"
  tk_cancelled :: "instant option"
  tk_reopened :: "instant option"
  tk_reopens :: nat
  tk_confirm :: bool
  tk_resolution :: "(string \<times> string) option"
  tk_confirmed :: "instant option"
  tk_rating :: "rat option"
  tk_response_due :: "instant option"
  tk_resolution_due :: "instant option"

record status_change =
  sh_ticket :: row_id
  sh_from :: ticket_status
  sh_to :: ticket_status
  sh_reason :: string

text \<open>The clock of a ticket, \<open>sla_tracking\<close>.\<close>

datatype clock_state = RUNNING | PAUSED | MET | BREACHED | STOPPED

datatype target_state = G_PENDING | G_MET | G_BREACHED | G_CANCELLED

record sla_clock =
  ck_id :: row_id
  ck_tenant :: row_id
  ck_ticket :: row_id
  ck_policy :: row_id
  ck_state :: clock_state
  ck_response_due :: "instant option"
  ck_response :: "instant option"
  ck_response_state :: target_state
  ck_resolution_due :: "instant option"
  ck_resolved :: "instant option"
  ck_resolution_state :: target_state
  ck_paused_minutes :: int
  ck_paused :: "instant option"
  ck_response_warning :: "instant option"
  ck_response_warned :: "instant option"
  ck_resolution_warning :: "instant option"
  ck_resolution_warned :: "instant option"

datatype breach_kind = RESPONSE | RESOLUTION

record sla_breach =
  br_id :: row_id
  br_ticket :: row_id
  br_clock :: "row_id option"
  br_policy :: "row_id option"
  br_kind :: breach_kind
  br_due :: instant
  br_at :: instant
  br_over :: int
  br_reason :: string

record escalation_level =
  el_id :: row_id
  el_tenant :: row_id
  el_company :: row_id
  el_level :: nat
  el_code :: string
  el_role :: string
  el_active :: bool

datatype rule_trigger = NO_RESPONSE | NO_RESOLUTION | SLA_WARNING | SLA_BREACH

record escalation_rule =
  er_id :: row_id
  er_tenant :: row_id
  er_company :: row_id
  er_code :: string
  er_name :: string
  er_category :: "row_id option"
  er_priority :: "string option"
  er_level :: row_id
  er_after :: int
  er_trigger :: rule_trigger
  er_active :: bool

record escalation =
  ec_id :: row_id
  ec_company :: "row_id option"
  ec_ticket :: row_id
  ec_rule :: "row_id option"
  ec_level :: nat
  ec_reason :: string
  ec_manual :: bool
  ec_from :: "row_id option"
  ec_to_user :: "row_id option"
  ec_role :: string
  ec_acknowledged :: "instant option"
  ec_resolved :: "instant option"

record comment =
  cm_ticket :: row_id
  cm_internal :: bool
  cm_body :: string
  cm_author :: "row_id option"

record desk =
  dk_config :: config_db
  dk_tickets :: "ticket list"
  dk_history :: "status_change list"
  dk_clocks :: "sla_clock list"
  dk_breaches :: "sla_breach list"
  dk_levels :: "escalation_level list"
  dk_rules :: "escalation_rule list"
  dk_escalations :: "escalation list"
  dk_comments :: "comment list"
  dk_events :: "event_row list"
  dk_audit :: "audit_row list"
  dk_next :: row_id

definition find_ticket :: "row_id \<Rightarrow> desk \<Rightarrow> ticket option" where
  "find_ticket i db = find (\<lambda>t. tk_id t = i) (dk_tickets db)"

definition set_ticket :: "row_id \<Rightarrow> (ticket \<Rightarrow> ticket) \<Rightarrow> desk \<Rightarrow> desk" where
  "set_ticket i f db = db\<lparr>dk_tickets := update_where (\<lambda>t. tk_id t = i) f (dk_tickets db)\<rparr>"

definition find_clock :: "row_id \<Rightarrow> desk \<Rightarrow> sla_clock option" where
  "find_clock i db = find (\<lambda>k. ck_ticket k = i) (dk_clocks db)"

definition set_clock :: "row_id \<Rightarrow> (sla_clock \<Rightarrow> sla_clock) \<Rightarrow> desk \<Rightarrow> desk" where
  "set_clock i f db = db\<lparr>dk_clocks := update_where (\<lambda>k. ck_ticket k = i) f (dk_clocks db)\<rparr>"

definition desk_audit :: "ctx \<Rightarrow> string \<Rightarrow> string \<Rightarrow> row_id \<Rightarrow> desk \<Rightarrow> desk" where
  "desk_audit c action resource i db = db\<lparr>dk_audit := log_audit c
     \<lparr>ae_action = action, ae_resource = resource, ae_record = Some i, ae_code = None, ae_old = [], ae_new = []\<rparr> (dk_audit db)\<rparr>"

definition desk_event :: "ctx \<Rightarrow> string \<Rightarrow> string \<Rightarrow> row_id \<Rightarrow> severity_level \<Rightarrow> desk \<Rightarrow> desk" where
  "desk_event c kind entity i severity db = db\<lparr>dk_events := emit_event c
     \<lparr>ep_type = kind, ep_entity_type = Some entity, ep_entity = Some i, ep_code = None, ep_payload = [],
      ep_severity = Some severity\<rparr> (dk_events db)\<rparr>"

text \<open>
  An update of \<open>status\<close> and \<open>status_reason\<close>, with the trigger \<open>service_ticket_status_guard\<close>: an illegal
  change is an exception, a change is recorded in the history.
\<close>

definition change_status ::
  "row_id \<Rightarrow> ticket_status \<Rightarrow> string option \<Rightarrow> (ticket \<Rightarrow> ticket) \<Rightarrow> desk \<Rightarrow> desk result" where
  "change_status i new reason f db =
     (case find_ticket i db of
        None \<Rightarrow> Inr db
      | Some t \<Rightarrow>
          if \<not> transition_ok (tk_status t) new then Inl (Internal ''Illegal service ticket transition'')
          else
            let db1 = set_ticket i (\<lambda>t. f (t\<lparr>tk_status := new, tk_reason := reason\<rparr>)) db
            in Inr (if tk_status t = new then db1
                    else db1\<lparr>dk_history := dk_history db1 @
                        [\<lparr>sh_ticket = i, sh_from = tk_status t, sh_to = new, sh_reason = the_default ''Status changed'' reason\<rparr>]\<rparr>))"

subsection \<open>Choosing a policy\<close>

record sla_ref =
  rf_ticket :: row_id
  rf_company :: row_id
  rf_branch :: "row_id option"
  rf_category :: "row_id option"
  rf_priority :: "string option"
  rf_type :: "string option"
  rf_department :: "row_id option"
  rf_opened :: "instant option"

definition covers :: "'a option \<Rightarrow> 'a option \<Rightarrow> bool" where
  "covers p t \<longleftrightarrow> p = None \<or> sql_eq p t"

definition policy_covers :: "ctx \<Rightarrow> sla_ref \<Rightarrow> sla_policy \<Rightarrow> bool" where
  "policy_covers c r p \<longleftrightarrow>
     cx_tenant c = Some (sp_tenant p) \<and> sp_company p = rf_company r \<and> sp_active p
     \<and> covers (sp_branch p) (rf_branch r) \<and> covers (sp_category p) (rf_category r)
     \<and> covers (sp_department p) (rf_department r) \<and> covers (sp_type p) (rf_type r)
     \<and> covers (sp_priority p) (rf_priority r)"

definition weight :: "int \<Rightarrow> 'a option \<Rightarrow> int" where
  "weight w x = (if x = None then 0 else w)"

definition specificity :: "sla_policy \<Rightarrow> int" where
  "specificity p = weight 16 (sp_priority p) + weight 8 (sp_category p) + weight 4 (sp_department p)
     + weight 2 (sp_type p) + weight 1 (sp_branch p)"

text \<open>
  \<open>ORDER BY specificity DESC, priority NULLS LAST, id\<close>. The priorities of two policies that cover a
  ticket are equal if neither is null, so whether it is null is all that the second key can tell.
\<close>

definition policy_key :: "sla_policy \<Rightarrow> int \<times> nat \<times> row_id" where
  "policy_key p = (- specificity p, if sp_priority p = None then 1 else 0, sp_id p)"

definition select_sla_policy :: "ctx \<Rightarrow> sla_ref \<Rightarrow> config_db \<Rightarrow> sla_policy option" where
  "select_sla_policy c r cfg = limit1 policy_key (filter (policy_covers c r) (cf_policies cfg))"

subsection \<open>Deadlines\<close>

record sla_window =
  sw_policy :: row_id
  sw_response :: instant
  sw_resolution :: instant
  sw_response_warning :: instant
  sw_resolution_warning :: instant

definition compute_sla_window :: "zones \<Rightarrow> config_db \<Rightarrow> sla_policy \<Rightarrow> instant \<Rightarrow> sla_window" where
  "compute_sla_window z cfg p from_at =
     (let due = (\<lambda>n. service_sla_due z (cf_calendars cfg) (cf_holidays cfg) (sp_basis p) from_at n (sp_calendar p)) in
      \<lparr>sw_policy = sp_id p, sw_response = due (sp_response p), sw_resolution = due (sp_resolution p),
       sw_response_warning = due (max (sp_response p - sp_warning p) 0),
       sw_resolution_warning = due (max (sp_resolution p - sp_warning p) 0)\<rparr>)"

text \<open>Comparisons of timestamps that may be \<open>NULL\<close>.\<close>

definition passed :: "instant option \<Rightarrow> instant \<Rightarrow> bool" where
  "passed d now \<longleftrightarrow> (case d of None \<Rightarrow> False | Some x \<Rightarrow> x < now)"

definition reached :: "instant option \<Rightarrow> instant \<Rightarrow> bool" where
  "reached d now \<longleftrightarrow> (case d of None \<Rightarrow> False | Some x \<Rightarrow> x \<le> now)"

definition late :: "instant option \<Rightarrow> instant option \<Rightarrow> bool" where
  "late when due \<longleftrightarrow> (case (when, due) of (Some a, Some d) \<Rightarrow> d < a | _ \<Rightarrow> False)"

definition target_of :: "instant option \<Rightarrow> instant option \<Rightarrow> target_state" where
  "target_of when due =
     (case (when, due) of (Some a, Some d) \<Rightarrow> if a \<le> d then G_MET else G_BREACHED | _ \<Rightarrow> G_PENDING)"

definition recompute_clock :: "instant \<Rightarrow> sla_clock \<Rightarrow> sla_clock" where
  "recompute_clock now k = k\<lparr>
     ck_response_state := target_of (ck_response k) (ck_response_due k),
     ck_resolution_state := target_of (ck_resolved k) (ck_resolution_due k),
     ck_state :=
       (if ck_state k = STOPPED then STOPPED
        else case ck_resolved k of
            Some r \<Rightarrow> if r \<le> the_default r (ck_resolution_due k) then MET else BREACHED
          | None \<Rightarrow>
              if ck_state k = PAUSED then PAUSED
              else if ck_response k = None \<and> passed (ck_response_due k) now then BREACHED
              else if passed (ck_resolution_due k) now then BREACHED
              else RUNNING)\<rparr>"

definition recompute_sla_states :: "instant \<Rightarrow> row_id \<Rightarrow> desk \<Rightarrow> desk" where
  "recompute_sla_states now i = set_clock i (recompute_clock now)"

text \<open>\<open>INSERT .. ON CONFLICT (ticket_id) DO UPDATE\<close>.\<close>

definition new_clock :: "row_id \<Rightarrow> row_id \<Rightarrow> row_id \<Rightarrow> sla_window \<Rightarrow> sla_clock" where
  "new_clock i tenant t w =
     \<lparr>ck_id = i, ck_tenant = tenant, ck_ticket = t, ck_policy = sw_policy w, ck_state = RUNNING,
      ck_response_due = Some (sw_response w), ck_response = None, ck_response_state = G_PENDING,
      ck_resolution_due = Some (sw_resolution w), ck_resolved = None, ck_resolution_state = G_PENDING,
      ck_paused_minutes = 0, ck_paused = None, ck_response_warning = Some (sw_response_warning w), ck_response_warned = None,
      ck_resolution_warning = Some (sw_resolution_warning w), ck_resolution_warned = None\<rparr>"

definition rewind_clock :: "sla_window \<Rightarrow> sla_clock \<Rightarrow> sla_clock" where
  "rewind_clock w k = k\<lparr>
     ck_policy := sw_policy w,
     ck_state := (if ck_state k \<in> {STOPPED, MET, BREACHED} then ck_state k else RUNNING),
     ck_response_due := Some (sw_response w), ck_resolution_due := Some (sw_resolution w),
     ck_response_warning := Some (sw_response_warning w), ck_resolution_warning := Some (sw_resolution_warning w),
     ck_response_warned := (if ck_response_due k \<noteq> Some (sw_response w) then None else ck_response_warned k),
     ck_resolution_warned := (if ck_resolution_due k \<noteq> Some (sw_resolution w) then None else ck_resolution_warned k),
     ck_paused := None\<rparr>"

definition upsert_clock :: "ctx \<Rightarrow> row_id \<Rightarrow> sla_window \<Rightarrow> desk \<Rightarrow> desk" where
  "upsert_clock c t w db =
     (if exists_where (\<lambda>k. ck_ticket k = t) (dk_clocks db) then set_clock t (rewind_clock w) db
      else db\<lparr>dk_clocks := dk_clocks db @ [new_clock (dk_next db) (the_default 0 (cx_tenant c)) t w],
             dk_next := Suc (dk_next db)\<rparr>)"

definition apply_sla_to_ticket :: "zones \<Rightarrow> ctx \<Rightarrow> instant \<Rightarrow> sla_ref \<Rightarrow> desk \<Rightarrow> sla_window option \<times> desk" where
  "apply_sla_to_ticket z c now r db =
     (case select_sla_policy c r (dk_config db) of
        None \<Rightarrow> (None, db)
      | Some p \<Rightarrow>
          (let w = compute_sla_window z (dk_config db) p (the_default now (rf_opened r)) in
           (Some w, recompute_sla_states now (rf_ticket r)
              (set_ticket (rf_ticket r)
                 (\<lambda>t. t\<lparr>tk_response_due := Some (sw_response w), tk_resolution_due := Some (sw_resolution w)\<rparr>)
                 (upsert_clock c (rf_ticket r) w db)))))"

subsection \<open>Breaches\<close>

definition minutes_over :: "instant \<Rightarrow> instant \<Rightarrow> int" where
  "minutes_over when due = max 0 (js_round (of_int (when - due) / 60000))"

definition record_breach ::
  "ctx \<Rightarrow> row_id \<Rightarrow> breach_kind \<Rightarrow> instant option \<Rightarrow> instant \<Rightarrow> string \<Rightarrow> desk \<Rightarrow> row_id option \<times> desk" where
  "record_breach c i kind due when reason db =
     (case (due, find_ticket i db) of
        (None, _) \<Rightarrow> (None, db)
      | (_, None) \<Rightarrow> (None, db)
      | (Some d, Some t) \<Rightarrow>
          if exists_where (\<lambda>b. br_ticket b = i \<and> br_kind b = kind) (dk_breaches db) then (None, db)
          else
            (let row = \<lparr>br_id = dk_next db, br_ticket = i, br_clock = map_option ck_id (find_clock i db),
                   br_policy = map_option ck_policy (find_clock i db), br_kind = kind, br_due = d, br_at = when,
                   br_over = minutes_over when d, br_reason = reason\<rparr>
             in (Some (dk_next db),
                 desk_audit c ''sla_breach'' ''service_desk.sla'' i
                   (desk_event c ''service_desk.sla.breached'' ''service_desk.tickets'' i (if kind = RESPONSE then WARN else ERROR)
                     (db\<lparr>dk_breaches := dk_breaches db @ [row], dk_next := Suc (dk_next db)\<rparr>)))))"

subsection \<open>The clock\<close>

definition first_value :: "'a option \<Rightarrow> 'a \<Rightarrow> 'a option" where
  "first_value old new = (case old of None \<Rightarrow> Some new | Some x \<Rightarrow> Some x)"

definition record_first_response :: "ctx \<Rightarrow> instant \<Rightarrow> row_id \<Rightarrow> instant \<Rightarrow> desk \<Rightarrow> desk" where
  "record_first_response c now i when db =
     (let db1 = set_clock i (\<lambda>k. k\<lparr>ck_response := first_value (ck_response k) when\<rparr>) db;
          row = find_clock i db1;
          db2 = recompute_sla_states now i (set_ticket i (\<lambda>t. t\<lparr>tk_first_response := first_value (tk_first_response t) when\<rparr>) db1)
      in case row of
           None \<Rightarrow> db2
         | Some k \<Rightarrow>
             if late (ck_response k) (ck_response_due k)
             then snd (record_breach c i RESPONSE (ck_response_due k) (the_default now (ck_response k))
                         ''No response before the SLA response target'' db2)
             else db2)"

definition mark_resolved :: "ctx \<Rightarrow> instant \<Rightarrow> row_id \<Rightarrow> instant \<Rightarrow> desk \<Rightarrow> desk" where
  "mark_resolved c now i when db =
     (let db1 = set_clock i (\<lambda>k. k\<lparr>ck_resolved := first_value (ck_resolved k) when\<rparr>) db;
          row = find_clock i db1;
          db2 = recompute_sla_states now i db1
      in case row of
           None \<Rightarrow> db2
         | Some k \<Rightarrow>
             if late (ck_resolved k) (ck_resolution_due k)
             then snd (record_breach c i RESOLUTION (ck_resolution_due k) (the_default now (ck_resolved k))
                         ''Resolved after the SLA resolution target'' db2)
             else db2)"

definition pause_clock :: "instant \<Rightarrow> sla_clock \<Rightarrow> sla_clock" where
  "pause_clock when k =
     (if ck_state k = RUNNING then k\<lparr>ck_state := PAUSED, ck_paused := first_value (ck_paused k) when\<rparr> else k)"

definition pause_sla :: "row_id \<Rightarrow> instant \<Rightarrow> desk \<Rightarrow> desk" where
  "pause_sla i when = set_clock i (pause_clock when)"

definition shift_by :: "int \<Rightarrow> instant option \<Rightarrow> instant option" where
  "shift_by n = map_option (\<lambda>x. x + n)"

definition resume_clock :: "instant \<Rightarrow> sla_clock \<Rightarrow> sla_clock" where
  "resume_clock when k =
     (case ck_paused k of
        None \<Rightarrow> k
      | Some p \<Rightarrow> k\<lparr>
          ck_paused_minutes := ck_paused_minutes k + max 0 ((when - p) div 60000),
          ck_response_due := shift_by (when - p) (ck_response_due k),
          ck_resolution_due := shift_by (when - p) (ck_resolution_due k),
          ck_response_warning := shift_by (when - p) (ck_response_warning k),
          ck_resolution_warning := shift_by (when - p) (ck_resolution_warning k),
          ck_paused := None, ck_state := RUNNING\<rparr>)"

definition copy_dues :: "row_id \<Rightarrow> desk \<Rightarrow> desk" where
  "copy_dues i db =
     set_ticket i (\<lambda>t. t\<lparr>tk_response_due := Option.bind (find_clock i db) ck_response_due,
        tk_resolution_due := Option.bind (find_clock i db) ck_resolution_due\<rparr>) db"

definition resume_sla :: "instant \<Rightarrow> row_id \<Rightarrow> instant \<Rightarrow> desk \<Rightarrow> desk" where
  "resume_sla now i when db = recompute_sla_states now i (copy_dues i (set_clock i (resume_clock when) db))"

definition cancel_clock :: "sla_clock \<Rightarrow> sla_clock" where
  "cancel_clock k = k\<lparr>ck_state := STOPPED,
     ck_response_state := (if ck_response_state k = G_PENDING then G_CANCELLED else ck_response_state k),
     ck_resolution_state := (if ck_resolution_state k = G_PENDING then G_CANCELLED else ck_resolution_state k)\<rparr>"

definition cancel_sla :: "row_id \<Rightarrow> desk \<Rightarrow> desk" where
  "cancel_sla i = set_clock i cancel_clock"

definition close_open_escalations :: "instant \<Rightarrow> row_id \<Rightarrow> desk \<Rightarrow> nat \<times> desk" where
  "close_open_escalations now i db =
     (let p = (\<lambda>e. ec_ticket e = i \<and> ec_resolved e = None) in
      (length (filter p (dk_escalations db)),
       db\<lparr>dk_escalations := update_where p (\<lambda>e. e\<lparr>ec_resolved := Some now\<rparr>) (dk_escalations db)\<rparr>))"

subsection \<open>Escalation rules\<close>

fun fold_steps :: "('x \<Rightarrow> 's \<Rightarrow> 's result) \<Rightarrow> 'x list \<Rightarrow> 's \<Rightarrow> 's result" where
  "fold_steps f [] s = Inr s"
| "fold_steps f (x # xs) s = rbind (f x s) (fold_steps f xs)"

text \<open>The rule with its level, in scope of the ticket and without an open escalation on it.\<close>

definition open_escalation :: "row_id \<Rightarrow> row_id \<Rightarrow> escalation \<Rightarrow> bool" where
  "open_escalation i rule e \<longleftrightarrow> ec_ticket e = i \<and> ec_rule e = Some rule \<and> ec_resolved e = None"

definition level_of :: "escalation_rule \<Rightarrow> desk \<Rightarrow> escalation_level option" where
  "level_of r db = find (\<lambda>l. el_id l = er_level r) (dk_levels db)"

definition pending_rules :: "ctx \<Rightarrow> ticket \<Rightarrow> desk \<Rightarrow> (escalation_rule \<times> escalation_level) list" where
  "pending_rules c t db =
     sort_key (\<lambda>(r, l). (er_after r, el_level l))
       (concat (map (\<lambda>r. case level_of r db of
            None \<Rightarrow> []
          | Some l \<Rightarrow>
              if own_row c (er_tenant r) (er_company r) \<and> er_active r \<and> el_active l
                 \<and> covers (er_category r) (tk_category t) \<and> covers (er_priority r) (tk_priority t)
                 \<and> \<not> exists_where (open_escalation (tk_id t) (er_id r)) (dk_escalations db)
              then [(r, l)] else [])
         (dk_rules db)))"

definition has_breach :: "row_id \<Rightarrow> breach_kind \<Rightarrow> desk \<Rightarrow> bool" where
  "has_breach i kind db \<longleftrightarrow> exists_where (\<lambda>b. br_ticket b = i \<and> br_kind b = kind) (dk_breaches db)"

text \<open>\<open>response_due_at ?? resolution_due_at\<close> of the joined clock.\<close>

definition warned_due :: "sla_clock option \<Rightarrow> instant option" where
  "warned_due k =
     (case k of None \<Rightarrow> None
      | Some x \<Rightarrow> (case ck_response_due x of None \<Rightarrow> ck_resolution_due x | Some d \<Rightarrow> Some d))"

definition rule_due :: "instant \<Rightarrow> ticket \<Rightarrow> sla_clock option \<Rightarrow> bool \<Rightarrow> escalation_rule \<Rightarrow> bool" where
  "rule_due now t k breached r =
     (tk_resolved t = None \<and>
      (case er_trigger r of
         NO_RESPONSE \<Rightarrow> tk_first_response t = None \<and> er_after r * 60000 \<le> now - tk_opened t
       | NO_RESOLUTION \<Rightarrow> er_after r * 60000 \<le> now - tk_opened t
       | SLA_WARNING \<Rightarrow>
           (case warned_due k of None \<Rightarrow> False | Some d \<Rightarrow> d - max (er_after r * 60000) 0 \<le> now \<and> now < d)
       | SLA_BREACH \<Rightarrow> breached))"

record escalation_outcome =
  eo_rule :: row_id
  eo_level :: nat
  eo_code :: string
  eo_role :: "string option"

definition escalatable :: "ticket_status set" where
  "escalatable = {S_NEW, S_OPEN, S_ASSIGNED, S_IN_PROGRESS, S_PENDING_REQUESTER, S_PENDING_VENDOR}"

definition rule_reason :: "escalation_rule \<Rightarrow> string" where
  "rule_reason r = ''Automatic escalation ('' @ er_code r @ '')''"

definition new_escalation :: "ctx \<Rightarrow> row_id \<Rightarrow> ticket \<Rightarrow> escalation_rule \<Rightarrow> escalation_level \<Rightarrow> escalation" where
  "new_escalation c i t r l =
     \<lparr>ec_id = i, ec_company = cx_company c, ec_ticket = tk_id t, ec_rule = Some (er_id r), ec_level = el_level l,
      ec_reason = rule_reason r, ec_manual = False, ec_from = tk_assignee t, ec_to_user = None, ec_role = el_role l,
      ec_acknowledged = None, ec_resolved = None\<rparr>"

text \<open>The update of the status names the statuses it applies to; the guard allows each of them.\<close>

definition flag_escalated :: "row_id \<Rightarrow> string \<Rightarrow> desk \<Rightarrow> desk result" where
  "flag_escalated i reason db =
     (case find_ticket i db of
        None \<Rightarrow> Inr db
      | Some t \<Rightarrow> if tk_status t \<in> escalatable then change_status i S_ESCALATED (Some reason) (\<lambda>t. t) db else Inr db)"

definition raise_escalation ::
  "ctx \<Rightarrow> instant \<Rightarrow> ticket \<Rightarrow> sla_clock option \<Rightarrow> bool \<Rightarrow> escalation_rule \<times> escalation_level
     \<Rightarrow> escalation_outcome list \<times> desk \<Rightarrow> (escalation_outcome list \<times> desk) result" where
  "raise_escalation c now t k breached rl s =
     (if \<not> rule_due now t k breached (fst rl) then Inr s
      else
        let r = fst rl; l = snd rl; severity = (if 4 \<le> el_level l then ERROR else WARN);
            db1 = (snd s)\<lparr>dk_escalations := dk_escalations (snd s) @ [new_escalation c (dk_next (snd s)) t r l],
                          dk_next := Suc (dk_next (snd s))\<rparr>
        in rbind (flag_escalated (tk_id t) (''Escalated: '' @ er_name r) db1) (\<lambda>db2.
             Inr (fst s @ [\<lparr>eo_rule = er_id r, eo_level = el_level l, eo_code = el_code l,
                            eo_role = (if el_role l = [] then None else Some (el_role l))\<rparr>],
                  desk_audit c ''escalate'' ''service_desk.tickets'' (tk_id t)
                    (desk_event c ''service_desk.ticket.escalated'' ''service_desk.tickets'' (tk_id t) severity db2))))"

definition apply_escalation_rules :: "ctx \<Rightarrow> instant \<Rightarrow> row_id \<Rightarrow> desk \<Rightarrow> (escalation_outcome list \<times> desk) result" where
  "apply_escalation_rules c now i db =
     (case find_ticket i db of
        None \<Rightarrow> Inr ([], db)
      | Some t \<Rightarrow>
          if tk_status t = S_CLOSED \<or> tk_status t = S_CANCELLED then Inr ([], db)
          else fold_steps
                 (raise_escalation c now t (find_clock i db) (has_breach i RESPONSE db \<or> has_breach i RESOLUTION db))
                 (pending_rules c t db) ([], db))"

subsection \<open>The sweep\<close>

record sweep_summary =
  ss_tenants :: nat
  ss_response_warnings :: nat
  ss_resolution_warnings :: nat
  ss_response_breaches :: nat
  ss_resolution_breaches :: nat
  ss_escalations :: nat

definition empty_sweep :: sweep_summary where
  "empty_sweep = \<lparr>ss_tenants = 0, ss_response_warnings = 0, ss_resolution_warnings = 0, ss_response_breaches = 0,
     ss_resolution_breaches = 0, ss_escalations = 0\<rparr>"

definition live_status :: "ticket_status \<Rightarrow> bool" where
  "live_status x \<longleftrightarrow> x \<notin> {S_RESOLVED, S_CLOSED, S_CANCELLED}"

text \<open>\<open>sla_tracking s JOIN service_tickets t\<close>, in the tenant of the sweep (row-level security).\<close>

definition clocked_tickets :: "ctx \<Rightarrow> desk \<Rightarrow> (sla_clock \<times> ticket) list" where
  "clocked_tickets c db =
     concat (map (\<lambda>k. map (\<lambda>t. (k, t))
         (filter (\<lambda>t. tk_id t = ck_ticket k \<and> cx_tenant c = Some (tk_tenant t) \<and> cx_tenant c = Some (ck_tenant k)) (dk_tickets db)))
       (dk_clocks db))"

definition warnable :: "instant \<Rightarrow> sla_clock \<times> ticket \<Rightarrow> bool" where
  "warnable now x \<longleftrightarrow>
     (case x of (k, t) \<Rightarrow>
        (ck_state k = RUNNING \<or> ck_state k = PAUSED) \<and> live_status (tk_status t)
        \<and> (ck_response_state k = G_PENDING \<and> ck_response k = None \<and> ck_response_warned k = None
              \<and> reached (ck_response_warning k) now
           \<or> ck_resolution_state k = G_PENDING \<and> ck_resolved k = None \<and> ck_resolution_warned k = None
              \<and> reached (ck_resolution_warning k) now))"

definition warning_rows :: "ctx \<Rightarrow> instant \<Rightarrow> desk \<Rightarrow> (sla_clock \<times> ticket) list" where
  "warning_rows c now db =
     take 200 (sort_key (\<lambda>(k, t). min (the_default now (ck_response_warning k)) (the_default now (ck_resolution_warning k)))
       (filter (warnable now) (clocked_tickets c db)))"

text \<open>
  The row that the query returns has no \<open>response_state\<close>, so the test \<open>row.response_state !== 'MET'\<close>
  of the code is always true.
\<close>

definition sweep_warning :: "instant \<Rightarrow> sla_clock \<times> ticket \<Rightarrow> sweep_summary \<times> desk \<Rightarrow> sweep_summary \<times> desk" where
  "sweep_warning now x s =
     (case (x, s) of ((k, t), (out, db)) \<Rightarrow>
        (let i = ck_ticket k; response = reached (ck_response_warning k) now; resolution = reached (ck_resolution_warning k) now;
             db1 = (if response then set_clock i (\<lambda>q. q\<lparr>ck_response_warned := first_value (ck_response_warned q) now\<rparr>) db else db);
             db2 = (if resolution then set_clock i (\<lambda>q. q\<lparr>ck_resolution_warned := first_value (ck_resolution_warned q) now\<rparr>) db1 else db1)
         in (out\<lparr>ss_response_warnings := ss_response_warnings out + of_bool response,
                 ss_resolution_warnings := ss_resolution_warnings out + of_bool resolution\<rparr>,
             recompute_sla_states now i db2)))"

definition breachable :: "instant \<Rightarrow> sla_clock \<times> ticket \<Rightarrow> bool" where
  "breachable now x \<longleftrightarrow>
     (case x of (k, t) \<Rightarrow>
        ck_state k \<noteq> STOPPED \<and> live_status (tk_status t)
        \<and> (ck_response_state k = G_PENDING \<and> ck_response k = None \<and> reached (ck_response_due k) now
           \<or> ck_resolution_state k = G_PENDING \<and> ck_resolved k = None \<and> reached (ck_resolution_due k) now))"

definition sweep_breach :: "ctx \<Rightarrow> instant \<Rightarrow> sla_clock \<times> ticket \<Rightarrow> sweep_summary \<times> desk \<Rightarrow> sweep_summary \<times> desk" where
  "sweep_breach c now x s =
     (case (x, s) of ((k, t), (out, db)) \<Rightarrow>
        (let i = ck_ticket k;
             a = (if reached (ck_response_due k) now
                  then record_breach c i RESPONSE (ck_response_due k) now ''First response missed the SLA response target'' db
                  else (None, db));
             b = (if reached (ck_resolution_due k) now
                  then record_breach c i RESOLUTION (ck_resolution_due k) now ''Resolution missed the SLA resolution target'' (snd a)
                  else (None, snd a))
         in (out\<lparr>ss_response_breaches := ss_response_breaches out + of_bool (fst a \<noteq> None),
                 ss_resolution_breaches := ss_resolution_breaches out + of_bool (fst b \<noteq> None)\<rparr>,
             recompute_sla_states now i (snd b))))"

definition rule_candidate :: "ticket \<Rightarrow> desk \<Rightarrow> escalation_rule \<Rightarrow> bool" where
  "rule_candidate t db r \<longleftrightarrow>
     er_tenant r = tk_tenant t \<and> er_company r = tk_company t \<and> er_active r
     \<and> covers (er_category r) (tk_category t) \<and> covers (er_priority r) (tk_priority t)
     \<and> (case level_of r db of None \<Rightarrow> False | Some l \<Rightarrow> el_active l)
     \<and> \<not> exists_where (open_escalation (tk_id t) (er_id r)) (dk_escalations db)"

definition escalation_candidates :: "ctx \<Rightarrow> instant \<Rightarrow> desk \<Rightarrow> row_id list" where
  "escalation_candidates c now db =
     take 300 (sort (map tk_id (filter (\<lambda>t. cx_tenant c = Some (tk_tenant t) \<and> live_status (tk_status t)
         \<and> now - 30 * day_ms \<le> tk_opened t \<and> exists_where (rule_candidate t db) (dk_rules db))
       (dk_tickets db))))"

definition sweep_escalation :: "ctx \<Rightarrow> instant \<Rightarrow> row_id \<Rightarrow> sweep_summary \<times> desk \<Rightarrow> (sweep_summary \<times> desk) result" where
  "sweep_escalation c now i s =
     rbind (apply_escalation_rules c now i (snd s)) (\<lambda>(raised, db).
       Inr ((fst s)\<lparr>ss_escalations := ss_escalations (fst s) + length raised\<rparr>, db))"

definition sweep_ctx :: "row_id \<Rightarrow> row_id \<Rightarrow> ctx" where
  "sweep_ctx tenant company = \<lparr>cx_tenant = Some tenant, cx_company = Some company, cx_branch = None, cx_user = None\<rparr>"

definition sweep_company :: "instant \<Rightarrow> row_id \<Rightarrow> row_id \<Rightarrow> desk \<Rightarrow> (sweep_summary \<times> desk) result" where
  "sweep_company now tenant company db =
     (let c = sweep_ctx tenant company;
          s1 = fold (sweep_warning now) (warning_rows c now db) (empty_sweep\<lparr>ss_tenants := 1\<rparr>, db);
          s2 = fold (sweep_breach c now) (take 200 (filter (breachable now) (clocked_tickets c (snd s1)))) s1
      in fold_steps (sweep_escalation c now) (escalation_candidates c now (snd s2)) s2)"

definition add_sweeps :: "sweep_summary \<Rightarrow> sweep_summary \<Rightarrow> sweep_summary" where
  "add_sweeps a b = a\<lparr>
     ss_response_warnings := ss_response_warnings a + ss_response_warnings b,
     ss_resolution_warnings := ss_resolution_warnings a + ss_resolution_warnings b,
     ss_response_breaches := ss_response_breaches a + ss_response_breaches b,
     ss_resolution_breaches := ss_resolution_breaches a + ss_resolution_breaches b,
     ss_escalations := ss_escalations a + ss_escalations b\<rparr>"

text \<open>
  Each company is a transaction of its own: an exception rolls it back, is not caught, and ends the tick
  with the earlier companies committed. The flag \<open>sweepRunning\<close> makes a second tick return at once.
\<close>

fun tick_companies :: "instant \<Rightarrow> row_id \<Rightarrow> row_id list \<Rightarrow> sweep_summary \<times> desk \<Rightarrow> sweep_summary result \<times> desk" where
  "tick_companies now tenant [] s = (Inr (fst s), snd s)"
| "tick_companies now tenant (x # xs) s =
     (case with_transaction (sweep_company now tenant x) (snd s) of
        (Inl e, db) \<Rightarrow> (Inl e, db)
      | (Inr out, db) \<Rightarrow> tick_companies now tenant xs (add_sweeps (fst s) out, db))"

definition companies_of :: "row_id \<Rightarrow> desk \<Rightarrow> row_id list" where
  "companies_of tenant db = sort (uniq (map tk_company (filter (\<lambda>t. tk_tenant t = tenant) (dk_tickets db))))"

fun tick_tenants :: "instant \<Rightarrow> row_id list \<Rightarrow> sweep_summary \<times> desk \<Rightarrow> sweep_summary result \<times> desk" where
  "tick_tenants now [] s = (Inr (fst s), snd s)"
| "tick_tenants now (x # xs) s =
     (case tick_companies now x (companies_of x (snd s)) ((fst s)\<lparr>ss_tenants := Suc (ss_tenants (fst s))\<rparr>, snd s) of
        (Inl e, db) \<Rightarrow> (Inl e, db)
      | (Inr out, db) \<Rightarrow> tick_tenants now xs (out, db))"

definition run_sla_tick :: "bool \<Rightarrow> instant \<Rightarrow> row_id list \<Rightarrow> desk \<Rightarrow> sweep_summary result \<times> desk" where
  "run_sla_tick running now tenants db =
     (if running then (Inr empty_sweep, db) else tick_tenants now tenants (empty_sweep, db))"

end
