(* ===== verification/Service_Tickets.thy ===== *)
theory Service_Tickets
  imports Service_Sla
begin

text \<open>
  The ticket actions of \<^verbatim>\<open>apps/api/src/services/serviceDesk.ts\<close> that change the status of a ticket or
  its SLA clock. The reach of the caller, which \<open>ticketActionContext\<close> computes from queues, teams and
  roles, is an argument; so is the technician that an assignment picks. Fields of the request are typed
  arguments: a text is \<open>Some\<close> non-empty trimmed string or \<open>None\<close>. The lists, the creation form and the
  descriptive fields of the update are not modelled.
\<close>

record desk_actor =
  ac_denied :: bool
  ac_requester :: bool
  ac_agent :: bool
  ac_admin :: bool
  ac_notes :: bool
  ac_perms :: "string list"

definition load_ticket :: "ctx \<Rightarrow> row_id \<Rightarrow> desk \<Rightarrow> ticket option" where
  "load_ticket c i db = find (\<lambda>t. tk_id t = i \<and> own_row c (tk_tenant t) (tk_company t)) (dk_tickets db)"

text \<open>\<open>ticketActionContext\<close> and \<open>assertScoped\<close>.\<close>

definition action_ticket :: "ctx \<Rightarrow> desk_actor \<Rightarrow> row_id \<Rightarrow> desk \<Rightarrow> ticket result" where
  "action_ticket c a i db =
     (case load_ticket c i db of
        None \<Rightarrow> Inl (NotFound ''Service ticket not found'')
      | Some t \<Rightarrow> if ac_denied a then Inl (Forbidden ''This ticket is outside your service desk scope'') else Inr t)"

definition pending :: "ticket_status \<Rightarrow> bool" where
  "pending x \<longleftrightarrow> x = S_PENDING_REQUESTER \<or> x = S_PENDING_VENDOR"

definition terminal :: "ticket_status \<Rightarrow> bool" where
  "terminal x \<longleftrightarrow> x = S_CLOSED \<or> x = S_CANCELLED"

definition sla_ref_of :: "ticket \<Rightarrow> sla_ref" where
  "sla_ref_of t =
     \<lparr>rf_ticket = tk_id t, rf_company = tk_company t, rf_branch = tk_branch t, rf_category = tk_category t,
      rf_priority = tk_priority t, rf_type = tk_type t, rf_department = tk_department t, rf_opened = Some (tk_opened t)\<rparr>"

subsection \<open>The single writer of the status\<close>

fun stamp_status :: "ticket_status \<Rightarrow> instant \<Rightarrow> ticket \<Rightarrow> ticket" where
  "stamp_status S_RESOLVED x t = t\<lparr>tk_resolved := first_value (tk_resolved t) x\<rparr>"
| "stamp_status S_CLOSED x t = t\<lparr>tk_closed := first_value (tk_closed t) x\<rparr>"
| "stamp_status S_CANCELLED x t = t\<lparr>tk_cancelled := first_value (tk_cancelled t) x\<rparr>"
| "stamp_status S_REOPENED x t = t\<lparr>tk_reopened := Some x, tk_resolved := None, tk_closed := None, tk_cancelled := None\<rparr>"
| "stamp_status _ x t = t"

definition apply_status ::
  "ctx \<Rightarrow> ticket \<Rightarrow> ticket_status \<Rightarrow> string option \<Rightarrow> instant \<Rightarrow> desk \<Rightarrow> (ticket \<times> desk) result" where
  "apply_status c before to reason x db =
     (if tk_status before = to then Inr (before, db)
      else if \<not> transition_ok (tk_status before) to then Inl (Conflict ''Ticket cannot move'')
      else rbind (change_status (tk_id before) to reason (stamp_status to x) db) (\<lambda>db1.
             Inr (the_default before (load_ticket c (tk_id before) db1), db1)))"

definition after_status_change ::
  "ctx \<Rightarrow> instant \<Rightarrow> ticket \<Rightarrow> ticket_status \<Rightarrow> ticket_status \<Rightarrow> desk \<Rightarrow> desk" where
  "after_status_change c now t old new db =
     (let i = tk_id t;
          db1 = (if pending new \<and> \<not> pending old
                 then (case select_sla_policy c (sla_ref_of t) (dk_config db) of
                         None \<Rightarrow> db
                       | Some p \<Rightarrow> if sp_pause p then pause_sla i now db else db)
                 else if \<not> pending new \<and> pending old then resume_sla now i now db else db);
          db2 = (if new = S_RESOLVED then mark_resolved c now i now db1 else db1)
      in if terminal new then snd (close_open_escalations now i (cancel_sla i db2)) else db2)"

definition ticket_audit :: "ctx \<Rightarrow> string \<Rightarrow> row_id \<Rightarrow> desk \<Rightarrow> desk" where
  "ticket_audit c action i = desk_audit c action ''service_desk.tickets'' i"

definition status_event :: "ctx \<Rightarrow> string \<Rightarrow> row_id \<Rightarrow> severity_level \<Rightarrow> desk \<Rightarrow> desk" where
  "status_event c status i severity = desk_event c (''service_desk.ticket.'' @ status) ''service_ticket'' i severity"

subsection \<open>Actions\<close>

definition open_ticket ::
  "ctx \<Rightarrow> desk_actor \<Rightarrow> instant \<Rightarrow> row_id \<Rightarrow> string option \<Rightarrow> desk \<Rightarrow> (ticket \<times> desk) result" where
  "open_ticket c a now i reason db =
     rbind (action_ticket c a i db) (\<lambda>t.
     rbind (apply_status c t S_OPEN (Some (the_default ''Accepted by the service desk'' reason)) now db) (\<lambda>(u, db1).
       Inr (u, status_event c ''open'' i INFO (ticket_audit c ''status_change'' i db1))))"

definition start_progress ::
  "ctx \<Rightarrow> desk_actor \<Rightarrow> instant \<Rightarrow> row_id \<Rightarrow> string option \<Rightarrow> desk \<Rightarrow> (ticket \<times> desk) result" where
  "start_progress c a now i reason db =
     rbind (action_ticket c a i db) (\<lambda>t.
     rbind (apply_status c t S_IN_PROGRESS (Some (the_default ''Investigation started'' reason)) now db) (\<lambda>(u, db1).
       Inr (u, status_event c ''in_progress'' i INFO (ticket_audit c ''status_change'' i db1))))"

definition set_pending ::
  "ctx \<Rightarrow> desk_actor \<Rightarrow> instant \<Rightarrow> row_id \<Rightarrow> ticket_status option \<Rightarrow> string option \<Rightarrow> desk \<Rightarrow> (ticket \<times> desk) result" where
  "set_pending c a now i status reason db =
     (let to = the_default S_PENDING_REQUESTER status in
      if \<not> pending to then Inl (BadRequest ''status must be one of: PENDING_REQUESTER, PENDING_VENDOR'')
      else rbind (action_ticket c a i db) (\<lambda>t.
        if reason = None then Inl (BadRequest ''A reason is required when the ticket is placed on hold'')
        else rbind (apply_status c t to reason now db) (\<lambda>(u, db1).
          Inr (u, status_event c (if to = S_PENDING_REQUESTER then ''pending_requester'' else ''pending_vendor'') i INFO
            (ticket_audit c ''status_change'' i (after_status_change c now u (tk_status t) to db1))))))"

definition resolution_codes :: "string list" where
  "resolution_codes = [''FIXED'', ''PERMANENT_FIX'', ''WORKAROUND'', ''USER_EDUCATION'', ''SOFTWARE_UPDATE'', ''HARDWARE_REPLACED'',
     ''REIMAGED'', ''RECONFIGURED'', ''NO_FAULT_FOUND'', ''NOT_REPRODUCIBLE'', ''DUPLICATE'', ''WITHDRAWN'', ''CANCELLED'']"

text \<open>
  A comment. A public reply is the first response if the ticket had none; who writes it does not matter.
\<close>

definition add_comment ::
  "ctx \<Rightarrow> desk_actor \<Rightarrow> instant \<Rightarrow> row_id \<Rightarrow> bool \<Rightarrow> string option \<Rightarrow> desk \<Rightarrow> desk result" where
  "add_comment c a now i internal body db =
     rbind (action_ticket c a i db) (\<lambda>t.
       case body of
         None \<Rightarrow> Inl (BadRequest ''A comment body is required'')
       | Some text' \<Rightarrow>
           if 20000 < length text' then Inl (BadRequest ''Comment is too long'')
           else if internal \<and> \<not> ac_notes a then Inl (Forbidden ''You are not authorised to add internal notes'')
           else if internal \<and> ac_requester a \<and> \<not> ac_agent a then Inl (Forbidden ''Requesters cannot add internal notes'')
           else
             let db1 = ticket_audit c (if internal then ''note'' else ''reply'') i
                   (db\<lparr>dk_comments := dk_comments db @
                      [\<lparr>cm_ticket = i, cm_internal = internal, cm_body = text', cm_author = cx_user c\<rparr>]\<rparr>);
                 db2 = (if \<not> internal \<and> tk_first_response t = None
                        then desk_event c ''service_desk.ticket.first_response'' ''service_ticket'' i INFO
                               (record_first_response c now i now db1)
                        else db1)
             in Inr (desk_event c ''service_desk.ticket.commented'' ''service_ticket'' i INFO db2))"

record resolve_body =
  rb_summary :: "string option"
  rb_code :: "string option"
  rb_confirm :: "bool option"
  rb_reason :: "string option"
  rb_notes :: "string option"

definition resolve_ticket ::
  "ctx \<Rightarrow> desk_actor \<Rightarrow> instant \<Rightarrow> row_id \<Rightarrow> resolve_body \<Rightarrow> desk \<Rightarrow> (ticket \<times> desk) result" where
  "resolve_ticket c a now i b db =
     rbind (action_ticket c a i db) (\<lambda>t.
       if tk_status t = S_CLOSED then Inl (Conflict ''Ticket is already closed'')
       else if tk_status t = S_CANCELLED then Inl (Conflict ''Ticket was cancelled'')
       else case rb_summary b of
           None \<Rightarrow> Inl (BadRequest ''A resolution summary is required'')
         | Some summary \<Rightarrow>
             if (case rb_code b of None \<Rightarrow> False | Some x \<Rightarrow> x \<notin> set resolution_codes)
             then Inl (BadRequest ''resolutionCode must be one of the resolution codes'')
             else
               let db1 = set_ticket i (\<lambda>t. t\<lparr>tk_resolution := Some (the_default ''FIXED'' (rb_code b), summary),
                                             tk_confirm := the_default (tk_confirm t) (rb_confirm b)\<rparr>) db
               in rbind (apply_status c t S_RESOLVED (Some (the_default ''Resolved by the service desk'' (rb_reason b))) now db1) (\<lambda>(u, db2).
                  rbind (if rb_notes b \<noteq> None \<and> ac_notes a
                         then add_comment c a now i True (rb_notes b) (after_status_change c now u (tk_status t) S_RESOLVED db2)
                         else Inr (after_status_change c now u (tk_status t) S_RESOLVED db2)) (\<lambda>db3.
                    Inr (u, status_event c ''resolved'' i INFO (ticket_audit c ''resolve'' i db3)))))"

definition close_ticket ::
  "ctx \<Rightarrow> desk_actor \<Rightarrow> instant \<Rightarrow> row_id \<Rightarrow> string option \<Rightarrow> desk \<Rightarrow> (ticket \<times> desk) result" where
  "close_ticket c a now i reason db =
     rbind (action_ticket c a i db) (\<lambda>t.
       if tk_status t = S_CLOSED then Inl (Conflict ''Ticket is already closed'')
       else rbind (apply_status c t S_CLOSED (Some (the_default ''Closed'' reason)) now db) (\<lambda>(u, db1).
         Inr (u, status_event c ''closed'' i INFO (ticket_audit c ''close'' i
           (after_status_change c now u (tk_status t) S_CLOSED db1)))))"

definition restart_clock :: "sla_clock \<Rightarrow> sla_clock" where
  "restart_clock k = k\<lparr>ck_resolved := None, ck_resolution_state := G_PENDING, ck_state := RUNNING, ck_paused := None\<rparr>"

definition reopen_ticket ::
  "zones \<Rightarrow> ctx \<Rightarrow> desk_actor \<Rightarrow> instant \<Rightarrow> row_id \<Rightarrow> string option \<Rightarrow> desk \<Rightarrow> (ticket option \<times> desk) result" where
  "reopen_ticket z c a now i reason db =
     (if reason = None then Inl (BadRequest ''A reason is required to reopen a ticket'')
      else rbind (action_ticket c a i db) (\<lambda>t.
        if tk_status t \<notin> {S_RESOLVED, S_CLOSED, S_CANCELLED}
        then Inl (Conflict ''Only resolved, closed or cancelled tickets can be reopened'')
        else rbind (apply_status c t S_REOPENED reason now db) (\<lambda>(u, db1).
          let db2 = set_clock i restart_clock (set_ticket i (\<lambda>t. t\<lparr>tk_reopens := Suc (tk_reopens t)\<rparr>) db1);
              db3 = snd (apply_sla_to_ticket z c now ((sla_ref_of u)\<lparr>rf_opened := Some now\<rparr>) db2);
              db4 = status_event c ''reopened'' i INFO (ticket_audit c ''reopen'' i db3)
          in Inr (load_ticket c i db4, db4))))"

definition cancel_ticket ::
  "ctx \<Rightarrow> desk_actor \<Rightarrow> instant \<Rightarrow> row_id \<Rightarrow> string option \<Rightarrow> desk \<Rightarrow> (ticket \<times> desk) result" where
  "cancel_ticket c a now i reason db =
     (if reason = None then Inl (BadRequest ''A cancellation reason is required'')
      else rbind (action_ticket c a i db) (\<lambda>t.
        if terminal (tk_status t) then Inl (Conflict ''Ticket is already closed or cancelled'')
        else rbind (apply_status c t S_CANCELLED reason now db) (\<lambda>(u, db1).
          Inr (u, status_event c ''cancelled'' i INFO (ticket_audit c ''cancel'' i
            (after_status_change c now u (tk_status t) S_CANCELLED db1))))))"

definition confirm_resolution ::
  "ctx \<Rightarrow> desk_actor \<Rightarrow> instant \<Rightarrow> row_id \<Rightarrow> string option \<Rightarrow> rat option \<Rightarrow> desk \<Rightarrow> (ticket option \<times> desk) result" where
  "confirm_resolution c a now i remark rating db =
     rbind (action_ticket c a i db) (\<lambda>t.
       if \<not> (ac_requester a \<or> ac_agent a \<or> ''service_desk.tickets.close'' \<in> set (ac_perms a))
       then Inl (Forbidden ''Only the requester or the service desk can confirm a resolution'')
       else if tk_status t \<noteq> S_RESOLVED \<and> tk_status t \<noteq> S_CLOSED
       then Inl (Conflict ''Only a resolved ticket can be confirmed'')
       else if (case rating of None \<Rightarrow> False | Some q \<Rightarrow> q < 1 \<or> 5 < q)
       then Inl (BadRequest ''Satisfaction rating must be between 1 and 5'')
       else
         let db1 = set_ticket i (\<lambda>t. t\<lparr>tk_confirmed := first_value (tk_confirmed t) now,
                       tk_rating := (if rating = None then tk_rating t else rating)\<rparr>) db
         in rbind (if remark = None then Inr db1 else add_comment c a now i False remark db1) (\<lambda>db2.
            let db3 = ticket_audit c ''confirm'' i db2 in
            rbind (if tk_status t = S_RESOLVED \<and> tk_confirm t
                   then rbind (apply_status c t S_CLOSED (Some ''Requester confirmed the resolution'') now db3) (\<lambda>(u, db4).
                          Inr (status_event c ''closed'' i INFO (after_status_change c now u S_RESOLVED S_CLOSED db4)))
                   else Inr db3) (\<lambda>db5.
              let db6 = desk_event c ''service_desk.ticket.confirmed'' ''service_ticket'' i INFO db5
              in Inr (load_ticket c i db6, db6))))"

subsection \<open>Escalation by hand\<close>

definition pick_level :: "ctx \<Rightarrow> row_id option \<Rightarrow> nat option \<Rightarrow> desk \<Rightarrow> escalation_level option" where
  "pick_level c level_id level db =
     limit1 el_level (filter (\<lambda>l. own_row c (el_tenant l) (el_company l) \<and> el_active l
        \<and> (level_id = None \<or> level_id = Some (el_id l)) \<and> (level = None \<or> level = Some (el_level l))) (dk_levels db))"

definition escalate_ticket ::
  "(row_id \<Rightarrow> bool) \<Rightarrow> ctx \<Rightarrow> desk_actor \<Rightarrow> instant \<Rightarrow> row_id \<Rightarrow> string option \<Rightarrow> row_id option \<Rightarrow> nat option \<Rightarrow> row_id option
     \<Rightarrow> desk \<Rightarrow> (escalation \<times> desk) result" where
  "escalate_ticket active_user c a now i reason level_id level to_user db =
     rbind (action_ticket c a i db) (\<lambda>t.
       case reason of
         None \<Rightarrow> Inl (BadRequest ''An escalation reason is required'')
       | Some why \<Rightarrow>
           if terminal (tk_status t) then Inl (Conflict ''A closed or cancelled ticket cannot be escalated'')
           else (case pick_level c level_id level db of
               None \<Rightarrow> Inl (BadRequest ''No matching escalation level was found'')
             | Some l \<Rightarrow>
                 if (case to_user of None \<Rightarrow> False | Some u \<Rightarrow> u \<noteq> 0 \<and> \<not> active_user u)
                 then Inl (BadRequest ''Escalation target user not found'')
                 else
                   let e = \<lparr>ec_id = dk_next db, ec_company = cx_company c, ec_ticket = i, ec_rule = None, ec_level = el_level l,
                         ec_reason = why, ec_manual = True, ec_from = tk_assignee t, ec_to_user = to_user, ec_role = el_role l,
                         ec_acknowledged = None, ec_resolved = None\<rparr>;
                       db1 = db\<lparr>dk_escalations := dk_escalations db @ [e], dk_next := Suc (dk_next db)\<rparr>
                   in rbind (if transition_ok (tk_status t) S_ESCALATED
                             then rbind (apply_status c t S_ESCALATED (Some (''Escalated: '' @ why)) now db1) (\<lambda>(u, db2).
                                    Inr (status_event c ''escalated'' i WARN db2))
                             else Inr db1) (\<lambda>db3.
                        Inr (e, desk_event c ''service_desk.ticket.escalated'' ''service_ticket'' i
                                  (if 3 \<le> el_level l then CRITICAL else WARN) (ticket_audit c ''escalate'' i db3)))))"

definition acknowledge_escalation ::
  "ctx \<Rightarrow> desk_actor \<Rightarrow> instant \<Rightarrow> row_id \<Rightarrow> row_id \<Rightarrow> desk \<Rightarrow> desk result" where
  "acknowledge_escalation c a now i e db =
     rbind (action_ticket c a i db) (\<lambda>t.
       let p = (\<lambda>x. ec_id x = e \<and> ec_ticket x = i \<and> sql_eq (ec_company x) (cx_company c) \<and> ec_acknowledged x = None) in
       if \<not> exists_where p (dk_escalations db) then Inl (NotFound ''Open escalation not found'')
       else Inr (ticket_audit c ''acknowledge_escalation'' i
              (db\<lparr>dk_escalations := update_where p (\<lambda>x. x\<lparr>ec_acknowledged := Some now\<rparr>) (dk_escalations db)\<rparr>)))"

definition resolve_escalations :: "ctx \<Rightarrow> desk_actor \<Rightarrow> instant \<Rightarrow> row_id \<Rightarrow> desk \<Rightarrow> (nat \<times> desk) result" where
  "resolve_escalations c a now i db =
     rbind (action_ticket c a i db) (\<lambda>t.
       let r = close_open_escalations now i db in Inr (fst r, ticket_audit c ''resolve_escalation'' i (snd r)))"

subsection \<open>Assignment and re-prioritisation\<close>

definition assigned_status :: "ticket_status \<Rightarrow> ticket_status" where
  "assigned_status x = (if x \<in> {S_NEW, S_OPEN, S_REOPENED, S_ESCALATED} then S_ASSIGNED else x)"

text \<open>
  \<open>autoAssignTicket\<close> and \<open>assignTicket\<close> for the technician that was picked, if any. \<open>autoAssignTicket\<close>
  writes the new row into the ticket object that \<open>assignTicket\<close> tests afterwards, so the test sees the
  new status.
\<close>

definition assign_ticket ::
  "zones \<Rightarrow> ctx \<Rightarrow> desk_actor \<Rightarrow> instant \<Rightarrow> row_id \<Rightarrow> row_id option \<Rightarrow> desk \<Rightarrow> (ticket \<times> desk) result" where
  "assign_ticket z c a now i user db =
     rbind (action_ticket c a i db) (\<lambda>t.
       let next_status = (if user = None then tk_status t else assigned_status (tk_status t)) in
       rbind (change_status i next_status (if next_status \<noteq> tk_status t then Some ''Auto-assigned'' else tk_reason t)
                (\<lambda>t. t\<lparr>tk_assignee := user\<rparr>) db) (\<lambda>db1.
         let u = the_default t (load_ticket c i db1);
             db2 = desk_event c ''service_desk.ticket.assigned'' ''service_ticket'' i INFO (ticket_audit c ''assign'' i db1)
         in Inr (u, if tk_status u \<in> {S_NEW, S_OPEN, S_REOPENED, S_ESCALATED} \<and> user \<noteq> None
                    then snd (apply_sla_to_ticket z c now (sla_ref_of u) db2) else db2)))"

text \<open>The priority matrix \<open>service_priority_for\<close>.\<close>

definition priority_for :: "string \<Rightarrow> string \<Rightarrow> string" where
  "priority_for impact urgency =
     (let i = js_upper impact; u = js_upper urgency in
      if i = ''ENTERPRISE'' then (if u = ''CRITICAL'' \<or> u = ''HIGH'' then ''P1'' else ''P2'')
      else if i = ''DEPARTMENT'' then (if u = ''CRITICAL'' then ''P1'' else if u = ''HIGH'' then ''P2'' else ''P3'')
      else if i = ''INDIVIDUAL''
      then (if u = ''CRITICAL'' then ''P2'' else if u = ''HIGH'' \<or> u = ''MEDIUM'' then ''P3'' else ''P4'')
      else if i = ''MINOR'' then (if u = ''CRITICAL'' then ''P3'' else ''P4'')
      else ''P3'')"

record ticket_patch =
  tp_category :: "row_id option option"
  tp_department :: "row_id option option"
  tp_impact :: "string option"
  tp_urgency :: "string option"
  tp_priority :: "string option"
  tp_override :: "string option"

text \<open>The priority that an update stores, and whether it counts as overridden.\<close>

definition patched_priority :: "desk_actor \<Rightarrow> ticket_patch \<Rightarrow> ticket \<Rightarrow> (string option \<times> bool) result" where
  "patched_priority a b t =
     (let computed = priority_for (the_default ''INDIVIDUAL'' (if tp_impact b = None then tk_impact t else tp_impact b))
                       (the_default ''MEDIUM'' (if tp_urgency b = None then tk_urgency t else tp_urgency b)) in
      if tp_priority b \<noteq> None \<and> tp_priority b \<noteq> tk_priority t
      then if \<not> (ac_admin a \<or> ''service_desk.tickets.assign'' \<in> set (ac_perms a))
           then if Some computed \<noteq> tk_priority t then Inr (Some computed, False) else Inr (tk_priority t, tk_overridden t)
           else if tp_override b = None then Inl (BadRequest ''A reason is required to override the calculated priority'')
           else Inr (tp_priority b, True)
      else if Some computed \<noteq> tk_priority t \<and> \<not> tk_overridden t then Inr (Some computed, tk_overridden t)
      else Inr (tk_priority t, tk_overridden t))"

definition update_ticket ::
  "zones \<Rightarrow> ctx \<Rightarrow> desk_actor \<Rightarrow> instant \<Rightarrow> row_id \<Rightarrow> ticket_patch \<Rightarrow> desk \<Rightarrow> (ticket \<times> desk) result" where
  "update_ticket z c a now i b db =
     rbind (action_ticket c a i db) (\<lambda>t.
       if (case tp_category b of Some (Some g) \<Rightarrow> g \<noteq> 0 \<and>
             \<not> exists_where (\<lambda>r. cg_id r = g \<and> own_row c (cg_tenant r) (cg_company r)) (cf_categories (dk_config db)) | _ \<Rightarrow> False)
       then Inl (BadRequest ''Service category not found'')
       else rbind (patched_priority a b t) (\<lambda>(priority, overridden).
         let db1 = set_ticket i (\<lambda>t. t\<lparr>tk_category := the_default (tk_category t) (tp_category b),
                     tk_department := the_default (tk_department t) (tp_department b),
                     tk_impact := (if tp_impact b = None then tk_impact t else tp_impact b),
                     tk_urgency := (if tp_urgency b = None then tk_urgency t else tp_urgency b),
                     tk_priority := priority, tk_overridden := overridden\<rparr>) db;
             u = the_default t (load_ticket c i db1);
             db2 = ticket_audit c ''update'' i db1;
             db3 = (if (tk_priority u \<noteq> tk_priority t \<or> tk_category u \<noteq> tk_category t \<or> tk_department u \<noteq> tk_department t)
                       \<and> \<not> terminal (tk_status u)
                    then snd (apply_sla_to_ticket z c now (sla_ref_of u) db2) else db2)
         in Inr (u, if tk_priority u \<noteq> tk_priority t
                    then desk_event c ''service_desk.ticket.priority_changed'' ''service_ticket'' i
                           (if tk_priority u = Some ''P1'' \<or> tk_priority u = Some ''P2'' then WARN else INFO) db3
                    else db3)))"

end
