(* ===== verification/Service_Laws.thy ===== *)
theory Service_Laws
  imports Service_Tickets
begin

text \<open>
  What the service desk guarantees. Every operation of \<open>Service_Tickets\<close> and every pass of the sweep is a
  sequence of primitive writes; the invariants of the tables are proved for the primitives. The second
  half states what the clock of a ticket does and where it departs from what the comments promise.
\<close>

subsection \<open>Primitive writes\<close>

definition core :: "ticket \<Rightarrow> row_id \<times> ticket_status \<times> instant option \<times> instant option \<times> instant option" where
  "core t = (tk_id t, tk_status t, tk_resolved t, tk_closed t, tk_cancelled t)"

definition same_tables :: "desk \<Rightarrow> desk \<Rightarrow> bool" where
  "same_tables db db' \<longleftrightarrow> dk_tickets db' = dk_tickets db \<and> dk_history db' = dk_history db \<and> dk_clocks db' = dk_clocks db
     \<and> dk_breaches db' = dk_breaches db \<and> dk_escalations db' = dk_escalations db \<and> dk_rules db' = dk_rules db"

definition auto_open :: "escalation \<Rightarrow> bool" where
  "auto_open e \<longleftrightarrow> ec_rule e \<noteq> None \<and> ec_resolved e = None"

inductive desk_write :: "desk \<Rightarrow> desk \<Rightarrow> bool" where
  log_write: "same_tables db db' \<Longrightarrow> desk_write db db'"
| ticket_write: "(\<And>t. core (f t) = core t) \<Longrightarrow> desk_write db (set_ticket i f db)"
| status_write: "change_status i new reason f db = Inr db' \<Longrightarrow> (\<And>t. core (f t) = core (stamp_status new x t)) \<Longrightarrow> desk_write db db'"
| clock_write: "(\<And>k. ck_ticket (g k) = ck_ticket k) \<Longrightarrow> desk_write db (set_clock i g db)"
| clock_insert: "\<not> exists_where (\<lambda>q. ck_ticket q = ck_ticket k) (dk_clocks db)
     \<Longrightarrow> desk_write db (db\<lparr>dk_clocks := dk_clocks db @ [k], dk_next := n\<rparr>)"
| breach_insert: "\<not> exists_where (\<lambda>q. br_ticket q = br_ticket b \<and> br_kind q = br_kind b) (dk_breaches db)
     \<Longrightarrow> desk_write db (db\<lparr>dk_breaches := dk_breaches db @ [b], dk_next := n\<rparr>)"
| escalation_insert: "ec_rule e = None \<or> \<not> exists_where (\<lambda>q. auto_open q \<and> ec_ticket q = ec_ticket e \<and> ec_rule q = ec_rule e) (dk_escalations db)
     \<Longrightarrow> desk_write db (db\<lparr>dk_escalations := dk_escalations db @ [e], dk_next := n\<rparr>)"
| escalation_write: "(\<And>e. ec_ticket (h e) = ec_ticket e \<and> ec_rule (h e) = ec_rule e \<and> (ec_resolved (h e) = None \<longrightarrow> ec_resolved e = None))
     \<Longrightarrow> desk_write db (db\<lparr>dk_escalations := map h (dk_escalations db)\<rparr>)"

inductive desk_writes :: "desk \<Rightarrow> desk \<Rightarrow> bool" where
  no_write [intro!, simp]: "desk_writes db db"
| more_write: "desk_writes db db1 \<Longrightarrow> desk_write db1 db2 \<Longrightarrow> desk_writes db db2"

lemma one_write: "desk_write db db' \<Longrightarrow> desk_writes db db'"
  by (rule more_write [OF no_write])

lemma desk_writes_trans: "desk_writes db1 db2 \<Longrightarrow> desk_writes db2 db3 \<Longrightarrow> desk_writes db1 db3"
  by (rotate_tac, induction rule: desk_writes.induct) (auto intro: more_write)

subsection \<open>The invariants\<close>

fun chained :: "status_change list \<Rightarrow> bool" where
  "chained (a # b # hs) = (sh_to a = sh_from b \<and> chained (b # hs))"
| "chained _ = True"

definition ticket_history :: "row_id \<Rightarrow> desk \<Rightarrow> status_change list" where
  "ticket_history i db = filter (\<lambda>h. sh_ticket h = i) (dk_history db)"

definition explained :: "desk \<Rightarrow> ticket \<Rightarrow> bool" where
  "explained db t \<longleftrightarrow>
     (let hs = ticket_history (tk_id t) db in chained hs \<and> (hs = [] \<or> sh_to (last hs) = tk_status t))"

definition stamped :: "ticket \<Rightarrow> bool" where
  "stamped t \<longleftrightarrow>
     (tk_status t = S_RESOLVED \<longrightarrow> tk_resolved t \<noteq> None) \<and> (tk_status t = S_CLOSED \<longrightarrow> tk_closed t \<noteq> None)
     \<and> (tk_status t = S_CANCELLED \<longrightarrow> tk_cancelled t \<noteq> None)
     \<and> (tk_status t = S_REOPENED \<longrightarrow> tk_resolved t = None \<and> tk_closed t = None \<and> tk_cancelled t = None)"

definition legal_change :: "status_change \<Rightarrow> bool" where
  "legal_change h \<longleftrightarrow> sh_from h \<noteq> sh_to h \<and> transition_ok (sh_from h) (sh_to h)"

definition lifecycle_sound :: "desk \<Rightarrow> bool" where
  "lifecycle_sound db \<longleftrightarrow> distinct (map tk_id (dk_tickets db))
     \<and> (\<forall>t\<in>set (dk_tickets db). explained db t \<and> stamped t) \<and> (\<forall>h\<in>set (dk_history db). legal_change h)"

definition sla_rows_sound :: "desk \<Rightarrow> bool" where
  "sla_rows_sound db \<longleftrightarrow> distinct (map ck_ticket (dk_clocks db))
     \<and> distinct (map (\<lambda>b. (br_ticket b, br_kind b)) (dk_breaches db))
     \<and> distinct (map (\<lambda>e. (ec_ticket e, ec_rule e)) (filter auto_open (dk_escalations db)))
     \<and> distinct (map er_id (dk_rules db))"

definition desk_sound :: "desk \<Rightarrow> bool" where
  "desk_sound db \<longleftrightarrow> lifecycle_sound db \<and> sla_rows_sound db"

lemma chained_snoc: "chained (hs @ [h]) \<longleftrightarrow> chained hs \<and> (hs = [] \<or> sh_to (last hs) = sh_from h)"
  by (induction hs rule: chained.induct) auto

lemma explained_core: "core t' = core t \<Longrightarrow> explained db t' \<longleftrightarrow> explained db t"
  and stamped_core: "core t' = core t \<Longrightarrow> stamped t' \<longleftrightarrow> stamped t"
  by (simp_all add: core_def explained_def stamped_def)

lemma transition_refl: "transition_ok s s"
  by (cases s) simp_all

lemma stamp_status_core [simp]:
  "tk_id (stamp_status s x t) = tk_id t" "tk_status (stamp_status s x t) = tk_status t"
  by (cases s; simp)+

lemma stamp_stamped:
  assumes "stamped t"
  shows "stamped (stamp_status s x (t\<lparr>tk_status := s, tk_reason := r\<rparr>))"
  by (cases s) (simp_all add: stamped_def first_value_def split: option.splits)

lemma changed_status_tables:
  assumes "change_status i new reason f db = Inr db'" and "find_ticket i db = Some t"
  shows "transition_ok (tk_status t) new"
    and "dk_tickets db' = update_where (\<lambda>t. tk_id t = i) (\<lambda>t. f (t\<lparr>tk_status := new, tk_reason := reason\<rparr>)) (dk_tickets db)"
    and "dk_history db' = dk_history db @ (if tk_status t = new then []
          else [\<lparr>sh_ticket = i, sh_from = tk_status t, sh_to = new, sh_reason = the_default ''Status changed'' reason\<rparr>])"
  using assms by (auto simp: change_status_def Let_def set_ticket_def split: if_splits)

lemma change_status_rest:
  assumes "change_status i new reason f db = Inr db'"
  shows "dk_clocks db' = dk_clocks db" "dk_breaches db' = dk_breaches db" "dk_escalations db' = dk_escalations db"
    "dk_rules db' = dk_rules db" "dk_config db' = dk_config db" "dk_levels db' = dk_levels db" "dk_next db' = dk_next db"
    "find_ticket i db = None \<Longrightarrow> db' = db"
  using assms by (auto simp: change_status_def Let_def set_ticket_def split: if_splits option.splits)

lemma change_status_lifecycle:
  assumes "lifecycle_sound db" and "change_status i new reason f db = Inr db'"
    and f: "\<And>t. core (f t) = core (stamp_status new x t)"
  shows "lifecycle_sound db'"
proof (cases "find_ticket i db")
  case None
  then show ?thesis using change_status_rest(8) [OF assms(2)] assms(1) by simp
next
  case (Some t)
  note new = changed_status_tables [OF assms(2) Some]
  let ?g = "\<lambda>t. f (t\<lparr>tk_status := new, tk_reason := reason\<rparr>)"
  have t: "t \<in> set (dk_tickets db)" "tk_id t = i" using Some by (auto simp: find_ticket_def dest: find_Some_iff_mem)
  have dist: "distinct (map tk_id (dk_tickets db))" using assms(1) by (simp add: lifecycle_sound_def)
  have g: "tk_id (?g u) = tk_id u" "tk_status (?g u) = new" for u
    using f [of "u\<lparr>tk_status := new, tk_reason := reason\<rparr>"] by (simp_all add: core_def)
  have ids: "map tk_id (dk_tickets db') = map tk_id (dk_tickets db)"
    unfolding new(2) by (rule map_update_where_same) (simp add: g)
  have hist: "ticket_history j db' = ticket_history j db
      @ (if tk_status t = new \<or> j \<noteq> i then []
         else [\<lparr>sh_ticket = i, sh_from = tk_status t, sh_to = new, sh_reason = the_default ''Status changed'' reason\<rparr>])" for j
    by (simp add: ticket_history_def new(3))
  have "explained db' u' \<and> stamped u'" if "u' \<in> set (dk_tickets db')" for u'
  proof -
    from that obtain u where u: "u \<in> set (dk_tickets db)" "u' = (if tk_id u = i then ?g u else u)"
      unfolding new(2) set_update_where by auto
    have ok: "explained db u" "stamped u" using assms(1) u(1) by (simp_all add: lifecycle_sound_def)
    show ?thesis
    proof (cases "tk_id u = i")
      case True
      then have ut: "u = t" using t u(1) dist by (metis distinct_map inj_onD)
      have "explained db' (?g t)" using ok(1) t(2) unfolding ut explained_def by (auto simp: g hist chained_snoc Let_def)
      moreover have "stamped (?g t)"
        using stamp_stamped [OF ok(2)] stamped_core [OF f] unfolding ut by blast
      ultimately show ?thesis using True u(2) ut by simp
    next
      case False
      then show ?thesis using ok u(2) by (simp add: explained_def hist)
    qed
  qed
  moreover have "\<forall>h\<in>set (dk_history db'). legal_change h"
    using assms(1) new(1) unfolding new(3) by (auto simp: lifecycle_sound_def legal_change_def)
  ultimately show ?thesis using dist ids by (auto simp: lifecycle_sound_def)
qed

lemma ticket_write_lifecycle:
  assumes "lifecycle_sound db" and f: "\<And>t. core (f t) = core t"
  shows "lifecycle_sound (set_ticket i f db)"
proof -
  have id: "tk_id (f t) = tk_id t" for t using f [of t] by (simp add: core_def)
  have e: "explained (set_ticket i f db) u = explained db u" for u by (simp add: explained_def ticket_history_def set_ticket_def)
  have "map tk_id (dk_tickets (set_ticket i f db)) = map tk_id (dk_tickets db)"
    by (simp add: set_ticket_def id map_update_where_same)
  moreover have "explained db u' \<and> stamped u'" if "u' \<in> set (dk_tickets (set_ticket i f db))" for u'
  proof -
    from that obtain u where "u \<in> set (dk_tickets db)" "u' = (if tk_id u = i then f u else u)"
      unfolding set_ticket_def by (auto simp: set_update_where)
    then show ?thesis using assms(1) explained_core [OF f] stamped_core [OF f] by (auto simp: lifecycle_sound_def)
  qed
  ultimately show ?thesis using assms(1) by (simp add: lifecycle_sound_def e) (simp add: set_ticket_def)
qed

lemma lifecycle_same:
  "lifecycle_sound db \<Longrightarrow> dk_tickets db' = dk_tickets db \<Longrightarrow> dk_history db' = dk_history db \<Longrightarrow> lifecycle_sound db'"
  by (simp add: lifecycle_sound_def explained_def ticket_history_def)

lemma escalation_write_rows:
  assumes "distinct (map (\<lambda>e. (ec_ticket e, ec_rule e)) (filter auto_open es))"
    and h: "\<And>e. ec_ticket (h e) = ec_ticket e \<and> ec_rule (h e) = ec_rule e \<and> (ec_resolved (h e) = None \<longrightarrow> ec_resolved e = None)"
  shows "distinct (map (\<lambda>e. (ec_ticket e, ec_rule e)) (filter auto_open (map h es)))"
  using assms(1)
proof (induction es)
  case (Cons e es)
  have sub: "(\<lambda>e. (ec_ticket e, ec_rule e)) ` set (filter auto_open (map h es)) \<subseteq> (\<lambda>e. (ec_ticket e, ec_rule e)) ` set (filter auto_open es)"
    using h by (fastforce simp: auto_open_def image_iff)
  have IH: "distinct (map (\<lambda>e. (ec_ticket e, ec_rule e)) (filter auto_open (map h es)))"
    using Cons by (simp split: if_splits)
  show ?case
  proof (cases "auto_open (h e)")
    case True
    then have e: "auto_open e" using h [of e] by (simp add: auto_open_def)
    then have "(ec_ticket e, ec_rule e) \<notin> (\<lambda>e. (ec_ticket e, ec_rule e)) ` set (filter auto_open es)" using Cons.prems by simp
    then have "(ec_ticket (h e), ec_rule (h e)) \<notin> (\<lambda>e. (ec_ticket e, ec_rule e)) ` set (filter auto_open (map h es))"
      using sub h [of e] by (simp only:) blast
    then show ?thesis using IH True by simp
  qed (use IH in simp)
qed simp

lemma desk_write_lifecycle: "desk_write db db' \<Longrightarrow> lifecycle_sound db \<Longrightarrow> lifecycle_sound db'"
proof (induction rule: desk_write.induct)
  case (ticket_write f db i)
  then show ?case by (rule_tac ticket_write_lifecycle)
next
  case (status_write i new reason f db db' x)
  then show ?case by (rule_tac change_status_lifecycle)
qed (auto simp: same_tables_def set_clock_def elim: lifecycle_same)

lemma desk_write_rows: "desk_write db db' \<Longrightarrow> sla_rows_sound db \<Longrightarrow> sla_rows_sound db'"
proof (induction rule: desk_write.induct)
  case (status_write i new reason f db db' x)
  then show ?case using change_status_rest [OF status_write.hyps(1)] by (simp add: sla_rows_sound_def)
next
  case (clock_write g db i)
  have "map ck_ticket (update_where (\<lambda>k. ck_ticket k = i) g (dk_clocks db)) = map ck_ticket (dk_clocks db)"
    by (rule map_update_where_same) (rule clock_write.hyps)
  then show ?case using clock_write.prems by (simp add: sla_rows_sound_def set_clock_def)
next
  case (escalation_write h db)
  then show ?case using escalation_write_rows [OF _ escalation_write.hyps] by (simp add: sla_rows_sound_def)
next
  case (escalation_insert e db n)
  then show ?case by (cases "auto_open e") (auto simp: sla_rows_sound_def auto_open_def)
qed (auto simp: sla_rows_sound_def same_tables_def set_ticket_def)

lemma desk_writes_keep: "desk_writes db db' \<Longrightarrow> desk_sound db \<Longrightarrow> desk_sound db'"
  by (induction rule: desk_writes.induct) (auto simp: desk_sound_def intro: desk_write_lifecycle desk_write_rows)

subsection \<open>Every operation is a sequence of primitive writes\<close>

named_theorems writes "operations extend a sequence of primitive writes"

lemma writes_log: "desk_writes db db1 \<Longrightarrow> same_tables db1 db2 \<Longrightarrow> desk_writes db db2"
  by (blast intro: more_write log_write)

lemma writes_audit [writes]: "desk_writes db db1 \<Longrightarrow> desk_writes db (desk_audit c action resource i db1)"
  and writes_event [writes]: "desk_writes db db1 \<Longrightarrow> desk_writes db (desk_event c kind entity i sev db1)"
  by (erule writes_log; simp add: same_tables_def desk_audit_def desk_event_def)+

lemma writes_ticket: "desk_writes db db1 \<Longrightarrow> (\<And>t. core (f t) = core t) \<Longrightarrow> desk_writes db (set_ticket i f db1)"
  by (blast intro: more_write ticket_write)

lemma writes_clock: "desk_writes db db1 \<Longrightarrow> (\<And>k. ck_ticket (g k) = ck_ticket k) \<Longrightarrow> desk_writes db (set_clock i g db1)"
  by (blast intro: more_write clock_write)

lemma writes_recompute [writes]: "desk_writes db db1 \<Longrightarrow> desk_writes db (recompute_sla_states now i db1)"
  unfolding recompute_sla_states_def by (erule writes_clock) (simp add: recompute_clock_def)

lemma writes_pause [writes]: "desk_writes db db1 \<Longrightarrow> desk_writes db (pause_sla i x db1)"
  unfolding pause_sla_def by (erule writes_clock) (simp add: pause_clock_def)

lemma writes_cancel [writes]: "desk_writes db db1 \<Longrightarrow> desk_writes db (cancel_sla i db1)"
  unfolding cancel_sla_def by (erule writes_clock) (simp add: cancel_clock_def)

lemma writes_restart [writes]: "desk_writes db db1 \<Longrightarrow> desk_writes db (set_clock i restart_clock db1)"
  by (erule writes_clock) (simp add: restart_clock_def)

lemma writes_resume [writes]: "desk_writes db db1 \<Longrightarrow> desk_writes db (resume_sla now i x db1)"
  unfolding resume_sla_def copy_dues_def
  by (intro writes_recompute writes_ticket writes_clock)
    (auto simp: core_def resume_clock_def split: option.splits)

lemma writes_breach [writes]: "desk_writes db db1 \<Longrightarrow> desk_writes db (snd (record_breach c i kind due x reason db1))"
  by (auto simp: record_breach_def Let_def intro!: writes more_write [OF _ breach_insert] split: option.splits)

lemma writes_first_response [writes]: "desk_writes db db1 \<Longrightarrow> desk_writes db (record_first_response c now i x db1)"
  unfolding record_first_response_def Let_def
  by (auto simp: core_def intro!: writes writes_ticket writes_clock split: option.splits)

lemma writes_resolved [writes]: "desk_writes db db1 \<Longrightarrow> desk_writes db (mark_resolved c now i x db1)"
  unfolding mark_resolved_def Let_def by (auto intro!: writes writes_clock split: option.splits)

lemma writes_upsert [writes]: "desk_writes db db1 \<Longrightarrow> desk_writes db (upsert_clock c i w db1)"
  unfolding upsert_clock_def
  by (auto simp: rewind_clock_def new_clock_def intro!: writes_clock more_write [OF _ clock_insert] split: if_splits)

lemma writes_apply_sla [writes]: "desk_writes db db1 \<Longrightarrow> desk_writes db (snd (apply_sla_to_ticket z c now r db1))"
  by (auto simp: apply_sla_to_ticket_def Let_def core_def intro!: writes writes_ticket split: option.splits)

lemma writes_close_escalations [writes]:
  "desk_writes db db1 \<Longrightarrow> desk_writes db (snd (close_open_escalations now i db1))"
  by (auto simp: close_open_escalations_def Let_def update_where_def intro!: more_write [OF _ escalation_write] split: if_splits)

lemma writes_status:
  "desk_writes db db1 \<Longrightarrow> change_status i new reason f db1 = Inr db2 \<Longrightarrow> (\<And>t. core (f t) = core (stamp_status new x t))
     \<Longrightarrow> desk_writes db db2"
  by (blast intro: more_write status_write)

lemma writes_apply_status:
  assumes "desk_writes db db1" and "apply_status c t to reason x db1 = Inr (u, db2)"
  shows "desk_writes db db2"
  using assms(2,1) by (auto simp: apply_status_def rbind_def intro: writes_status [OF assms(1), where x = x] split: if_splits sum.splits)

lemmas writes_applied = writes_apply_status [OF no_write]

lemma writes_after_status [writes]: "desk_writes db db1 \<Longrightarrow> desk_writes db (after_status_change c now t old new db1)"
  by (auto simp: after_status_change_def Let_def intro!: writes split: option.splits)

lemma writes_comment: "desk_writes db db1 \<Longrightarrow> add_comment c a now i internal body db1 = Inr db2 \<Longrightarrow> desk_writes db db2"
proof -
  assume w: "desk_writes db db1" and r: "add_comment c a now i internal body db1 = Inr db2"
  have "desk_writes db (db1\<lparr>dk_comments := cs\<rparr>)" for cs by (rule writes_log [OF w]) (simp add: same_tables_def)
  then show ?thesis
    using r by (auto simp: add_comment_def rbind_def Let_def ticket_audit_def intro!: writes split: if_splits sum.splits option.splits)
qed

lemma writes_if_moved:
  assumes "desk_writes db db1" and "(if p then rbind (apply_status c t to reason x db1) (\<lambda>(u, d). Inr (g u d)) else Inr db1) = Inr db2"
    and "\<And>u d. desk_writes db d \<Longrightarrow> desk_writes db (g u d)"
  shows "desk_writes db db2"
proof (cases p)
  case True
  then obtain u d where "apply_status c t to reason x db1 = Inr (u, d)" "db2 = g u d"
    using assms(2) by (cases "apply_status c t to reason x db1") auto
  then show ?thesis using assms(3) writes_apply_status [OF assms(1)] by blast
qed (use assms in simp)

lemmas action_defs = rbind_def Let_def ticket_audit_def status_event_def

lemma writes_open: "open_ticket c a now i reason db = Inr (u, db') \<Longrightarrow> desk_writes db db'"
  by (auto simp: open_ticket_def action_defs dest!: writes_applied intro!: writes split: sum.splits)

lemma writes_start: "start_progress c a now i reason db = Inr (u, db') \<Longrightarrow> desk_writes db db'"
  by (auto simp: start_progress_def action_defs dest!: writes_applied intro!: writes split: sum.splits)

lemma writes_pending: "set_pending c a now i status reason db = Inr (u, db') \<Longrightarrow> desk_writes db db'"
  by (auto simp: set_pending_def action_defs dest!: writes_applied intro!: writes split: sum.splits if_splits)

lemma writes_close: "close_ticket c a now i reason db = Inr (u, db') \<Longrightarrow> desk_writes db db'"
  by (auto simp: close_ticket_def action_defs dest!: writes_applied intro!: writes split: sum.splits if_splits)

lemma writes_cancel_ticket: "cancel_ticket c a now i reason db = Inr (u, db') \<Longrightarrow> desk_writes db db'"
  by (auto simp: cancel_ticket_def action_defs dest!: writes_applied intro!: writes split: sum.splits if_splits)

lemma writes_resolve:
  assumes "resolve_ticket c a now i b db = Inr (u, db')"
  shows "desk_writes db db'"
proof -
  let ?f = "\<lambda>summary t. t\<lparr>tk_resolution := Some (the_default ''FIXED'' (rb_code b), summary), tk_confirm := the_default (tk_confirm t) (rb_confirm b)\<rparr>"
  obtain t summary db2 db3 where s: "apply_status c t S_RESOLVED (Some (the_default ''Resolved by the service desk'' (rb_reason b))) now
        (set_ticket i (?f summary) db) = Inr (u, db2)"
      and n: "(if rb_notes b \<noteq> None \<and> ac_notes a
               then add_comment c a now i True (rb_notes b) (after_status_change c now u (tk_status t) S_RESOLVED db2)
               else Inr (after_status_change c now u (tk_status t) S_RESOLVED db2)) = Inr db3"
      and d: "db' = status_event c ''resolved'' i INFO (ticket_audit c ''resolve'' i db3)"
    using assms by (auto simp: resolve_ticket_def rbind_def Let_def split: sum.splits if_splits option.splits)
  have "desk_writes db (set_ticket i (?f summary) db)" by (intro writes_ticket no_write) (simp add: core_def)
  then have "desk_writes db (after_status_change c now u (tk_status t) S_RESOLVED db2)"
    using writes_apply_status [OF _ s] by (blast intro: writes)
  then have "desk_writes db db3" using n writes_comment by (auto split: if_splits)
  then show ?thesis by (simp add: d status_event_def ticket_audit_def writes)
qed

lemma writes_reopen: "reopen_ticket z c a now i reason db = Inr (u, db') \<Longrightarrow> desk_writes db db'"
  by (auto simp: reopen_ticket_def action_defs core_def dest!: writes_applied intro!: writes writes_ticket
      split: sum.splits if_splits)

lemma writes_confirm:
  assumes "confirm_resolution c a now i remark rating db = Inr (u, db')"
  shows "desk_writes db db'"
proof -
  obtain t where t: "action_ticket c a i db = Inr t"
    using assms by (cases "action_ticket c a i db") (simp_all add: confirm_resolution_def rbind_def)
  have ok: "\<not> \<not> (ac_requester a \<or> ac_agent a \<or> ''service_desk.tickets.close'' \<in> set (ac_perms a))"
    "\<not> (tk_status t \<noteq> S_RESOLVED \<and> tk_status t \<noteq> S_CLOSED)" "\<not> (case rating of None \<Rightarrow> False | Some q \<Rightarrow> q < 1 \<or> 5 < q)"
    using assms unfolding confirm_resolution_def t rbind_simps by (simp_all split: if_splits)
  define db1 where "db1 = set_ticket i (\<lambda>t. t\<lparr>tk_confirmed := first_value (tk_confirmed t) now,
      tk_rating := (if rating = None then tk_rating t else rating)\<rparr>) db"
  note r = assms [unfolded confirm_resolution_def t rbind_simps if_not_P [OF ok(1)] if_not_P [OF ok(2)] if_not_P [OF ok(3)]
      Let_def db1_def [symmetric]]
  from r obtain db2 where n: "(if remark = None then Inr db1 else add_comment c a now i False remark db1) = Inr db2"
      and r2: "rbind (if tk_status t = S_RESOLVED \<and> tk_confirm t
               then rbind (apply_status c t S_CLOSED (Some ''Requester confirmed the resolution'') now (ticket_audit c ''confirm'' i db2)) (\<lambda>(u, db4).
                      Inr (status_event c ''closed'' i INFO (after_status_change c now u S_RESOLVED S_CLOSED db4)))
               else Inr (ticket_audit c ''confirm'' i db2))
             (\<lambda>db5. Inr (load_ticket c i (desk_event c ''service_desk.ticket.confirmed'' ''service_ticket'' i INFO db5),
               desk_event c ''service_desk.ticket.confirmed'' ''service_ticket'' i INFO db5)) = Inr (u, db')"
    by (rule rbind_InrE)
  from r2 obtain db5 where s: "(if tk_status t = S_RESOLVED \<and> tk_confirm t
               then rbind (apply_status c t S_CLOSED (Some ''Requester confirmed the resolution'') now (ticket_audit c ''confirm'' i db2)) (\<lambda>(u, db4).
                      Inr (status_event c ''closed'' i INFO (after_status_change c now u S_RESOLVED S_CLOSED db4)))
               else Inr (ticket_audit c ''confirm'' i db2)) = Inr db5"
      and d: "Inr (load_ticket c i (desk_event c ''service_desk.ticket.confirmed'' ''service_ticket'' i INFO db5),
               desk_event c ''service_desk.ticket.confirmed'' ''service_ticket'' i INFO db5) = (Inr (u, db') :: (ticket option \<times> desk) result)"
    by (rule rbind_InrE)
  have "desk_writes db db1" unfolding db1_def by (intro writes_ticket no_write) (simp add: core_def)
  then have "desk_writes db (ticket_audit c ''confirm'' i db2)"
    using n writes_comment unfolding ticket_audit_def by (auto intro!: writes split: if_splits)
  then have "desk_writes db db5"
    by (rule writes_if_moved [OF _ s]) (simp add: status_event_def writes)
  then show ?thesis using d by (auto intro: writes)
qed

lemma writes_escalate:
  assumes "escalate_ticket active_user c a now i reason level_id level to_user db = Inr (e, db')"
  shows "desk_writes db db'"
proof -
  obtain t where t: "action_ticket c a i db = Inr t"
    using assms by (cases "action_ticket c a i db") (simp_all add: escalate_ticket_def rbind_def)
  obtain why where why: "reason = Some why"
    using assms by (cases reason) (simp_all add: escalate_ticket_def rbind_def t)
  obtain l where l: "pick_level c level_id level db = Some l" and ok: "\<not> terminal (tk_status t)"
      "\<not> (case to_user of None \<Rightarrow> False | Some u \<Rightarrow> u \<noteq> 0 \<and> \<not> active_user u)"
    using assms by (cases "pick_level c level_id level db")
      (simp_all add: escalate_ticket_def rbind_def t why split: if_splits del: split_paired_Ex)
  define row where "row = \<lparr>ec_id = dk_next db, ec_company = cx_company c, ec_ticket = i, ec_rule = None, ec_level = el_level l,
        ec_reason = why, ec_manual = True, ec_from = tk_assignee t, ec_to_user = to_user, ec_role = el_role l,
        ec_acknowledged = None, ec_resolved = None\<rparr>"
  define db1 where "db1 = db\<lparr>dk_escalations := dk_escalations db @ [row], dk_next := Suc (dk_next db)\<rparr>"
  note r = assms [unfolded escalate_ticket_def t why rbind_simps Let_def option.case l if_not_P [OF ok(1)] if_not_P [OF ok(2)]
      row_def [symmetric], folded db1_def]
  from r obtain db3 where s: "(if transition_ok (tk_status t) S_ESCALATED
               then rbind (apply_status c t S_ESCALATED (Some (''Escalated: '' @ why)) now db1) (\<lambda>(u, db2).
                      Inr (status_event c ''escalated'' i WARN db2))
               else Inr db1) = Inr db3"
      and d: "Inr (row, desk_event c ''service_desk.ticket.escalated'' ''service_ticket'' i
                      (if 3 \<le> el_level l then CRITICAL else WARN) (ticket_audit c ''escalate'' i db3)) = (Inr (e, db') :: (escalation \<times> desk) result)"
    by (rule rbind_InrE)
  have "desk_writes db db1"
    unfolding db1_def by (rule more_write [OF no_write escalation_insert]) (simp add: row_def)
  then have "desk_writes db db3"
    by (rule writes_if_moved [OF _ s]) (simp add: status_event_def writes)
  then show ?thesis using d unfolding ticket_audit_def by (auto intro: writes)
qed

lemma writes_acknowledge: "acknowledge_escalation c a now i e db = Inr db' \<Longrightarrow> desk_writes db db'"
  by (auto simp: acknowledge_escalation_def action_defs update_where_def
      intro!: writes more_write [OF no_write escalation_write] split: sum.splits if_splits)

lemma writes_stand_down: "resolve_escalations c a now i db = Inr (n, db') \<Longrightarrow> desk_writes db db'"
  by (auto simp: resolve_escalations_def action_defs intro!: writes split: sum.splits)

text \<open>An assignment may leave the status as it is; then the stamps are already there.\<close>

lemma find_loaded:
  assumes "distinct (map tk_id (dk_tickets db))" and "load_ticket c i db = Some t"
  shows "find_ticket i db = Some t"
proof -
  have t: "t \<in> set (dk_tickets db)" "tk_id t = i" using assms(2) by (auto simp: load_ticket_def dest: find_Some_iff_mem)
  then obtain u where u: "find_ticket i db = Some u"
    by (cases "find_ticket i db") (auto simp: find_ticket_def find_None_iff_mem)
  then have "u \<in> set (dk_tickets db)" "tk_id u = i" by (auto simp: find_ticket_def dest: find_Some_iff_mem)
  then show ?thesis using u t assms(1) by (metis distinct_map inj_onD)
qed

lemma writes_same_status:
  assumes "change_status i (tk_status t) reason f db = Inr db'" and "find_ticket i db = Some t"
    and "distinct (map tk_id (dk_tickets db))" and "\<And>t. core (f t) = core t"
  shows "desk_writes db db'"
proof -
  let ?g = "\<lambda>u. if u = t then f (u\<lparr>tk_status := tk_status t, tk_reason := reason\<rparr>) else u"
  have t: "t \<in> set (dk_tickets db)" "tk_id t = i" using assms(2) by (auto simp: find_ticket_def dest: find_Some_iff_mem)
  have "\<forall>u\<in>set (dk_tickets db). tk_id u = i \<longrightarrow> u = t" using t assms(3) by (metis distinct_map inj_onD)
  then have "update_where (\<lambda>u. tk_id u = i) (\<lambda>u. f (u\<lparr>tk_status := tk_status t, tk_reason := reason\<rparr>)) (dk_tickets db)
      = update_where (\<lambda>u. tk_id u = i) ?g (dk_tickets db)"
    unfolding update_where_def by (intro map_cong) auto
  then have "db' = set_ticket i ?g db"
    using assms(1,2) by (simp add: change_status_def Let_def set_ticket_def transition_refl)
  moreover have "core (?g u) = core u" for u using assms(4) by (auto simp: core_def)
  ultimately show ?thesis by (simp add: writes_ticket)
qed

lemma writes_assign:
  assumes "assign_ticket z c a now i user db = Inr (u, db')" and "distinct (map tk_id (dk_tickets db))"
  shows "desk_writes db db'"
proof -
  obtain t where "action_ticket c a i db = Inr t"
    using assms(1) by (cases "action_ticket c a i db") (simp_all add: assign_ticket_def rbind_def)
  then have f: "find_ticket i db = Some t" and t: "action_ticket c a i db = Inr t"
    using find_loaded [OF assms(2)] by (auto simp: action_ticket_def split: option.splits if_splits)
  define new where "new = (if user = None then tk_status t else assigned_status (tk_status t))"
  obtain reason db1 where s: "change_status i new reason (\<lambda>t. t\<lparr>tk_assignee := user\<rparr>) db = Inr db1"
      and d: "db' = (let db2 = desk_event c ''service_desk.ticket.assigned'' ''service_ticket'' i INFO (ticket_audit c ''assign'' i db1)
         in if tk_status u \<in> {S_NEW, S_OPEN, S_REOPENED, S_ESCALATED} \<and> user \<noteq> None
            then snd (apply_sla_to_ticket z c now (sla_ref_of u) db2) else db2)"
    using assms(1) unfolding assign_ticket_def t rbind_simps Let_def new_def [symmetric] by (auto simp: rbind_def split: sum.splits)
  have "desk_writes db db1"
  proof (cases "new = tk_status t")
    case True
    then show ?thesis using writes_same_status [OF _ f assms(2)] s by (simp add: core_def)
  next
    case False
    then have "new = S_ASSIGNED" by (auto simp: new_def assigned_status_def split: if_splits)
    then show ?thesis using writes_status [OF no_write s] by (simp add: core_def)
  qed
  then show ?thesis unfolding d Let_def ticket_audit_def by (auto intro!: writes)
qed

lemma writes_update:
  assumes "update_ticket z c a now i b db = Inr (u, db')"
  shows "desk_writes db db'"
proof -
  obtain t where t: "action_ticket c a i db = Inr t"
    using assms by (cases "action_ticket c a i db") (simp_all add: update_ticket_def rbind_def)
  obtain q ov where q: "patched_priority a b t = Inr (q, ov)"
    using assms by (auto simp: update_ticket_def rbind_def t split: sum.splits if_splits)
  have w: "desk_writes db (set_ticket i (\<lambda>t. t\<lparr>tk_category := x1 t, tk_department := x2 t, tk_impact := x3 t, tk_urgency := x4 t,
      tk_priority := q, tk_overridden := ov\<rparr>) db)" for x1 x2 x3 x4
    by (intro writes_ticket no_write) (simp add: core_def)
  show ?thesis
    using assms unfolding update_ticket_def t rbind_simps q prod.case Let_def ticket_audit_def
    by (auto intro!: writes w split: if_splits)
qed

subsection \<open>The sweep\<close>

lemma fold_steps_keep:
  assumes "\<And>x s s'. P s \<Longrightarrow> f x s = Inr s' \<Longrightarrow> P s'" and "P s" and "fold_steps f xs s = Inr s'"
  shows "P s'"
  using assms(2,3) by (induction xs arbitrary: s) (auto intro: assms(1))

lemma fold_writes:
  assumes "\<And>x s. desk_writes db (snd s) \<Longrightarrow> desk_writes db (snd (f x s))"
  shows "desk_writes db (snd s) \<Longrightarrow> desk_writes db (snd (fold f xs s))"
  by (induction xs arbitrary: s) (simp_all add: assms)

lemma writes_sweep_warning: "desk_writes db (snd s) \<Longrightarrow> desk_writes db (snd (sweep_warning now x s))"
  by (auto simp: sweep_warning_def Let_def intro!: writes_recompute writes_clock split: prod.splits)

lemma writes_sweep_breach: "desk_writes db (snd s) \<Longrightarrow> desk_writes db (snd (sweep_breach c now x s))"
  by (auto simp: sweep_breach_def Let_def intro!: writes split: prod.splits)

lemma flag_escalated_rest:
  assumes "flag_escalated i reason db = Inr db'"
  shows "dk_escalations db' = dk_escalations db" and "desk_writes db0 db \<Longrightarrow> desk_writes db0 db'"
proof -
  show "dk_escalations db' = dk_escalations db"
    using assms by (auto simp: flag_escalated_def dest: change_status_rest split: option.splits if_splits)
  show "desk_writes db0 db'" if "desk_writes db0 db"
    using assms that
    by (auto simp: flag_escalated_def core_def intro: writes_status [OF that] split: option.splits if_splits)
qed

lemma raise_escalation_cases:
  assumes "raise_escalation c now t k breached rl s = Inr s'"
  obtains "s' = s"
    | db2 where "flag_escalated (tk_id t) (''Escalated: '' @ er_name (fst rl))
          ((snd s)\<lparr>dk_escalations := dk_escalations (snd s) @ [new_escalation c (dk_next (snd s)) t (fst rl) (snd rl)],
             dk_next := Suc (dk_next (snd s))\<rparr>) = Inr db2"
      "snd s' = desk_audit c ''escalate'' ''service_desk.tickets'' (tk_id t)
          (desk_event c ''service_desk.ticket.escalated'' ''service_desk.tickets'' (tk_id t)
             (if 4 \<le> el_level (snd rl) then ERROR else WARN) db2)"
  using assms by (auto simp: raise_escalation_def Let_def split: if_splits)

definition rule_open :: "ticket \<Rightarrow> escalation_rule \<times> escalation_level \<Rightarrow> desk \<Rightarrow> bool" where
  "rule_open t rl db \<longleftrightarrow> exists_where (open_escalation (tk_id t) (er_id (fst rl))) (dk_escalations db)"

lemma raise_escalation_writes:
  assumes r: "raise_escalation c now t k breached rl s = Inr s'" and free: "\<not> rule_open t rl (snd s)"
    and w: "desk_writes db (snd s)"
  shows "desk_writes db (snd s')"
    and "er_id (fst x) \<noteq> er_id (fst rl) \<Longrightarrow> rule_open t x (snd s') \<longleftrightarrow> rule_open t x (snd s)"
proof -
  let ?new = "new_escalation c (dk_next (snd s)) t (fst rl) (snd rl)"
  let ?db1 = "(snd s)\<lparr>dk_escalations := dk_escalations (snd s) @ [?new], dk_next := Suc (dk_next (snd s))\<rparr>"
  have "desk_writes db ?db1"
    using free by (intro more_write [OF w escalation_insert])
      (auto simp: rule_open_def open_escalation_def auto_open_def new_escalation_def)
  then show "desk_writes db (snd s')"
    using r by (rule_tac raise_escalation_cases [OF r]) (auto intro!: writes w dest: flag_escalated_rest(2))
  show "rule_open t x (snd s') \<longleftrightarrow> rule_open t x (snd s)" if "er_id (fst x) \<noteq> er_id (fst rl)"
  proof -
    have "dk_escalations (snd s') = dk_escalations (snd s) \<or> dk_escalations (snd s') = dk_escalations (snd s) @ [?new]"
      by (rule raise_escalation_cases [OF r]) (auto simp: desk_audit_def desk_event_def dest: flag_escalated_rest(1))
    moreover have "\<not> open_escalation (tk_id t) (er_id (fst x)) ?new"
      using that by (simp add: open_escalation_def new_escalation_def)
    ultimately show ?thesis unfolding rule_open_def by auto
  qed
qed

lemma raise_all_writes:
  assumes "fold_steps (raise_escalation c now t k breached) xs s = Inr s'"
    and "distinct (map (\<lambda>x. er_id (fst x)) xs)" and "\<forall>x\<in>set xs. \<not> rule_open t x (snd s)" and "desk_writes db (snd s)"
  shows "desk_writes db (snd s')"
  using assms
proof (induction xs arbitrary: s)
  case (Cons x xs)
  then obtain s1 where s1: "raise_escalation c now t k breached x s = Inr s1"
      "fold_steps (raise_escalation c now t k breached) xs s1 = Inr s'"
    by auto
  have free: "\<not> rule_open t x (snd s)" using Cons.prems(3) by simp
  note w = raise_escalation_writes [OF s1(1) free Cons.prems(4)]
  have "\<not> rule_open t y (snd s1)" if "y \<in> set xs" for y
  proof -
    have "er_id (fst y) \<noteq> er_id (fst x)" using Cons.prems(2) that by (auto simp: image_iff)
    then show ?thesis using w(2) Cons.prems(3) that by simp
  qed
  then show ?case using Cons.IH [OF s1(2) _ _ w(1)] Cons.prems(2) by simp
qed simp

lemma pending_rules_free: "x \<in> set (pending_rules c t db) \<Longrightarrow> \<not> rule_open t x db"
  by (auto simp: pending_rules_def rule_open_def split: option.splits if_splits)

lemma distinct_concat_singletons:
  assumes "distinct (map g rs)" and "\<And>r x. x \<in> set (f r) \<Longrightarrow> h x = g r" and "\<And>r. length (f r) \<le> 1"
  shows "distinct (map h (concat (map f rs)))"
  using assms(1)
proof (induction rs)
  case (Cons r rs)
  have "set (map h (concat (map f rs))) \<subseteq> g ` set rs" using assms(2) by (auto simp: image_iff)
  moreover have "distinct (map h (f r))" using assms(3) [of r] by (cases "f r") (auto simp: Suc_le_eq)
  moreover have "set (map h (f r)) \<subseteq> {g r}" using assms(2) by auto
  moreover have "g r \<notin> g ` set rs" using Cons.prems by simp
  ultimately have "set (map h (f r)) \<inter> set (map h (concat (map f rs))) = {}" by blast
  then show ?case using \<open>distinct (map h (f r))\<close> Cons by (simp only: list.map concat.simps map_append distinct_append distinct.simps)
qed simp

lemma distinct_pending_rules:
  assumes "distinct (map er_id (dk_rules db))"
  shows "distinct (map (\<lambda>x. er_id (fst x)) (pending_rules c t db))"
proof -
  have "distinct (map h (sort_key k xs)) \<longleftrightarrow> distinct (map h xs)" for h :: "escalation_rule \<times> escalation_level \<Rightarrow> row_id"
      and k :: "escalation_rule \<times> escalation_level \<Rightarrow> int \<times> nat" and xs
    by (metis mset_eq_imp_distinct_iff mset_map mset_sort)
  then show ?thesis
    unfolding pending_rules_def
    by (simp only:) (rule distinct_concat_singletons [OF assms]; auto split: option.splits if_splits)
qed

lemma apply_rules_keep:
  assumes "desk_sound db" and "apply_escalation_rules c now i db = Inr (out, db')"
  shows "desk_sound db'"
proof -
  have d: "distinct (map er_id (dk_rules db))" using assms(1) by (simp add: desk_sound_def sla_rows_sound_def)
  have "desk_writes db db'"
  proof (cases "find_ticket i db")
    case (Some t)
    show ?thesis
    proof (cases "tk_status t = S_CLOSED \<or> tk_status t = S_CANCELLED")
      case False
      then have "fold_steps (raise_escalation c now t (find_clock i db) (has_breach i RESPONSE db \<or> has_breach i RESOLUTION db))
          (pending_rules c t db) ([], db) = Inr (out, db')"
        using assms(2) Some by (simp add: apply_escalation_rules_def)
      then have "desk_writes db (snd (out, db'))"
        by (rule raise_all_writes) (simp_all add: distinct_pending_rules [OF d] pending_rules_free)
      then show ?thesis by simp
    qed (use assms(2) Some in \<open>auto simp: apply_escalation_rules_def\<close>)
  qed (use assms(2) in \<open>simp add: apply_escalation_rules_def\<close>)
  then show ?thesis using desk_writes_keep assms(1) by blast
qed

lemma sweep_escalation_keeps: "desk_sound (snd s) \<Longrightarrow> sweep_escalation c now i s = Inr s' \<Longrightarrow> desk_sound (snd s')"
  by (auto simp: sweep_escalation_def dest: apply_rules_keep)

lemma sweep_company_keeps:
  assumes "desk_sound db" and "sweep_company now tenant company db = Inr (out, db')"
  shows "desk_sound db'"
proof -
  define s1 where "s1 = fold (sweep_warning now) (warning_rows (sweep_ctx tenant company) now db) (empty_sweep\<lparr>ss_tenants := 1\<rparr>, db)"
  define s2 where "s2 = fold (sweep_breach (sweep_ctx tenant company) now)
      (take 200 (filter (breachable now) (clocked_tickets (sweep_ctx tenant company) (snd s1)))) s1"
  have "desk_writes db (snd s1)" unfolding s1_def by (rule fold_writes) (auto intro: writes_sweep_warning)
  then have "desk_writes db (snd s2)" unfolding s2_def by (rule fold_writes [rotated]) (rule writes_sweep_breach)
  then have "desk_sound (snd s2)" using desk_writes_keep assms(1) by blast
  moreover have "fold_steps (sweep_escalation (sweep_ctx tenant company) now)
      (escalation_candidates (sweep_ctx tenant company) now (snd s2)) s2 = Inr (out, db')"
    using assms(2) by (simp add: sweep_company_def Let_def s1_def s2_def)
  ultimately have "desk_sound (snd (out, db'))"
    by (rule_tac fold_steps_keep [where P = "\<lambda>s. desk_sound (snd s)", OF sweep_escalation_keeps])
  then show ?thesis by simp
qed

lemma tick_companies_keep: "desk_sound (snd s) \<Longrightarrow> desk_sound (snd (tick_companies now tenant xs s))"
proof (induction xs arbitrary: s)
  case (Cons x xs)
  show ?case
  proof (cases "sweep_company now tenant x (snd s)")
    case (Inl e)
    then show ?thesis using Cons.prems by (simp add: with_transaction_def)
  next
    case (Inr r)
    then have "desk_sound (snd r)" using sweep_company_keeps [OF Cons.prems] by (metis surjective_pairing)
    then show ?thesis using Inr Cons.IH by (auto simp: with_transaction_def split: prod.splits)
  qed
qed simp

lemma tick_tenants_keep: "desk_sound (snd s) \<Longrightarrow> desk_sound (snd (tick_tenants now xs s))"
proof (induction xs arbitrary: s)
  case (Cons x xs)
  obtain r db where r: "tick_companies now x (companies_of x (snd s)) ((fst s)\<lparr>ss_tenants := Suc (ss_tenants (fst s))\<rparr>, snd s) = (r, db)"
    by force
  then have "desk_sound db" using tick_companies_keep [of "((fst s)\<lparr>ss_tenants := Suc (ss_tenants (fst s))\<rparr>, snd s)"] Cons.prems
    by (metis snd_conv)
  then show ?case using Cons.IH by (simp add: r split: sum.split)
qed simp

lemma run_tick_keeps: "desk_sound db \<Longrightarrow> desk_sound (snd (run_sla_tick running now tenants db))"
  by (simp add: run_sla_tick_def tick_tenants_keep)

subsection \<open>The desk as a transition system\<close>

inductive desk_step :: "desk \<Rightarrow> desk \<Rightarrow> bool" where
  opened: "open_ticket c a now i reason db = Inr (u, db') \<Longrightarrow> desk_step db db'"
| started: "start_progress c a now i reason db = Inr (u, db') \<Longrightarrow> desk_step db db'"
| held: "set_pending c a now i status reason db = Inr (u, db') \<Longrightarrow> desk_step db db'"
| resolved: "resolve_ticket c a now i b db = Inr (u, db') \<Longrightarrow> desk_step db db'"
| closed: "close_ticket c a now i reason db = Inr (u, db') \<Longrightarrow> desk_step db db'"
| reopened: "reopen_ticket z c a now i reason db = Inr (ou, db') \<Longrightarrow> desk_step db db'"
| cancelled: "cancel_ticket c a now i reason db = Inr (u, db') \<Longrightarrow> desk_step db db'"
| accepted: "confirm_resolution c a now i remark rating db = Inr (ou, db') \<Longrightarrow> desk_step db db'"
| escalated: "escalate_ticket active_user c a now i reason level_id level to_user db = Inr (e, db') \<Longrightarrow> desk_step db db'"
| acknowledged: "acknowledge_escalation c a now i n db = Inr db' \<Longrightarrow> desk_step db db'"
| stood_down: "resolve_escalations c a now i db = Inr (n, db') \<Longrightarrow> desk_step db db'"
| assigned: "assign_ticket z c a now i user db = Inr (u, db') \<Longrightarrow> desk_step db db'"
| changed: "update_ticket z c a now i p db = Inr (u, db') \<Longrightarrow> desk_step db db'"
| commented: "add_comment c a now i internal body db = Inr db' \<Longrightarrow> desk_step db db'"
| ticked: "run_sla_tick running now tenants db = (r, db') \<Longrightarrow> desk_step db db'"

inductive desk_steps :: "desk \<Rightarrow> desk \<Rightarrow> bool" where
  desk_start: "desk_steps db db"
| desk_more: "desk_steps db db1 \<Longrightarrow> desk_step db1 db2 \<Longrightarrow> desk_steps db db2"

lemma desk_step_keeps:
  assumes "desk_step db db'" and "desk_sound db"
  shows "desk_sound db'"
  using assms
proof (induction rule: desk_step.induct)
  case (assigned z c a now i user db u db')
  then have "distinct (map tk_id (dk_tickets db))" by (simp add: desk_sound_def lifecycle_sound_def)
  then show ?case using writes_assign [OF assigned.hyps] desk_writes_keep assigned.prems by blast
next
  case (ticked running now tenants db r db')
  then show ?case using run_tick_keeps by (metis snd_conv)
qed (blast intro: desk_writes_keep dest: writes_open writes_start writes_pending writes_resolve writes_close writes_reopen
    writes_cancel_ticket writes_confirm writes_escalate writes_acknowledge writes_stand_down writes_update
    writes_comment [OF no_write])+

lemma desk_steps_keep: "desk_steps db db' \<Longrightarrow> desk_sound db \<Longrightarrow> desk_sound db'"
  by (induction rule: desk_steps.induct) (auto intro: desk_step_keeps)

text \<open>
  C32. Over every sequence of ticket actions and sweeps, the status history of every ticket is an unbroken
  chain of changes that the lifecycle allows and ends in the ticket's status, and a resolved, closed or
  cancelled ticket carries the time of it, while a reopened one carries none.
\<close>

theorem ticket_history_is_legal:
  assumes "desk_steps db db'" and "desk_sound db"
  shows "(\<forall>h\<in>set (dk_history db'). sh_from h \<noteq> sh_to h \<and> transition_ok (sh_from h) (sh_to h))
    \<and> (\<forall>t\<in>set (dk_tickets db'). explained db' t \<and> stamped t)"
  using desk_steps_keep [OF assms] by (simp_all add: desk_sound_def lifecycle_sound_def legal_change_def)

text \<open>
  C33. Over every sequence of ticket actions and sweeps a ticket has at most one clock, at most one breach
  of each target, and at most one open escalation per rule: the sweep may run every minute without
  recording or escalating anything twice.
\<close>

theorem sweeps_never_repeat_themselves:
  assumes "desk_steps db db'" and "desk_sound db"
  shows "distinct (map ck_ticket (dk_clocks db'))
    \<and> distinct (map (\<lambda>b. (br_ticket b, br_kind b)) (dk_breaches db'))
    \<and> distinct (map (\<lambda>e. (ec_ticket e, ec_rule e)) (filter auto_open (dk_escalations db')))"
  using desk_steps_keep [OF assms] by (simp add: desk_sound_def sla_rows_sound_def)

subsection \<open>Choosing a policy\<close>

text \<open>
  C38. The policy of a ticket is active and covers it in every dimension; no covering policy is more
  specific, and of the equally specific ones it has the smallest identifier. In particular a policy without a
  priority is chosen only if no policy names the ticket's priority, whatever else those policies say.
\<close>

theorem policy_is_most_specific:
  assumes "select_sla_policy c r cfg = Some p"
  shows "p \<in> set (cf_policies cfg) \<and> sp_active p \<and> policy_covers c r p
    \<and> (\<forall>q\<in>set (cf_policies cfg). policy_covers c r q \<longrightarrow>
         specificity q \<le> specificity p \<and> (specificity q = specificity p \<longrightarrow> sp_id p \<le> sp_id q)
         \<and> (sp_priority p = None \<longrightarrow> sp_priority q = None))"
proof -
  have p: "p \<in> set (cf_policies cfg)" "policy_covers c r p"
    using limit1_Some(1) [OF assms [unfolded select_sla_policy_def]] by auto
  have le: "policy_key p \<le> policy_key q" if "q \<in> set (cf_policies cfg)" "policy_covers c r q" for q
    using limit1_Some(2) [OF assms [unfolded select_sla_policy_def]] that by simp
  have "specificity q \<le> specificity p \<and> (specificity q = specificity p \<longrightarrow> sp_id p \<le> sp_id q)
      \<and> (sp_priority p = None \<longrightarrow> sp_priority q = None)"
    if q: "q \<in> set (cf_policies cfg)" "policy_covers c r q" for q
  proof -
    have s: "specificity q \<le> specificity p" using le [OF q] by (auto simp: policy_key_def less_eq_prod_simp)
    have one: "sp_priority p = None \<longrightarrow> sp_priority q = None"
      using s by (auto simp: specificity_def weight_def split: if_splits)
    have "sp_priority q = None \<longleftrightarrow> sp_priority p = None" if "specificity q = specificity p"
      using that by (auto simp: specificity_def weight_def split: if_splits)
    then show ?thesis using s one le [OF q] by (auto simp: policy_key_def less_eq_prod_simp split: if_splits)
  qed
  then show ?thesis using p by (simp add: policy_covers_def)
qed

subsection \<open>The clock through the operations\<close>

lemma find_clock_set:
  assumes "\<And>k. ck_ticket (g k) = ck_ticket k"
  shows "find_clock i (set_clock i g db) = map_option g (find_clock i db)"
proof -
  have "find (\<lambda>k. ck_ticket k = i) (update_where (\<lambda>k. ck_ticket k = i) g ks) = map_option g (find (\<lambda>k. ck_ticket k = i) ks)" for ks
    by (induction ks) (simp_all add: update_where_def assms)
  then show ?thesis by (simp add: find_clock_def set_clock_def)
qed

lemma find_clock_same [simp]:
  "find_clock i (set_ticket j f db) = find_clock i db"
  "find_clock i (desk_audit c action resource j db) = find_clock i db"
  "find_clock i (desk_event c kind entity j sev db) = find_clock i db"
  "find_clock i (snd (record_breach c j bk due x reason db)) = find_clock i db"
  "find_clock i (snd (close_open_escalations now j db)) = find_clock i db"
  by (auto simp: find_clock_def set_ticket_def desk_audit_def desk_event_def record_breach_def close_open_escalations_def Let_def
      split: option.splits)

lemma find_clock_ops:
  "find_clock i (recompute_sla_states now i db) = map_option (recompute_clock now) (find_clock i db)"
  "find_clock i (pause_sla i x db) = map_option (pause_clock x) (find_clock i db)"
  "find_clock i (resume_sla now i x db) = map_option (recompute_clock now \<circ> resume_clock x) (find_clock i db)"
  "find_clock i (mark_resolved c now i x db)
     = map_option (\<lambda>k. recompute_clock now (k\<lparr>ck_resolved := first_value (ck_resolved k) x\<rparr>)) (find_clock i db)"
proof -
  have t: "ck_ticket (recompute_clock now k) = ck_ticket k" "ck_ticket (pause_clock x k) = ck_ticket k"
    "ck_ticket (resume_clock x k) = ck_ticket k" for k
    by (auto simp: recompute_clock_def pause_clock_def resume_clock_def split: option.splits)
  show r: "find_clock i (recompute_sla_states now i db) = map_option (recompute_clock now) (find_clock i db)" for db
    unfolding recompute_sla_states_def by (rule find_clock_set) (simp add: t)
  show "find_clock i (pause_sla i x db) = map_option (pause_clock x) (find_clock i db)"
    unfolding pause_sla_def by (rule find_clock_set) (simp add: t)
  show "find_clock i (resume_sla now i x db) = map_option (recompute_clock now \<circ> resume_clock x) (find_clock i db)"
    by (simp add: resume_sla_def copy_dues_def r find_clock_set t option.map_comp)
  show "find_clock i (mark_resolved c now i x db)
     = map_option (\<lambda>k. recompute_clock now (k\<lparr>ck_resolved := first_value (ck_resolved k) x\<rparr>)) (find_clock i db)"
    by (cases "find_clock i db")
      (simp_all add: mark_resolved_def Let_def find_clock_set r)
qed

text \<open>A status change loads the ticket it wrote, and touches neither the clocks nor the configuration.\<close>

lemma apply_status_result:
  assumes "distinct (map tk_id (dk_tickets db))" and "load_ticket c i db = Some t" and "apply_status c t to reason x db = Inr (u, db')"
  shows "tk_id u = i" and "tk_status u = to" and "sla_ref_of u = sla_ref_of t" and "load_ticket c i db' = Some u"
    and "dk_clocks db' = dk_clocks db" and "dk_config db' = dk_config db" and "dk_breaches db' = dk_breaches db"
    and "distinct (map tk_id (dk_tickets db'))"
    and "tk_resolved u = (if tk_status t = to then tk_resolved t else tk_resolved (stamp_status to x t))"
    and "tk_confirm u = tk_confirm t"
proof -
  have t: "tk_id t = i" "t \<in> set (dk_tickets db)" using assms(2) by (auto simp: load_ticket_def dest: find_Some_iff_mem)
  have same: "sla_ref_of (stamp_status s x (t\<lparr>tk_status := s, tk_reason := r\<rparr>)) = sla_ref_of t"
    "own_row c (tk_tenant (stamp_status s x (v\<lparr>tk_status := s, tk_reason := r\<rparr>))) (tk_company (stamp_status s x (v\<lparr>tk_status := s, tk_reason := r\<rparr>)))
       \<longleftrightarrow> own_row c (tk_tenant v) (tk_company v)"
    "tk_confirm (stamp_status s x (t\<lparr>tk_status := s, tk_reason := r\<rparr>)) = tk_confirm t"
    "tk_resolved (stamp_status s x (t\<lparr>tk_status := s, tk_reason := r\<rparr>)) = tk_resolved (stamp_status s x t)" for s r v
    by (cases s; simp add: sla_ref_of_def)+
  have "tk_id u = i \<and> tk_status u = to \<and> sla_ref_of u = sla_ref_of t \<and> load_ticket c i db' = Some u
    \<and> dk_clocks db' = dk_clocks db \<and> dk_config db' = dk_config db \<and> dk_breaches db' = dk_breaches db
    \<and> distinct (map tk_id (dk_tickets db'))
    \<and> tk_resolved u = (if tk_status t = to then tk_resolved t else tk_resolved (stamp_status to x t)) \<and> tk_confirm u = tk_confirm t"
  proof (cases "tk_status t = to")
    case True
    then show ?thesis using assms t by (auto simp: apply_status_def)
  next
    case False
    let ?g = "\<lambda>v. stamp_status to x (v\<lparr>tk_status := to, tk_reason := reason\<rparr>)"
    obtain c1: "change_status i to reason (stamp_status to x) db = Inr db'" and u: "u = the_default t (load_ticket c i db')"
      using assms(3) False t(1) by (auto simp: apply_status_def split: if_splits)
    note ch = changed_status_tables(2) [OF c1 find_loaded [OF assms(1,2)]] and rest = change_status_rest [OF c1]
    have ids: "map tk_id (dk_tickets db') = map tk_id (dk_tickets db)"
      unfolding ch by (rule map_update_where_same) simp
    have "find (\<lambda>v. tk_id v = i \<and> own_row c (tk_tenant v) (tk_company v)) (update_where (\<lambda>v. tk_id v = i) ?g ts)
        = map_option ?g (find (\<lambda>v. tk_id v = i \<and> own_row c (tk_tenant v) (tk_company v)) ts)" for ts
      by (induction ts) (simp_all add: update_where_def same(2))
    then have "load_ticket c i db' = Some (?g t)" using assms(2) by (simp add: load_ticket_def ch)
    then show ?thesis using u t ids assms(1) rest False by (simp add: same)
  qed
  then show "tk_id u = i" "tk_status u = to" "sla_ref_of u = sla_ref_of t" "load_ticket c i db' = Some u"
    "dk_clocks db' = dk_clocks db" "dk_config db' = dk_config db" "dk_breaches db' = dk_breaches db"
    "distinct (map tk_id (dk_tickets db'))"
    "tk_resolved u = (if tk_status t = to then tk_resolved t else tk_resolved (stamp_status to x t))" "tk_confirm u = tk_confirm t"
    by simp_all
qed

lemma apply_status_rest:
  assumes "apply_status c t to reason x db = Inr (u, db')"
  shows "tk_id u = tk_id t" and "dk_clocks db' = dk_clocks db"
proof -
  have "tk_id v = tk_id t" if "load_ticket c (tk_id t) db1 = Some v" for v db1
    using that by (auto simp: load_ticket_def dest: find_Some_iff_mem)
  then have "tk_id (the_default t (load_ticket c (tk_id t) db1)) = tk_id t" for db1
    by (cases "load_ticket c (tk_id t) db1") simp_all
  then show "tk_id u = tk_id t" "dk_clocks db' = dk_clocks db"
    using assms by (auto simp: apply_status_def dest: change_status_rest(1) split: if_splits)
qed

lemma set_pending_result:
  assumes "distinct (map tk_id (dk_tickets db))" and "load_ticket c i db = Some t" and "\<not> pending (tk_status t)"
    and "select_sla_policy c (sla_ref_of t) (dk_config db) = Some p" and "sp_pause p"
    and "set_pending c a h i to why db = Inr (u, db')"
  shows "find_clock i db' = map_option (pause_clock h) (find_clock i db)" and "load_ticket c i db' = Some u" and "pending (tk_status u)"
    and "distinct (map tk_id (dk_tickets db'))"
proof -
  define s where "s = the_default S_PENDING_REQUESTER to"
  have s: "pending s" using assms(6) by (auto simp: set_pending_def s_def Let_def split: if_splits)
  have a: "action_ticket c a i db = Inr t"
    using assms(2,6) s unfolding s_def
    by (cases "action_ticket c a i db") (auto simp: set_pending_def action_ticket_def split: if_splits)
  obtain db1 where ap: "apply_status c t s why h db = Inr (u, db1)"
      and db': "db' = status_event c (if s = S_PENDING_REQUESTER then ''pending_requester'' else ''pending_vendor'') i INFO
            (ticket_audit c ''status_change'' i (after_status_change c h u (tk_status t) s db1))"
    using assms(6) s by (auto simp: set_pending_def s_def [symmetric] Let_def a split: if_splits)
  note r = apply_status_result [OF assms(1,2) ap]
  have clocks: "find_clock i db1 = find_clock i db" using r(5) by (simp add: find_clock_def)
  have not_terminal: "\<not> terminal s" "s \<noteq> S_RESOLVED" using s by (auto simp: pending_def terminal_def)
  have after: "after_status_change c h u (tk_status t) s db1 = pause_sla i h db1"
    using s assms(3-5) r(1,3,6) not_terminal by (simp add: after_status_change_def)
  show "find_clock i db' = map_option (pause_clock h) (find_clock i db)"
    using clocks by (simp add: db' status_event_def ticket_audit_def after find_clock_ops)
  have tickets: "dk_tickets db' = dk_tickets db1"
    by (simp add: db' status_event_def ticket_audit_def desk_event_def desk_audit_def after pause_sla_def set_clock_def)
  show "load_ticket c i db' = Some u" "distinct (map tk_id (dk_tickets db'))"
    using r(4,8) tickets by (simp_all add: load_ticket_def)
  show "pending (tk_status u)" using r(2) s by simp
qed

lemma open_ticket_result:
  assumes "distinct (map tk_id (dk_tickets db))" and "load_ticket c i db = Some t" and "open_ticket c a x i why db = Inr (u, db')"
  shows "find_clock i db' = find_clock i db" and "load_ticket c i db' = Some u" and "tk_status u = S_OPEN"
    and "distinct (map tk_id (dk_tickets db'))"
proof -
  have a: "action_ticket c a i db = Inr t"
    using assms(2,3) by (cases "action_ticket c a i db") (auto simp: open_ticket_def action_ticket_def split: if_splits)
  obtain db1 where ap: "apply_status c t S_OPEN (Some (the_default ''Accepted by the service desk'' why)) x db = Inr (u, db1)"
      and db': "db' = status_event c ''open'' i INFO (ticket_audit c ''status_change'' i db1)"
    using assms(3) by (auto simp: open_ticket_def a)
  note r = apply_status_result [OF assms(1,2) ap]
  have t: "dk_tickets db' = dk_tickets db1" by (simp add: db' status_event_def ticket_audit_def desk_event_def desk_audit_def)
  show "find_clock i db' = find_clock i db"
    using r(5) by (simp add: db' status_event_def ticket_audit_def) (simp add: find_clock_def)
  show "load_ticket c i db' = Some u" "tk_status u = S_OPEN" "distinct (map tk_id (dk_tickets db'))"
    using r(2,4,8) t by (simp_all add: load_ticket_def)
qed

lemma find_clock_note: "add_comment c a now i True body db = Inr db' \<Longrightarrow> find_clock j db' = find_clock j db"
proof -
  assume r: "add_comment c a now i True body db = Inr db'"
  have "find_clock j (db\<lparr>dk_comments := cs\<rparr>) = find_clock j db" for cs by (simp add: find_clock_def)
  then show ?thesis using r by (auto simp: add_comment_def ticket_audit_def Let_def split: option.splits if_splits)
qed

definition resolved_clock :: "instant \<Rightarrow> ticket_status \<Rightarrow> sla_clock \<Rightarrow> sla_clock" where
  "resolved_clock r old k =
     (let k1 = (if pending old then recompute_clock r (resume_clock r k) else k)
      in recompute_clock r (k1\<lparr>ck_resolved := first_value (ck_resolved k1) r\<rparr>))"

lemma resolve_ticket_result:
  assumes "distinct (map tk_id (dk_tickets db))" and "load_ticket c i db = Some t" and "resolve_ticket c a r i b db = Inr (u, db')"
  shows "find_clock i db' = map_option (resolved_clock r (tk_status t)) (find_clock i db)"
proof -
  have a: "action_ticket c a i db = Inr t"
    using assms(2,3) by (cases "action_ticket c a i db") (auto simp: resolve_ticket_def action_ticket_def split: if_splits)
  let ?f = "\<lambda>summary t. t\<lparr>tk_resolution := Some (the_default ''FIXED'' (rb_code b), summary), tk_confirm := the_default (tk_confirm t) (rb_confirm b)\<rparr>"
  obtain summary db2 db3 where s: "apply_status c t S_RESOLVED (Some (the_default ''Resolved by the service desk'' (rb_reason b))) r
        (set_ticket i (?f summary) db) = Inr (u, db2)"
      and n: "(if rb_notes b \<noteq> None \<and> ac_notes a
               then add_comment c a r i True (rb_notes b) (after_status_change c r u (tk_status t) S_RESOLVED db2)
               else Inr (after_status_change c r u (tk_status t) S_RESOLVED db2)) = Inr db3"
      and d: "db' = status_event c ''resolved'' i INFO (ticket_audit c ''resolve'' i db3)"
    using assms(3) by (auto simp: resolve_ticket_def a Let_def split: if_splits option.splits)
  have "tk_id t = i" using assms(2) by (auto simp: load_ticket_def dest: find_Some_iff_mem)
  then have id: "tk_id u = i \<and> dk_clocks db2 = dk_clocks db"
    using apply_status_rest [OF s] by (simp add: set_ticket_def)
  then have "find_clock i db2 = find_clock i db" by (simp add: find_clock_def)
  moreover have "find_clock i (after_status_change c r u (tk_status t) S_RESOLVED db2)
      = map_option (resolved_clock r (tk_status t)) (find_clock i db2)"
    using id by (cases "find_clock i db2") (simp_all add: after_status_change_def terminal_def pending_def [of S_RESOLVED] find_clock_ops resolved_clock_def Let_def)
  moreover have "find_clock i db' = find_clock i (after_status_change c r u (tk_status t) S_RESOLVED db2)"
    using n find_clock_note by (auto simp: d status_event_def ticket_audit_def split: if_splits)
  ultimately show ?thesis by simp
qed

subsection \<open>Holds\<close>

text \<open>
  C34. A ticket with a running clock goes on hold at h under a policy that pauses. If it is resolved from the
  hold at r, its resolution deadline d has moved by exactly the r - h of the hold, and the target counts
  as met if and only if the hold began in time. If the desk first opens the ticket again, as it must to
  work on it, the clock stays paused and the deadline where it was: resolved at the same instant, the target is
  met only if r is within d, so the whole hold is charged to the desk.
\<close>

theorem hold_is_charged_after_reopening_work:
  assumes sound: "desk_sound db"
    and t: "load_ticket c i db = Some t" "\<not> pending (tk_status t)"
    and k: "find_clock i db = Some k" "ck_state k = RUNNING" "ck_paused k = None" "ck_resolved k = None" "ck_resolution_due k = Some d"
    and p: "select_sla_policy c (sla_ref_of t) (dk_config db) = Some p" "sp_pause p"
    and hold: "set_pending c a h i to why db = Inr (t1, db1)"
    and direct: "resolve_ticket c a r i b db1 = Inr (u1, done1)"
    and detour: "open_ticket c a x i y db1 = Inr (t2, db2)" "resolve_ticket c a r i b db2 = Inr (u2, done2)"
  shows "\<exists>k1 k2. find_clock i done1 = Some k1 \<and> ck_resolution_due k1 = Some (d + (r - h))
      \<and> (ck_resolution_state k1 = G_MET \<longleftrightarrow> h \<le> d)
      \<and> find_clock i done2 = Some k2 \<and> ck_resolution_due k2 = Some d \<and> (ck_resolution_state k2 = G_MET \<longleftrightarrow> r \<le> d)"
proof -
  have dist: "distinct (map tk_id (dk_tickets db))" using sound by (simp add: desk_sound_def lifecycle_sound_def)
  note h1 = set_pending_result [OF dist t p hold]
  note o = open_ticket_result [OF h1(4,2) detour(1)]
  have paused: "find_clock i db1 = Some (k\<lparr>ck_state := PAUSED, ck_paused := Some h\<rparr>)"
    using h1(1) k by (simp add: pause_clock_def first_value_def)
  have one: "find_clock i done1 = Some (resolved_clock r (tk_status t1) (k\<lparr>ck_state := PAUSED, ck_paused := Some h\<rparr>))"
    using resolve_ticket_result [OF h1(4,2) direct] paused by simp
  have two: "find_clock i done2 = Some (resolved_clock r S_OPEN (k\<lparr>ck_state := PAUSED, ck_paused := Some h\<rparr>))"
    using resolve_ticket_result [OF o(4,2) detour(2)] o(1,3) paused by simp
  show ?thesis
    unfolding one two using h1(3) k
    by (auto simp: resolved_clock_def recompute_clock_def resume_clock_def target_of_def shift_by_def first_value_def pending_def)
qed

subsection \<open>Work after the resolution\<close>

lemma fold_steps_idle: "(\<And>x. x \<in> set xs \<Longrightarrow> f x s = Inr s) \<Longrightarrow> fold_steps f xs s = Inr s"
  by (induction xs) simp_all


subsection \<open>Reopening\<close>

lemma find_clock_apply_sla:
  assumes "find_clock (rf_ticket r) db = Some k" and "select_sla_policy c r (dk_config db) = Some p"
  shows "find_clock (rf_ticket r) (snd (apply_sla_to_ticket z c now r db))
    = Some (recompute_clock now (rewind_clock (compute_sla_window z (dk_config db) p (the_default now (rf_opened r))) k))"
proof -
  have "exists_where (\<lambda>k. ck_ticket k = rf_ticket r) (dk_clocks db)"
    using assms(1) by (auto simp: find_clock_def dest: find_Some_iff_mem)
  then show ?thesis
    using assms by (simp add: apply_sla_to_ticket_def Let_def upsert_clock_def find_clock_ops find_clock_set rewind_clock_def)
qed


subsection \<open>A sample desk\<close>

text \<open>
  One tenant (1) with two companies (2 and 3). Ticket 10 of company 2 has a running clock: response due after
  one hour, resolution after eight. Rule 31 of company 2 escalates what is unresolved after ten minutes.
\<close>

definition desk_policy :: sla_policy where
  "desk_policy = \<lparr>sp_id = 5, sp_tenant = 1, sp_company = 2, sp_branch = None, sp_code = ''STD'', sp_name = ''Standard'', sp_category = None,
     sp_priority = None, sp_department = None, sp_type = None, sp_calendar = None, sp_response = 60, sp_resolution = 480,
     sp_pause = True, sp_warning = 30, sp_escalation = True, sp_basis = ''CALENDAR'', sp_active = True\<rparr>"

definition desk_config :: config_db where
  "desk_config = \<lparr>cf_policies = [desk_policy\<lparr>sp_id := 4, sp_priority := Some ''P1''\<rparr>, desk_policy, desk_policy\<lparr>sp_id := 6\<rparr>],
     cf_calendars = [], cf_holidays = [], cf_categories = [], cf_audit = [], cf_next = 7\<rparr>"

definition open_at_eight :: ticket where
  "open_at_eight = \<lparr>tk_id = 10, tk_tenant = 1, tk_company = 2, tk_branch = None, tk_category = None, tk_department = None,
     tk_requester = Some 8, tk_type = None, tk_impact = None, tk_urgency = None, tk_overridden = False, tk_priority = Some ''P3'',
     tk_status = S_OPEN, tk_reason = None, tk_assignee = None, tk_opened = 0, tk_first_response = None, tk_resolved = None,
     tk_closed = None, tk_cancelled = None, tk_reopened = None, tk_reopens = 0, tk_confirm = True, tk_resolution = None,
     tk_confirmed = None, tk_rating = None, tk_response_due = Some 3600000, tk_resolution_due = Some 28800000\<rparr>"

definition running_clock :: sla_clock where
  "running_clock = \<lparr>ck_id = 11, ck_tenant = 1, ck_ticket = 10, ck_policy = 5, ck_state = RUNNING, ck_response_due = Some 3600000,
     ck_response = None, ck_response_state = G_PENDING, ck_resolution_due = Some 28800000, ck_resolved = None,
     ck_resolution_state = G_PENDING, ck_paused_minutes = 0, ck_paused = None, ck_response_warning = Some 1800000,
     ck_response_warned = None, ck_resolution_warning = Some 27000000, ck_resolution_warned = None\<rparr>"

definition first_level :: escalation_level where
  "first_level = \<lparr>el_id = 30, el_tenant = 1, el_company = 2, el_level = 1, el_code = ''L1'', el_role = ''service_desk_agent'', el_active = True\<rparr>"

definition unresolved_rule :: escalation_rule where
  "unresolved_rule = \<lparr>er_id = 31, er_tenant = 1, er_company = 2, er_code = ''SLOW'', er_name = ''Slow'', er_category = None,
     er_priority = None, er_level = 30, er_after = 10, er_trigger = NO_RESOLUTION, er_active = True\<rparr>"

definition sample_desk :: desk where
  "sample_desk = \<lparr>dk_config = desk_config, dk_tickets = [open_at_eight], dk_history = [], dk_clocks = [running_clock], dk_breaches = [],
     dk_levels = [first_level], dk_rules = [unresolved_rule], dk_escalations = [], dk_comments = [], dk_events = [], dk_audit = [],
     dk_next = 40\<rparr>"

definition desk_ctx :: ctx where
  "desk_ctx = \<lparr>cx_tenant = Some 1, cx_company = Some 2, cx_branch = None, cx_user = Some 9\<rparr>"

definition agent :: desk_actor where
  "agent = \<lparr>ac_denied = False, ac_requester = False, ac_agent = True, ac_admin = False, ac_notes = True, ac_perms = []\<rparr>"

definition fixed_it :: resolve_body where
  "fixed_it = \<lparr>rb_summary = Some ''Replaced the cable'', rb_code = None, rb_confirm = None, rb_reason = None, rb_notes = None\<rparr>"

lemma sample_desk_sound: "desk_sound sample_desk"
  by (simp add: desk_sound_def lifecycle_sound_def sla_rows_sound_def sample_desk_def explained_def stamped_def ticket_history_def
      open_at_eight_def running_clock_def unresolved_rule_def)

lemma policy_is_most_specific_witness:
  "map sp_id (filter (policy_covers desk_ctx (sla_ref_of open_at_eight)) (cf_policies desk_config)) = [5, 6]
     \<and> select_sla_policy desk_ctx (sla_ref_of open_at_eight) desk_config = Some desk_policy \<and> sp_active desk_policy"
proof -
  have s: "select_sla_policy desk_ctx (sla_ref_of open_at_eight) desk_config = Some desk_policy" by code_simp
  have f: "map sp_id (filter (policy_covers desk_ctx (sla_ref_of open_at_eight)) (cf_policies desk_config)) = [5, 6]" by code_simp
  show ?thesis using policy_is_most_specific [OF s] s f by simp
qed

text \<open>A sweep at twenty minutes escalates ticket 10; a second one finds the escalation open.\<close>

definition swept_desk :: desk where
  "swept_desk = snd (run_sla_tick False 1200000 [1] sample_desk)"

lemma swept_desk_steps: "desk_steps sample_desk swept_desk"
proof -
  obtain r where "run_sla_tick False 1200000 [1] sample_desk = (r, swept_desk)" unfolding swept_desk_def by (metis surjective_pairing)
  then show ?thesis by (rule desk_more [OF desk_start ticked])
qed

lemma swept_desk_value:
  "map (\<lambda>h. (sh_from h, sh_to h)) (dk_history swept_desk) = [(S_OPEN, S_ESCALATED)] \<and> length (dk_escalations swept_desk) = 1"
  by code_simp

lemma ticket_history_is_legal_witness:
  "map (\<lambda>h. (sh_from h, sh_to h)) (dk_history swept_desk) = [(S_OPEN, S_ESCALATED)]
     \<and> filter (\<lambda>t. \<not> stamped t) (dk_tickets swept_desk) = []"
  using ticket_history_is_legal [OF swept_desk_steps sample_desk_sound] swept_desk_value by (simp add: filter_empty_conv)

lemma sweeps_never_repeat_themselves_witness:
  "length (dk_escalations swept_desk) = 1
     \<and> distinct (map (\<lambda>e. (ec_ticket e, ec_rule e)) (filter auto_open (dk_escalations swept_desk)))"
  using sweeps_never_repeat_themselves [OF swept_desk_steps sample_desk_sound] swept_desk_value by simp

lemma ran: "\<not> isl m \<Longrightarrow> m = Inr (fst (projr m), snd (projr m))"
  by (cases m) simp_all

text \<open>
  Ticket 10 waits for its requester from the seventh hour to the thirteenth and is resolved then: met from the
  hold, breached once the desk has opened it at the twelfth hour.
\<close>

definition on_hold :: "ticket \<times> desk" where
  "on_hold = projr (set_pending desk_ctx agent 25200000 10 None (Some ''Which floor?'') sample_desk)"

definition done_from_hold :: "ticket \<times> desk" where
  "done_from_hold = projr (resolve_ticket desk_ctx agent 46800000 10 fixed_it (snd on_hold))"

definition back_to_work :: "ticket \<times> desk" where
  "back_to_work = projr (open_ticket desk_ctx agent 43200000 10 None (snd on_hold))"

definition done_after_work :: "ticket \<times> desk" where
  "done_after_work = projr (resolve_ticket desk_ctx agent 46800000 10 fixed_it (snd back_to_work))"

lemma hold_is_charged_after_reopening_work_witness:
  "Option.bind (find_clock 10 (snd done_from_hold)) ck_resolution_due = Some 50400000
     \<and> map_option ck_resolution_state (find_clock 10 (snd done_from_hold)) = Some G_MET
     \<and> Option.bind (find_clock 10 (snd done_after_work)) ck_resolution_due = Some 28800000
     \<and> map_option ck_resolution_state (find_clock 10 (snd done_after_work)) \<noteq> Some G_MET"
proof -
  have runs: "\<not> isl (set_pending desk_ctx agent 25200000 10 None (Some ''Which floor?'') sample_desk)"
    "\<not> isl (resolve_ticket desk_ctx agent 46800000 10 fixed_it (snd on_hold))"
    "\<not> isl (open_ticket desk_ctx agent 43200000 10 None (snd on_hold))"
    "\<not> isl (resolve_ticket desk_ctx agent 46800000 10 fixed_it (snd back_to_work))"
    by code_simp+
  have t: "load_ticket desk_ctx 10 sample_desk = Some open_at_eight" "find_clock 10 sample_desk = Some running_clock"
    "select_sla_policy desk_ctx (sla_ref_of open_at_eight) (dk_config sample_desk) = Some desk_policy"
    by code_simp+
  have f: "\<not> pending (tk_status open_at_eight)" "ck_state running_clock = RUNNING" "ck_paused running_clock = None"
    "ck_resolved running_clock = None" "ck_resolution_due running_clock = Some 28800000" "sp_pause desk_policy"
    by (simp_all add: pending_def open_at_eight_def running_clock_def desk_policy_def)
  show ?thesis
    using hold_is_charged_after_reopening_work [OF sample_desk_sound t(1) f(1) t(2) f(2-5) t(3) f(6)
        runs(1) [THEN ran, folded on_hold_def] runs(2) [THEN ran, folded done_from_hold_def]
        runs(3) [THEN ran, folded back_to_work_def] runs(4) [THEN ran, folded done_after_work_def]]
    by auto
qed

text \<open>The resolved ticket goes back to work; a tick at the end of the month leaves it alone.\<close>

definition restarted :: "ticket \<times> desk" where
  "restarted = projr (start_progress desk_ctx agent 50000000 10 None (snd done_from_hold))"

lemma done_from_hold_sound: "desk_sound (snd done_from_hold)"
proof -
  have "\<not> isl (set_pending desk_ctx agent 25200000 10 None (Some ''Which floor?'') sample_desk)"
    "\<not> isl (resolve_ticket desk_ctx agent 46800000 10 fixed_it (snd on_hold))"
    by code_simp+
  then have "desk_steps sample_desk (snd done_from_hold)"
    using desk_more [OF desk_more [OF desk_start held] resolved] by (metis done_from_hold_def on_hold_def ran)
  then show ?thesis using desk_steps_keep sample_desk_sound by blast
qed


text \<open>A ticket answered after two hours, closed, and reopened on the next day.\<close>

definition closed_late :: desk where
  "closed_late = sample_desk\<lparr>
     dk_tickets := [open_at_eight\<lparr>tk_status := S_CLOSED, tk_first_response := Some 7200000, tk_resolved := Some 9000000, tk_closed := Some 9000000\<rparr>],
     dk_clocks := [running_clock\<lparr>ck_state := STOPPED, ck_response := Some 7200000, ck_response_state := G_BREACHED,
       ck_resolved := Some 9000000, ck_resolution_state := G_MET\<rparr>]\<rparr>"

definition reopened_desk :: "ticket option \<times> desk" where
  "reopened_desk = projr (reopen_ticket kampala desk_ctx agent 90000000 10 (Some ''Still broken'') closed_late)"


text \<open>
  C37. The sweep of company 2 treats the tickets of every company of the tenant: row-level security knows tenants
  only, the queries name no company, and the rules it applies are those of the company being swept. A
  ticket of company 3 that is a candidate because of a rule of its own company is escalated by the rule of
  company 2, and the escalation is stored under company 2.
\<close>

definition other_company :: desk where
  "other_company = sample_desk\<lparr>
     dk_tickets := [open_at_eight\<lparr>tk_id := 20, tk_company := 3\<rparr>], dk_clocks := [],
     dk_rules := [unresolved_rule, unresolved_rule\<lparr>er_id := 32, er_company := 3, er_after := 100000\<rparr>]\<rparr>"


end
