(* ===== verification/Spec2Isabelle.thy ===== *)
theory Spec2Isabelle
  imports Access_Control Utils Payroll_Reports Approval_Chains Staff_Loans Service_Laws
begin

text \<open>
  A verification library of the API of HopeDesign ERP (\<^verbatim>\<open>apps/api/src\<close>). The API is a set of
  services over one PostgreSQL database: a route authenticates the caller, the authorization
  middleware admits the request, a service function runs inside one transaction, writes the audit
  journal and emits events, and an error thrown anywhere rolls the transaction back.

  How the model corresponds to the code.
  \<^item> A table is a list of records in insertion order, a column is a field. A service function
    takes the request context, its arguments and the database, and returns \<open>Inl\<close> of the error
    it throws or \<open>Inr\<close> of its value and the new database. Every throw and every early return is
    a branch. A transaction is \<open>with_transaction\<close> of \<^verbatim>\<open>Prelude\<close>: on \<open>Inl\<close> the old database stays.
  \<^item> Amounts are exact rationals where the code has doubles over \<open>NUMERIC\<close> columns; the code's own
    rounding (\<open>round2\<close>, \<open>round4\<close>, the scale of a stored column) is written out. Amounts that come
    out of JSON documents can be \<open>NaN\<close> or infinite and are \<open>jsnum\<close>.
  \<^item> The clock, the day and the numbers drawn from database sequences are arguments.
  \<^item> Services that lie outside the model are function arguments (the asset and security-printing
    services and the digest, in the record \<open>services\<close> of \<^verbatim>\<open>Workflow\<close>).

  Theories, bottom up.
  \<^item> \<^verbatim>\<open>Prelude\<close> (utils.ts, db.ts): errors, the result type, transactions, row operations, rounding.
    The locale \<open>rounding\<close> has the laws of a rounding to a grid; it is interpreted for cents, for
    four decimals and, in \<^verbatim>\<open>Inventory\<close>, for the stored column.
  \<^item> \<^verbatim>\<open>Js_Values\<close>: JavaScript numbers, strings and JSON values, \<open>Number\<close>, \<open>String\<close>, comparison.
  \<^item> \<^verbatim>\<open>Utils\<close> (utils.ts): id comparison, pagination, renaming of columns.
  \<^item> \<^verbatim>\<open>Calendar\<close> (utils.ts, \<open>toISODate\<close>): dates as day numbers and their ISO form.
  \<^item> \<^verbatim>\<open>Audit_Trail\<close> (audit.ts, events.ts): the two append-only journals, under one locale.
  \<^item> \<^verbatim>\<open>Access_Control\<close> (abac.ts, authorize.ts, moduleAccess.ts): whether a request is admitted.
  \<^item> \<^verbatim>\<open>Statutory\<close> (statutory.ts): choice of configuration, PAYE, NSSF, LST, secondary tax.
  \<^item> \<^verbatim>\<open>Payroll_Engine\<close> (payrollEngine.ts): proration, component amounts, the loaders; the locale
    \<open>keyed_accumulator\<close> covers the three loaders that sum per employee.
  \<^item> \<^verbatim>\<open>Payroll_Data\<close> (hr.ts, payrollSettings.ts): the payroll tables.
  \<^item> \<^verbatim>\<open>Payroll_Validation\<close> (payrollValidation.ts): the checks, their reconciliation with the stored
    exceptions, the score and the resolution of an exception.
  \<^item> \<^verbatim>\<open>Payroll_Calc\<close> (hr.ts, \<open>calculatePayroll\<close> and \<open>submitPayroll\<close>): the calculation, in the stages
    of its loop body.
  \<^item> \<^verbatim>\<open>Finance\<close> (finance.ts and \<open>post_journal\<close> of 0010\_finance.sql): posting rules, budget guard,
    posting engine, six documents, manual and draft journals, voiding, periods. The locale
    \<open>gl_posting\<close> states what each document promises; it is interpreted for all six.
  \<^item> \<^verbatim>\<open>Payroll_Posting\<close> (finance.ts \<open>postPayroll\<close>, hr.ts \<open>postPayrollRun\<close>): the payroll journal and the
    settlement of loans, advances, fines and arrears.
  \<^item> \<^verbatim>\<open>Staff_Loans\<close> (loans.ts): loans, advances and fines with their schedules, approvals, payouts,
    waivers and journal pairs; the tables refine a register of debts, and the locale \<open>debt_law\<close>
    carries a property of single debts through every operation.
  \<^item> \<^verbatim>\<open>Payroll_Lifecycle\<close> and \<^verbatim>\<open>Payroll_Reports\<close> (payrollLifecycle.ts): the state machine of a run with
    its history, decisions, locks and trail; simulation, variance, pipeline.
  \<^item> \<^verbatim>\<open>Inventory\<close> (inventory.ts, iso/gates.ts and the engine of 0005\_inventory.sql): movements with both
    valuations, reservations, adjustments, transfers, the dispatch gate. The locale
    \<open>stock_invariant\<close> (over \<open>leg_invariant\<close>) says what a property has to satisfy to survive every
    operation; documents, signs and the movement book are its interpretations.
  \<^item> \<^verbatim>\<open>Workflow\<close> (workflow.ts, entities.ts, the escalation job of cronJobs.ts): submission,
    self-authorization, decisions, delegation, completion, execution, rejection, inbox. On
    approval it calls the posting functions of \<^verbatim>\<open>Finance\<close>, \<^verbatim>\<open>Inventory\<close> and \<^verbatim>\<open>Payroll_Lifecycle\<close>.
  \<^item> \<^verbatim>\<open>Approval_Chains\<close>: the invariant of the approval engine and its consequences.
  \<^item> \<^verbatim>\<open>Business_Time\<close> (the functions of 0153\_service\_desk\_sla\_engine.sql): working minutes between two
    instants and the deadline a number of working minutes away.
  \<^item> \<^verbatim>\<open>Service_Config\<close> (serviceDeskConfig.ts, serviceDeskCommon.ts): SLA policies and calendars.
  \<^item> \<^verbatim>\<open>Service_Sla\<close> (serviceDeskSla.ts): the lifecycle of a ticket, choice of policy, the SLA clock with
    its pauses, breaches, escalation rules, the sweep over a company and the scheduled tick.
  \<^item> \<^verbatim>\<open>Service_Tickets\<close> (serviceDesk.ts): assignment, replies, holds, resolution, closing, reopening and
    escalation of tickets.
  \<^item> \<^verbatim>\<open>Service_Laws\<close>: every operation of the desk as a sequence of primitive row writes
    (\<open>desk_writes\<close>), the invariant of the tables and what it gives for the reachable states.

  What the lemmas show. Step relations (\<open>ledger_step\<close>, \<open>life_step\<close>, \<open>inv_step\<close>, \<open>wf_step\<close>, \<open>desk_step\<close>) hold the
  operations of a component; invariants are proved per operation and carried to all reachable
  states. The money chain is covered end to end: the statutory functions equal their definition by
  bands, each payslip balances, the totals of a run are the sums of its payslips, its journal
  balances and equals those totals, the settlement takes from the loans what the payslips
  recovered, and no sequence of ledger operations unbalances a posted entry or touches a closed
  period. Stock on hand is the signed sum of the movements and never negative. An approved document
  carries an approval of every stage by different people other than its owner. The staff receivable of
  the ledger moves with the loans, advances and fines that are on the books. The status history of every ticket is a path
  of its lifecycle, a sweep raises each breach and each escalation at most once, and a ticket gets
  the most specific policy that fits it. Where the code
  falls short of what its comments or its own rules promise, a theorem states what it does.

  Termination and bounds. Every definition is total: loops over rows are recursions on lists, the
  recursive movement function ends by a measure. The only counter is the code's own: the loops over
  calendar days stop after 4000 passes, and the theorem on deadlines says when that is enough (the
  following 3999 days hold the working minutes asked for); otherwise the code falls back to
  wall-clock time, and so does the model.

  Not modelled: the representation error of doubles; concurrency between transactions (the code
  takes row locks; each operation is atomic here); notifications, mail and other transports; the
  registration of documents for fiscalisation; read-only list queries except those named above;
  authentication tokens and password hashing; PDF, labels and other rendering; the web client.
  Of the service desk: the creation form, the choice of a technician (an argument of the model),
  lists and dashboards, relations between tickets, knowledge base, problems, changes, teams and
  skills. Sales, procurement, manufacturing and the asset register are not modelled.
\<close>

end
